(* ===== verification/Prelude.thy ===== *)
theory Prelude
  imports Main "HOL-Library.Sublist"
begin

text \<open>
  Shared vocabulary of the development: Go strings as byte strings (\<open>char list\<close>), the
  functions of \<open>strings\<close>, \<open>strconv\<close>, \<open>net\<close> and \<open>time\<close> the program calls, times as
  nanoseconds since the Unix epoch, and the generic lemmas on association lists the stores use.
  Go's \<open>error\<close> results are sums, \<open>Inl\<close> for the error.
\<close>

named_theorems go_strings \<open>equations of the string helpers\<close>

section \<open>Times\<close>

text \<open>
  A \<open>time.Time\<close> is its distance from the epoch in nanoseconds; \<open>Unix()\<close> is the number of
  whole seconds, rounded towards minus infinity as Go does, and \<open>time.Unix(s, 0)\<close> goes back.
\<close>

type_synonym time = int

definition nanos :: int where
  "nanos = 1000000000"

definition unix :: "time \<Rightarrow> int" where
  "unix t = t div nanos"

definition time_unix :: "int \<Rightarrow> time" where
  "time_unix s = s * nanos"

definition secs :: "int \<Rightarrow> int" where
  "secs n = n * nanos"

lemma unix_time_unix [simp]: "unix (time_unix s) = s"
  by (simp add: unix_def time_unix_def nanos_def)

lemma unix_mono: "s \<le> t \<Longrightarrow> unix s \<le> unix t"
  by (simp add: unix_def nanos_def zdiv_mono1)

lemma unix_add_secs [simp]: "unix (t + secs n) = unix t + n"
  by (simp add: unix_def secs_def nanos_def)

text \<open>Go's integer division truncates towards zero.\<close>

definition go_quot :: "int \<Rightarrow> int \<Rightarrow> int" where
  "go_quot a b = sgn a * sgn b * (\<bar>a\<bar> div \<bar>b\<bar>)"

lemma go_quot_nonneg: "0 \<le> a \<Longrightarrow> 0 < b \<Longrightarrow> go_quot a b = a div b"
  by (cases "a = 0") (simp_all add: go_quot_def sgn_if)

section \<open>Strings\<close>

fun cut_prefix :: "string \<Rightarrow> string \<Rightarrow> string option" where
  "cut_prefix s [] = Some s"
| "cut_prefix [] (p # ps) = None"
| "cut_prefix (c # s) (p # ps) = (if c = p then cut_prefix s ps else None)"

definition trim_prefix :: "string \<Rightarrow> string \<Rightarrow> string" where
  "trim_prefix s p = (case cut_prefix s p of None \<Rightarrow> s | Some r \<Rightarrow> r)"

definition has_prefix :: "string \<Rightarrow> string \<Rightarrow> bool" where
  "has_prefix s p = (cut_prefix s p \<noteq> None)"

definition has_suffix :: "string \<Rightarrow> string \<Rightarrow> bool" where
  "has_suffix s p = has_prefix (rev s) (rev p)"

fun index_byte :: "string \<Rightarrow> char \<Rightarrow> nat option" where
  "index_byte [] c = None"
| "index_byte (x # xs) c = (if x = c then Some 0 else map_option Suc (index_byte xs c))"

definition last_index_byte :: "string \<Rightarrow> char \<Rightarrow> nat option" where
  "last_index_byte s c = map_option (\<lambda>i. length s - Suc i) (index_byte (rev s) c)"

fun contains :: "string \<Rightarrow> string \<Rightarrow> bool" where
  "contains [] sub = (sub = [])"
| "contains (c # s) sub = (has_prefix (c # s) sub \<or> contains s sub)"

text \<open>\<open>strings.Cut\<close> at a substring: what is before its first occurrence and what is after it.\<close>

fun cut_str :: "string \<Rightarrow> string \<Rightarrow> (string \<times> string) option" where
  "cut_str [] sep = (if sep = [] then Some ([], []) else None)"
| "cut_str (c # s) sep =
     (case cut_prefix (c # s) sep of
        Some r \<Rightarrow> Some ([], r)
      | None \<Rightarrow> map_option (\<lambda>(a, b). (c # a, b)) (cut_str s sep))"

definition trim_right :: "string \<Rightarrow> string \<Rightarrow> string" where
  "trim_right s cutset = rev (dropWhile (\<lambda>c. c \<in> set cutset) (rev s))"

lemma cut_prefix_Some [go_strings]: "cut_prefix s p = Some r \<longleftrightarrow> s = p @ r"
  by (induction s p rule: cut_prefix.induct) auto

lemma cut_prefix_append [simp]: "cut_prefix (p @ r) p = Some r"
  by (simp add: cut_prefix_Some)

lemma cut_prefix_None: "cut_prefix s p = None \<longleftrightarrow> (\<forall>r. s \<noteq> p @ r)"
  by (metis cut_prefix_Some not_Some_eq)

lemma has_prefix_iff [go_strings]: "has_prefix s p \<longleftrightarrow> (\<exists>r. s = p @ r)"
  by (auto simp: has_prefix_def cut_prefix_None)

lemma has_prefix_append [simp]: "has_prefix (p @ r) p"
  by (auto simp: has_prefix_iff)

lemma trim_prefix_append [simp]: "trim_prefix (p @ r) p = r"
  by (simp add: trim_prefix_def)

lemma index_byte_None [simp]: "index_byte s c = None \<longleftrightarrow> c \<notin> set s"
  by (induction s) auto

lemma index_byte_append [simp]: "c \<notin> set a \<Longrightarrow> index_byte (a @ c # b) c = Some (length a)"
  by (induction a) auto

lemma index_byte_Some: "index_byte s c = Some i \<Longrightarrow> i < length s \<and> s ! i = c \<and> c \<notin> set (take i s)"
  by (induction s arbitrary: i) (auto split: if_splits)

lemma index_byte_split:
  assumes "index_byte s c = Some i"
  shows "s = take i s @ c # drop (Suc i) s"
  using index_byte_Some [OF assms] by (metis id_take_nth_drop)

lemma contains_append: "contains (a @ sub @ b) sub"
proof (induction a)
  case Nil
  have "contains xs []" for xs by (induction xs) (auto simp: has_prefix_iff)
  moreover have "contains (sub @ b) sub" if "sub \<noteq> []"
    using that has_prefix_append [of sub b] by (cases "sub @ b") auto
  ultimately show ?case by (cases "sub = []") auto
next
  case (Cons x a)
  then show ?case by simp
qed

lemma contains_iff: "contains s sub \<longleftrightarrow> (\<exists>a b. s = a @ sub @ b)"
proof
  show "contains s sub \<Longrightarrow> \<exists>a b. s = a @ sub @ b"
  proof (induction s)
    case Nil
    then show ?case by simp
  next
    case (Cons c s)
    show ?case
    proof (cases "has_prefix (c # s) sub")
      case True
      then show ?thesis by (metis append_Nil has_prefix_iff)
    next
      case False
      then obtain a b where "s = a @ sub @ b" using Cons by auto
      then have "c # s = (c # a) @ sub @ b" by simp
      then show ?thesis by blast
    qed
  qed
qed (auto simp: contains_append)

lemma contains_prepend [simp]: "contains s sub \<Longrightarrow> contains (p @ s) sub"
  unfolding contains_iff by (metis append.assoc)

lemma cut_str_Some: "cut_str s sep = Some (a, b) \<Longrightarrow> s = a @ sep @ b"
  by (induction s arbitrary: a) (auto simp: cut_prefix_Some split: if_splits option.splits)

text \<open>
  \<open>strings.TrimSpace\<close> drops Unicode white space at both ends: the ASCII spaces and the UTF-8
  encodings of the others. Encodings are prefix-free and suffix-free, so dropping them as
  byte sequences is what decoding runes from either end does.
\<close>

definition space_seqs :: "string list" where
  "space_seqs = [[CHR 0x20], [CHR 0x09], [CHR 0x0A], [CHR 0x0B], [CHR 0x0C], [CHR 0x0D],
     [CHR 0xC2, CHR 0x85], [CHR 0xC2, CHR 0xA0], [CHR 0xE1, CHR 0x9A, CHR 0x80]]
     @ map (\<lambda>n. [CHR 0xE2, CHR 0x80, char_of (n :: nat)]) ([128..<139] @ [168, 169, 175])
     @ [[CHR 0xE2, CHR 0x81, CHR 0x9F], [CHR 0xE3, CHR 0x80, CHR 0x80]]"

fun strip_any :: "string list \<Rightarrow> string \<Rightarrow> string option" where
  "strip_any [] s = None"
| "strip_any (q # qs) s = (case cut_prefix s q of Some r \<Rightarrow> Some r | None \<Rightarrow> strip_any qs s)"

fun drop_any :: "nat \<Rightarrow> string list \<Rightarrow> string \<Rightarrow> string" where
  "drop_any 0 qs s = s"
| "drop_any (Suc n) qs s = (case strip_any qs s of None \<Rightarrow> s | Some r \<Rightarrow> drop_any n qs r)"

text \<open>Every round removes at least one byte, so \<open>length s\<close> rounds are enough.\<close>

definition trim_space :: "string \<Rightarrow> string" where
  "trim_space s =
     (let l = drop_any (length s) space_seqs s
      in rev (drop_any (length l) (map rev space_seqs) (rev l)))"

lemma strip_any_shorter:
  "strip_any qs s = Some r \<Longrightarrow> [] \<notin> set qs \<Longrightarrow> length r < length s"
  by (induction qs) (auto simp: cut_prefix_Some split: option.splits)

lemma drop_any_stable:
  assumes "[] \<notin> set qs" and "length s \<le> n"
  shows "strip_any qs (drop_any n qs s) = None"
  using assms(2)
proof (induction n arbitrary: s)
  case 0
  have "q \<noteq> [] \<Longrightarrow> cut_prefix [] q = None" for q by (cases q) auto
  then have "strip_any qs [] = None" using assms(1) by (induction qs) auto
  with "0" show ?case by simp
next
  case (Suc n)
  then show ?case
    using strip_any_shorter [OF _ assms(1), of s]
    by (cases "strip_any qs s") fastforce+
qed

lemma strip_any_None: "list_all (\<lambda>q. case q of [] \<Rightarrow> False | a # r \<Rightarrow> a \<notin> set s) qs \<Longrightarrow> strip_any qs s = None"
proof (induction qs)
  case (Cons q qs)
  then show ?case by (cases q; cases s) auto
qed simp

lemma strip_any_append: "strip_any (ps @ qs) s = (case strip_any ps s of None \<Rightarrow> strip_any qs s | Some r \<Rightarrow> Some r)"
  by (induction ps) (auto split: option.split)

lemma drop_any_None: "strip_any qs s = None \<Longrightarrow> drop_any n qs s = s"
  by (cases n) auto

text \<open>A newline or carriage return at the end does not matter.\<close>

lemma strip_any_snoc:
  assumes "s \<noteq> []" and "\<forall>q \<in> set qs. q \<noteq> [] \<and> (last q = c \<longrightarrow> q = [c])"
  shows "strip_any qs (s @ [c]) = map_option (\<lambda>r. r @ [c]) (strip_any qs s)"
  using assms(2)
proof (induction qs)
  case (Cons q qs)
  have "cut_prefix (s @ [c]) q = map_option (\<lambda>r. r @ [c]) (cut_prefix s q)"
  proof (cases "cut_prefix s q")
    case None
    have "s @ [c] \<noteq> q @ r" for r
    proof
      assume eq: "s @ [c] = q @ r"
      show False
      proof (cases r rule: rev_cases)
        case Nil
        with eq have "q = s @ [c]" by simp
        moreover from this have "last q = c" by simp
        ultimately show False using Cons.prems assms(1) by auto
      next
        case (snoc r' x)
        with eq have "s = q @ r'" by simp
        with None show False by (simp add: cut_prefix_Some)
      qed
    qed
    then have "cut_prefix (s @ [c]) q = None" by (simp add: cut_prefix_None)
    with None show ?thesis by simp
  qed (simp add: cut_prefix_Some)
  with Cons show ?case by (auto split: option.split)
qed simp

lemma space_seqs_snoc: "c \<in> {CHR 0x0A, CHR 0x0D} \<Longrightarrow> \<forall>q \<in> set space_seqs. q \<noteq> [] \<and> (last q = c \<longrightarrow> q = [c])"
  by (elim insertE emptyE) (simp_all only:, code_simp+)

lemma strip_space_end:
  "c \<in> {CHR 0x0A, CHR 0x0D} \<Longrightarrow> strip_any space_seqs [c] = Some []"
  "c \<in> {CHR 0x0A, CHR 0x0D} \<Longrightarrow> strip_any (map rev space_seqs) (c # t) = Some t"
  by (elim insertE emptyE; simp add: space_seqs_def)+

lemma drop_space_snoc:
  assumes "c \<in> {CHR 0x0A, CHR 0x0D}" and "length s \<le> n"
  shows "drop_any (Suc n) space_seqs (s @ [c]) = (case drop_any n space_seqs s of [] \<Rightarrow> [] | x # xs \<Rightarrow> (x # xs) @ [c])"
  using assms(2)
proof (induction n arbitrary: s)
  case 0
  then show ?case by (simp add: strip_space_end [OF assms(1)] split: list.split)
next
  case (Suc n)
  show ?case
  proof (cases "s = []")
    case True
    have "strip_any space_seqs [] = None" by code_simp
    with True show ?thesis by (simp add: strip_space_end [OF assms(1)])
  next
    case False
    note step = strip_any_snoc [OF False space_seqs_snoc [OF assms(1)]]
    show ?thesis
    proof (cases "strip_any space_seqs s")
      case None
      with False step show ?thesis by (simp split: list.split)
    next
      case (Some r)
      have "[] \<notin> set space_seqs" by code_simp
      with strip_any_shorter [OF Some] Suc.prems have "length r \<le> n" by simp
      from Suc.IH [OF this] Some step show ?thesis by simp
    qed
  qed
qed

lemma trim_space_snoc:
  assumes "c \<in> {CHR 0x0A, CHR 0x0D}"
  shows "trim_space (s @ [c]) = trim_space s"
proof (cases "drop_any (length s) space_seqs s")
  case Nil
  have "drop_any (length (s @ [c])) space_seqs (s @ [c]) = []"
    using drop_space_snoc [OF assms, of s "length s"] Nil by simp
  then show ?thesis by (simp only: trim_space_def Let_def Nil)
next
  case (Cons x xs)
  have "drop_any (length (s @ [c])) space_seqs (s @ [c]) = (x # xs) @ [c]"
    using drop_space_snoc [OF assms, of s "length s"] Cons by simp
  then have "trim_space (s @ [c]) = rev (drop_any (length ((x # xs) @ [c])) (map rev space_seqs) (rev ((x # xs) @ [c])))"
    by (simp only: trim_space_def Let_def)
  also have "\<dots> = rev (drop_any (length (x # xs)) (map rev space_seqs) (rev (x # xs)))"
    by (simp add: strip_space_end(2) [OF assms])
  finally show ?thesis by (simp only: trim_space_def Let_def Cons)
qed

lemma trim_space_snocs: "set t \<subseteq> {CHR 0x0A, CHR 0x0D} \<Longrightarrow> trim_space (s @ t) = trim_space s"
proof (induction t rule: rev_induct)
  case (snoc x t)
  from snoc.prems have "trim_space ((s @ t) @ [x]) = trim_space (s @ t)" by (intro trim_space_snoc) auto
  with snoc show ?case by simp
qed simp

lemma trim_right_split: "\<exists>t. s = trim_right s cutset @ t \<and> set t \<subseteq> set cutset"
proof -
  have "rev s = takeWhile (\<lambda>c. c \<in> set cutset) (rev s) @ dropWhile (\<lambda>c. c \<in> set cutset) (rev s)" by simp
  then have "s = trim_right s cutset @ rev (takeWhile (\<lambda>c. c \<in> set cutset) (rev s))"
    by (metis rev_append rev_rev_ident trim_right_def)
  moreover have "set (rev (takeWhile (\<lambda>c. c \<in> set cutset) (rev s))) \<subseteq> set cutset" by (auto dest: set_takeWhileD)
  ultimately show ?thesis by blast
qed

lemma trim_space_right:
  assumes "set cutset \<subseteq> {CHR 0x0A, CHR 0x0D}"
  shows "trim_space (trim_right s cutset) = trim_space s"
proof -
  obtain t where "s = trim_right s cutset @ t" "set t \<subseteq> set cutset" using trim_right_split by blast
  then show ?thesis using trim_space_snocs [of t "trim_right s cutset"] assms by auto
qed

lemma trim_right_append:
  assumes "p \<noteq> []" and "last p \<notin> set cutset"
  shows "trim_right (p @ s) cutset = p @ trim_right s cutset"
proof -
  have drop: "ys \<noteq> [] \<Longrightarrow> hd ys \<notin> set cutset \<Longrightarrow>
      dropWhile (\<lambda>c. c \<in> set cutset) (xs @ ys) = dropWhile (\<lambda>c. c \<in> set cutset) xs @ ys" for xs ys :: string
    by (induction xs) (simp_all add: dropWhile_eq_self_iff)
  have "rev p \<noteq> []" "hd (rev p) \<notin> set cutset" using assms by (simp_all add: hd_rev)
  then show ?thesis by (simp add: trim_right_def drop)
qed

section \<open>Numbers in text\<close>

definition digit_char :: "nat \<Rightarrow> char" where
  "digit_char d = char_of (48 + d)"

fun itoa_nat :: "nat \<Rightarrow> string" where
  "itoa_nat n = (if n < 10 then [digit_char n] else itoa_nat (n div 10) @ [digit_char (n mod 10)])"

declare itoa_nat.simps [simp del]

definition itoa :: "int \<Rightarrow> string" where
  "itoa n = (if n < 0 then CHR ''-'' # itoa_nat (nat (- n)) else itoa_nat (nat n))"

text \<open>\<open>strconv.ParseInt(s, 10, 64)\<close> (and \<open>strconv.Atoi\<close>): an optional sign, decimal digits, and
  the value must fit 64 bits.\<close>

definition digit_val :: "char \<Rightarrow> nat option" where
  "digit_val c = (if 48 \<le> (of_char c :: nat) \<and> (of_char c :: nat) \<le> 57 then Some (of_char c - 48) else None)"

fun parse_digits :: "nat \<Rightarrow> string \<Rightarrow> nat option" where
  "parse_digits acc [] = Some acc"
| "parse_digits acc (c # cs) =
     (case digit_val c of None \<Rightarrow> None | Some d \<Rightarrow> parse_digits (10 * acc + d) cs)"

definition parse_int64 :: "string \<Rightarrow> int option" where
  "parse_int64 s =
     (let neg = has_prefix s ''-'';
          ds = (if neg \<or> has_prefix s ''+'' then drop 1 s else s)
      in if ds = [] then None
         else case parse_digits 0 ds of
             None \<Rightarrow> None
           | Some n \<Rightarrow> (let v = (if neg then - int n else int n)
                        in if - (2 ^ 63) \<le> v \<and> v < 2 ^ 63 then Some v else None))"

lemma digit_val_digit_char [simp]: "d < 10 \<Longrightarrow> digit_val (digit_char d) = Some d"
  by (simp add: digit_val_def digit_char_def of_char_of)

lemma parse_digits_append:
  "parse_digits acc (xs @ ys) = Option.bind (parse_digits acc xs) (\<lambda>a. parse_digits a ys)"
  by (induction xs arbitrary: acc) (auto split: option.splits)

lemma parse_digits_itoa_nat [simp]: "parse_digits 0 (itoa_nat n) = Some n"
proof (induction n rule: itoa_nat.induct)
  case (1 n)
  then show ?case
    by (subst itoa_nat.simps) (simp add: parse_digits_append)
qed

lemma itoa_nat_nonempty [simp]: "itoa_nat n \<noteq> []"
  by (subst itoa_nat.simps) simp

lemma itoa_nat_digits: "c \<in> set (itoa_nat n) \<Longrightarrow> digit_val c \<noteq> None"
proof (induction n rule: itoa_nat.induct)
  case (1 n)
  have "c \<in> set (itoa_nat (n div 10)) \<or> c = digit_char (n mod 10) \<or> (n < 10 \<and> c = digit_char n)"
    using 1(2) by (subst (asm) itoa_nat.simps) (auto split: if_splits)
  moreover have "\<not> n < 10 \<Longrightarrow> c \<in> set (itoa_nat (n div 10)) \<Longrightarrow> digit_val c \<noteq> None"
    using 1(1) by blast
  ultimately show ?case
    by (metis "1.prems" digit_val_digit_char itoa_nat.simps list.set_intros(1) mod_less_divisor
        option.distinct(1) set_ConsD empty_iff list.set(1) zero_less_numeral)
qed

lemma parse_int64_itoa: "- (2 ^ 63) \<le> n \<Longrightarrow> n < 2 ^ 63 \<Longrightarrow> parse_int64 (itoa n) = Some n"
proof (cases "n < 0")
  case True
  assume "- (2 ^ 63) \<le> n" "n < 2 ^ 63"
  with True show ?thesis by (simp add: parse_int64_def itoa_def has_prefix_def)
next
  case False
  assume b: "- (2 ^ 63) \<le> n" "n < 2 ^ 63"
  obtain c cs where cs: "itoa_nat (nat n) = c # cs" by (metis itoa_nat_nonempty list.exhaust)
  then have "digit_val c \<noteq> None" by (metis itoa_nat_digits list.set_intros(1))
  then have "c \<noteq> CHR ''-'' \<and> c \<noteq> CHR ''+''" by (auto simp: digit_val_def)
  moreover have "parse_digits 0 (c # cs) = Some (nat n)" by (metis cs parse_digits_itoa_nat)
  ultimately show ?thesis using False b cs
    by (simp add: parse_int64_def itoa_def has_prefix_def)
qed

section \<open>Host and port\<close>

text \<open>\<open>net.SplitHostPort\<close>; \<open>None\<close> for any of its address errors (the callers only test for one).\<close>

definition split_host_port :: "string \<Rightarrow> (string \<times> string) option" where
  "split_host_port hp =
     (case last_index_byte hp (CHR '':'') of
        None \<Rightarrow> None
      | Some i \<Rightarrow>
          (let finish = (\<lambda>j k host.
             if CHR ''['' \<in> set (drop j hp) \<or> CHR '']'' \<in> set (drop k hp) then None
             else Some (host, drop (Suc i) hp))
           in if has_prefix hp ''[''
              then (case index_byte hp (CHR '']'') of
                      None \<Rightarrow> None
                    | Some e \<Rightarrow> if Suc e = i then finish 1 (Suc e) (take (e - 1) (drop 1 hp)) else None)
              else (let host = take i hp in
                    if CHR '':'' \<in> set host then None else finish 0 0 host)))"

section \<open>Lists as tables\<close>

text \<open>The tables of the stores are lists of rows with a key; a lookup takes the first match.\<close>

definition row_map :: "('r \<Rightarrow> 'k) \<Rightarrow> ('r \<Rightarrow> 'v) \<Rightarrow> 'r list \<Rightarrow> ('k \<rightharpoonup> 'v)" where
  "row_map k v rs = map_of (map (\<lambda>r. (k r, v r)) rs)"

lemma row_map_Nil [simp]: "row_map k v [] = Map.empty"
  by (simp add: row_map_def)

lemma row_map_append_new [simp]:
  "k r \<notin> k ` set rs \<Longrightarrow> row_map k v (rs @ [r]) = (row_map k v rs)(k r \<mapsto> v r)"
  by (induction rs) (auto simp: row_map_def fun_eq_iff)

lemma row_map_None: "row_map k v rs x = None \<longleftrightarrow> x \<notin> k ` set rs"
  by (auto simp: row_map_def map_of_eq_None_iff image_image)

lemma dom_row_map [simp]: "dom (row_map k v rs) = k ` set rs"
  by (auto simp: row_map_def dom_map_of_conv_image_fst image_image)

lemma row_map_find:
  "row_map k v rs x = map_option v (find (\<lambda>r. k r = x) rs)"
  by (induction rs) (auto simp: row_map_def)

lemma row_map_in:
  "distinct (map k rs) \<Longrightarrow> r \<in> set rs \<Longrightarrow> row_map k v rs (k r) = Some (v r)"
proof (induction rs)
  case Nil
  then show ?case by simp
next
  case (Cons a rs)
  show ?case
  proof (cases "r = a")
    case True
    then show ?thesis by (simp add: row_map_def)
  next
    case False
    with Cons.prems have r: "r \<in> set rs" and "k a \<notin> k ` set rs" by auto
    then have "k r \<noteq> k a" by (metis imageI)
    with r Cons show ?thesis by (simp add: row_map_def)
  qed
qed

lemma row_map_SomeD: "row_map k v rs x = Some y \<Longrightarrow> \<exists>r \<in> set rs. k r = x \<and> v r = y"
  by (induction rs) (auto simp: row_map_def split: if_splits)

lemma row_map_filter_key:
  assumes "\<And>r. r \<in> set rs \<Longrightarrow> P r = Q (k r)"
  shows "row_map k v (filter P rs) = (\<lambda>x. if Q x then row_map k v rs x else None)"
  using assms by (induction rs) (auto simp: row_map_def fun_eq_iff)

lemma find_key_None [simp]: "find (\<lambda>r. k r = x) rs = None \<longleftrightarrow> x \<notin> k ` set rs"
  by (induction rs) auto

lemma find_SomeD: "find P rs = Some r \<Longrightarrow> r \<in> set rs \<and> P r"
  by (induction rs) (auto split: if_splits)

text \<open>A \<open>SELECT\<close> on the key returns the matching rows; a \<open>DELETE\<close> keeps the others.\<close>

lemma row_map_filter:
  "row_map k v rs x = (case filter (\<lambda>r. k r = x) rs of [] \<Rightarrow> None | r # _ \<Rightarrow> Some (v r))"
  by (induction rs) (auto simp: row_map_def)

lemma filter_key_Nil: "filter (\<lambda>r. k r = x) rs = [] \<longleftrightarrow> x \<notin> k ` set rs"
  by (induction rs) auto

lemma distinct_filter_key_length:
  "distinct (map k rs) \<Longrightarrow> length (filter (\<lambda>r. k r = x) rs) = (if x \<in> k ` set rs then 1 else 0)"
  by (induction rs) (auto simp: filter_key_Nil)

lemma row_map_map_key:
  assumes "\<And>r. k (f r) = k r" and "\<And>r. v (f r) = (if k r = x then g (v r) else v r)"
  shows "row_map k v (map f rs) = (row_map k v rs)(x := map_option g (row_map k v rs x))"
proof -
  have "row_map k v (map f rs) y =
      ((row_map k v rs)(x := map_option g (row_map k v rs x))) y" for y
    by (induction rs) (auto simp: row_map_def assms)
  then show ?thesis by blast
qed

section \<open>Results\<close>

text \<open>
  A Go call that returns \<open>(value, err)\<close> and changes a state is a function into
  \<open>('e + 'a) \<times> 's\<close>; \<open>and_then\<close> is the early return \<open>if err != nil { return err }\<close>.
\<close>

definition and_then ::
  "('e + 'a) \<times> 's \<Rightarrow> ('a \<Rightarrow> 's \<Rightarrow> ('e + 'b) \<times> 's) \<Rightarrow> ('e + 'b) \<times> 's" where
  "and_then r f = (case r of (Inl e, s) \<Rightarrow> (Inl e, s) | (Inr a, s) \<Rightarrow> f a s)"

lemma and_then_Inl [simp]: "and_then (Inl e, s) f = (Inl e, s)"
  by (simp add: and_then_def)

lemma and_then_Inr [simp]: "and_then (Inr a, s) f = f a s"
  by (simp add: and_then_def)

end
