(* ===== verification/Encoding.thy ===== *)
theory Encoding
  imports Prelude
begin

text \<open>
  The byte encodings the program calls: \<open>hex.EncodeToString\<close> (agent keys, client ids, codes,
  session ids) and \<open>base64.RawURLEncoding\<close> (JWT parts and PKCE challenges), the latter with its
  decoder and the round trip.
\<close>

section \<open>Hexadecimal\<close>

definition hex_digit :: "nat \<Rightarrow> char" where
  "hex_digit n = ''0123456789abcdef'' ! n"

definition hex_byte :: "char \<Rightarrow> string" where
  "hex_byte c = [hex_digit (of_char c div 16), hex_digit (of_char c mod 16)]"

definition hex_encode :: "string \<Rightarrow> string" where
  "hex_encode bs = concat (map hex_byte bs)"

definition hex_alphabet :: "char set" where
  "hex_alphabet = set ''0123456789abcdef''"

lemma hex_encode_Nil [simp]: "hex_encode [] = []"
  by (simp add: hex_encode_def)

lemma hex_encode_Cons [simp]: "hex_encode (c # bs) = hex_byte c @ hex_encode bs"
  by (simp add: hex_encode_def)

lemma length_hex_encode [simp]: "length (hex_encode bs) = 2 * length bs"
  by (induction bs) (simp_all add: hex_byte_def)

lemma hex_digit_alphabet: "n < 16 \<Longrightarrow> hex_digit n \<in> hex_alphabet"
  unfolding hex_digit_def hex_alphabet_def by (rule nth_mem) simp

lemma hex_encode_alphabet: "set (hex_encode bs) \<subseteq> hex_alphabet"
  by (induction bs) (auto simp: hex_byte_def intro!: hex_digit_alphabet less_mult_imp_div_less)

lemma hex_digit_inj: "m < 16 \<Longrightarrow> n < 16 \<Longrightarrow> hex_digit m = hex_digit n \<longleftrightarrow> m = n"
proof -
  assume "m < 16" "n < 16"
  moreover have "distinct ''0123456789abcdef''" by simp
  ultimately show ?thesis unfolding hex_digit_def by (intro nth_eq_iff_index_eq) simp_all
qed

lemma hex_byte_inj: "hex_byte c = hex_byte d \<longleftrightarrow> c = d"
proof
  assume "hex_byte c = hex_byte d"
  then have "(of_char c :: nat) div 16 = of_char d div 16" "(of_char c :: nat) mod 16 = of_char d mod 16"
    by (auto simp: hex_byte_def hex_digit_inj less_mult_imp_div_less)
  then have "(of_char c :: nat) = of_char d" by (metis div_mult_mod_eq)
  then show "c = d" by simp
qed simp

lemma hex_encode_inj: "hex_encode a = hex_encode b \<longleftrightarrow> a = b"
proof (induction a arbitrary: b)
  case Nil
  then show ?case by (cases b) (simp_all add: hex_byte_def)
next
  case (Cons x a)
  show ?case
  proof (cases b)
    case Nil
    then show ?thesis by (simp add: hex_byte_def)
  next
    case (Cons y b')
    have "hex_byte x @ u = hex_byte y @ v \<longleftrightarrow> x = y \<and> u = v" for u v
      using hex_byte_inj [of x y] by (auto simp: hex_byte_def)
    then show ?thesis using Cons.IH Cons by simp
  qed
qed

section \<open>base64.RawURLEncoding\<close>

definition b64_alphabet :: string where
  "b64_alphabet = ''ABCDEFGHIJKLMNOPQRSTUVWXYZabcdefghijklmnopqrstuvwxyz0123456789-_''"

definition b64_char :: "nat \<Rightarrow> char" where
  "b64_char n = b64_alphabet ! n"

definition b64_val :: "char \<Rightarrow> nat option" where
  "b64_val c = index_byte b64_alphabet c"

fun b64_encode :: "string \<Rightarrow> string" where
  "b64_encode [] = []"
| "b64_encode [a] = (let x = of_char a in map b64_char [x div 4, (x mod 4) * 16])"
| "b64_encode [a, b] =
     (let x = of_char a; y = of_char b
      in map b64_char [x div 4, (x mod 4) * 16 + y div 16, (y mod 16) * 4])"
| "b64_encode (a # b # c # r) =
     (let x = of_char a; y = of_char b; z = of_char c
      in map b64_char [x div 4, (x mod 4) * 16 + y div 16, (y mod 16) * 4 + z div 64, z mod 64]
         @ b64_encode r)"

text \<open>
  Decoding skips carriage returns and newlines, refuses any other byte outside the alphabet and a
  lone trailing symbol, and ignores the unused bits of the last symbol (the encoding is not strict).
\<close>

fun b64_vals :: "string \<Rightarrow> nat list option" where
  "b64_vals [] = Some []"
| "b64_vals (c # cs) =
     (if c = CHR 0x0A \<or> c = CHR 0x0D then b64_vals cs
      else case b64_val c of None \<Rightarrow> None
           | Some v \<Rightarrow> (case b64_vals cs of None \<Rightarrow> None | Some vs \<Rightarrow> Some (v # vs)))"

fun b64_quads :: "nat list \<Rightarrow> string option" where
  "b64_quads [] = Some []"
| "b64_quads [a] = None"
| "b64_quads [a, b] = Some [char_of (a * 4 + b div 16)]"
| "b64_quads [a, b, c] = Some [char_of (a * 4 + b div 16), char_of (b mod 16 * 16 + c div 4)]"
| "b64_quads (a # b # c # d # r) =
     map_option (\<lambda>t. char_of (a * 4 + b div 16) # char_of (b mod 16 * 16 + c div 4)
                     # char_of (c mod 4 * 64 + d) # t) (b64_quads r)"

definition b64_decode :: "string \<Rightarrow> string option" where
  "b64_decode s = Option.bind (b64_vals s) b64_quads"

lemma length_b64_alphabet [simp]: "length b64_alphabet = 64"
  by (simp add: b64_alphabet_def)

lemma index_byte_nth:
  "distinct s \<Longrightarrow> n < length s \<Longrightarrow> index_byte s (s ! n) = Some n"
proof (induction s arbitrary: n)
  case Nil
  then show ?case by simp
next
  case (Cons x s)
  then show ?case by (cases n) (auto simp: nth_mem)
qed

lemma b64_val_char [simp]: "n < 64 \<Longrightarrow> b64_val (b64_char n) = Some n"
proof -
  assume "n < 64"
  moreover have "distinct b64_alphabet" by (simp add: b64_alphabet_def)
  ultimately show ?thesis by (simp add: b64_val_def b64_char_def index_byte_nth)
qed

lemma b64_char_in: "n < 64 \<Longrightarrow> b64_char n \<in> set b64_alphabet"
  unfolding b64_char_def by (rule nth_mem) simp

lemma b64_char_not: "n < 64 \<Longrightarrow> c \<notin> set b64_alphabet \<Longrightarrow> b64_char n \<noteq> c"
  using b64_char_in by blast

lemma b64_char_no_eol [simp]: "n < 64 \<Longrightarrow> b64_char n \<noteq> CHR 0x0A" "n < 64 \<Longrightarrow> b64_char n \<noteq> CHR 0x0D"
  by (rule b64_char_not, assumption, simp add: b64_alphabet_def)+

lemma b64_symbol_bounds [simp]:
  fixes x y :: nat
  shows "x < 256 \<Longrightarrow> x div 4 < 64" "x mod 64 < 64" "x mod 4 * 16 < 64" "x mod 16 * 4 < 64"
    "y < 256 \<Longrightarrow> x mod 4 * 16 + y div 16 < 64" "y < 256 \<Longrightarrow> x mod 16 * 4 + y div 64 < 64"
proof -
  have "x mod 4 < 4" "x mod 16 < 16" by simp_all
  then show "x mod 4 * 16 < 64" "x mod 16 * 4 < 64" by linarith+
  show "x < 256 \<Longrightarrow> x div 4 < 64" "x mod 64 < 64" by auto
  assume "y < 256"
  then have "y div 16 < 16" "y div 64 < 4" by auto
  with \<open>x mod 4 < 4\<close> \<open>x mod 16 < 16\<close>
  show "x mod 4 * 16 + y div 16 < 64" "x mod 16 * 4 + y div 64 < 64" by linarith+
qed

text \<open>A number packed above a digit of base \<open>k\<close> comes apart again.\<close>

lemma unpack:
  fixes a b k :: nat
  assumes "b < k"
  shows "(a * k + b) div k = a" and "(a * k + b) mod k = b"
  using assms by auto

lemma b64_regroup:
  fixes x y z :: nat
  shows "x div 4 * 4 + x mod 4 * 16 div 16 = x"
    "y < 256 \<Longrightarrow> x div 4 * 4 + (x mod 4 * 16 + y div 16) div 16 = x"
    "y < 256 \<Longrightarrow> (x mod 4 * 16 + y div 16) mod 16 * 16 + (y mod 16 * 4) div 4 = y"
    "y < 256 \<Longrightarrow> z < 256 \<Longrightarrow> (x mod 4 * 16 + y div 16) mod 16 * 16 + (y mod 16 * 4 + z div 64) div 4 = y"
    "z < 256 \<Longrightarrow> (y mod 16 * 4 + z div 64) mod 4 * 64 + z mod 64 = z"
proof -
  show "x div 4 * 4 + x mod 4 * 16 div 16 = x" by simp
  have y: "y div 16 < 16" if "y < 256" using that by auto
  have z: "z div 64 < 4" if "z < 256" using that by auto
  show "y < 256 \<Longrightarrow> x div 4 * 4 + (x mod 4 * 16 + y div 16) div 16 = x"
    "y < 256 \<Longrightarrow> (x mod 4 * 16 + y div 16) mod 16 * 16 + (y mod 16 * 4) div 4 = y"
    by (simp_all only: unpack [OF y]) simp_all
  show "y < 256 \<Longrightarrow> z < 256 \<Longrightarrow> (x mod 4 * 16 + y div 16) mod 16 * 16 + (y mod 16 * 4 + z div 64) div 4 = y"
    by (simp only: unpack [OF y] unpack [OF z]) simp
  show "z < 256 \<Longrightarrow> (y mod 16 * 4 + z div 64) mod 4 * 64 + z mod 64 = z"
    by (simp only: unpack [OF z]) simp
qed

lemma b64_vals_map:
  "list_all (\<lambda>n. n < 64) ns \<Longrightarrow> b64_vals (map b64_char ns @ s) = map_option (\<lambda>vs. ns @ vs) (b64_vals s)"
proof (induction ns)
  case Nil
  show ?case by (cases "b64_vals s") simp_all
next
  case (Cons n ns)
  then show ?case by (auto simp: option.map_comp o_def split: option.splits)
qed

lemma b64_decode_encode: "b64_decode (b64_encode s) = Some s"
proof -
  have "\<exists>vs. b64_vals (b64_encode s) = Some vs \<and> b64_quads vs = Some s"
  proof (induction s rule: b64_encode.induct)
    case 1
    show ?case by simp
  next
    case (2 a)
    have "b64_vals (b64_encode [a]) = Some [of_char a div 4, of_char a mod 4 * 16]"
      using b64_vals_map [of "[of_char a div 4, of_char a mod 4 * 16]" "[]"] by (simp add: Let_def)
    moreover have "b64_quads [of_char a div 4, of_char a mod 4 * 16] = Some [a]"
      by (simp only: b64_quads.simps b64_regroup) simp
    ultimately show ?case by blast
  next
    case (3 a b)
    let ?ns = "[of_char a div 4, of_char a mod 4 * 16 + of_char b div 16, of_char b mod 16 * 4] :: nat list"
    have "b64_vals (b64_encode [a, b]) = Some ?ns"
      using b64_vals_map [of ?ns "[]"] by (simp add: Let_def)
    moreover have "b64_quads ?ns = Some [a, b]"
      by (simp only: b64_quads.simps b64_regroup nat_of_char_less_256) simp
    ultimately show ?case by blast
  next
    case (4 a b c r)
    then obtain vs where vs: "b64_vals (b64_encode r) = Some vs" "b64_quads vs = Some r" by blast
    let ?ns = "[of_char a div 4, of_char a mod 4 * 16 + of_char b div 16,
                of_char b mod 16 * 4 + of_char c div 64, of_char c mod 64] :: nat list"
    have "b64_vals (b64_encode (a # b # c # r)) = Some (?ns @ vs)"
      using b64_vals_map [of ?ns "b64_encode r"] vs(1) by (simp add: Let_def)
    moreover have "b64_quads (?ns @ vs) = Some (a # b # c # r)"
      by (simp only: append.simps b64_quads.simps b64_regroup nat_of_char_less_256 vs(2)) simp
    ultimately show ?case by blast
  qed
  then show ?thesis by (auto simp: b64_decode_def)
qed

lemma b64_encode_alphabet: "set (b64_encode s) \<subseteq> set b64_alphabet"
  by (induction s rule: b64_encode.induct) (auto simp: Let_def b64_char_in)

lemma b64_encode_inj: "b64_encode a = b64_encode b \<longleftrightarrow> a = b"
  by (metis b64_decode_encode option.inject)

lemma b64_no_dot: "CHR ''.'' \<notin> set (b64_encode s)"
  using b64_encode_alphabet [of s] by (auto simp: b64_alphabet_def)

lemma b64_decode_bad:
  assumes "c \<in> set s" and "c \<notin> set b64_alphabet" and "c \<noteq> CHR 0x0A" and "c \<noteq> CHR 0x0D"
  shows "b64_decode s = None"
proof -
  have "b64_val c = None" using assms(2) by (simp add: b64_val_def)
  then have "b64_vals s = None" using assms(1,3,4)
    by (induction s) (auto split: option.splits)
  then show ?thesis by (simp add: b64_decode_def)
qed

lemma hex_encode_nonempty: "hex_encode bs = [] \<longleftrightarrow> bs = []"
  by (cases bs) (simp_all add: hex_byte_def)

end
