(* ===== verification/Go_Json.thy ===== *)
theory Go_Json
  imports Encoding
begin

text \<open>
  \<open>encoding/json\<close> as the program uses it: documents with numbers as their literals, \<open>Marshal\<close> with
  its escapes (HTML characters, control characters, invalid UTF-8), the parser behind \<open>Unmarshal\<close>
  and \<open>Decoder.Decode\<close>, and the decoding of an object's fields into a struct. Object keys are
  matched up to ASCII case, as Go matches struct fields (its two non-ASCII case folds are left out).
  The last section proves that parsing undoes printing for documents over ASCII strings.
\<close>

datatype json =
    J_null
  | J_bool bool
  | J_num string
  | J_str string
  | J_arr "json list"
  | J_obj "(string \<times> json) list"

section \<open>UTF-8\<close>

definition in_range :: "nat \<Rightarrow> nat \<Rightarrow> char \<Rightarrow> bool" where
  "in_range a b c \<longleftrightarrow> a \<le> of_char c \<and> of_char c \<le> b"

definition conts :: "nat \<Rightarrow> string \<Rightarrow> bool" where
  "conts n s \<longleftrightarrow> n \<le> length s \<and> list_all (in_range 0x80 0xBF) (take n s)"

definition next_in :: "nat \<Rightarrow> nat \<Rightarrow> string \<Rightarrow> bool" where
  "next_in a b s = (case s of [] \<Rightarrow> False | c # _ \<Rightarrow> in_range a b c)"

text \<open>The length of the first rune's encoding, \<open>0\<close> when the first byte starts no valid one.\<close>

fun utf8_len :: "string \<Rightarrow> nat" where
  "utf8_len [] = 0"
| "utf8_len (c # s) =
     (let b = of_char c :: nat in
      if b < 0x80 then 1
      else if b < 0xC2 then 0
      else if b < 0xE0 then (if conts 1 s then 2 else 0)
      else if b = 0xE0 then (if conts 2 s \<and> next_in 0xA0 0xBF s then 3 else 0)
      else if b = 0xED then (if conts 2 s \<and> next_in 0x80 0x9F s then 3 else 0)
      else if b < 0xF0 then (if conts 2 s then 3 else 0)
      else if b = 0xF0 then (if conts 3 s \<and> next_in 0x90 0xBF s then 4 else 0)
      else if b < 0xF4 then (if conts 3 s then 4 else 0)
      else if b = 0xF4 then (if conts 3 s \<and> next_in 0x80 0x8F s then 4 else 0)
      else 0)"

definition utf8_enc :: "nat \<Rightarrow> string" where
  "utf8_enc r =
     (if r < 0x80 then [char_of r]
      else if r < 0x800 then [char_of (0xC0 + r div 64), char_of (0x80 + r mod 64)]
      else if r < 0x10000 then
        [char_of (0xE0 + r div 4096), char_of (0x80 + r div 64 mod 64), char_of (0x80 + r mod 64)]
      else [char_of (0xF0 + r div 262144), char_of (0x80 + r div 4096 mod 64),
            char_of (0x80 + r div 64 mod 64), char_of (0x80 + r mod 64)])"

definition rune_error :: string where
  "rune_error = utf8_enc 0xFFFD"

section \<open>Marshal\<close>

definition esc_byte :: "char \<Rightarrow> string" where
  "esc_byte c =
     (let b = of_char c :: nat in
      if b = 0x22 \<or> b = 0x5C then [CHR 0x5C, c]
      else if b = 0x08 then [CHR 0x5C, CHR ''b'']
      else if b = 0x0C then [CHR 0x5C, CHR ''f'']
      else if b = 0x0A then [CHR 0x5C, CHR ''n'']
      else if b = 0x0D then [CHR 0x5C, CHR ''r'']
      else if b = 0x09 then [CHR 0x5C, CHR ''t'']
      else if b < 0x20 \<or> b = 0x3C \<or> b = 0x3E \<or> b = 0x26 then CHR 0x5C # ''u00'' @ hex_byte c
      else [c])"

function (sequential) enc_chars :: "string \<Rightarrow> string" where
  "enc_chars [] = []"
| "enc_chars (c # s) =
     (let n = utf8_len (c # s) in
      if (of_char c :: nat) < 0x80 then esc_byte c @ enc_chars s
      else if n = 0 then CHR 0x5C # ''ufffd'' @ enc_chars s
      else if take 3 (c # s) = utf8_enc 0x2028 then CHR 0x5C # ''u2028'' @ enc_chars (drop 2 s)
      else if take 3 (c # s) = utf8_enc 0x2029 then CHR 0x5C # ''u2029'' @ enc_chars (drop 2 s)
      else take n (c # s) @ enc_chars (drop (n - 1) s))"
  by pat_completeness auto
termination by (relation "measure length") auto

definition enc_str :: "string \<Rightarrow> string" where
  "enc_str s = CHR 0x22 # enc_chars s @ [CHR 0x22]"

fun commas :: "string list \<Rightarrow> string" where
  "commas [] = []"
| "commas [s] = s"
| "commas (s # t # ts) = s @ CHR '','' # commas (t # ts)"

fun json_enc :: "json \<Rightarrow> string" where
  "json_enc J_null = ''null''"
| "json_enc (J_bool b) = (if b then ''true'' else ''false'')"
| "json_enc (J_num n) = n"
| "json_enc (J_str s) = enc_str s"
| "json_enc (J_arr js) = CHR 0x5B # commas (map json_enc js) @ [CHR 0x5D]"
| "json_enc (J_obj kvs) = CHR 0x7B # commas (map (\<lambda>(k, v). enc_str k @ CHR '':'' # json_enc v) kvs) @ [CHR 0x7D]"

section \<open>The parser\<close>

definition is_ws :: "char \<Rightarrow> bool" where
  "is_ws c \<longleftrightarrow> c \<in> {CHR 0x20, CHR 0x09, CHR 0x0A, CHR 0x0D}"

definition skip_ws :: "string \<Rightarrow> string" where
  "skip_ws s = dropWhile is_ws s"

definition hex_val :: "char \<Rightarrow> nat option" where
  "hex_val c =
     (let b = of_char c :: nat in
      if 48 \<le> b \<and> b \<le> 57 then Some (b - 48)
      else if 97 \<le> b \<and> b \<le> 102 then Some (b - 87)
      else if 65 \<le> b \<and> b \<le> 70 then Some (b - 55) else None)"

fun hex_acc :: "nat \<Rightarrow> nat \<Rightarrow> string \<Rightarrow> nat option" where
  "hex_acc 0 acc s = Some acc"
| "hex_acc (Suc n) acc [] = None"
| "hex_acc (Suc n) acc (c # s) = (case hex_val c of None \<Rightarrow> None | Some d \<Rightarrow> hex_acc n (16 * acc + d) s)"

text \<open>\<open>getu4\<close>: a \<open>\uXXXX\<close> escape at the start of the text.\<close>

definition getu4 :: "string \<Rightarrow> nat option" where
  "getu4 s = (if has_prefix s [CHR 0x5C, CHR ''u''] then hex_acc 4 0 (drop 2 s) else None)"

definition is_surrogate :: "nat \<Rightarrow> bool" where
  "is_surrogate r \<longleftrightarrow> 0xD800 \<le> r \<and> r < 0xE000"

definition utf16_pair :: "nat \<Rightarrow> nat \<Rightarrow> nat option" where
  "utf16_pair a b =
     (if 0xD800 \<le> a \<and> a < 0xDC00 \<and> 0xDC00 \<le> b \<and> b < 0xE000
      then Some ((a - 0xD800) * 0x400 + (b - 0xDC00) + 0x10000) else None)"

text \<open>The one-letter escapes.\<close>

definition unescape :: "char \<Rightarrow> char option" where
  "unescape e =
     (if e = CHR 0x22 \<or> e = CHR 0x5C \<or> e = CHR ''/'' then Some e
      else if e = CHR ''b'' then Some (CHR 0x08) else if e = CHR ''f'' then Some (CHR 0x0C)
      else if e = CHR ''n'' then Some (CHR 0x0A) else if e = CHR ''r'' then Some (CHR 0x0D)
      else if e = CHR ''t'' then Some (CHR 0x09) else None)"

definition prepend :: "string \<Rightarrow> (string \<times> string) option \<Rightarrow> (string \<times> string) option" where
  "prepend p r = map_option (\<lambda>(s, t). (p @ s, t)) r"

text \<open>The body of a string after its opening quote: the decoded text, and what follows the closing quote.\<close>

function (sequential) p_str :: "string \<Rightarrow> (string \<times> string) option" where
  "p_str [] = None"
| "p_str (c # s) =
     (if c = CHR 0x22 then Some ([], s)
      else if c = CHR 0x5C then
        (case s of [] \<Rightarrow> None
         | e # t \<Rightarrow>
             (case unescape e of
                Some x \<Rightarrow> prepend [x] (p_str t)
              | None \<Rightarrow>
                  (case getu4 (c # s) of
                     None \<Rightarrow> None
                   | Some r \<Rightarrow>
                       if \<not> is_surrogate r then prepend (utf8_enc r) (p_str (drop 4 t))
                       else (case Option.bind (getu4 (drop 4 t)) (utf16_pair r) of
                               Some r' \<Rightarrow> prepend (utf8_enc r') (p_str (drop 10 t))
                             | None \<Rightarrow> prepend rune_error (p_str (drop 4 t))))))
      else if (of_char c :: nat) < 0x20 then None
      else (let n = utf8_len (c # s) in
            if n = 0 then prepend rune_error (p_str s)
            else prepend (take n (c # s)) (p_str (drop (n - 1) s))))"
  by pat_completeness auto
termination by (relation "measure length") auto

text \<open>A number literal: its text and the rest.\<close>

definition span_digits :: "string \<Rightarrow> string \<times> string" where
  "span_digits s = (takeWhile (\<lambda>c. digit_val c \<noteq> None) s, dropWhile (\<lambda>c. digit_val c \<noteq> None) s)"

definition p_frac :: "string \<Rightarrow> (string \<times> string) option" where
  "p_frac s = (if has_prefix s ''.'' then
       (case span_digits (drop 1 s) of (ds, r) \<Rightarrow> if ds = [] then None else Some (CHR ''.'' # ds, r))
     else Some ([], s))"

definition p_exp :: "string \<Rightarrow> (string \<times> string) option" where
  "p_exp s = (if has_prefix s ''e'' \<or> has_prefix s ''E'' then
       (let k = (if has_prefix (drop 1 s) ''+'' \<or> has_prefix (drop 1 s) ''-'' then 2 else 1) in
        case span_digits (drop k s) of (ds, r) \<Rightarrow> if ds = [] then None else Some (take k s @ ds, r))
     else Some ([], s))"

definition p_num :: "string \<Rightarrow> (string \<times> string) option" where
  "p_num s =
     (let (sg, s) = (if has_prefix s ''-'' then (''-'', drop 1 s) else ([], s));
          (ds, r) = (if has_prefix s ''0'' then (''0'', drop 1 s) else span_digits s)
      in if ds = [] then None
         else Option.bind (p_frac r) (\<lambda>(f, r). Option.bind (p_exp r) (\<lambda>(e, r). Some (sg @ ds @ f @ e, r))))"

text \<open>Values; the fuel bounds the recursion, and a document of \<open>n\<close> bytes needs at most \<open>n + 1\<close>.\<close>

fun p_value :: "nat \<Rightarrow> string \<Rightarrow> (json \<times> string) option"
  and p_elems :: "nat \<Rightarrow> string \<Rightarrow> (json list \<times> string) option"
  and p_members :: "nat \<Rightarrow> string \<Rightarrow> ((string \<times> json) list \<times> string) option" where
  "p_value 0 s = None"
| "p_value (Suc n) s =
     (case skip_ws s of
        [] \<Rightarrow> None
      | c # t \<Rightarrow>
          if c = CHR 0x7B then
            (if has_prefix (skip_ws t) [CHR 0x7D] then Some (J_obj [], drop 1 (skip_ws t))
             else map_option (\<lambda>(kvs, r). (J_obj kvs, r)) (p_members n t))
          else if c = CHR 0x5B then
            (if has_prefix (skip_ws t) [CHR 0x5D] then Some (J_arr [], drop 1 (skip_ws t))
             else map_option (\<lambda>(js, r). (J_arr js, r)) (p_elems n t))
          else if c = CHR 0x22 then map_option (\<lambda>(x, r). (J_str x, r)) (p_str t)
          else if has_prefix (c # t) ''true'' then Some (J_bool True, drop 3 t)
          else if has_prefix (c # t) ''false'' then Some (J_bool False, drop 4 t)
          else if has_prefix (c # t) ''null'' then Some (J_null, drop 3 t)
          else map_option (\<lambda>(x, r). (J_num x, r)) (p_num (c # t)))"
| "p_elems 0 s = None"
| "p_elems (Suc n) s =
     (case p_value n s of
        None \<Rightarrow> None
      | Some (v, r) \<Rightarrow>
          (let r = skip_ws r in
           if has_prefix r '','' then map_option (\<lambda>(vs, r). (v # vs, r)) (p_elems n (drop 1 r))
           else if has_prefix r [CHR 0x5D] then Some ([v], drop 1 r) else None))"
| "p_members 0 s = None"
| "p_members (Suc n) s =
     (if has_prefix (skip_ws s) [CHR 0x22] then
        (case p_str (drop 1 (skip_ws s)) of
           None \<Rightarrow> None
         | Some (k, r) \<Rightarrow>
             if has_prefix (skip_ws r) '':'' then
               (case p_value n (drop 1 (skip_ws r)) of
                  None \<Rightarrow> None
                | Some (v, r) \<Rightarrow>
                    (let r = skip_ws r in
                     if has_prefix r '','' then map_option (\<lambda>(kvs, r). ((k, v) # kvs, r)) (p_members n (drop 1 r))
                     else if has_prefix r [CHR 0x7D] then Some ([(k, v)], drop 1 r) else None))
             else None)
      else None)"

text \<open>\<open>json.Unmarshal\<close> takes the whole text; a \<open>Decoder\<close> takes the first value and leaves the rest.\<close>

definition unmarshal :: "string \<Rightarrow> json option" where
  "unmarshal s = (case p_value (2 * length s + 2) s of
       Some (v, r) \<Rightarrow> if skip_ws r = [] then Some v else None
     | None \<Rightarrow> None)"

definition decode_first :: "nat \<Rightarrow> string \<Rightarrow> json option" where
  "decode_first limit body =
     (let s = take limit body in map_option fst (p_value (2 * length s + 2) s))"

section \<open>Struct fields\<close>

definition lower_byte :: "char \<Rightarrow> char" where
  "lower_byte c = (if in_range 65 90 c then char_of ((of_char c :: nat) + 32) else c)"

definition fold_eq :: "string \<Rightarrow> string \<Rightarrow> bool" where
  "fold_eq a b \<longleftrightarrow> map lower_byte a = map lower_byte b"

text \<open>
  Decoding a member into a field: a value of the wrong type is an error (\<open>None\<close>), a later member
  overwrites an earlier one; \<open>null\<close> leaves a scalar field (\<open>nul = None\<close>) and resets a pointer or a
  slice to \<open>nul\<close>.
\<close>

fun decode_field :: "(json \<Rightarrow> 'a option) \<Rightarrow> 'a option \<Rightarrow> string \<Rightarrow> 'a \<Rightarrow> (string \<times> json) list \<Rightarrow> 'a option" where
  "decode_field f nul name cur [] = Some cur"
| "decode_field f nul name cur ((k, v) # kvs) =
     (if \<not> fold_eq k name then decode_field f nul name cur kvs
      else if v = J_null then decode_field f nul name (case nul of None \<Rightarrow> cur | Some x \<Rightarrow> x) kvs
      else case f v of None \<Rightarrow> None | Some x \<Rightarrow> decode_field f nul name x kvs)"

fun as_string :: "json \<Rightarrow> string option" where
  "as_string (J_str s) = Some s"
| "as_string _ = None"

fun as_bool :: "json \<Rightarrow> bool option" where
  "as_bool (J_bool b) = Some b"
| "as_bool _ = None"

fun as_int64 :: "json \<Rightarrow> int option" where
  "as_int64 (J_num s) = parse_int64 s"
| "as_int64 _ = None"

text \<open>A \<open>[]string\<close>; a \<open>null\<close> element is the empty string.\<close>

fun as_elem :: "json \<Rightarrow> string option" where
  "as_elem J_null = Some []"
| "as_elem v = as_string v"

fun as_strings :: "json \<Rightarrow> string list option" where
  "as_strings (J_arr js) = those (map as_elem js)"
| "as_strings _ = None"

definition members :: "json \<Rightarrow> (string \<times> json) list option" where
  "members j = (case j of J_obj kvs \<Rightarrow> Some kvs | J_null \<Rightarrow> Some [] | _ \<Rightarrow> None)"

section \<open>Parsing undoes printing\<close>

definition ascii :: "string \<Rightarrow> bool" where
  "ascii s = list_all (\<lambda>c. (of_char c :: nat) < 0x80) s"

lemma ascii_simps [simp]:
  "ascii []"
  "ascii (c # s) \<longleftrightarrow> (of_char c :: nat) < 0x80 \<and> ascii s"
  "ascii (s @ t) \<longleftrightarrow> ascii s \<and> ascii t"
  by (simp_all add: ascii_def)

lemma of_char_eq: "(of_char c :: nat) = n \<Longrightarrow> n < 256 \<Longrightarrow> c = char_of n"
  by (metis char_of_char)

lemma hex_val_digit: "n < 16 \<Longrightarrow> hex_val (hex_digit n) = Some n"
proof -
  have "list_all (\<lambda>n. hex_val (hex_digit n) = Some n) [0..<16]" by code_simp
  then show "n < 16 \<Longrightarrow> hex_val (hex_digit n) = Some n" by (simp add: list_all_iff)
qed

lemma p_str_plain:
  assumes "(of_char c :: nat) < 0x80" and "0x20 \<le> (of_char c :: nat)" and "c \<noteq> CHR 0x22" and "c \<noteq> CHR 0x5C"
  shows "p_str (c # t) = prepend [c] (p_str t)"
  using assms by (subst p_str.simps) (simp add: Let_def del: p_str.simps)

lemma p_str_letter:
  assumes "unescape e = Some x"
  shows "p_str (CHR 0x5C # e # t) = prepend [x] (p_str t)"
  using assms by (subst p_str.simps) (simp del: p_str.simps)

lemma hex_acc_4: "hex_acc 4 = hex_acc (Suc (Suc (Suc (Suc 0))))"
  by (simp add: numeral_eq_Suc)

lemma getu4_u00:
  assumes "(of_char c :: nat) < 0x80"
  shows "getu4 (CHR 0x5C # CHR ''u'' # CHR ''0'' # CHR ''0'' # hex_byte c @ t) = Some (of_char c)"
proof -
  have "hex_val (CHR ''0'') = Some 0" by code_simp
  moreover have "(of_char c :: nat) div 16 < 16" using assms by simp
  ultimately show ?thesis
    by (simp add: getu4_def has_prefix_def hex_acc_4 hex_byte_def hex_val_digit)
qed

lemma p_str_u00:
  assumes "(of_char c :: nat) < 0x80"
  shows "p_str (CHR 0x5C # CHR ''u'' # CHR ''0'' # CHR ''0'' # hex_byte c @ t) = prepend [c] (p_str t)"
proof -
  have "unescape (CHR ''u'') = None" by code_simp
  moreover have "\<not> is_surrogate (of_char c)" using assms by (simp add: is_surrogate_def)
  moreover have "utf8_enc (of_char c) = [c]" using assms by (simp add: utf8_enc_def)
  moreover have "drop 4 (CHR ''0'' # CHR ''0'' # hex_byte c @ t) = t" by (simp add: hex_byte_def)
  ultimately show ?thesis using getu4_u00 [OF assms, of t]
    by (subst p_str.simps) (simp del: p_str.simps)
qed

lemma char_code_eq: "c = d \<longleftrightarrow> (of_char c :: nat) = of_char d"
  by simp

lemma special_bytes:
  "(of_char c :: nat) = 0x22 \<longleftrightarrow> c = CHR 0x22" "(of_char c :: nat) = 0x5C \<longleftrightarrow> c = CHR 0x5C"
  "(of_char c :: nat) = 0x08 \<longleftrightarrow> c = CHR 0x08" "(of_char c :: nat) = 0x0C \<longleftrightarrow> c = CHR 0x0C"
  "(of_char c :: nat) = 0x0A \<longleftrightarrow> c = CHR 0x0A" "(of_char c :: nat) = 0x0D \<longleftrightarrow> c = CHR 0x0D"
  "(of_char c :: nat) = 0x09 \<longleftrightarrow> c = CHR 0x09"
  by (simp_all only: char_code_eq [of c]) simp_all

lemma p_str_esc:
  assumes "(of_char c :: nat) < 0x80"
  shows "p_str (esc_byte c @ t) = prepend [c] (p_str t)"
proof -
  let ?b = "of_char c :: nat"
  have u: "unescape (CHR 0x22) = Some (CHR 0x22)" "unescape (CHR 0x5C) = Some (CHR 0x5C)"
    "unescape (CHR ''b'') = Some (CHR 0x08)" "unescape (CHR ''f'') = Some (CHR 0x0C)"
    "unescape (CHR ''n'') = Some (CHR 0x0A)" "unescape (CHR ''r'') = Some (CHR 0x0D)"
    "unescape (CHR ''t'') = Some (CHR 0x09)" by code_simp+
  consider "c = CHR 0x22" | "c = CHR 0x5C" | "c = CHR 0x08" | "c = CHR 0x0C" | "c = CHR 0x0A" | "c = CHR 0x0D"
    | "c = CHR 0x09"
    | (hex) "?b \<notin> {0x22, 0x5C, 0x08, 0x0C, 0x0A, 0x0D, 0x09}" "?b < 0x20 \<or> ?b = 0x3C \<or> ?b = 0x3E \<or> ?b = 0x26"
    | (plain) "?b \<notin> {0x22, 0x5C}" "0x20 \<le> ?b" "?b \<notin> {0x3C, 0x3E, 0x26}"
    unfolding special_bytes [symmetric] by fastforce
  then show ?thesis
  proof cases
    case hex
    then have "esc_byte c = CHR 0x5C # ''u00'' @ hex_byte c" by (auto simp: esc_byte_def Let_def)
    then show ?thesis using p_str_u00 [OF assms, of t] by (simp del: p_str.simps)
  next
    case plain
    then have "esc_byte c = [c]" by (auto simp: esc_byte_def Let_def)
    moreover have "c \<noteq> CHR 0x22" "c \<noteq> CHR 0x5C" using plain(1) by auto
    ultimately show ?thesis using p_str_plain [OF assms plain(2)] by (simp del: p_str.simps)
  qed (simp_all add: esc_byte_def Let_def p_str_letter u del: p_str.simps)
qed

lemma p_str_enc_chars: "ascii s \<Longrightarrow> p_str (enc_chars s @ CHR 0x22 # t) = Some (s, t)"
proof (induction s)
  case Nil
  then show ?case by simp
next
  case (Cons c s)
  then show ?case by (simp add: Let_def p_str_esc prepend_def del: p_str.simps)
qed

text \<open>Integer literals.\<close>

lemma itoa_nat_hd: "0 < n \<Longrightarrow> hd (itoa_nat n) \<noteq> CHR ''0''"
proof (induction n rule: itoa_nat.induct)
  case (1 n)
  show ?case
  proof (cases "n < 10")
    case True
    have "digit_char 0 = CHR ''0''" by code_simp
    then have "digit_char n \<noteq> CHR ''0''"
      using 1(2) True digit_val_digit_char
      by (metis option.inject less_numeral_extra(3) zero_less_numeral)
    with True show ?thesis by (subst itoa_nat.simps) simp
  next
    case False
    with 1 show ?thesis by (subst itoa_nat.simps) (simp add: hd_append)
  qed
qed

definition no_number :: "string \<Rightarrow> bool" where
  "no_number r = (case r of [] \<Rightarrow> True | c # _ \<Rightarrow> digit_val c = None \<and> c \<notin> {CHR ''.'', CHR ''e'', CHR ''E''})"

lemma p_num_tail: "no_number r \<Longrightarrow> p_frac r = Some ([], r)" "no_number r \<Longrightarrow> p_exp r = Some ([], r)"
  by (auto simp: p_frac_def p_exp_def no_number_def has_prefix_def split: list.splits)

lemma span_digits_append:
  assumes "no_number r" and "\<And>c. c \<in> set ds \<Longrightarrow> digit_val c \<noteq> None"
  shows "span_digits (ds @ r) = (ds, r)"
  using assms(2)
proof (induction ds)
  case Nil
  then show ?case using assms(1) by (auto simp: span_digits_def no_number_def split: list.splits)
next
  case (Cons c ds)
  then show ?case by (auto simp: span_digits_def)
qed

lemma digits_no_sign: "digit_val c \<noteq> None \<Longrightarrow> c \<noteq> CHR ''-''"
  by (auto simp: digit_val_def)

lemma p_num_nat:
  assumes "no_number r"
  shows "p_num (itoa_nat n @ r) = Some (itoa_nat n, r)"
    and "p_num (CHR ''-'' # itoa_nat n @ r) = Some (CHR ''-'' # itoa_nat n, r)"
proof -
  obtain c ds where ds: "itoa_nat n = c # ds" by (metis itoa_nat_nonempty list.exhaust)
  then have c: "digit_val c \<noteq> None" by (metis itoa_nat_digits list.set_intros(1))
  have "(if has_prefix (itoa_nat n @ r) ''0'' then (''0'', drop 1 (itoa_nat n @ r))
      else span_digits (itoa_nat n @ r)) = (itoa_nat n, r)"
  proof (cases "n = 0")
    case True
    moreover have "itoa_nat 0 = ''0''" by code_simp
    ultimately show ?thesis by (simp add: has_prefix_def)
  next
    case False
    then have "c \<noteq> CHR ''0''" using itoa_nat_hd [of n] ds by simp
    then have "\<not> has_prefix (itoa_nat n @ r) ''0''" by (simp add: ds has_prefix_def)
    then show ?thesis using span_digits_append [OF assms itoa_nat_digits] by simp
  qed
  note body = this
  show "p_num (itoa_nat n @ r) = Some (itoa_nat n, r)"
    using body c p_num_tail [OF assms] digits_no_sign [OF c]
    by (simp add: p_num_def ds has_prefix_def split: if_splits)
  show "p_num (CHR ''-'' # itoa_nat n @ r) = Some (CHR ''-'' # itoa_nat n, r)"
    using body c p_num_tail [OF assms]
    by (simp add: p_num_def ds has_prefix_def split: if_splits)
qed

lemma p_num_itoa: "no_number r \<Longrightarrow> p_num (itoa k @ r) = Some (itoa k, r)"
  by (simp add: itoa_def p_num_nat)

text \<open>Documents whose strings are ASCII and whose numbers are integers.\<close>

fun json_plain :: "json \<Rightarrow> bool" where
  "json_plain (J_num n) = (case parse_int64 n of None \<Rightarrow> False | Some k \<Rightarrow> n = itoa k)"
| "json_plain (J_str s) = ascii s"
| "json_plain (J_arr js) = list_all json_plain js"
| "json_plain (J_obj kvs) = list_all (\<lambda>(k, v). ascii k \<and> json_plain v) kvs"
| "json_plain _ = True"

definition starts_value :: "string \<Rightarrow> bool" where
  "starts_value s = (case s of [] \<Rightarrow> False | c # _ \<Rightarrow> \<not> is_ws c \<and> c \<noteq> CHR 0x5D \<and> c \<noteq> CHR 0x7D)"

lemma itoa_starts: "\<exists>c s. itoa k = c # s \<and> (digit_val c \<noteq> None \<or> c = CHR ''-'')"
proof (cases "k < 0")
  case True
  then show ?thesis by (simp add: itoa_def)
next
  case False
  then show ?thesis
    by (metis itoa_def itoa_nat_digits itoa_nat_nonempty list.exhaust list.set_intros(1))
qed

lemma digit_starts: "digit_val c \<noteq> None \<or> c = CHR ''-'' \<Longrightarrow> starts_value (c # s)"
  by (auto simp: starts_value_def is_ws_def digit_val_def)

lemma enc_starts: "json_plain j \<Longrightarrow> starts_value (json_enc j @ r)"
proof (cases j)
  case (J_num n)
  then show "json_plain j \<Longrightarrow> ?thesis"
    using itoa_starts digit_starts by (auto split: option.splits) (metis append_Cons)
qed (auto simp: starts_value_def is_ws_def enc_str_def)

lemma starts_skip:
  assumes "starts_value s"
  shows "skip_ws s = s" and "\<not> has_prefix s [CHR 0x5D]" and "\<not> has_prefix s [CHR 0x7D]"
  using assms by (auto simp: starts_value_def skip_ws_def has_prefix_def split: list.splits)

lemma skip_ws_same [simp]: "\<not> is_ws c \<Longrightarrow> skip_ws (c # s) = c # s"
  by (simp add: skip_ws_def)

lemma not_ws [simp]: "\<not> is_ws (CHR '','')" "\<not> is_ws (CHR '':'')" "\<not> is_ws (CHR 0x22)"
  "\<not> is_ws (CHR 0x5B)" "\<not> is_ws (CHR 0x5D)" "\<not> is_ws (CHR 0x7B)" "\<not> is_ws (CHR 0x7D)"
  by (simp_all add: is_ws_def)

lemma has_prefix_one [simp]: "has_prefix (c # s) [d] \<longleftrightarrow> c = d"
  by (simp add: has_prefix_def)

lemma no_number_stop [simp]: "no_number (CHR '','' # r)" "no_number (CHR 0x5D # r)" "no_number (CHR 0x7D # r)" "no_number []"
  by (simp_all add: no_number_def digit_val_def)

lemma commas_Cons: "ss \<noteq> [] \<Longrightarrow> commas (s # ss) = s @ CHR '','' # commas ss"
  by (cases ss) simp_all

lemma p_elems_enc:
  assumes "\<And>j n r. j \<in> set js \<Longrightarrow> length (json_enc j) \<le> n \<Longrightarrow> no_number r \<Longrightarrow>
      p_value n (json_enc j @ r) = Some (j, r)"
    and "js \<noteq> []" and "length (commas (map json_enc js)) < n"
  shows "p_elems n (commas (map json_enc js) @ CHR 0x5D # r) = Some (js, r)"
  using assms
proof (induction js arbitrary: n)
  case Nil
  then show ?case by simp
next
  case (Cons j js)
  then obtain m where n: "n = Suc m" by (cases n) simp_all
  show ?case
  proof (cases "js = []")
    case True
    then show ?thesis using Cons.prems n by simp
  next
    case False
    then have "p_elems m (commas (map json_enc js) @ CHR 0x5D # r) = Some (js, r)"
      using Cons n by (intro Cons.IH) (auto simp: commas_Cons)
    then show ?thesis using Cons.prems n False by (simp add: commas_Cons)
  qed
qed

lemma p_members_enc:
  assumes "\<And>k j n r. (k, j) \<in> set kvs \<Longrightarrow> length (json_enc j) \<le> n \<Longrightarrow> no_number r \<Longrightarrow>
      p_value n (json_enc j @ r) = Some (j, r)"
    and "list_all (\<lambda>(k, v). ascii k) kvs" and "kvs \<noteq> []"
    and "length (commas (map (\<lambda>(k, v). enc_str k @ CHR '':'' # json_enc v) kvs)) < n"
  shows "p_members n (commas (map (\<lambda>(k, v). enc_str k @ CHR '':'' # json_enc v) kvs) @ CHR 0x7D # r) = Some (kvs, r)"
  using assms
proof (induction kvs arbitrary: n)
  case Nil
  then show ?case by simp
next
  case (Cons kv kvs)
  obtain k v where kv: "kv = (k, v)" by fastforce
  from Cons.prems obtain m where n: "n = Suc m" by (cases n) simp_all
  have k: "ascii k" using Cons.prems(2) kv by simp
  have key: "p_str (enc_chars k @ CHR 0x22 # t) = Some (k, t)" for t
    using p_str_enc_chars [OF k] .
  show ?case
  proof (cases "kvs = []")
    case True
    then show ?thesis using Cons.prems(1) [of k v m] Cons.prems(4) kv n key by (simp add: enc_str_def)
  next
    case False
    have "p_members m (commas (map (\<lambda>(k, v). enc_str k @ CHR '':'' # json_enc v) kvs) @ CHR 0x7D # r) = Some (kvs, r)"
      using Cons.prems n False kv by (intro Cons.IH) (auto simp: commas_Cons)
    then show ?thesis
      using Cons.prems(1) [of k v m] Cons.prems(4) kv n False key by (simp add: commas_Cons enc_str_def)
  qed
qed

lemma p_value_num:
  assumes "digit_val c \<noteq> None \<or> c = CHR ''-''"
  shows "p_value (Suc n) (c # t) = map_option (\<lambda>(x, r). (J_num x, r)) (p_num (c # t))"
proof -
  have "\<not> is_ws c" "c \<notin> {CHR 0x7B, CHR 0x5B, CHR 0x22, CHR ''t'', CHR ''f'', CHR ''n''}"
    using assms by (auto simp: is_ws_def digit_val_def)
  then show ?thesis by (simp add: has_prefix_def)
qed

theorem p_value_enc:
  "json_plain j \<Longrightarrow> length (json_enc j) \<le> n \<Longrightarrow> no_number r \<Longrightarrow> p_value n (json_enc j @ r) = Some (j, r)"
proof (induction j arbitrary: n r)
  case J_null
  then show ?case by (cases n) (simp_all add: is_ws_def has_prefix_def)
next
  case (J_bool b)
  then show ?case by (cases n; cases b) (simp_all add: is_ws_def has_prefix_def)
next
  case (J_num x)
  then obtain k where x: "x = itoa k" by (auto split: option.splits)
  obtain c s where c: "itoa k = c # s" "digit_val c \<noteq> None \<or> c = CHR ''-''" using itoa_starts by blast
  from J_num.prems c obtain m where n: "n = Suc m" by (cases n) (simp_all add: x)
  show ?case
    using p_value_num [OF c(2), of m "s @ r"] p_num_itoa [OF J_num.prems(3), of k]
    by (simp add: x n c(1) del: p_value.simps)
next
  case (J_str s)
  then obtain m where "n = Suc m" by (cases n) (simp_all add: enc_str_def)
  with J_str show ?case using p_str_enc_chars [of s r] by (simp add: enc_str_def)
next
  case (J_arr js)
  from J_arr.prems obtain m where n: "n = Suc m" by (cases n) simp_all
  show ?case
  proof (cases "js = []")
    case True
    then show ?thesis by (simp add: n)
  next
    case False
    then obtain j js' where js: "js = j # js'" by (cases js) simp_all
    have "starts_value (commas (map json_enc js) @ CHR 0x5D # r)"
      using enc_starts [of j] J_arr.prems(1) js by (cases js') simp_all
    from starts_skip(1,2) [OF this]
    have open_: "skip_ws (commas (map json_enc js) @ CHR 0x5D # r) = commas (map json_enc js) @ CHR 0x5D # r"
      "\<not> has_prefix (commas (map json_enc js) @ CHR 0x5D # r) [CHR 0x5D]" .
    have "p_elems m (commas (map json_enc js) @ CHR 0x5D # r) = Some (js, r)"
      using J_arr False n by (intro p_elems_enc) (auto simp: list_all_iff)
    then show ?thesis using open_ n by simp
  qed
next
  case (J_obj kvs)
  from J_obj.prems obtain m where n: "n = Suc m" by (cases n) simp_all
  let ?body = "commas (map (\<lambda>(k, v). enc_str k @ CHR '':'' # json_enc v) kvs)"
  show ?case
  proof (cases "kvs = []")
    case True
    then show ?thesis by (simp add: n)
  next
    case False
    then obtain k v kvs' where kvs: "kvs = (k, v) # kvs'" by (cases kvs) auto
    have "starts_value (?body @ CHR 0x7D # r)"
      by (cases kvs') (auto simp: kvs enc_str_def starts_value_def)
    from starts_skip(1,3) [OF this]
    have open_: "skip_ws (?body @ CHR 0x7D # r) = ?body @ CHR 0x7D # r"
      "\<not> has_prefix (?body @ CHR 0x7D # r) [CHR 0x7D]" .
    have "p_members m (?body @ CHR 0x7D # r) = Some (kvs, r)"
      using J_obj False n by (intro p_members_enc) (fastforce simp: list_all_iff)+
    then show ?thesis using open_ n by simp
  qed
qed

lemma unmarshal_enc: "json_plain j \<Longrightarrow> unmarshal (json_enc j) = Some j"
  using p_value_enc [of j "2 * length (json_enc j) + 2" "[]"]
  by (simp add: unmarshal_def skip_ws_def del: p_value.simps)

lemma decode_first_enc: "json_plain j \<Longrightarrow> length (json_enc j) \<le> limit \<Longrightarrow> decode_first limit (json_enc j) = Some j"
  using p_value_enc [of j "2 * length (json_enc j) + 2" "[]"]
  by (simp add: decode_first_def Let_def del: p_value.simps)

lemma json_plain_itoa: "- (2 ^ 63) \<le> k \<Longrightarrow> k < 2 ^ 63 \<Longrightarrow> json_plain (J_num (itoa k))"
  by (simp add: parse_int64_itoa)

end
