(* ===== verification/Http.thy ===== *)
theory Http
  imports Go_Json
begin

text \<open>
  The part of \<open>net/http\<close> the handlers see: a request as the server has parsed it (path, canonical
  header names, form values, body), a response as a status, headers and a body, and the JSON
  writers \<open>writeJSON\<close> and \<open>writeErr\<close> of the two API packages.
\<close>

record request =
  rq_method :: string
  rq_path :: string
  rq_headers :: "(string \<times> string) list"
  rq_form :: "(string \<times> string) list"
  rq_post_form :: "(string \<times> string) list option"
  rq_body :: string
  rq_content_length :: int
  rq_remote :: string

record response =
  rp_status :: nat
  rp_headers :: "(string \<times> string) list"
  rp_body :: string

text \<open>\<open>Header.Get\<close>, \<open>FormValue\<close> and \<open>Values.Get\<close>: the first value, or the empty string.\<close>

definition first_value :: "(string \<times> string) list \<Rightarrow> string \<Rightarrow> string" where
  "first_value kvs k = (case map_of kvs k of None \<Rightarrow> [] | Some v \<Rightarrow> v)"

definition header :: "request \<Rightarrow> string \<Rightarrow> string" where
  "header r k = first_value (rq_headers r) k"

definition FormValue :: "request \<Rightarrow> string \<Rightarrow> string" where
  "FormValue r k = first_value (rq_form r) k"

definition json_headers :: "(string \<times> string) list" where
  "json_headers = [(''Content-Type'', ''application/json'')]"

text \<open>\<open>Encode\<close> ends the document with a newline; \<open>Marshal\<close> of a map sorts its keys.\<close>

definition writeJSON :: "nat \<Rightarrow> json \<Rightarrow> response" where
  "writeJSON status v = \<lparr>rp_status = status, rp_headers = json_headers, rp_body = json_enc v @ [CHR 0x0A]\<rparr>"

definition no_content :: response where
  "no_content = \<lparr>rp_status = 204, rp_headers = [], rp_body = []\<rparr>"

text \<open>\<open>http.Error\<close> and \<open>http.NotFound\<close>.\<close>

definition http_error :: "string \<Rightarrow> nat \<Rightarrow> response" where
  "http_error msg status = \<lparr>rp_status = status,
     rp_headers = [(''Content-Type'', ''text/plain; charset=utf-8''), (''X-Content-Type-Options'', ''nosniff'')],
     rp_body = msg @ [CHR 0x0A]\<rparr>"

definition not_found :: response where
  "not_found = http_error ''404 page not found'' 404"

text \<open>A handler that panics: \<open>net/http\<close> recovers and closes the connection without a response.\<close>

definition aborted :: response where
  "aborted = \<lparr>rp_status = 0, rp_headers = [], rp_body = []\<rparr>"

definition add_headers :: "(string \<times> string) list \<Rightarrow> response \<Rightarrow> response" where
  "add_headers hs resp = resp\<lparr>rp_headers := hs @ rp_headers resp\<rparr>"

lemma rp_status_simps [simp]:
  "rp_status (writeJSON status v) = status"
  "rp_status (http_error msg status) = status"
  "rp_status no_content = 204"
  "rp_status not_found = 404"
  "rp_status aborted = 0"
  "rp_status (add_headers hs resp) = rp_status resp"
  by (simp_all add: writeJSON_def http_error_def no_content_def not_found_def aborted_def add_headers_def)

text \<open>A JSON body written by \<open>writeJSON\<close> reads back as the document.\<close>

lemma writeJSON_reads:
  assumes "json_plain v"
  shows "unmarshal (rp_body (writeJSON status v)) = Some v"
  using p_value_enc [OF assms, of "2 * length (rp_body (writeJSON status v)) + 2" "[CHR 0x0A]"]
  by (simp add: writeJSON_def unmarshal_def skip_ws_def is_ws_def no_number_def digit_val_def del: p_value.simps)

definition bearer_key :: "request \<Rightarrow> string" where
  "bearer_key r = trim_space (trim_prefix (header r ''Authorization'') ''Bearer '')"

end
