(* ===== verification/Go_Url.thy ===== *)
theory Go_Url
  imports Http "HOL-Library.List_Lexorder" "HOL-Library.Char_ord"
begin

text \<open>
  \<open>net/url\<close> and the \<open>net\<close> address parser, as far as the OAuth endpoints use them: percent
  encoding in its modes, \<open>url.Parse\<close> and \<open>URL.String\<close>, query strings, \<open>net.ParseIP\<close> and
  \<open>IsLoopback\<close>. A bracketed host is only checked for its port, not for the address inside. The last
  section proves that decoding undoes encoding.
\<close>

section \<open>Percent encoding\<close>

datatype url_mode = EncodePath | EncodeUserPassword | EncodeHost | EncodeQuery | EncodeFragment

definition is_alnum :: "char \<Rightarrow> bool" where
  "is_alnum c \<longleftrightarrow> in_range 48 57 c \<or> in_range 65 90 c \<or> in_range 97 122 c"

definition host_ok :: "char \<Rightarrow> bool" where
  "host_ok c \<longleftrightarrow> c \<in> set (''!$&()*+,;=:[]<>'' @ [CHR 0x27, CHR 0x22])"

definition shouldEscape :: "url_mode \<Rightarrow> char \<Rightarrow> bool" where
  "shouldEscape m c =
     (if is_alnum c then False
      else if m = EncodeHost \<and> host_ok c then False
      else if c \<in> set ''-_.~'' then False
      else if c \<in> set ''$&+,/:;=?@'' \<and> m = EncodePath then c = CHR ''?''
      else if c \<in> set ''$&+,/:;=?@'' \<and> m = EncodeUserPassword then c \<in> set ''@/?:''
      else if c \<in> set ''$&+,/:;=?@'' \<and> m = EncodeFragment then False
      else if m = EncodeFragment \<and> c \<in> set ''!()*'' then False
      else True)"

definition upper_hex :: "nat \<Rightarrow> char" where
  "upper_hex n = ''0123456789ABCDEF'' ! n"

definition pct :: "char \<Rightarrow> string" where
  "pct c = [CHR ''%'', upper_hex (of_char c div 16), upper_hex (of_char c mod 16)]"

definition url_escape :: "url_mode \<Rightarrow> string \<Rightarrow> string" where
  "url_escape m s = concat (map (\<lambda>c.
     if m = EncodeQuery \<and> c = CHR '' '' then ''+'' else if shouldEscape m c then pct c else [c]) s)"

fun url_unescape :: "url_mode \<Rightarrow> string \<Rightarrow> string option" where
  "url_unescape m [] = Some []"
| "url_unescape m (c # s) =
     (if c = CHR ''%'' then
        (case s of
           a # b # t \<Rightarrow>
             (case (hex_val a, hex_val b) of
                (Some x, Some y) \<Rightarrow>
                  (if m = EncodeHost \<and> x < 8 \<and> \<not> (a = CHR ''2'' \<and> b = CHR ''5'') then None
                   else map_option (\<lambda>r. char_of (16 * x + y) # r) (url_unescape m t))
              | _ \<Rightarrow> None)
         | _ \<Rightarrow> None)
      else if c = CHR ''+'' \<and> m = EncodeQuery then map_option (\<lambda>r. CHR '' '' # r) (url_unescape m s)
      else if m = EncodeHost \<and> (of_char c :: nat) < 0x80 \<and> shouldEscape m c then None
      else map_option (\<lambda>r. c # r) (url_unescape m s))"

section \<open>Query strings\<close>

text \<open>\<open>strings.Cut\<close> at a byte: what is before the first occurrence, and what is after it.\<close>

definition cut_byte :: "string \<Rightarrow> char \<Rightarrow> string \<times> string option" where
  "cut_byte s c = (case index_byte s c of None \<Rightarrow> (s, None) | Some i \<Rightarrow> (take i s, Some (drop (Suc i) s)))"

fun split_byte :: "char \<Rightarrow> string \<Rightarrow> string list" where
  "split_byte c [] = [[]]"
| "split_byte c (x # s) =
     (if x = c then [] # split_byte c s
      else case split_byte c s of [] \<Rightarrow> [[x]] | w # ws \<Rightarrow> (x # w) # ws)"

text \<open>
  \<open>bufio.Scanner\<close> with a buffer of \<open>n\<close> bytes: cuts at newlines, drops a trailing carriage return and
  stops at a line that does not fit. A newline at the very end opens no line.
\<close>

definition drop_last_empty :: "string list \<Rightarrow> string list" where
  "drop_last_empty ls = (if ls \<noteq> [] \<and> last ls = [] then butlast ls else ls)"

definition drop_cr :: "string \<Rightarrow> string" where
  "drop_cr l = (if l \<noteq> [] \<and> last l = CHR 0x0D then butlast l else l)"

definition scan_lines :: "nat \<Rightarrow> string \<Rightarrow> string list" where
  "scan_lines n input = map drop_cr (takeWhile (\<lambda>l. length l < n) (drop_last_empty (split_byte (CHR 0x0A) input)))"

definition query_pair :: "string \<Rightarrow> (string \<times> string) option" where
  "query_pair p =
     (if p = [] \<or> CHR '';'' \<in> set p then None
      else (case cut_byte p (CHR ''='') of (k, v) \<Rightarrow>
        Option.bind (url_unescape EncodeQuery k) (\<lambda>k.
        Option.bind (url_unescape EncodeQuery (case v of None \<Rightarrow> [] | Some v \<Rightarrow> v)) (\<lambda>v. Some (k, v)))))"

text \<open>\<open>URL.Query\<close>: malformed pairs are skipped. \<open>Values\<close> are kept as pairs in order.\<close>

definition parse_query :: "string \<Rightarrow> (string \<times> string) list" where
  "parse_query q = List.map_filter query_pair (split_byte (CHR ''&'') q)"

definition values_set :: "string \<Rightarrow> string \<Rightarrow> (string \<times> string) list \<Rightarrow> (string \<times> string) list" where
  "values_set k v kvs = filter (\<lambda>kv. fst kv \<noteq> k) kvs @ [(k, v)]"

definition query_escape :: "string \<Rightarrow> string" where
  "query_escape s = url_escape EncodeQuery s"

fun join_amp :: "string list \<Rightarrow> string" where
  "join_amp [] = []"
| "join_amp [s] = s"
| "join_amp (s # t # ts) = s @ CHR ''&'' # join_amp (t # ts)"

definition values_encode :: "(string \<times> string) list \<Rightarrow> string" where
  "values_encode kvs =
     join_amp (map (\<lambda>(k, v). query_escape k @ CHR ''='' # query_escape v) (sort_key fst kvs))"

section \<open>url.Parse and URL.String\<close>

record url =
  u_scheme :: string
  u_opaque :: string
  u_user :: "(string \<times> string option) option"
  u_host :: string
  u_path :: string
  u_rawpath :: string
  u_omithost :: bool
  u_forcequery :: bool
  u_rawquery :: string
  u_fragment :: string
  u_rawfragment :: string

definition empty_url :: url where
  "empty_url = \<lparr>u_scheme = [], u_opaque = [], u_user = None, u_host = [], u_path = [], u_rawpath = [],
     u_omithost = False, u_forcequery = False, u_rawquery = [], u_fragment = [], u_rawfragment = []\<rparr>"

definition is_letter :: "char \<Rightarrow> bool" where
  "is_letter c \<longleftrightarrow> in_range 65 90 c \<or> in_range 97 122 c"

text \<open>\<open>getScheme\<close>: \<open>None\<close> for the error, otherwise scheme and rest. The scan stops at index \<open>i\<close>.\<close>

fun scheme_end :: "nat \<Rightarrow> string \<Rightarrow> nat option" where
  "scheme_end i [] = None"
| "scheme_end i (c # s) =
     (if is_letter c then scheme_end (Suc i) s
      else if in_range 48 57 c \<or> c \<in> set ''+-.'' then (if i = 0 then None else scheme_end (Suc i) s)
      else if c = CHR '':'' then Some i
      else None)"

definition getScheme :: "string \<Rightarrow> (string \<times> string) option" where
  "getScheme s = (case scheme_end 0 s of
       None \<Rightarrow> Some ([], s)
     | Some i \<Rightarrow> if i = 0 then None else Some (take i s, drop (Suc i) s))"

definition validOptionalPort :: "string \<Rightarrow> bool" where
  "validOptionalPort p \<longleftrightarrow> p = [] \<or> (hd p = CHR '':'' \<and> list_all (in_range 48 57) (tl p))"

definition parseHost :: "string \<Rightarrow> string option" where
  "parseHost h =
     (if CHR ''['' \<in> set h then
        (case last_index_byte h (CHR '']'') of
           None \<Rightarrow> None
         | Some i \<Rightarrow> if validOptionalPort (drop (Suc i) h) then url_unescape EncodeHost h else None)
      else (case last_index_byte h (CHR '':'') of
           None \<Rightarrow> url_unescape EncodeHost h
         | Some i \<Rightarrow> if validOptionalPort (drop i h) then url_unescape EncodeHost h else None))"

definition validUserinfo :: "string \<Rightarrow> bool" where
  "validUserinfo s \<longleftrightarrow> list_all (\<lambda>c. is_alnum c \<or> c \<in> set (''-._:~!$&()*+,;=%@'' @ [CHR 0x27])) s"

definition parseAuthority :: "string \<Rightarrow> ((string \<times> string option) option \<times> string) option" where
  "parseAuthority a =
     (case last_index_byte a (CHR ''@'') of
        None \<Rightarrow> map_option (\<lambda>h. (None, h)) (parseHost a)
      | Some i \<Rightarrow>
          Option.bind (parseHost (drop (Suc i) a)) (\<lambda>h.
            (let ui = take i a in
             if \<not> validUserinfo ui then None
             else case cut_byte ui (CHR '':'') of
                 (n, None) \<Rightarrow> map_option (\<lambda>n. (Some (n, None), h)) (url_unescape EncodeUserPassword n)
               | (n, Some p) \<Rightarrow>
                   Option.bind (url_unescape EncodeUserPassword n) (\<lambda>n.
                   map_option (\<lambda>p. (Some (n, Some p), h)) (url_unescape EncodeUserPassword p)))))"

definition setPath :: "url \<Rightarrow> string \<Rightarrow> url option" where
  "setPath u p = map_option (\<lambda>d. u\<lparr>u_path := d, u_rawpath := p\<rparr>) (url_unescape EncodePath p)"

definition parse_rest :: "url \<Rightarrow> string \<Rightarrow> url option" where
  "parse_rest u rest =
     (if \<not> has_prefix rest ''/'' \<and> u_scheme u \<noteq> [] then Some (u\<lparr>u_opaque := rest\<rparr>)
      else if \<not> has_prefix rest ''/'' \<and> CHR '':'' \<in> set (fst (cut_byte rest (CHR ''/''))) then None
      else if has_prefix rest ''//'' \<and> (u_scheme u \<noteq> [] \<or> \<not> has_prefix rest ''///'') then
        (let a = drop 2 rest; (auth, path) = (case index_byte a (CHR ''/'') of
             None \<Rightarrow> (a, []) | Some i \<Rightarrow> (take i a, drop i a))
         in Option.bind (parseAuthority auth) (\<lambda>(user, host). setPath (u\<lparr>u_user := user, u_host := host\<rparr>) path))
      else setPath (u\<lparr>u_omithost := u_scheme u \<noteq> [] \<and> has_prefix rest ''/''\<rparr>) rest)"

definition parse_url :: "string \<Rightarrow> url option" where
  "parse_url s =
     (if \<exists>c \<in> set s. (of_char c :: nat) < 0x20 \<or> c = CHR 0x7F then None
      else if s = ''*'' then Some (empty_url\<lparr>u_path := ''*'', u_rawpath := ''*''\<rparr>)
      else Option.bind (getScheme s) (\<lambda>(sch, rest).
        (let u = empty_url\<lparr>u_scheme := map lower_byte sch\<rparr>;
             (rest, q, force) = (case cut_byte rest (CHR ''?'') of
                 (r, None) \<Rightarrow> (r, [], False)
               | (r, Some q) \<Rightarrow> (r, q, q = []))
         in parse_rest (u\<lparr>u_rawquery := q, u_forcequery := force\<rparr>) rest)))"

definition Parse :: "string \<Rightarrow> url option" where
  "Parse raw =
     (case cut_byte raw (CHR ''#'') of (s, frag) \<Rightarrow>
        Option.bind (parse_url s) (\<lambda>u.
          (case frag of
             None \<Rightarrow> Some u
           | Some f \<Rightarrow> map_option (\<lambda>d. u\<lparr>u_fragment := d, u_rawfragment := f\<rparr>) (url_unescape EncodeFragment f))))"

text \<open>
  The escaped forms: the text given when it is a valid encoding of the decoded text, otherwise the
  decoded text encoded again.
\<close>

fun validEncoded :: "url_mode \<Rightarrow> string \<Rightarrow> bool" where
  "validEncoded m s \<longleftrightarrow> list_all (\<lambda>c. c \<in> set (''!$&()*+,;=:@[]%'' @ [CHR 0x27]) \<or> \<not> shouldEscape m c) s"

definition escaped :: "url_mode \<Rightarrow> string \<Rightarrow> string \<Rightarrow> string" where
  "escaped m raw dec = (if validEncoded m raw \<and> url_unescape m raw = Some dec then raw else url_escape m dec)"

definition user_text :: "string \<times> string option \<Rightarrow> string" where
  "user_text ui = (case ui of (n, p) \<Rightarrow> url_escape EncodeUserPassword n
     @ (case p of None \<Rightarrow> [] | Some p \<Rightarrow> CHR '':'' # url_escape EncodeUserPassword p))"

definition url_string :: "url \<Rightarrow> string" where
  "url_string u =
     (let sch = (if u_scheme u = [] then [] else u_scheme u @ '':'');
          body = (if u_opaque u \<noteq> [] then u_opaque u
            else (let auth =
                    (if (u_scheme u \<noteq> [] \<or> u_host u \<noteq> [] \<or> u_user u \<noteq> None)
                        \<and> \<not> (u_omithost u \<and> u_host u = [] \<and> u_user u = None)
                     then (if u_host u \<noteq> [] \<or> u_path u \<noteq> [] \<or> u_user u \<noteq> None then ''//'' else [])
                        @ (case u_user u of None \<Rightarrow> [] | Some ui \<Rightarrow> user_text ui @ ''@'')
                        @ url_escape EncodeHost (u_host u)
                     else []);
                      path = escaped EncodePath (u_rawpath u) (u_path u);
                      slash = (if path \<noteq> [] \<and> hd path \<noteq> CHR ''/'' \<and> u_host u \<noteq> [] then ''/'' else []);
                      dot = (if sch @ auth @ slash = [] \<and> CHR '':'' \<in> set (fst (cut_byte path (CHR ''/'')))
                             then ''./'' else [])
                  in auth @ slash @ dot @ path))
      in sch @ body
         @ (if u_forcequery u \<or> u_rawquery u \<noteq> [] then CHR ''?'' # u_rawquery u else [])
         @ (if u_fragment u \<noteq> [] then CHR ''#'' # escaped EncodeFragment (u_rawfragment u) (u_fragment u) else []))"

section \<open>Addresses\<close>

definition v4_field :: "string \<Rightarrow> nat option" where
  "v4_field s =
     (if s = [] \<or> length s > 3 \<or> (length s > 1 \<and> hd s = CHR ''0'') then None
      else (case parse_digits 0 s of None \<Rightarrow> None | Some n \<Rightarrow> if n \<le> 255 then Some n else None))"

definition parse_v4 :: "string \<Rightarrow> nat list option" where
  "parse_v4 s = (let fs = split_byte (CHR ''.'') s in if length fs = 4 then those (map v4_field fs) else None)"

text \<open>
  \<open>parseIPv6\<close>: \<open>gs\<close> the 16-bit groups read, \<open>el\<close> where the \<open>::\<close> was; at most eight groups, so the
  loop runs at most nine times.
\<close>

fun v6_loop :: "nat \<Rightarrow> nat option \<Rightarrow> nat list \<Rightarrow> string \<Rightarrow> (nat option \<times> nat list) option" where
  "v6_loop 0 el gs s = None"
| "v6_loop (Suc n) el gs s =
     (if length gs \<ge> 8 then (if s = [] then Some (el, gs) else None)
      else (let h = takeWhile (\<lambda>c. hex_val c \<noteq> None) s; r = drop (length h) s in
        if h = [] \<or> length h > 4 then None
        else if has_prefix r ''.'' then
          (if (el = None \<and> length gs \<noteq> 6) \<or> length gs > 6 then None
           else map_option (\<lambda>v. (el, gs @ [256 * v ! 0 + v ! 1, 256 * v ! 2 + v ! 3])) (parse_v4 s))
        else (let gs = gs @ [the (hex_acc (length h) 0 h)] in
          if r = [] then Some (el, gs)
          else if \<not> has_prefix r '':'' \<or> length r = 1 then None
          else if has_prefix r ''::'' then
            (if el \<noteq> None then None
             else if length r = 2 then Some (Some (length gs), gs)
             else v6_loop n (Some (length gs)) gs (drop 2 r))
          else v6_loop n el gs (drop 1 r))))"

definition parse_v6 :: "string \<Rightarrow> nat list option" where
  "parse_v6 s =
     (let start = (if has_prefix s ''::'' then (Some 0, drop 2 s) else (None, s)) in
      if s = ''::'' then Some (replicate 8 0)
      else case v6_loop 9 (fst start) [] (snd start) of
          None \<Rightarrow> None
        | Some (el, gs) \<Rightarrow>
            (case el of
               None \<Rightarrow> if length gs = 8 then Some gs else None
             | Some e \<Rightarrow> if length gs < 8 then Some (take e gs @ replicate (8 - length gs) 0 @ drop e gs) else None))"

datatype ip_addr = V4 "nat list" | V6 "nat list"

text \<open>\<open>net.ParseIP\<close>: the first of \<open>.\<close>, \<open>:\<close> and \<open>%\<close> in the text decides; a zone is refused.\<close>

definition ParseIP :: "string \<Rightarrow> ip_addr option" where
  "ParseIP s =
     (case dropWhile (\<lambda>c. c \<notin> set ''.:%'') s of
        [] \<Rightarrow> None
      | c # _ \<Rightarrow> if c = CHR ''.'' then map_option V4 (parse_v4 s)
                 else if c = CHR '':'' \<and> CHR ''%'' \<notin> set s then map_option V6 (parse_v6 s) else None)"

fun IsLoopback :: "ip_addr \<Rightarrow> bool" where
  "IsLoopback (V4 v) \<longleftrightarrow> v ! 0 = 127"
| "IsLoopback (V6 g) \<longleftrightarrow> g = [0, 0, 0, 0, 0, 0, 0, 1]
     \<or> (take 6 g = [0, 0, 0, 0, 0, 0xFFFF] \<and> g ! 6 div 256 = 127)"

definition Hostname :: "url \<Rightarrow> string" where
  "Hostname u =
     (let h = u_host u;
          h = (case last_index_byte h (CHR '':'') of
                 None \<Rightarrow> h | Some i \<Rightarrow> if validOptionalPort (drop i h) then take i h else h)
      in if has_prefix h ''['' \<and> has_suffix h '']'' then take (length h - 2) (drop 1 h) else h)"

section \<open>Decoding undoes encoding\<close>

lemma upper_hex_val: "n < 16 \<Longrightarrow> hex_val (upper_hex n) = Some n"
proof -
  have "list_all (\<lambda>n. hex_val (upper_hex n) = Some n) [0..<16]" by code_simp
  then show "n < 16 \<Longrightarrow> hex_val (upper_hex n) = Some n" by (simp add: list_all_iff)
qed

lemma unescape_pct: "url_unescape EncodeQuery (pct c @ t) = map_option (\<lambda>r. c # r) (url_unescape EncodeQuery t)"
proof -
  have "(of_char c :: nat) div 16 < 16" by (simp add: less_mult_imp_div_less)
  then show ?thesis by (simp add: pct_def upper_hex_val)
qed

lemma query_escape_Cons: "query_escape (c # s) =
    (if c = CHR '' '' then ''+'' else if shouldEscape EncodeQuery c then pct c else [c]) @ query_escape s"
  by (simp add: query_escape_def url_escape_def)

lemma query_escape_Nil [simp]: "query_escape [] = []"
  by (simp add: query_escape_def url_escape_def)

lemma query_special: "shouldEscape EncodeQuery (CHR ''%'')" "shouldEscape EncodeQuery (CHR ''+'')"
  "shouldEscape EncodeQuery (CHR ''&'')" "shouldEscape EncodeQuery (CHR ''='')" "shouldEscape EncodeQuery (CHR '';'')"
  "shouldEscape EncodeQuery (CHR ''#'')" "shouldEscape EncodeQuery (CHR ''?'')"
  by code_simp+

lemma query_unescape_escape: "url_unescape EncodeQuery (query_escape s) = Some s"
proof (induction s)
  case Nil
  then show ?case by simp
next
  case (Cons c s)
  have "c \<noteq> CHR ''%''" "c \<noteq> CHR ''+''" if "\<not> shouldEscape EncodeQuery c" using that query_special by auto
  then show ?case using Cons by (simp add: query_escape_Cons unescape_pct)
qed

lemma upper_hex_in: "n < 16 \<Longrightarrow> upper_hex n \<in> set ''0123456789ABCDEF''"
  unfolding upper_hex_def by (rule nth_mem) simp

lemma query_escape_clean:
  assumes "x \<in> set (query_escape s)"
  shows "x \<notin> {CHR ''&'', CHR ''='', CHR '';'', CHR ''#'', CHR ''?''}"
  using assms
proof (induction s)
  case Nil
  then show ?case by simp
next
  case (Cons c s)
  have "upper_hex (of_char c div 16) \<in> set ''0123456789ABCDEF''" "upper_hex (of_char c mod 16) \<in> set ''0123456789ABCDEF''"
    by (rule upper_hex_in, simp add: less_mult_imp_div_less)+
  then have "set (pct c) \<subseteq> insert (CHR ''%'') (set ''0123456789ABCDEF'')" unfolding pct_def by simp
  then have "x \<in> set (pct c) \<Longrightarrow> x \<notin> {CHR ''&'', CHR ''='', CHR '';'', CHR ''#'', CHR ''?''}" by auto
  moreover have "\<not> shouldEscape EncodeQuery c \<Longrightarrow> c \<notin> {CHR ''&'', CHR ''='', CHR '';'', CHR ''#'', CHR ''?''}"
    using query_special by auto
  ultimately show ?case using Cons by (auto simp: query_escape_Cons split: if_splits)
qed

lemma split_byte_clean: "c \<notin> set s \<Longrightarrow> split_byte c s = [s]"
  by (induction s) auto

lemma split_byte_append: "c \<notin> set s \<Longrightarrow> split_byte c (s @ c # t) = s # split_byte c t"
  by (induction s) auto

text \<open>Lines that end in a newline each are scanned as they were written.\<close>

definition scannable :: "nat \<Rightarrow> string \<Rightarrow> bool" where
  "scannable n l \<longleftrightarrow> length l < n \<and> CHR 0x0A \<notin> set l \<and> (l = [] \<or> last l \<noteq> CHR 0x0D)"

lemma scan_lines_written:
  assumes "\<forall>l \<in> set ls. scannable n l"
  shows "scan_lines n (concat (map (\<lambda>l. l @ [CHR 0x0A]) ls)) = ls"
proof -
  have "split_byte (CHR 0x0A) (concat (map (\<lambda>l. l @ [CHR 0x0A]) ls)) = ls @ [[]]"
    using assms by (induction ls) (simp_all add: split_byte_append scannable_def)
  then have dl: "drop_last_empty (split_byte (CHR 0x0A) (concat (map (\<lambda>l. l @ [CHR 0x0A]) ls))) = ls"
    by (simp add: drop_last_empty_def)
  have tw: "takeWhile (\<lambda>l. length l < n) ls = ls" using assms by (simp add: takeWhile_eq_all_conv scannable_def)
  have cr: "map drop_cr ls = ls" using assms by (induction ls) (auto simp: drop_cr_def scannable_def)
  show ?thesis by (simp only: scan_lines_def dl tw cr)
qed

lemma cut_byte_append: "c \<notin> set a \<Longrightarrow> cut_byte (a @ c # b) c = (a, Some b)"
  by (simp add: cut_byte_def)

definition encode_pair :: "string \<times> string \<Rightarrow> string" where
  "encode_pair kv = query_escape (fst kv) @ CHR ''='' # query_escape (snd kv)"

lemma encode_pair_clean: "c \<in> {CHR ''&'', CHR ''#''} \<Longrightarrow> c \<notin> set (encode_pair kv)"
  using query_escape_clean by (auto simp: encode_pair_def)

lemma query_pair_encode: "query_pair (encode_pair kv) = Some kv"
proof -
  have "CHR '';'' \<notin> set (encode_pair kv)" using query_escape_clean by (auto simp: encode_pair_def)
  moreover have "cut_byte (encode_pair kv) (CHR ''='') = (query_escape (fst kv), Some (query_escape (snd kv)))"
    unfolding encode_pair_def using query_escape_clean by (intro cut_byte_append) auto
  ultimately show ?thesis
    by (simp add: query_pair_def query_unescape_escape) (simp add: encode_pair_def)
qed

lemma split_join_pairs:
  "kvs \<noteq> [] \<Longrightarrow> split_byte (CHR ''&'') (join_amp (map encode_pair kvs)) = map encode_pair kvs"
proof (induction kvs)
  case Nil
  then show ?case by simp
next
  case (Cons kv kvs)
  then show ?case
    using encode_pair_clean [of "CHR ''&''" kv]
    by (cases kvs) (simp_all add: split_byte_clean split_byte_append)
qed

lemma values_encode_alt: "values_encode kvs = join_amp (map encode_pair (sort_key fst kvs))"
proof -
  have "encode_pair = (\<lambda>(k, v). query_escape k @ CHR ''='' # query_escape v)"
    by (simp add: encode_pair_def fun_eq_iff)
  then show ?thesis by (simp add: values_encode_def)
qed

lemma parse_values_encode: "parse_query (values_encode kvs) = sort_key fst kvs"
proof (cases "kvs = []")
  case True
  then show ?thesis by (simp add: values_encode_alt parse_query_def query_pair_def)
next
  case False
  then have "sort_key fst kvs \<noteq> []" by (metis length_0_conv length_sort)
  moreover have "List.map_filter query_pair (map encode_pair xs) = xs" for xs
    by (induction xs) (simp_all add: query_pair_encode)
  ultimately show ?thesis by (simp add: values_encode_alt parse_query_def split_join_pairs)
qed

lemma map_of_sort_key:
  fixes kvs :: "(string \<times> string) list"
  shows "map_of (sort_key fst kvs) k = map_of kvs k"
proof -
  have m: "map_of xs k = (case filter (\<lambda>kv. fst kv = k) xs of [] \<Rightarrow> None | kv # _ \<Rightarrow> Some (snd kv))"
    for xs :: "(string \<times> string) list"
    by (induction xs) auto
  show ?thesis using sort_key_stable [of fst k kvs] by (simp only: m)
qed

text \<open>What is set in a query is read back from its encoding.\<close>

lemma query_read_back:
  "first_value (parse_query (values_encode (values_set k v kvs))) x =
     (if x = k then v else first_value kvs x)"
proof -
  have "map_of (filter (\<lambda>kv. fst kv \<noteq> k) kvs) x = (if x = k then None else map_of kvs x)"
    by (induction kvs) auto
  then show ?thesis
    by (simp add: parse_values_encode first_value_def map_of_sort_key values_set_def map_add_def split: option.split)
qed

end
