(* ===== verification/Headers.thy ===== *)
theory Headers
  imports Http
begin

text \<open>
  \<open>http.Header\<close>: a map from canonical names to values. \<open>CanonicalHeaderKey\<close> upper-cases the first
  letter and every letter after a hyphen and lower-cases the others; a name with a byte that is no
  token byte is left alone.
\<close>

type_synonym headers = "string \<rightharpoonup> string list"

definition upper_byte :: "char \<Rightarrow> char" where
  "upper_byte c = (if in_range 97 122 c then char_of ((of_char c :: nat) - 32) else c)"

definition token_byte :: "char \<Rightarrow> bool" where
  "token_byte c \<longleftrightarrow> in_range 48 57 c \<or> in_range 65 90 c \<or> in_range 97 122 c
     \<or> (of_char c :: nat) \<in> {33, 35, 36, 37, 38, 39, 42, 43, 45, 46, 94, 95, 96, 124, 126}"

fun canonical_bytes :: "bool \<Rightarrow> string \<Rightarrow> string" where
  "canonical_bytes up [] = []"
| "canonical_bytes up (c # s) = (if up then upper_byte c else lower_byte c) # canonical_bytes (c = CHR ''-'') s"

definition canonical :: "string \<Rightarrow> string" where
  "canonical k = (if list_all token_byte k then canonical_bytes True k else k)"

definition hdr_set :: "string \<Rightarrow> string \<Rightarrow> headers \<Rightarrow> headers" where
  "hdr_set k v h = h(canonical k \<mapsto> [v])"

definition hdr_add :: "string \<Rightarrow> string \<Rightarrow> headers \<Rightarrow> headers" where
  "hdr_add k v h = h(canonical k \<mapsto> (case h (canonical k) of None \<Rightarrow> [v] | Some vs \<Rightarrow> vs @ [v]))"

definition hdr_del :: "string \<Rightarrow> headers \<Rightarrow> headers" where
  "hdr_del k h = h(canonical k := None)"

definition hdr_get :: "headers \<Rightarrow> string \<Rightarrow> string" where
  "hdr_get h k = (case h (canonical k) of Some (v # vs) \<Rightarrow> v | _ \<Rightarrow> [])"

text \<open>\<open>for k, vals := range src { dst[CanonicalHeaderKey(k)] = vals }\<close>, in the order of the iteration.\<close>

definition copyHeaders :: "headers \<Rightarrow> (string \<times> string list) list \<Rightarrow> headers" where
  "copyHeaders dst src = fold (\<lambda>(k, vals) h. h(canonical k \<mapsto> vals)) src dst"

lemma byte_values:
  "(of_char (upper_byte c) :: nat) = (if 97 \<le> (of_char c :: nat) \<and> (of_char c :: nat) \<le> 122 then of_char c - 32 else of_char c)"
  "(of_char (lower_byte c) :: nat) = (if 65 \<le> (of_char c :: nat) \<and> (of_char c :: nat) \<le> 90 then of_char c + 32 else of_char c)"
  by (auto simp: upper_byte_def lower_byte_def in_range_def intro!: mod_less)

lemma bytes_fold [simp]:
  "upper_byte (upper_byte c) = upper_byte c" "lower_byte (lower_byte c) = lower_byte c"
  "token_byte (upper_byte c) = token_byte c" "token_byte (lower_byte c) = token_byte c"
  "upper_byte c = CHR ''-'' \<longleftrightarrow> c = CHR ''-''" "lower_byte c = CHR ''-'' \<longleftrightarrow> c = CHR ''-''"
proof -
  have d: "c = CHR ''-'' \<longleftrightarrow> (of_char c :: nat) = 45" for c by (simp only: char_code_eq) simp
  show "upper_byte (upper_byte c) = upper_byte c" "lower_byte (lower_byte c) = lower_byte c"
    by (simp_all only: char_code_eq byte_values) auto
  show "token_byte (upper_byte c) = token_byte c"
  proof (cases "in_range 97 122 c")
    case True
    then have "in_range 65 90 (upper_byte c)" unfolding in_range_def byte_values by auto
    with True show ?thesis by (simp add: token_byte_def)
  qed (simp add: upper_byte_def)
  show "token_byte (lower_byte c) = token_byte c"
  proof (cases "in_range 65 90 c")
    case True
    then have "in_range 97 122 (lower_byte c)" unfolding in_range_def byte_values by auto
    with True show ?thesis by (simp add: token_byte_def)
  qed (simp add: lower_byte_def)
  show "upper_byte c = CHR ''-'' \<longleftrightarrow> c = CHR ''-''" "lower_byte c = CHR ''-'' \<longleftrightarrow> c = CHR ''-''"
    by (simp_all only: d byte_values) auto
qed

lemma canonical_bytes_twice: "canonical_bytes up (canonical_bytes up s) = canonical_bytes up s"
  by (induction s arbitrary: up) auto

lemma canonical_bytes_token: "list_all token_byte (canonical_bytes up s) = list_all token_byte s"
  by (induction s arbitrary: up) auto

lemma canonical_idem [simp]: "canonical (canonical k) = canonical k"
  by (simp add: canonical_def canonical_bytes_twice canonical_bytes_token)

text \<open>A copied name has the value of its last occurrence; the others keep theirs.\<close>

lemma copyHeaders_simps [simp]:
  "copyHeaders dst [] = dst" "copyHeaders dst ((k, vals) # src) = copyHeaders (dst(canonical k \<mapsto> vals)) src"
  by (simp_all add: copyHeaders_def)

lemma copyHeaders_other:
  "k \<notin> (canonical \<circ> fst) ` set src \<Longrightarrow> copyHeaders dst src k = dst k"
  by (induction src arbitrary: dst) auto

lemma copyHeaders_in:
  assumes "(k, vals) \<in> set src" and "distinct (map (canonical \<circ> fst) src)"
  shows "copyHeaders dst src (canonical k) = Some vals"
  using assms
proof (induction src arbitrary: dst)
  case (Cons kv src)
  obtain a b where kv: "kv = (a, b)" by fastforce
  show ?case
  proof (cases "(k, vals) \<in> set src")
    case True
    with Cons kv show ?thesis by simp
  next
    case False
    with Cons.prems kv have "k = a" "vals = b" "canonical k \<notin> (canonical \<circ> fst) ` set src" by auto
    then show ?thesis by (simp add: kv copyHeaders_other)
  qed
qed simp

end
