(* ===== verification/Cli.thy ===== *)
theory Cli
  imports Go_Url Headers
begin

text \<open>
  \<open>internal/cli/cli.go\<close> and what it uses of Go's \<open>flag\<close>: a flag set is a list of names and kinds,
  parsing yields the settings in the order they are made, and the arguments that are left. The
  control-plane client is a function of the HTTP client.
\<close>

section \<open>Flags\<close>

datatype flag_kind = Bool_flag | String_flag | Int_flag | Header_flag

datatype flag_error = Bad_syntax string | Undefined string | Help | Bad_value string string | Needs_argument string

type_synonym flag_set = "(string \<times> flag_kind) list"

definition bool_words :: "string list" where
  "bool_words = [''1'', ''t'', ''T'', ''TRUE'', ''true'', ''True'', ''0'', ''f'', ''F'', ''FALSE'', ''false'', ''False'']"

text \<open>
  \<open>ParseInt(s, 0, 64)\<close>: the base from the prefix, underscores between digits (and after a prefix)
  when there is no base argument.
\<close>

definition base_of :: "string \<Rightarrow> nat \<times> string \<times> bool" where
  "base_of s =
     (if has_prefix s ''0x'' \<or> has_prefix s ''0X'' then (16, drop 2 s, True)
      else if has_prefix s ''0b'' \<or> has_prefix s ''0B'' then (2, drop 2 s, True)
      else if has_prefix s ''0o'' \<or> has_prefix s ''0O'' then (8, drop 2 s, True)
      else if has_prefix s ''0'' \<and> length s > 1 then (8, drop 1 s, True)
      else (10, s, False))"

fun digits_value :: "nat \<Rightarrow> bool \<Rightarrow> nat \<Rightarrow> string \<Rightarrow> nat option" where
  "digits_value base und acc [] = (if und then None else Some acc)"
| "digits_value base und acc (c # s) =
     (if c = CHR ''_'' then (if und then None else digits_value base True acc s)
      else (case hex_val c of
          None \<Rightarrow> None
        | Some d \<Rightarrow> if d < base then digits_value base False (base * acc + d) s else None))"

definition parse_int_any :: "string \<Rightarrow> int option" where
  "parse_int_any s =
     (let neg = has_prefix s ''-''; t = (if neg \<or> has_prefix s ''+'' then drop 1 s else s) in
      case base_of t of (base, digits, prefixed) \<Rightarrow>
        if digits = [] \<or> \<not> prefixed \<and> hd digits = CHR ''_'' then None
        else (case digits_value base False 0 digits of
            None \<Rightarrow> None
          | Some n \<Rightarrow> if neg then (if n \<le> 2 ^ 63 then Some (- int n) else None)
                      else if n < 2 ^ 63 then Some (int n) else None))"

text \<open>The \<open>Set\<close> method of \<open>headerFlag\<close>: name and value around the first colon.\<close>

definition header_setting :: "string \<Rightarrow> (string \<times> string) option" where
  "header_setting s =
     (case cut_byte s (CHR '':'') of
        (name, None) \<Rightarrow> None
      | (name, Some v) \<Rightarrow> if trim_space name = [] then None else Some (trim_space name, trim_space v))"

fun flag_ok :: "flag_kind \<Rightarrow> string \<Rightarrow> bool" where
  "flag_ok Bool_flag v = (v \<in> set bool_words)"
| "flag_ok String_flag v = True"
| "flag_ok Int_flag v = (parse_int_any v \<noteq> None)"
| "flag_ok Header_flag v = (header_setting v \<noteq> None)"

definition cut_eq :: "string \<Rightarrow> string \<times> string option" where
  "cut_eq name = (case index_byte (tl name) (CHR ''='') of
     None \<Rightarrow> (name, None) | Some i \<Rightarrow> (take (Suc i) name, Some (drop (i + 2) name)))"

definition flag_name :: "string \<Rightarrow> string" where
  "flag_name s = drop (if s ! 1 = CHR ''-'' then 2 else 1) s"

fun and_setting :: "string \<times> string \<Rightarrow> flag_error + (string \<times> string) list \<times> string list
    \<Rightarrow> flag_error + (string \<times> string) list \<times> string list" where
  "and_setting kv (Inl e) = Inl e"
| "and_setting kv (Inr (kvs, rest)) = Inr (kv # kvs, rest)"

text \<open>The value of a flag in \<open>parseOne\<close>: the setting it makes and the arguments after it.\<close>

definition set_flag :: "flag_kind \<Rightarrow> string \<Rightarrow> string \<Rightarrow> string list \<Rightarrow> flag_error + (string \<times> string) \<times> string list" where
  "set_flag k name v args = (if flag_ok k v then Inr ((name, v), args) else Inl (Bad_value name v))"

definition parse_one :: "flag_set \<Rightarrow> string \<Rightarrow> string list \<Rightarrow> flag_error + (string \<times> string) \<times> string list" where
  "parse_one fs s args =
     (if flag_name s = [] \<or> hd (flag_name s) \<in> {CHR ''-'', CHR ''=''} then Inl (Bad_syntax s)
      else (case cut_eq (flag_name s) of (name, value) \<Rightarrow>
        (case map_of fs name of
           None \<Rightarrow> Inl (if name = ''help'' \<or> name = ''h'' then Help else Undefined name)
         | Some k \<Rightarrow>
             (case value of
                Some v \<Rightarrow> set_flag k name v args
              | None \<Rightarrow>
                  if k = Bool_flag then Inr ((name, ''true''), args)
                  else (case args of [] \<Rightarrow> Inl (Needs_argument name) | v # args \<Rightarrow> set_flag k name v args)))))"

lemma parse_one_shorter: "parse_one fs s args = Inr (kv, rest) \<Longrightarrow> length rest \<le> length args"
  by (auto simp: parse_one_def set_flag_def split: if_splits prod.splits option.splits list.splits)

text \<open>\<open>FlagSet.Parse\<close>: stops at the first argument that is no flag, or after a \<open>--\<close>.\<close>

function flag_parse :: "flag_set \<Rightarrow> string list \<Rightarrow> flag_error + (string \<times> string) list \<times> string list" where
  "flag_parse fs [] = Inr ([], [])"
| "flag_parse fs (s # args) =
     (if length s < 2 \<or> hd s \<noteq> CHR ''-'' then Inr ([], s # args)
      else if s = ''--'' then Inr ([], args)
      else (case parse_one fs s args of
          Inl e \<Rightarrow> Inl e
        | Inr (kv, rest) \<Rightarrow> and_setting kv (flag_parse fs rest)))"
  by pat_completeness auto
termination
  by (relation "measure (\<lambda>(fs, args). length args)") (auto dest: parse_one_shorter)

lemma and_setting_Inr: "and_setting kv r = Inr (kvs, rest) \<Longrightarrow> \<exists>kvs'. r = Inr (kvs', rest) \<and> kvs = kv # kvs'"
  by (cases "(kv, r)" rule: and_setting.cases) auto

lemma flag_parse_shorter: "flag_parse fs args = Inr (kvs, rest) \<Longrightarrow> length rest \<le> length args"
proof (induction fs args arbitrary: kvs rule: flag_parse.induct)
  case (2 fs s args)
  show ?case
  proof (cases "length s < 2 \<or> hd s \<noteq> CHR ''-'' \<or> s = ''--''")
    case False
    with "2.prems" obtain kv r where o: "parse_one fs s args = Inr (kv, r)" "and_setting kv (flag_parse fs r) = Inr (kvs, rest)"
      by (auto split: sum.splits)
    then obtain kvs' where "flag_parse fs r = Inr (kvs', rest)" using and_setting_Inr by blast
    with "2.IH" False o(1) have "length rest \<le> length r" by auto
    with parse_one_shorter [OF o(1)] show ?thesis by simp
  qed (use "2.prems" in auto)
qed simp

text \<open>\<open>ParseIntermixed\<close>: the loop takes at least one argument in every round.\<close>

function ParseIntermixed :: "flag_set \<Rightarrow> string list \<Rightarrow> flag_error + (string \<times> string) list \<times> string list" where
  "ParseIntermixed fs args =
     (if args = [] then Inr ([], [])
      else (case flag_parse fs args of
          Inl e \<Rightarrow> Inl e
        | Inr (kvs, []) \<Rightarrow> Inr (kvs, [])
        | Inr (kvs, p # rest) \<Rightarrow>
            (case ParseIntermixed fs rest of
               Inl e \<Rightarrow> Inl e
             | Inr (kvs', ps) \<Rightarrow> Inr (kvs @ kvs', p # ps))))"
  by pat_completeness auto
termination
  by (relation "measure (\<lambda>(fs, args). length args)") (auto dest: flag_parse_shorter)

declare ParseIntermixed.simps [simp del]

text \<open>The value of a flag: its last setting, or the default. Headers add up.\<close>

definition flag_value :: "string \<Rightarrow> string \<Rightarrow> (string \<times> string) list \<Rightarrow> string" where
  "flag_value name dflt kvs = (case map_of (rev kvs) name of None \<Rightarrow> dflt | Some v \<Rightarrow> v)"

definition flag_true :: "string \<Rightarrow> (string \<times> string) list \<Rightarrow> bool" where
  "flag_true name kvs \<longleftrightarrow> flag_value name ''false'' kvs \<in> set (take 6 bool_words)"

text \<open>A header map as the list of its entries, in the order they were made.\<close>

definition list_add :: "string \<times> string \<Rightarrow> (string \<times> string list) list \<Rightarrow> (string \<times> string list) list" where
  "list_add kv hs = (let k = canonical (fst kv) in
     if k \<in> fst ` set hs then map (\<lambda>(k', vs). (k', if k' = k then vs @ [snd kv] else vs)) hs else hs @ [(k, [snd kv])])"

definition flag_headers :: "(string \<times> string) list \<Rightarrow> (string \<times> string list) list" where
  "flag_headers kvs = fold list_add (concat (map (\<lambda>(k, v). if k = ''header'' then
     (case header_setting v of None \<Rightarrow> [] | Some kv \<Rightarrow> [kv]) else []) kvs)) []"

section \<open>The control-plane client\<close>

definition DefaultServer :: string where
  "DefaultServer = ''https://t-mcptunnels.terragohan.com''"

definition NewClient :: "string \<Rightarrow> string" where
  "NewClient server = trim_right server ''/''"

record api_request =
  aq_method :: string
  aq_url :: string
  aq_headers :: headers
  aq_body :: "string option"

datatype cli_error = Request_error | Transport_error string | Read_error | Api_error string "string option" | Decode_error

definition api_url :: "string \<Rightarrow> string \<Rightarrow> (string \<times> string) list \<Rightarrow> string" where
  "api_url base path query = base @ ''/api/v1'' @ path @ (if query = [] then [] else ''?'' @ values_encode query)"

definition make_request :: "string \<Rightarrow> string \<Rightarrow> string \<Rightarrow> (string \<times> string) list \<Rightarrow> json option \<Rightarrow> api_request" where
  "make_request base m path query body =
     \<lparr>aq_method = m, aq_url = api_url base path query,
      aq_headers = (if body = None then Map.empty else hdr_set ''Content-Type'' ''application/json'' Map.empty),
      aq_body = map_option json_enc body\<rparr>"

text \<open>The message of an error response, \<open>None\<close> for the standard text of its code.\<close>

definition api_message :: "string \<Rightarrow> string option" where
  "api_message data =
     (case Option.bind (unmarshal data) (\<lambda>j. Option.bind (members j) (decode_field as_string None ''error'' [])) of
        Some (c # e) \<Rightarrow> Some (c # e) | _ \<Rightarrow> None)"

text \<open>
  \<open>Do\<close>: \<open>client\<close> answers with status code, status, the body and the error that ends it; \<open>dec\<close> decodes
  the document into the caller's value. \<open>Inr None\<close> is an empty body.
\<close>

definition cli_Do ::
  "string \<Rightarrow> string \<Rightarrow> string \<Rightarrow> (string \<times> string) list \<Rightarrow> json option \<Rightarrow> (json \<Rightarrow> 'a option)
     \<Rightarrow> (api_request \<Rightarrow> 'u \<Rightarrow> (string + nat \<times> string \<times> string \<times> string option) \<times> 'u) \<Rightarrow> 'u \<Rightarrow> (cli_error + 'a option) \<times> 'u" where
  "cli_Do base m path query body dec client u =
     (if Parse (api_url base path query) = None then (Inl Request_error, u)
      else (case client (make_request base m path query body) u of
          (Inl e, u) \<Rightarrow> (Inl (Transport_error e), u)
        | (Inr (code, status, data, err), u) \<Rightarrow>
            if err \<noteq> None \<and> length data < 1048576 then (Inl Read_error, u)
            else (let data = take 1048576 data in
              if code < 200 \<or> 300 \<le> code then (Inl (Api_error status (api_message data)), u)
              else if data = [] then (Inr None, u)
              else (case Option.bind (unmarshal data) dec of
                  None \<Rightarrow> (Inl Decode_error, u)
                | Some x \<Rightarrow> (Inr (Some x), u)))))"

section \<open>Flags and positionals in any order\<close>

text \<open>An argument list written out: flags with their value after an equals sign, and positionals.\<close>

datatype arg = Flag string string | Positional string

fun render :: "arg \<Rightarrow> string" where
  "render (Flag name v) = ''--'' @ name @ ''='' @ v"
| "render (Positional p) = p"

fun arg_ok :: "flag_set \<Rightarrow> arg \<Rightarrow> bool" where
  "arg_ok fs (Flag name v) \<longleftrightarrow> name \<noteq> [] \<and> hd name \<noteq> CHR ''-'' \<and> CHR ''='' \<notin> set name
     \<and> (case map_of fs name of None \<Rightarrow> False | Some k \<Rightarrow> flag_ok k v)"
| "arg_ok fs (Positional p) \<longleftrightarrow> length p < 2 \<or> hd p \<noteq> CHR ''-''"

definition settings :: "arg list \<Rightarrow> (string \<times> string) list" where
  "settings as = concat (map (\<lambda>a. case a of Flag name v \<Rightarrow> [(name, v)] | _ \<Rightarrow> []) as)"

definition positionals :: "arg list \<Rightarrow> string list" where
  "positionals as = concat (map (\<lambda>a. case a of Positional p \<Rightarrow> [p] | _ \<Rightarrow> []) as)"

lemma settings_simps [simp]:
  "settings [] = []" "settings (Flag name v # as) = (name, v) # settings as" "settings (Positional p # as) = settings as"
  "positionals [] = []" "positionals (Flag name v # as) = positionals as" "positionals (Positional p # as) = p # positionals as"
  by (simp_all add: settings_def positionals_def)

lemma flag_parse_flag:
  assumes "arg_ok fs (Flag name v)"
  shows "flag_parse fs (render (Flag name v) # args) = and_setting (name, v) (flag_parse fs args)"
proof -
  from assms obtain c n k where name: "name = c # n" "c \<noteq> CHR ''-''" "c \<noteq> CHR ''=''" "CHR ''='' \<notin> set n"
    and k: "map_of fs name = Some k" "flag_ok k v" by (cases name) (auto split: option.splits)
  have "cut_eq (name @ ''='' @ v) = (name, Some v)"
    using name by (simp add: cut_eq_def)
  moreover have "flag_name (render (Flag name v)) = name @ ''='' @ v" by (simp add: flag_name_def)
  moreover have "length (render (Flag name v)) \<ge> 2" "hd (render (Flag name v)) = CHR ''-''" "render (Flag name v) \<noteq> ''--''" by simp_all
  ultimately show ?thesis
    using k name by (simp add: parse_one_def set_flag_def del: render.simps)
qed

lemma flag_parse_prefix:
  assumes "list_all (arg_ok fs) as"
  shows "flag_parse fs (map render as) =
    (case dropWhile (\<lambda>a. \<exists>name v. a = Flag name v) as of
       [] \<Rightarrow> Inr (settings as, [])
     | r \<Rightarrow> Inr (settings (takeWhile (\<lambda>a. \<exists>name v. a = Flag name v) as), map render r))"
  using assms
proof (induction as)
  let ?flag = "\<lambda>a. \<exists>name v. a = Flag name v"
  case (Cons a as)
  show ?case
  proof (cases a)
    case (Flag name v)
    have "flag_parse fs (map render (a # as)) = and_setting (name, v) (flag_parse fs (map render as))"
      using Cons.prems flag_parse_flag [of fs name v "map render as"] Flag by simp
    moreover have "takeWhile ?flag as = as" if "dropWhile ?flag as = []"
      using that by (simp add: dropWhile_eq_Nil_conv takeWhile_eq_all_conv)
    ultimately show ?thesis
      using Cons Flag by (cases "dropWhile ?flag as") (simp_all del: flag_parse.simps dropWhile_eq_Nil_conv)
  next
    case (Positional p)
    with Cons.prems show ?thesis by auto
  qed
qed simp

text \<open>What is parsed does not depend on how flags and positionals are mixed.\<close>

lemma ParseIntermixed_render:
  assumes "list_all (arg_ok fs) as"
  shows "ParseIntermixed fs (map render as) = Inr (settings as, positionals as)"
  using assms
proof (induction "length as" arbitrary: as rule: less_induct)
  case less
  let ?flag = "\<lambda>a. \<exists>name v. a = Flag name v"
  show ?case
  proof (cases "dropWhile ?flag as")
    case Nil
    then have all: "\<forall>a \<in> set as. ?flag a" by (simp add: dropWhile_eq_Nil_conv)
    then have "positionals as = []" by (induction as) auto
    with flag_parse_prefix [OF less.prems] Nil show ?thesis
      by (subst ParseIntermixed.simps) (cases as; simp)
  next
    case (Cons r rs)
    have as: "as = takeWhile ?flag as @ r # rs" using Cons takeWhile_dropWhile_id [of ?flag as] by simp
    have "\<not> ?flag r" using hd_dropWhile [of ?flag as] Cons by simp
    then obtain p where r: "r = Positional p" by (cases r) auto
    have "length rs < length as" by (subst as) simp
    moreover have "list_all (arg_ok fs) rs" using less.prems by (subst (asm) as) simp
    ultimately have IH: "ParseIntermixed fs (map render rs) = Inr (settings rs, positionals rs)" by (rule less.hyps)
    have nopos: "positionals (takeWhile ?flag as) = []" by (induction as) auto
    have app: "settings (xs @ ys) = settings xs @ settings ys" "positionals (xs @ ys) = positionals xs @ positionals ys" for xs ys
      by (simp_all add: settings_def positionals_def)
    have "settings as = settings (takeWhile ?flag as) @ settings rs" "positionals as = p # positionals rs"
      by (subst as; simp add: app nopos r)+
    moreover have "as \<noteq> []" using Cons by auto
    ultimately show ?thesis
      using flag_parse_prefix [OF less.prems] Cons IH r
      by (subst ParseIntermixed.simps) simp
  qed
qed

end
