(* ===== verification/Database.thy ===== *)
theory Database
  imports Prelude
begin

text \<open>
  The relational state both storage backends keep: the tables of the schema in
  \<open>internal/store/store.go\<close> (and of \<open>migrate\<close> in \<open>internal/stored1/stored1.go\<close>), the SQL
  statements the two packages issue, one constructor per statement text, and the meaning SQL
  gives them: primary keys, foreign keys with \<open>ON DELETE CASCADE\<close>, \<open>WHERE\<close> clauses. The last
  section proves that no statement breaks the keys.
\<close>

section \<open>Tables\<close>

record tenant_row =
  tr_slug :: string
  tr_display_name :: string
  tr_created_at :: int
  tr_expires_at :: "int option"

record service_row =
  sr_tenant_slug :: string
  sr_name :: string
  sr_agent_key_hash :: string
  sr_auth_mode :: string
  sr_password_hash :: string
  sr_created_at :: int

record rate_row =
  rr_ip :: string
  rr_window_start :: int
  rr_count :: int

record key_row =
  kr_tenant_slug :: string
  kr_private_key_pem :: string
  kr_created_at :: int

record client_row =
  cr_tenant_slug :: string
  cr_client_id :: string
  cr_redirect_uris :: string
  cr_created_at :: int

record code_row =
  ac_code_hash :: string
  ac_tenant_slug :: string
  ac_client_id :: string
  ac_redirect_uri :: string
  ac_code_challenge :: string
  ac_expires_at :: int
  ac_used_at :: "int option"

record database =
  tenants :: "tenant_row list"
  services :: "service_row list"
  quick_rate :: "rate_row list"
  signing_keys :: "key_row list"
  oauth_clients :: "client_row list"
  auth_codes :: "code_row list"

definition empty_db :: database where
  "empty_db = \<lparr>tenants = [], services = [], quick_rate = [], signing_keys = [],
     oauth_clients = [], auth_codes = []\<rparr>"

text \<open>The primary keys of the schema, as functions of a row.\<close>

definition service_key :: "service_row \<Rightarrow> string \<times> string" where
  "service_key r = (sr_tenant_slug r, sr_name r)"

definition rate_key :: "rate_row \<Rightarrow> string \<times> int" where
  "rate_key r = (rr_ip r, rr_window_start r)"

definition client_key :: "client_row \<Rightarrow> string \<times> string" where
  "client_key r = (cr_tenant_slug r, cr_client_id r)"

definition has_tenant :: "database \<Rightarrow> string \<Rightarrow> bool" where
  "has_tenant d slug \<longleftrightarrow> slug \<in> tr_slug ` set (tenants d)"

section \<open>Statements\<close>

text \<open>
  One constructor per SQL text of the two packages, with its bound parameters in order.
  \<open>Insert_service\<close> is the SQLite store's plain \<open>INSERT\<close>, \<open>Insert_service_if\<close> the D1 store's
  \<open>INSERT ... SELECT ... WHERE EXISTS\<close>; every other statement is the same text in both.
\<close>

datatype statement =
    Insert_tenant string string int "int option"
  | Select_tenant string
  | Delete_tenant string
  | Select_expired int
  | Count_live int
  | Prune_rate int
  | Upsert_rate string int
  | Select_rate string int
  | Insert_service string string string string string int
  | Insert_service_if string string string string string int
  | Select_service string string
  | Insert_key_or_ignore string string int
  | Select_key string
  | Insert_client string string string int
  | Select_client string string
  | Insert_code string string string string string int
  | Claim_code int string
  | Select_code string

datatype sql_value = SQL_Null | SQL_Int int | SQL_Text string

type_synonym sql_row = "(string \<times> sql_value) list"

text \<open>
  A statement that ran: the rows it returned, the rows it changed itself, and the rows foreign
  keys changed on its behalf.
\<close>

record sql_result =
  rs_rows :: "sql_row list"
  rs_changes :: nat
  rs_cascaded :: nat

datatype sql_error = Unique_violation string | Foreign_key_violation

text \<open>SQLite's message texts; the stores recognise a unique violation by its text.\<close>

fun sql_error_text :: "sql_error \<Rightarrow> string" where
  "sql_error_text (Unique_violation cols) = ''UNIQUE constraint failed: '' @ cols"
| "sql_error_text Foreign_key_violation = ''FOREIGN KEY constraint failed''"

definition rows_result :: "sql_row list \<Rightarrow> sql_result" where
  "rows_result rs = \<lparr>rs_rows = rs, rs_changes = 0, rs_cascaded = 0\<rparr>"

definition change_result :: "nat \<Rightarrow> nat \<Rightarrow> sql_result" where
  "change_result n k = \<lparr>rs_rows = [], rs_changes = n, rs_cascaded = k\<rparr>"

definition sql_opt_int :: "int option \<Rightarrow> sql_value" where
  "sql_opt_int x = (case x of None \<Rightarrow> SQL_Null | Some n \<Rightarrow> SQL_Int n)"

definition tenant_cols :: "tenant_row \<Rightarrow> sql_row" where
  "tenant_cols r = [(''slug'', SQL_Text (tr_slug r)), (''display_name'', SQL_Text (tr_display_name r)),
     (''created_at'', SQL_Int (tr_created_at r)), (''expires_at'', sql_opt_int (tr_expires_at r))]"

definition service_cols :: "service_row \<Rightarrow> sql_row" where
  "service_cols r = [(''name'', SQL_Text (sr_name r)), (''agent_key_hash'', SQL_Text (sr_agent_key_hash r)),
     (''auth_mode'', SQL_Text (sr_auth_mode r)), (''password_hash'', SQL_Text (sr_password_hash r)),
     (''created_at'', SQL_Int (sr_created_at r))]"

definition code_cols :: "code_row \<Rightarrow> sql_row" where
  "code_cols r = [(''tenant_slug'', SQL_Text (ac_tenant_slug r)), (''client_id'', SQL_Text (ac_client_id r)),
     (''redirect_uri'', SQL_Text (ac_redirect_uri r)), (''code_challenge'', SQL_Text (ac_code_challenge r))]"

definition is_expired :: "int \<Rightarrow> tenant_row \<Rightarrow> bool" where
  "is_expired now r = (case tr_expires_at r of None \<Rightarrow> False | Some e \<Rightarrow> e \<le> now)"

definition is_live :: "int \<Rightarrow> tenant_row \<Rightarrow> bool" where
  "is_live now r = (case tr_expires_at r of None \<Rightarrow> False | Some e \<Rightarrow> now < e)"

definition claimable :: "int \<Rightarrow> string \<Rightarrow> code_row \<Rightarrow> bool" where
  "claimable now h r \<longleftrightarrow> ac_code_hash r = h \<and> ac_used_at r = None \<and> now < ac_expires_at r"

text \<open>\<open>DELETE FROM tenants WHERE slug = ?\<close>: the row goes, and every row that references it.\<close>

definition delete_tenant_rows :: "string \<Rightarrow> database \<Rightarrow> database" where
  "delete_tenant_rows slug d = d\<lparr>
     tenants := filter (\<lambda>r. tr_slug r \<noteq> slug) (tenants d),
     services := filter (\<lambda>r. sr_tenant_slug r \<noteq> slug) (services d),
     signing_keys := filter (\<lambda>r. kr_tenant_slug r \<noteq> slug) (signing_keys d),
     oauth_clients := filter (\<lambda>r. cr_tenant_slug r \<noteq> slug) (oauth_clients d),
     auth_codes := filter (\<lambda>r. ac_tenant_slug r \<noteq> slug) (auth_codes d)\<rparr>"

definition cascade_count :: "string \<Rightarrow> database \<Rightarrow> nat" where
  "cascade_count slug d =
     length (filter (\<lambda>r. sr_tenant_slug r = slug) (services d))
     + length (filter (\<lambda>r. kr_tenant_slug r = slug) (signing_keys d))
     + length (filter (\<lambda>r. cr_tenant_slug r = slug) (oauth_clients d))
     + length (filter (\<lambda>r. ac_tenant_slug r = slug) (auth_codes d))"

definition bump_rate :: "string \<Rightarrow> int \<Rightarrow> rate_row \<Rightarrow> rate_row" where
  "bump_rate ip w r = (if rate_key r = (ip, w) then r\<lparr>rr_count := rr_count r + 1\<rparr> else r)"

definition mark_used :: "int \<Rightarrow> string \<Rightarrow> code_row \<Rightarrow> code_row" where
  "mark_used now h r = (if claimable now h r then r\<lparr>ac_used_at := Some now\<rparr> else r)"

definition insert_service_row :: "service_row \<Rightarrow> database \<Rightarrow> sql_error + sql_result \<times> database" where
  "insert_service_row r d =
     (if service_key r \<in> service_key ` set (services d)
      then Inl (Unique_violation ''services.tenant_slug, services.name'')
      else if \<not> has_tenant d (sr_tenant_slug r) then Inl Foreign_key_violation
      else Inr (change_result 1 0, d\<lparr>services := services d @ [r]\<rparr>))"

fun sql_exec :: "statement \<Rightarrow> database \<Rightarrow> sql_error + sql_result \<times> database" where
  "sql_exec (Insert_tenant slug name created expires) d =
     (if has_tenant d slug then Inl (Unique_violation ''tenants.slug'')
      else Inr (change_result 1 0, d\<lparr>tenants := tenants d @ [\<lparr>tr_slug = slug, tr_display_name = name,
             tr_created_at = created, tr_expires_at = expires\<rparr>]\<rparr>))"
| "sql_exec (Select_tenant slug) d =
     Inr (rows_result (map tenant_cols (filter (\<lambda>r. tr_slug r = slug) (tenants d))), d)"
| "sql_exec (Delete_tenant slug) d =
     (let n = length (filter (\<lambda>r. tr_slug r = slug) (tenants d))
      in if n = 0 then Inr (change_result 0 0, d)
         else Inr (change_result n (cascade_count slug d), delete_tenant_rows slug d))"
| "sql_exec (Select_expired now) d =
     Inr (rows_result (map (\<lambda>r. [(''slug'', SQL_Text (tr_slug r))]) (filter (is_expired now) (tenants d))), d)"
| "sql_exec (Count_live now) d =
     Inr (rows_result [[(''n'', SQL_Int (int (length (filter (is_live now) (tenants d)))))]], d)"
| "sql_exec (Prune_rate w) d =
     Inr (change_result (length (filter (\<lambda>r. rr_window_start r < w) (quick_rate d))) 0,
          d\<lparr>quick_rate := filter (\<lambda>r. \<not> rr_window_start r < w) (quick_rate d)\<rparr>)"
| "sql_exec (Upsert_rate ip w) d =
     Inr (change_result 1 0,
       (if (ip, w) \<in> rate_key ` set (quick_rate d)
        then d\<lparr>quick_rate := map (bump_rate ip w) (quick_rate d)\<rparr>
        else d\<lparr>quick_rate := quick_rate d @ [\<lparr>rr_ip = ip, rr_window_start = w, rr_count = 1\<rparr>]\<rparr>))"
| "sql_exec (Select_rate ip w) d =
     Inr (rows_result (map (\<lambda>r. [(''count'', SQL_Int (rr_count r))])
       (filter (\<lambda>r. rate_key r = (ip, w)) (quick_rate d))), d)"
| "sql_exec (Insert_service t n kh am ph c) d =
     insert_service_row \<lparr>sr_tenant_slug = t, sr_name = n, sr_agent_key_hash = kh, sr_auth_mode = am,
       sr_password_hash = ph, sr_created_at = c\<rparr> d"
| "sql_exec (Insert_service_if t n kh am ph c) d =
     (if has_tenant d t
      then insert_service_row \<lparr>sr_tenant_slug = t, sr_name = n, sr_agent_key_hash = kh, sr_auth_mode = am,
        sr_password_hash = ph, sr_created_at = c\<rparr> d
      else Inr (change_result 0 0, d))"
| "sql_exec (Select_service t n) d =
     Inr (rows_result (map service_cols (filter (\<lambda>r. service_key r = (t, n)) (services d))), d)"
| "sql_exec (Insert_key_or_ignore t pem c) d =
     (if t \<in> kr_tenant_slug ` set (signing_keys d) then Inr (change_result 0 0, d)
      else if \<not> has_tenant d t then Inl Foreign_key_violation
      else Inr (change_result 1 0, d\<lparr>signing_keys := signing_keys d @
             [\<lparr>kr_tenant_slug = t, kr_private_key_pem = pem, kr_created_at = c\<rparr>]\<rparr>))"
| "sql_exec (Select_key t) d =
     Inr (rows_result (map (\<lambda>r. [(''private_key_pem'', SQL_Text (kr_private_key_pem r))])
       (filter (\<lambda>r. kr_tenant_slug r = t) (signing_keys d))), d)"
| "sql_exec (Insert_client t cid uris c) d =
     (if (t, cid) \<in> client_key ` set (oauth_clients d)
      then Inl (Unique_violation ''oauth_clients.tenant_slug, oauth_clients.client_id'')
      else if \<not> has_tenant d t then Inl Foreign_key_violation
      else Inr (change_result 1 0, d\<lparr>oauth_clients := oauth_clients d @
             [\<lparr>cr_tenant_slug = t, cr_client_id = cid, cr_redirect_uris = uris, cr_created_at = c\<rparr>]\<rparr>))"
| "sql_exec (Select_client t cid) d =
     Inr (rows_result (map (\<lambda>r. [(''redirect_uris'', SQL_Text (cr_redirect_uris r))])
       (filter (\<lambda>r. client_key r = (t, cid)) (oauth_clients d))), d)"
| "sql_exec (Insert_code h t cid uri ch e) d =
     (if h \<in> ac_code_hash ` set (auth_codes d) then Inl (Unique_violation ''auth_codes.code_hash'')
      else if \<not> has_tenant d t then Inl Foreign_key_violation
      else Inr (change_result 1 0, d\<lparr>auth_codes := auth_codes d @
             [\<lparr>ac_code_hash = h, ac_tenant_slug = t, ac_client_id = cid, ac_redirect_uri = uri,
               ac_code_challenge = ch, ac_expires_at = e, ac_used_at = None\<rparr>]\<rparr>))"
| "sql_exec (Claim_code now h) d =
     Inr (change_result (length (filter (claimable now h) (auth_codes d))) 0,
          d\<lparr>auth_codes := map (mark_used now h) (auth_codes d)\<rparr>)"
| "sql_exec (Select_code h) d =
     Inr (rows_result (map code_cols (filter (\<lambda>r. ac_code_hash r = h) (auth_codes d))), d)"

section \<open>Primary and foreign keys\<close>

definition pk_ok :: "database \<Rightarrow> bool" where
  "pk_ok d \<longleftrightarrow> distinct (map tr_slug (tenants d)) \<and> distinct (map service_key (services d))
     \<and> distinct (map rate_key (quick_rate d)) \<and> distinct (map kr_tenant_slug (signing_keys d))
     \<and> distinct (map client_key (oauth_clients d)) \<and> distinct (map ac_code_hash (auth_codes d))"

definition fk_ok :: "database \<Rightarrow> bool" where
  "fk_ok d \<longleftrightarrow> list_all (\<lambda>r. has_tenant d (sr_tenant_slug r)) (services d)
     \<and> list_all (\<lambda>r. has_tenant d (kr_tenant_slug r)) (signing_keys d)
     \<and> list_all (\<lambda>r. has_tenant d (cr_tenant_slug r)) (oauth_clients d)
     \<and> list_all (\<lambda>r. has_tenant d (ac_tenant_slug r)) (auth_codes d)"

definition db_ok :: "database \<Rightarrow> bool" where
  "db_ok d \<longleftrightarrow> pk_ok d \<and> fk_ok d"

lemma row_keys [simp]:
  "service_key \<lparr>sr_tenant_slug = t, sr_name = n, sr_agent_key_hash = kh, sr_auth_mode = am,
     sr_password_hash = ph, sr_created_at = c\<rparr> = (t, n)"
  "rate_key \<lparr>rr_ip = ip, rr_window_start = w, rr_count = k\<rparr> = (ip, w)"
  "client_key \<lparr>cr_tenant_slug = t, cr_client_id = cid, cr_redirect_uris = us, cr_created_at = c\<rparr> = (t, cid)"
  by (simp_all add: service_key_def rate_key_def client_key_def)

lemma bump_rate_key [simp]: "rate_key (bump_rate ip w r) = rate_key r"
  by (simp add: bump_rate_def rate_key_def)

lemma mark_used_fields [simp]:
  "ac_code_hash (mark_used now h r) = ac_code_hash r"
  "ac_tenant_slug (mark_used now h r) = ac_tenant_slug r"
  "ac_client_id (mark_used now h r) = ac_client_id r"
  "ac_redirect_uri (mark_used now h r) = ac_redirect_uri r"
  "ac_code_challenge (mark_used now h r) = ac_code_challenge r"
  "ac_expires_at (mark_used now h r) = ac_expires_at r"
  by (simp_all add: mark_used_def)

lemma map_key_bump [simp]: "map (rate_key \<circ> bump_rate ip w) rs = map rate_key rs"
  by simp

lemma map_key_mark [simp]: "map (ac_code_hash \<circ> mark_used now h) rs = map ac_code_hash rs"
  by simp

lemma distinct_map_filter_key: "distinct (map k rs) \<Longrightarrow> distinct (map k (filter P rs))"
  by (induction rs) auto

lemma insert_service_row_ok:
  assumes "insert_service_row r d = Inr (q, d')" and "db_ok d"
  shows "db_ok d'"
  using assms by (auto simp: insert_service_row_def db_ok_def pk_ok_def fk_ok_def has_tenant_def
      split: if_splits)

lemma delete_tenant_rows_ok:
  assumes "db_ok d"
  shows "db_ok (delete_tenant_rows slug d)"
  using assms unfolding db_ok_def pk_ok_def fk_ok_def
  by (auto simp: delete_tenant_rows_def has_tenant_def list_all_iff distinct_map_filter_key)

lemma sql_exec_ok:
  assumes "sql_exec st d = Inr (q, d')" and "db_ok d"
  shows "db_ok d'"
proof (cases st)
  case (Delete_tenant slug)
  with assms show ?thesis by (auto simp: Let_def delete_tenant_rows_ok split: if_splits)
next
  case (Insert_service t n kh am ph c)
  with assms show ?thesis using insert_service_row_ok by simp
next
  case (Insert_service_if t n kh am ph c)
  with assms show ?thesis using insert_service_row_ok by (auto split: if_splits)
qed (use assms in \<open>auto simp: db_ok_def pk_ok_def fk_ok_def has_tenant_def list_all_iff
        distinct_map_filter_key split: if_splits\<close>)

end
