(* ===== verification/Store_Spec.thy ===== *)
theory Store_Spec
  imports Database
begin

text \<open>
  The storage contract of \<open>internal/store/api.go\<close>: the Go values it passes, the interface
  \<open>store.API\<close> as a record of operations over an arbitrary backend state, an abstract registry
  of finite maps with the operation each method promises, and the locale \<open>store_contract\<close> that a
  backend must satisfy. Calls to \<open>time.Now\<close>, \<open>crypto/rand\<close> and bcrypt inside a method are
  arguments of the operation.
\<close>

section \<open>Values\<close>

record tenant =
  Slug :: string
  DisplayName :: string
  CreatedAt :: time
  ExpiresAt :: "time option"

record service =
  Name :: string
  AgentKeyHash :: string
  AuthMode :: string
  PasswordHash :: string
  SvcCreatedAt :: time

datatype store_error = ErrNotFound | ErrInvalidAgentKey | ErrExists | Driver string

text \<open>
  \<open>golang.org/x/crypto/bcrypt\<close> is not part of the repository: \<open>bc_generate\<close> hashes under a salt
  (\<open>None\<close>: the password is too long), \<open>bc_compare\<close> checks. \<open>bcrypt_ok\<close> is what its
  documentation promises and the program relies on.
\<close>

record bcrypt =
  bc_generate :: "string \<Rightarrow> string \<Rightarrow> string option"
  bc_compare :: "string \<Rightarrow> string \<Rightarrow> bool"

definition bcrypt_ok :: "bcrypt \<Rightarrow> bool" where
  "bcrypt_ok B \<longleftrightarrow>
     (\<forall>salt p h. bc_generate B salt p = Some h \<longrightarrow> h \<noteq> [] \<and> bc_compare B h p)
     \<and> (\<forall>salt p. length p \<le> 72 \<longrightarrow> bc_generate B salt p \<noteq> None)"

definition HashSecret :: "bcrypt \<Rightarrow> string \<Rightarrow> string \<Rightarrow> store_error + string" where
  "HashSecret B salt plaintext =
     (case bc_generate B salt plaintext of
        None \<Rightarrow> Inl (Driver ''bcrypt: password length exceeds 72 bytes'')
      | Some h \<Rightarrow> Inr h)"

definition CheckSecret :: "bcrypt \<Rightarrow> string \<Rightarrow> string \<Rightarrow> bool" where
  "CheckSecret B hash plaintext = bc_compare B hash plaintext"

section \<open>The interface\<close>

record 's store_api =
  CreateTenantExpiry :: "string \<Rightarrow> string \<Rightarrow> time option \<Rightarrow> time \<Rightarrow> 's \<Rightarrow> (store_error + unit) \<times> 's"
  GetTenant :: "string \<Rightarrow> 's \<Rightarrow> (store_error + tenant) \<times> 's"
  DeleteTenant :: "string \<Rightarrow> 's \<Rightarrow> (store_error + bool) \<times> 's"
  DeleteExpiredTenants :: "time \<Rightarrow> 's \<Rightarrow> (string list \<times> store_error option) \<times> 's"
  CountLiveTenants :: "time \<Rightarrow> 's \<Rightarrow> (store_error + int) \<times> 's"
  QuickRateHit :: "string \<Rightarrow> time \<Rightarrow> 's \<Rightarrow> (store_error + int) \<times> 's"
  CreateService :: "bcrypt \<Rightarrow> string \<Rightarrow> string \<Rightarrow> time \<Rightarrow> string \<Rightarrow> service \<Rightarrow> 's \<Rightarrow> (store_error + string) \<times> 's"
  GetService :: "string \<Rightarrow> string \<Rightarrow> 's \<Rightarrow> (store_error + service) \<times> 's"
  ValidatePassword :: "bcrypt \<Rightarrow> string \<Rightarrow> string \<Rightarrow> string \<Rightarrow> 's \<Rightarrow> (store_error + bool) \<times> 's"
  ValidateAgentKey :: "bcrypt \<Rightarrow> string \<Rightarrow> string \<Rightarrow> string \<Rightarrow> 's \<Rightarrow> (store_error + service) \<times> 's"
  CreateSigningKey :: "string \<Rightarrow> string \<Rightarrow> time \<Rightarrow> 's \<Rightarrow> (store_error + unit) \<times> 's"
  GetSigningKey :: "string \<Rightarrow> 's \<Rightarrow> (store_error + string) \<times> 's"
  CreateOAuthClient :: "string \<Rightarrow> string \<Rightarrow> string \<Rightarrow> time \<Rightarrow> 's \<Rightarrow> (store_error + unit) \<times> 's"
  GetOAuthClient :: "string \<Rightarrow> string \<Rightarrow> 's \<Rightarrow> (store_error + string) \<times> 's"
  CreateAuthCode :: "string \<Rightarrow> string \<Rightarrow> string \<Rightarrow> string \<Rightarrow> string \<Rightarrow> time \<Rightarrow> 's \<Rightarrow> (store_error + unit) \<times> 's"
  ConsumeAuthCode :: "string \<Rightarrow> time \<Rightarrow> 's \<Rightarrow> (store_error + string \<times> string \<times> string \<times> string) \<times> 's"

section \<open>The abstract registry\<close>

record code_info =
  ci_tenant :: string
  ci_client :: string
  ci_redirect :: string
  ci_challenge :: string
  ci_expires :: int
  ci_used :: "int option"

record registry =
  rg_tenants :: "string \<rightharpoonup> tenant"
  rg_services :: "string \<times> string \<rightharpoonup> service"
  rg_rates :: "string \<times> int \<rightharpoonup> int"
  rg_keys :: "string \<rightharpoonup> string"
  rg_clients :: "string \<times> string \<rightharpoonup> string"
  rg_codes :: "string \<rightharpoonup> code_info"

text \<open>What the registry says of a tenant's expiry, in the whole seconds the stores compare.\<close>

definition tenant_expired :: "time \<Rightarrow> tenant \<Rightarrow> bool" where
  "tenant_expired now t = (case ExpiresAt t of None \<Rightarrow> False | Some e \<Rightarrow> unix e \<le> unix now)"

definition tenant_live :: "time \<Rightarrow> tenant \<Rightarrow> bool" where
  "tenant_live now t = (case ExpiresAt t of None \<Rightarrow> False | Some e \<Rightarrow> unix now < unix e)"

definition live_tenants :: "time \<Rightarrow> registry \<Rightarrow> string set" where
  "live_tenants now R = {slug. \<exists>t. rg_tenants R slug = Some t \<and> tenant_live now t}"

definition expired_tenants :: "time \<Rightarrow> registry \<Rightarrow> string set" where
  "expired_tenants now R = {slug. \<exists>t. rg_tenants R slug = Some t \<and> tenant_expired now t}"

text \<open>Whatever is held under a tenant names one that exists, and there are finitely many tenants.\<close>

definition registry_ok :: "registry \<Rightarrow> bool" where
  "registry_ok R \<longleftrightarrow> finite (dom (rg_tenants R))
     \<and> (\<forall>t n. (t, n) \<in> dom (rg_services R) \<longrightarrow> t \<in> dom (rg_tenants R))
     \<and> dom (rg_keys R) \<subseteq> dom (rg_tenants R)
     \<and> (\<forall>t c. (t, c) \<in> dom (rg_clients R) \<longrightarrow> t \<in> dom (rg_tenants R))
     \<and> (\<forall>h i. rg_codes R h = Some i \<longrightarrow> ci_tenant i \<in> dom (rg_tenants R))"

text \<open>Removing a set of tenants removes everything held under them.\<close>

definition drop_tenants :: "string set \<Rightarrow> registry \<Rightarrow> registry" where
  "drop_tenants S R = R\<lparr>
     rg_tenants := rg_tenants R |` (- S),
     rg_services := (\<lambda>(t, n). if t \<in> S then None else rg_services R (t, n)),
     rg_keys := rg_keys R |` (- S),
     rg_clients := (\<lambda>(t, c). if t \<in> S then None else rg_clients R (t, c)),
     rg_codes := (\<lambda>h. case rg_codes R h of None \<Rightarrow> None
                      | Some i \<Rightarrow> if ci_tenant i \<in> S then None else Some i)\<rparr>"

definition spec_create_tenant ::
  "string \<Rightarrow> string \<Rightarrow> time option \<Rightarrow> time \<Rightarrow> registry \<Rightarrow> (store_error + unit) \<times> registry" where
  "spec_create_tenant slug name e now R =
     (if slug \<in> dom (rg_tenants R) then (Inl ErrExists, R)
      else (Inr (), R\<lparr>rg_tenants := (rg_tenants R)(slug \<mapsto>
        \<lparr>Slug = slug, DisplayName = name, CreatedAt = time_unix (unix now),
         ExpiresAt = map_option (time_unix \<circ> unix) e\<rparr>)\<rparr>))"

definition spec_lookup :: "('k \<rightharpoonup> 'v) \<Rightarrow> 'k \<Rightarrow> store_error + 'v" where
  "spec_lookup m k = (case m k of None \<Rightarrow> Inl ErrNotFound | Some v \<Rightarrow> Inr v)"

definition spec_delete_tenant :: "string \<Rightarrow> registry \<Rightarrow> (store_error + bool) \<times> registry" where
  "spec_delete_tenant slug R = (Inr (slug \<in> dom (rg_tenants R)), drop_tenants {slug} R)"

definition spec_rate_hit :: "string \<Rightarrow> time \<Rightarrow> registry \<Rightarrow> (store_error + int) \<times> registry" where
  "spec_rate_hit ip now R =
     (let w = go_quot (unix now) 3600;
          n = (case rg_rates R (ip, w) of None \<Rightarrow> 1 | Some c \<Rightarrow> c + 1)
      in (Inr n, R\<lparr>rg_rates := (\<lambda>(i, v). if v < w - 2 then None
                                else if (i, v) = (ip, w) then Some n else rg_rates R (i, v))\<rparr>))"

definition default_auth_mode :: "string \<Rightarrow> string" where
  "default_auth_mode m = (if m = [] then ''oauth'' else m)"

definition spec_create_service ::
  "string \<Rightarrow> string \<Rightarrow> time \<Rightarrow> string \<Rightarrow> service \<Rightarrow> registry \<Rightarrow> (store_error + string) \<times> registry" where
  "spec_create_service key hash now t svc R =
     (if t \<notin> dom (rg_tenants R) then (Inl ErrNotFound, R)
      else if (t, Name svc) \<in> dom (rg_services R) then (Inl ErrExists, R)
      else (Inr key, R\<lparr>rg_services := (rg_services R)((t, Name svc) \<mapsto>
        svc\<lparr>AgentKeyHash := hash, AuthMode := default_auth_mode (AuthMode svc),
            SvcCreatedAt := time_unix (unix now)\<rparr>)\<rparr>))"

definition spec_validate_password ::
  "bcrypt \<Rightarrow> string \<Rightarrow> string \<Rightarrow> string \<Rightarrow> registry \<Rightarrow> store_error + bool" where
  "spec_validate_password B t n pw R =
     (case rg_services R (t, n) of None \<Rightarrow> Inl ErrNotFound
      | Some svc \<Rightarrow> Inr (PasswordHash svc = [] \<or> CheckSecret B (PasswordHash svc) pw))"

definition spec_validate_agent_key ::
  "bcrypt \<Rightarrow> string \<Rightarrow> string \<Rightarrow> string \<Rightarrow> registry \<Rightarrow> store_error + service" where
  "spec_validate_agent_key B t n key R =
     (case rg_services R (t, n) of None \<Rightarrow> Inl ErrNotFound
      | Some svc \<Rightarrow> if key = [] \<or> \<not> CheckSecret B (AgentKeyHash svc) key
                    then Inl ErrInvalidAgentKey else Inr svc)"

text \<open>Inserting under a tenant that does not exist is refused by the foreign key.\<close>

definition no_tenant :: store_error where
  "no_tenant = Driver []"

definition spec_create_key :: "string \<Rightarrow> string \<Rightarrow> registry \<Rightarrow> (store_error + unit) \<times> registry" where
  "spec_create_key t pem R =
     (if t \<in> dom (rg_keys R) then (Inr (), R)
      else if t \<notin> dom (rg_tenants R) then (Inl no_tenant, R)
      else (Inr (), R\<lparr>rg_keys := (rg_keys R)(t \<mapsto> pem)\<rparr>))"

definition spec_create_client ::
  "string \<Rightarrow> string \<Rightarrow> string \<Rightarrow> registry \<Rightarrow> (store_error + unit) \<times> registry" where
  "spec_create_client t cid uris R =
     (if (t, cid) \<in> dom (rg_clients R) then (Inl ErrExists, R)
      else if t \<notin> dom (rg_tenants R) then (Inl no_tenant, R)
      else (Inr (), R\<lparr>rg_clients := (rg_clients R)((t, cid) \<mapsto> uris)\<rparr>))"

definition spec_create_code ::
  "string \<Rightarrow> string \<Rightarrow> string \<Rightarrow> string \<Rightarrow> string \<Rightarrow> time \<Rightarrow> registry \<Rightarrow> (store_error + unit) \<times> registry" where
  "spec_create_code h t cid uri ch e R =
     (if h \<in> dom (rg_codes R) \<or> t \<notin> dom (rg_tenants R) then (Inl no_tenant, R)
      else (Inr (), R\<lparr>rg_codes := (rg_codes R)(h \<mapsto> \<lparr>ci_tenant = t, ci_client = cid, ci_redirect = uri,
                          ci_challenge = ch, ci_expires = unix e, ci_used = None\<rparr>)\<rparr>))"

definition spec_consume_code ::
  "string \<Rightarrow> time \<Rightarrow> registry \<Rightarrow> (store_error + string \<times> string \<times> string \<times> string) \<times> registry" where
  "spec_consume_code h now R =
     (case rg_codes R h of None \<Rightarrow> (Inl ErrNotFound, R)
      | Some i \<Rightarrow> if ci_used i \<noteq> None \<or> ci_expires i \<le> unix now then (Inl ErrNotFound, R)
          else (Inr (ci_tenant i, ci_client i, ci_redirect i, ci_challenge i),
                R\<lparr>rg_codes := (rg_codes R)(h \<mapsto> i\<lparr>ci_used := Some (unix now)\<rparr>)\<rparr>))"

section \<open>The contract\<close>

text \<open>
  Error texts differ between backends; callers only distinguish the sentinel errors. A backend
  operation implements an abstract one when, from a state in good order, it returns the same
  result up to the text of a driver error, moves the abstraction as specified, and leaves the
  state in good order.
\<close>

fun erase_error :: "store_error \<Rightarrow> store_error" where
  "erase_error (Driver m) = Driver []"
| "erase_error e = e"

definition erase :: "store_error + 'a \<Rightarrow> store_error + 'a" where
  "erase r = map_sum erase_error id r"

lemma erase_simps [simp]:
  "erase (Inr a) = Inr a"
  "erase (Inl e) = Inl (erase_error e)"
  by (simp_all add: erase_def)

lemma erase_eq_Inr [simp]: "erase r = Inr a \<longleftrightarrow> r = Inr a"
  by (cases r) auto

lemma Inr_eq_erase [simp]: "Inr a = erase r \<longleftrightarrow> r = Inr a"
  by (cases r) auto

lemma erase_eq_Inl: "erase r = Inl e \<longleftrightarrow> (\<exists>e'. r = Inl e' \<and> erase_error e' = e)"
  by (cases r) auto

definition implements ::
  "('s \<Rightarrow> bool) \<Rightarrow> ('s \<Rightarrow> registry) \<Rightarrow> ('s \<Rightarrow> (store_error + 'a) \<times> 's) \<Rightarrow>
   (registry \<Rightarrow> (store_error + 'a) \<times> registry) \<Rightarrow> bool" where
  "implements ok view f g \<longleftrightarrow>
     (\<forall>s. ok s \<longrightarrow> ok (snd (f s)) \<and> g (view s) = (erase (fst (f s)), view (snd (f s))))"

lemma implementsI:
  "(\<And>s. ok s \<Longrightarrow> ok (snd (f s)) \<and> g (view s) = (erase (fst (f s)), view (snd (f s)))) \<Longrightarrow>
   implements ok view f g"
  by (simp add: implements_def)

lemma implementsD:
  assumes "implements ok view f g" and "ok s" and "f s = (r, s')"
  shows "ok s'" and "g (view s) = (erase r, view s')"
  using assms by (auto simp: implements_def)

locale store_contract =
  fixes api :: "'s store_api"
    and view :: "'s \<Rightarrow> registry"
    and ok :: "'s \<Rightarrow> bool"
    and agent_key :: "string \<Rightarrow> string"
  assumes create_tenant:
      "implements ok view (CreateTenantExpiry api slug name e now) (spec_create_tenant slug name e now)"
    and get_tenant:
      "implements ok view (GetTenant api slug) (\<lambda>R. (spec_lookup (rg_tenants R) slug, R))"
    and delete_tenant:
      "implements ok view (DeleteTenant api slug) (spec_delete_tenant slug)"
    and delete_expired:
      "ok s \<Longrightarrow> DeleteExpiredTenants api now s = ((slugs, err), s') \<Longrightarrow>
         ok s' \<and> err = None \<and> set slugs = expired_tenants now (view s)
         \<and> view s' = drop_tenants (expired_tenants now (view s)) (view s)"
    and count_live:
      "implements ok view (CountLiveTenants api now) (\<lambda>R. (Inr (int (card (live_tenants now R))), R))"
    and rate_hit:
      "implements ok view (QuickRateHit api ip now) (spec_rate_hit ip now)"
    and create_service:
      "HashSecret B salt (agent_key rnd) = Inr hash \<Longrightarrow>
       implements ok view (CreateService api B salt rnd now t svc)
         (spec_create_service (agent_key rnd) hash now t svc)"
    and get_service:
      "implements ok view (GetService api t n) (\<lambda>R. (spec_lookup (rg_services R) (t, n), R))"
    and validate_password:
      "implements ok view (ValidatePassword api B t n pw) (\<lambda>R. (spec_validate_password B t n pw R, R))"
    and validate_agent_key:
      "implements ok view (ValidateAgentKey api B t n key) (\<lambda>R. (spec_validate_agent_key B t n key R, R))"
    and create_key:
      "implements ok view (CreateSigningKey api t pem now) (spec_create_key t pem)"
    and get_key:
      "implements ok view (GetSigningKey api t) (\<lambda>R. (spec_lookup (rg_keys R) t, R))"
    and create_client:
      "implements ok view (CreateOAuthClient api t cid uris now) (spec_create_client t cid uris)"
    and get_client:
      "implements ok view (GetOAuthClient api t cid) (\<lambda>R. (spec_lookup (rg_clients R) (t, cid), R))"
    and create_code:
      "implements ok view (CreateAuthCode api h t cid uri ch until) (spec_create_code h t cid uri ch until)"
    and consume_code:
      "implements ok view (ConsumeAuthCode api h now) (spec_consume_code h now)"
    and references: "ok s \<Longrightarrow> registry_ok (view s)"
    and agent_key_nonempty: "agent_key rnd \<noteq> []"
    and agent_key_short: "length rnd = 24 \<Longrightarrow> length (agent_key rnd) \<le> 72"

end
