(* ===== verification/Registry_View.thy ===== *)
theory Registry_View
  imports Store_Spec
begin

text \<open>
  The abstraction function from the tables to the abstract registry of \<open>Store_Spec\<close>, and, for
  every statement, what it does to the abstraction. Both backends use these lemmas.
\<close>

named_theorems view_simps \<open>effect of the statements on the abstract registry\<close>

section \<open>The abstraction\<close>

definition tenant_of_row :: "tenant_row \<Rightarrow> tenant" where
  "tenant_of_row r = \<lparr>Slug = tr_slug r, DisplayName = tr_display_name r,
     CreatedAt = time_unix (tr_created_at r), ExpiresAt = map_option time_unix (tr_expires_at r)\<rparr>"

definition service_of_row :: "service_row \<Rightarrow> service" where
  "service_of_row r = \<lparr>Name = sr_name r, AgentKeyHash = sr_agent_key_hash r, AuthMode = sr_auth_mode r,
     PasswordHash = sr_password_hash r, SvcCreatedAt = time_unix (sr_created_at r)\<rparr>"

definition code_of_row :: "code_row \<Rightarrow> code_info" where
  "code_of_row r = \<lparr>ci_tenant = ac_tenant_slug r, ci_client = ac_client_id r,
     ci_redirect = ac_redirect_uri r, ci_challenge = ac_code_challenge r,
     ci_expires = ac_expires_at r, ci_used = ac_used_at r\<rparr>"

definition view_db :: "database \<Rightarrow> registry" where
  "view_db d = \<lparr>rg_tenants = row_map tr_slug tenant_of_row (tenants d),
     rg_services = row_map service_key service_of_row (services d),
     rg_rates = row_map rate_key rr_count (quick_rate d),
     rg_keys = row_map kr_tenant_slug kr_private_key_pem (signing_keys d),
     rg_clients = row_map client_key cr_redirect_uris (oauth_clients d),
     rg_codes = row_map ac_code_hash code_of_row (auth_codes d)\<rparr>"

lemma view_db_sel [simp]:
  "rg_tenants (view_db d) = row_map tr_slug tenant_of_row (tenants d)"
  "rg_services (view_db d) = row_map service_key service_of_row (services d)"
  "rg_rates (view_db d) = row_map rate_key rr_count (quick_rate d)"
  "rg_keys (view_db d) = row_map kr_tenant_slug kr_private_key_pem (signing_keys d)"
  "rg_clients (view_db d) = row_map client_key cr_redirect_uris (oauth_clients d)"
  "rg_codes (view_db d) = row_map ac_code_hash code_of_row (auth_codes d)"
  by (simp_all add: view_db_def)

lemma has_tenant_view: "has_tenant d slug \<longleftrightarrow> slug \<in> dom (rg_tenants (view_db d))"
  by (simp add: has_tenant_def)

lemma view_registry_ok:
  assumes "db_ok d"
  shows "registry_ok (view_db d)"
proof -
  have codes: "rg_codes (view_db d) h = Some i \<Longrightarrow> \<exists>r \<in> set (auth_codes d). ci_tenant i = ac_tenant_slug r" for h i
    using row_map_SomeD [of ac_code_hash code_of_row "auth_codes d" h i] by (auto simp: code_of_row_def)
  show ?thesis
    using assms codes
    by (fastforce simp: registry_ok_def db_ok_def fk_ok_def list_all_iff has_tenant_def service_key_def client_key_def)
qed

section \<open>Lookups\<close>

lemma spec_lookup_rows:
  "spec_lookup (row_map k v rs) x =
     (case filter (\<lambda>r. k r = x) rs of [] \<Rightarrow> Inl ErrNotFound | r # _ \<Rightarrow> Inr (v r))"
  by (simp add: spec_lookup_def row_map_filter split: list.splits)

lemma expired_row [simp]: "tenant_expired now (tenant_of_row r) = is_expired (unix now) r"
  by (simp add: tenant_expired_def tenant_of_row_def is_expired_def split: option.splits)

lemma live_row [simp]: "tenant_live now (tenant_of_row r) = is_live (unix now) r"
  by (simp add: tenant_live_def tenant_of_row_def is_live_def split: option.splits)

lemma keys_with:
  assumes "distinct (map k rs)"
  shows "{x. \<exists>y. row_map k v rs x = Some y \<and> Q y} = k ` set (filter (\<lambda>r. Q (v r)) rs)"
  using row_map_in [OF assms] row_map_SomeD [of k v rs] by fastforce

lemma expired_view:
  assumes "db_ok d"
  shows "expired_tenants now (view_db d) = tr_slug ` set (filter (is_expired (unix now)) (tenants d))"
  using assms keys_with [of tr_slug "tenants d" tenant_of_row "tenant_expired now"]
  by (simp add: expired_tenants_def db_ok_def pk_ok_def)

lemma live_view:
  assumes "db_ok d"
  shows "card (live_tenants now (view_db d)) = length (filter (is_live (unix now)) (tenants d))"
proof -
  have "distinct (map tr_slug (tenants d))" using assms by (simp add: db_ok_def pk_ok_def)
  then have "live_tenants now (view_db d) = set (map tr_slug (filter (is_live (unix now)) (tenants d)))"
    and "distinct (map tr_slug (filter (is_live (unix now)) (tenants d)))"
    using keys_with [of tr_slug "tenants d" tenant_of_row "tenant_live now"]
    by (simp_all add: live_tenants_def distinct_map_filter_key)
  then show ?thesis by (simp only: distinct_card length_map)
qed

section \<open>Writes\<close>

lemma row_map_filter_val:
  assumes "distinct (map k rs)" and "\<And>r. r \<in> set rs \<Longrightarrow> P r = Q (v r)"
  shows "row_map k v (filter P rs) x =
     (case row_map k v rs x of None \<Rightarrow> None | Some y \<Rightarrow> if Q y then Some y else None)"
  using assms
proof (induction rs)
  case Nil
  then show ?case by simp
next
  case (Cons a rs)
  then have a: "k a \<notin> k ` set rs" by simp
  then have "k a \<notin> k ` set (filter P rs)" by auto
  then have n: "row_map k v (filter P rs) (k a) = None" by (simp add: row_map_None)
  have m: "row_map k v (a # us) y = (if k a = y then Some (v a) else row_map k v us y)" for us y
    by (simp add: row_map_def)
  show ?case using Cons n by (cases "k a = x") (auto simp: m)
qed

lemma row_map_filter_by:
  assumes "\<And>r. f r = g (k r)"
  shows "row_map k v (filter (\<lambda>r. f r \<noteq> y) rs) x = (if g x \<noteq> y then row_map k v rs x else None)"
  using row_map_filter_key [of rs "\<lambda>r. f r \<noteq> y" "\<lambda>x. g x \<noteq> y" k v] assms by simp

lemma filter_references:
  assumes "list_all (\<lambda>r. has_tenant d (f r)) rs" and "\<not> has_tenant d slug"
  shows "filter (\<lambda>r. f r \<noteq> slug) rs = rs"
  using assms by (intro filter_True) (auto simp: list_all_iff)

lemma drop_tenants_view [view_simps]:
  assumes "db_ok d"
  shows "view_db (delete_tenant_rows slug d) = drop_tenants {slug} (view_db d)"
proof -
  have codes: "row_map ac_code_hash code_of_row (filter (\<lambda>r. ac_tenant_slug r \<noteq> slug) (auth_codes d)) h =
      (case row_map ac_code_hash code_of_row (auth_codes d) h of None \<Rightarrow> None
       | Some i \<Rightarrow> if ci_tenant i \<noteq> slug then Some i else None)" for h
    using assms
    by (intro row_map_filter_val) (simp_all add: db_ok_def pk_ok_def code_of_row_def)
  show ?thesis
    by (simp add: view_db_def delete_tenant_rows_def drop_tenants_def fun_eq_iff restrict_map_def codes
        row_map_filter_by [where f = tr_slug and g = "\<lambda>x. x"]
        row_map_filter_by [where f = kr_tenant_slug and g = "\<lambda>x. x"]
        row_map_filter_by [where f = sr_tenant_slug and g = fst and k = service_key, simplified service_key_def]
        row_map_filter_by [where f = cr_tenant_slug and g = fst and k = client_key, simplified client_key_def]
        split: prod.splits option.splits)
qed

lemma drop_nothing:
  assumes "db_ok d" and "slug \<notin> dom (rg_tenants (view_db d))"
  shows "drop_tenants {slug} (view_db d) = view_db d"
proof -
  have "\<not> has_tenant d slug" using assms(2) by (simp only: has_tenant_view) simp
  note fk = filter_references [OF _ this]
  have "filter (\<lambda>r. tr_slug r \<noteq> slug) (tenants d) = tenants d"
    using assms(2) by (intro filter_True) auto
  then have "delete_tenant_rows slug d = d"
    using assms(1) by (simp add: delete_tenant_rows_def db_ok_def fk_ok_def fk)
  then show ?thesis using drop_tenants_view [OF assms(1), of slug] by simp
qed

lemma drop_tenants_twice: "drop_tenants S (drop_tenants T R) = drop_tenants (S \<union> T) R"
  by (auto simp: drop_tenants_def fun_eq_iff restrict_map_def split: option.splits)

lemma drop_tenants_empty [simp]: "drop_tenants {} R = R"
  by (simp add: drop_tenants_def fun_eq_iff split: option.splits)

lemma insert_tenant_view [view_simps]:
  assumes "tr_slug r \<notin> dom (rg_tenants (view_db d))"
  shows "view_db (d\<lparr>tenants := tenants d @ [r]\<rparr>) =
    (view_db d)\<lparr>rg_tenants := (rg_tenants (view_db d))(tr_slug r \<mapsto> tenant_of_row r)\<rparr>"
  using assms by (simp add: view_db_def)

lemma insert_service_view [view_simps]:
  assumes "service_key r \<notin> dom (rg_services (view_db d))"
  shows "view_db (d\<lparr>services := services d @ [r]\<rparr>) =
    (view_db d)\<lparr>rg_services := (rg_services (view_db d))(service_key r \<mapsto> service_of_row r)\<rparr>"
  using assms by (simp add: view_db_def)

lemma insert_key_view [view_simps]:
  assumes "kr_tenant_slug r \<notin> dom (rg_keys (view_db d))"
  shows "view_db (d\<lparr>signing_keys := signing_keys d @ [r]\<rparr>) =
    (view_db d)\<lparr>rg_keys := (rg_keys (view_db d))(kr_tenant_slug r \<mapsto> kr_private_key_pem r)\<rparr>"
  using assms by (simp add: view_db_def)

lemma insert_client_view [view_simps]:
  assumes "client_key r \<notin> dom (rg_clients (view_db d))"
  shows "view_db (d\<lparr>oauth_clients := oauth_clients d @ [r]\<rparr>) =
    (view_db d)\<lparr>rg_clients := (rg_clients (view_db d))(client_key r \<mapsto> cr_redirect_uris r)\<rparr>"
  using assms by (simp add: view_db_def)

lemma insert_code_view [view_simps]:
  assumes "ac_code_hash r \<notin> dom (rg_codes (view_db d))"
  shows "view_db (d\<lparr>auth_codes := auth_codes d @ [r]\<rparr>) =
    (view_db d)\<lparr>rg_codes := (rg_codes (view_db d))(ac_code_hash r \<mapsto> code_of_row r)\<rparr>"
  using assms by (simp add: view_db_def)

lemma prune_view [view_simps]:
  "view_db (d\<lparr>quick_rate := filter (\<lambda>r. \<not> rr_window_start r < w) (quick_rate d)\<rparr>) =
    (view_db d)\<lparr>rg_rates := (\<lambda>(i, v). if v < w then None else rg_rates (view_db d) (i, v))\<rparr>"
  using row_map_filter_key [of "quick_rate d" "\<lambda>r. \<not> rr_window_start r < w" "\<lambda>(i, v). \<not> v < w" rate_key rr_count]
  by (simp add: view_db_def rate_key_def fun_eq_iff)

definition upsert_rate_rows :: "string \<Rightarrow> int \<Rightarrow> rate_row list \<Rightarrow> rate_row list" where
  "upsert_rate_rows ip w rs =
     (if (ip, w) \<in> rate_key ` set rs then map (bump_rate ip w) rs
      else rs @ [\<lparr>rr_ip = ip, rr_window_start = w, rr_count = 1\<rparr>])"

lemma upsert_rate_map:
  "row_map rate_key rr_count (upsert_rate_rows ip w rs) = (row_map rate_key rr_count rs)((ip, w) \<mapsto>
     (case row_map rate_key rr_count rs (ip, w) of None \<Rightarrow> 1 | Some c \<Rightarrow> c + 1))"
proof (cases "(ip, w) \<in> rate_key ` set rs")
  case True
  have "row_map rate_key rr_count (map (bump_rate ip w) rs) = (row_map rate_key rr_count rs)
      ((ip, w) := map_option (\<lambda>c. c + 1) (row_map rate_key rr_count rs (ip, w)))"
    by (rule row_map_map_key) (auto simp: bump_rate_def rate_key_def)
  moreover obtain c where "row_map rate_key rr_count rs (ip, w) = Some c"
    using True by (metis row_map_None not_None_eq)
  ultimately show ?thesis using True by (simp add: upsert_rate_rows_def)
next
  case False
  then have "row_map rate_key rr_count rs (ip, w) = None" by (simp add: row_map_None)
  with False show ?thesis
    using row_map_append_new [of rate_key "\<lparr>rr_ip = ip, rr_window_start = w, rr_count = 1\<rparr>" rs rr_count]
    by (simp add: upsert_rate_rows_def)
qed

lemma upsert_rate_exec:
  "sql_exec (Upsert_rate ip w) d =
     Inr (change_result 1 0, d\<lparr>quick_rate := upsert_rate_rows ip w (quick_rate d)\<rparr>)"
  by (simp add: upsert_rate_rows_def)

lemma mark_used_view [view_simps]:
  assumes "db_ok d"
  shows "view_db (d\<lparr>auth_codes := map (mark_used now h) (auth_codes d)\<rparr>) =
    (view_db d)\<lparr>rg_codes := (rg_codes (view_db d))(h :=
       map_option (\<lambda>i. if ci_used i = None \<and> now < ci_expires i then i\<lparr>ci_used := Some now\<rparr> else i)
         (rg_codes (view_db d) h))\<rparr>"
  by (simp add: view_db_def)
    (rule row_map_map_key, simp_all add: mark_used_def claimable_def code_of_row_def)

lemma claimed_rows:
  assumes "db_ok d"
  shows "length (filter (claimable now h) (auth_codes d)) =
    (case rg_codes (view_db d) h of None \<Rightarrow> 0
     | Some i \<Rightarrow> if ci_used i = None \<and> now < ci_expires i then 1 else 0)"
proof -
  let ?open = "\<lambda>r. ac_used_at r = None \<and> now < ac_expires_at r"
  have split: "filter (claimable now h) (auth_codes d) =
      filter ?open (filter (\<lambda>r. ac_code_hash r = h) (auth_codes d))"
    by (simp add: claimable_def conj_commute cong: filter_cong)
  have "length (filter (\<lambda>r. ac_code_hash r = h) (auth_codes d)) \<le> 1"
    using assms by (simp add: distinct_filter_key_length db_ok_def pk_ok_def)
  then show ?thesis unfolding split
    by (auto simp: row_map_filter code_of_row_def simp del: filter_filter split: list.splits)
qed

section \<open>What a writing statement means for the registry\<close>

text \<open>
  \<open>stmt_meets cls g st spec\<close>: on a database in good order the statement \<open>st\<close> changes the registry
  as the operation \<open>spec\<close> does; \<open>cls\<close> is the class a constraint error falls into, \<open>g\<close> what the
  caller makes of the number of rows changed.
\<close>

definition stmt_meets ::
  "(sql_error \<Rightarrow> store_error) \<Rightarrow> (nat \<Rightarrow> 'a) \<Rightarrow> statement \<Rightarrow>
   (registry \<Rightarrow> (store_error + 'a) \<times> registry) \<Rightarrow> bool" where
  "stmt_meets cls g st spec \<longleftrightarrow> (\<forall>d. db_ok d \<longrightarrow>
     spec (view_db d) = (case sql_exec st d of
         Inl e \<Rightarrow> (Inl (cls e), view_db d)
       | Inr (q, d') \<Rightarrow> (Inr (g (rs_changes q)), view_db d')))"

fun exists_class :: "sql_error \<Rightarrow> store_error" where
  "exists_class (Unique_violation cols) = ErrExists"
| "exists_class Foreign_key_violation = Driver []"

definition driver_class :: "sql_error \<Rightarrow> store_error" where
  "driver_class e = Driver []"

lemma insert_tenant_meets:
  "stmt_meets exists_class (\<lambda>_. ()) (Insert_tenant slug name (unix now) (map_option unix e))
     (spec_create_tenant slug name e now)"
  using insert_tenant_view [where r = "\<lparr>tr_slug = slug, tr_display_name = name, tr_created_at = unix now,
      tr_expires_at = map_option unix e\<rparr>"]
  by (auto simp: stmt_meets_def spec_create_tenant_def has_tenant_def tenant_of_row_def option.map_comp)

lemma delete_tenant_meets:
  "stmt_meets driver_class (\<lambda>n. n = 1) (Delete_tenant slug) (spec_delete_tenant slug)"
proof -
  have "length (filter (\<lambda>r. tr_slug r = slug) (tenants d)) = (if slug \<in> tr_slug ` set (tenants d) then 1 else 0)"
    if "db_ok d" for d
    using that by (intro distinct_filter_key_length) (simp add: db_ok_def pk_ok_def)
  then show ?thesis
    using drop_tenants_view drop_nothing
    by (auto simp: stmt_meets_def spec_delete_tenant_def Let_def change_result_def)
qed

lemma insert_service_row_meets:
  assumes "svc = \<lparr>sr_tenant_slug = t, sr_name = n, sr_agent_key_hash = kh, sr_auth_mode = am,
       sr_password_hash = ph, sr_created_at = c\<rparr>" and "db_ok d" and "has_tenant d t"
  shows "(case insert_service_row svc d of
      Inl e \<Rightarrow> (Inl (exists_class e), view_db d)
    | Inr (q, d') \<Rightarrow> (Inr (rs_changes q), view_db d')) =
    (if (t, n) \<in> dom (rg_services (view_db d)) then (Inl ErrExists, view_db d)
     else (Inr 1, (view_db d)\<lparr>rg_services := (rg_services (view_db d))((t, n) \<mapsto> service_of_row svc)\<rparr>))"
  using assms insert_service_view [of svc d]
  by (auto simp: insert_service_row_def change_result_def)

lemma insert_key_meets:
  "stmt_meets driver_class (\<lambda>_. ()) (Insert_key_or_ignore t pem c) (spec_create_key t pem)"
  using insert_key_view [where r = "\<lparr>kr_tenant_slug = t, kr_private_key_pem = pem, kr_created_at = c\<rparr>"]
  by (auto simp: stmt_meets_def spec_create_key_def has_tenant_def driver_class_def no_tenant_def)

lemma insert_client_meets:
  "stmt_meets exists_class (\<lambda>_. ()) (Insert_client t cid uris c) (spec_create_client t cid uris)"
  using insert_client_view [where r = "\<lparr>cr_tenant_slug = t, cr_client_id = cid, cr_redirect_uris = uris, cr_created_at = c\<rparr>"]
  by (auto simp: stmt_meets_def spec_create_client_def has_tenant_def no_tenant_def)

lemma insert_code_meets:
  "stmt_meets driver_class (\<lambda>_. ()) (Insert_code h t cid uri ch (unix e)) (spec_create_code h t cid uri ch e)"
  using insert_code_view [where r = "\<lparr>ac_code_hash = h, ac_tenant_slug = t, ac_client_id = cid, ac_redirect_uri = uri,
               ac_code_challenge = ch, ac_expires_at = unix e, ac_used_at = None\<rparr>"]
  by (auto simp: stmt_meets_def spec_create_code_def has_tenant_def driver_class_def no_tenant_def code_of_row_def)

section \<open>Operations of several statements\<close>

text \<open>One rate-limit hit: after the prune and the upsert the row read back holds the new count.\<close>

lemma rate_hit_steps:
  assumes w: "w = go_quot (unix now) 3600"
  shows "\<exists>d1 d2 n q1 q2 q3. sql_exec (Prune_rate (w - 2)) d = Inr (q1, d1)
    \<and> sql_exec (Upsert_rate ip w) d1 = Inr (q2, d2) \<and> sql_exec (Select_rate ip w) d2 = Inr (rows_result q3, d2)
    \<and> (\<exists>rs. q3 = [(''count'', SQL_Int n)] # rs) \<and> spec_rate_hit ip now (view_db d) = (Inr n, view_db d2)"
proof -
  define d1 where "d1 = d\<lparr>quick_rate := filter (\<lambda>r. \<not> rr_window_start r < w - 2) (quick_rate d)\<rparr>"
  define d2 where "d2 = d1\<lparr>quick_rate := upsert_rate_rows ip w (quick_rate d1)\<rparr>"
  define n where "n = (case rg_rates (view_db d) (ip, w) of None \<Rightarrow> 1 | Some k \<Rightarrow> k + 1)"
  have v1: "rg_rates (view_db d1) = (\<lambda>(i, v). if v < w - 2 then None else rg_rates (view_db d) (i, v))"
    using arg_cong [OF prune_view [where d = d and w = "w - 2"], of rg_rates]
    unfolding d1_def by simp
  have "rg_rates (view_db d2) = (rg_rates (view_db d1))((ip, w) \<mapsto>
      (case rg_rates (view_db d1) (ip, w) of None \<Rightarrow> 1 | Some k \<Rightarrow> k + 1))"
    by (simp add: d2_def upsert_rate_map)
  then have v2: "rg_rates (view_db d2) = (rg_rates (view_db d1))((ip, w) \<mapsto> n)"
    by (simp only: v1 n_def) simp
  have rates: "rg_rates (view_db d2) = (\<lambda>(i, v). if v < w - 2 then None
      else if (i, v) = (ip, w) then Some n else rg_rates (view_db d) (i, v))"
    unfolding v2 v1 by (simp add: fun_eq_iff)
  have "view_db d2 = (view_db d)\<lparr>rg_rates := rg_rates (view_db d2)\<rparr>"
    by (simp add: view_db_def d2_def d1_def)
  then have view: "view_db d2 = (view_db d)\<lparr>rg_rates := (\<lambda>(i, v). if v < w - 2 then None
      else if (i, v) = (ip, w) then Some n else rg_rates (view_db d) (i, v))\<rparr>"
    unfolding rates .
  have "row_map rate_key rr_count (quick_rate d2) (ip, w) = Some n" using v2 by simp
  then obtain r rs where rows: "filter (\<lambda>r. rate_key r = (ip, w)) (quick_rate d2) = r # rs" and "rr_count r = n"
    by (auto simp: row_map_filter split: list.splits)
  then have "sql_exec (Select_rate ip w) d2 =
      Inr (rows_result ([(''count'', SQL_Int n)] # map (\<lambda>r. [(''count'', SQL_Int (rr_count r))]) rs), d2)"
    by simp
  moreover have "sql_exec (Prune_rate (w - 2)) d = Inr (change_result
      (length (filter (\<lambda>r. rr_window_start r < w - 2) (quick_rate d))) 0, d1)"
    by (simp add: d1_def)
  moreover have "sql_exec (Upsert_rate ip w) d1 = Inr (change_result 1 0, d2)"
    by (simp only: upsert_rate_exec d2_def)
  moreover have "spec_rate_hit ip now (view_db d) = (Inr n, view_db d2)"
    unfolding spec_rate_hit_def view Let_def n_def w by (rule refl)
  ultimately show ?thesis by blast
qed

text \<open>Claiming a code changes no row or one, and the row read back is the claimed one.\<close>

lemma claim_steps:
  assumes d: "db_ok d"
  shows "\<exists>m d'. sql_exec (Claim_code (unix now) h) d = Inr (change_result m 0, d')
    \<and> (m = 0 \<and> spec_consume_code h now (view_db d) = (Inl ErrNotFound, view_db d')
       \<or> m = 1 \<and> (\<exists>r. sql_exec (Select_code h) d' = Inr (rows_result [code_cols r], d')
           \<and> spec_consume_code h now (view_db d) =
               (Inr (ac_tenant_slug r, ac_client_id r, ac_redirect_uri r, ac_code_challenge r), view_db d')))"
proof -
  define d' where "d' = d\<lparr>auth_codes := map (mark_used (unix now) h) (auth_codes d)\<rparr>"
  define m where "m = length (filter (claimable (unix now) h) (auth_codes d))"
  have e: "sql_exec (Claim_code (unix now) h) d = Inr (change_result m 0, d')" by (simp add: d'_def m_def)
  have d': "db_ok d'" using sql_exec_ok [OF e d] .
  have view: "view_db d' = (view_db d)\<lparr>rg_codes := (rg_codes (view_db d))(h :=
       map_option (\<lambda>i. if ci_used i = None \<and> unix now < ci_expires i then i\<lparr>ci_used := Some (unix now)\<rparr> else i)
         (rg_codes (view_db d) h))\<rparr>"
    unfolding d'_def by (rule mark_used_view [OF d])
  have m: "m = (case rg_codes (view_db d) h of None \<Rightarrow> 0
     | Some i \<Rightarrow> if ci_used i = None \<and> unix now < ci_expires i then 1 else 0)"
    using claimed_rows [OF d] by (simp add: m_def)
  show ?thesis
  proof (cases "m = 0")
    case True
    then have "spec_consume_code h now (view_db d) = (Inl ErrNotFound, view_db d')"
      unfolding view spec_consume_code_def using m
      by (auto simp: fun_upd_idem simp del: view_db_sel split: option.splits if_splits)
    with e True show ?thesis by blast
  next
    case False
    then obtain i where i: "rg_codes (view_db d) h = Some i" "ci_used i = None" "unix now < ci_expires i" "m = 1"
      using m by (auto simp del: view_db_sel split: option.splits if_splits)
    define j where "j = i\<lparr>ci_used := Some (unix now)\<rparr>"
    have "rg_codes (view_db d') h = Some j" using i by (simp add: view j_def del: view_db_sel)
    then obtain r rs where rows: "filter (\<lambda>r. ac_code_hash r = h) (auth_codes d') = r # rs" "code_of_row r = j"
      by (auto simp: row_map_filter split: list.splits)
    have "length (filter (\<lambda>r. ac_code_hash r = h) (auth_codes d')) \<le> 1"
      using d' by (simp add: distinct_filter_key_length db_ok_def pk_ok_def)
    then have "rs = []" using rows(1) by simp
    moreover have "ac_tenant_slug r = ci_tenant i" "ac_client_id r = ci_client i"
      "ac_redirect_uri r = ci_redirect i" "ac_code_challenge r = ci_challenge i"
      using arg_cong [OF rows(2), of ci_tenant] arg_cong [OF rows(2), of ci_client]
        arg_cong [OF rows(2), of ci_redirect] arg_cong [OF rows(2), of ci_challenge]
      by (simp_all add: j_def code_of_row_def)
    moreover have "spec_consume_code h now (view_db d) =
        (Inr (ci_tenant i, ci_client i, ci_redirect i, ci_challenge i), view_db d')"
      unfolding view spec_consume_code_def using i by (simp del: view_db_sel)
    ultimately show ?thesis using e i(4) rows(1) by (intro exI [of _ m] exI [of _ d']) auto
  qed
qed

end
