(* ===== verification/Sqlite_Store.thy ===== *)
theory Sqlite_Store
  imports Registry_View Encoding
begin

text \<open>
  \<open>internal/store/store.go\<close>: the SQLite backend. The connection is the database with a schedule of
  driver faults, one entry for each statement to come (none left: no more faults), so that every
  \<open>if err != nil\<close> of the source is a branch some schedule takes. \<open>database/sql\<close>'s \<open>Exec\<close>, \<open>Query\<close>
  and \<open>QueryRow().Scan\<close> are modelled over \<open>sql_exec\<close>; the methods follow in the source's order, and
  the last section shows that the backend keeps the contract of \<open>Store_Spec\<close>.
\<close>

section \<open>database/sql\<close>

text \<open>
  A statement can be refused by the driver (busy, I/O error) before it has any effect, or its row
  iteration can break off after some rows, which \<open>rows.Err()\<close> then reports.
\<close>

datatype fault = No_fault | Stmt_fault string | Rows_fault nat string

record conn =
  c_db :: database
  c_faults :: "fault list"

definition next_fault :: "conn \<Rightarrow> fault \<times> conn" where
  "next_fault c = (case c_faults c of [] \<Rightarrow> (No_fault, c) | f # fs \<Rightarrow> (f, c\<lparr>c_faults := fs\<rparr>))"

fun cut_rows :: "fault \<Rightarrow> sql_row list \<Rightarrow> sql_row list \<times> string option" where
  "cut_rows (Rows_fault n m) rs = (take n rs, Some m)"
| "cut_rows _ rs = (rs, None)"

text \<open>\<open>db.Exec\<close>: the number of rows affected.\<close>

definition db_exec :: "statement \<Rightarrow> conn \<Rightarrow> (string + nat) \<times> conn" where
  "db_exec st c =
     (let (f, c) = next_fault c in
      case f of Stmt_fault m \<Rightarrow> (Inl m, c)
      | _ \<Rightarrow> (case sql_exec st (c_db c) of
           Inl e \<Rightarrow> (Inl (sql_error_text e), c)
         | Inr (q, d) \<Rightarrow> (Inr (rs_changes q), c\<lparr>c_db := d\<rparr>)))"

text \<open>\<open>db.Query\<close>: the rows the iteration delivers and what \<open>rows.Err()\<close> says after it.\<close>

definition db_query :: "statement \<Rightarrow> conn \<Rightarrow> (string + sql_row list \<times> string option) \<times> conn" where
  "db_query st c =
     (let (f, c) = next_fault c in
      case f of Stmt_fault m \<Rightarrow> (Inl m, c)
      | _ \<Rightarrow> (case sql_exec st (c_db c) of
           Inl e \<Rightarrow> (Inl (sql_error_text e), c)
         | Inr (q, d) \<Rightarrow> (Inr (cut_rows f (rs_rows q)), c\<lparr>c_db := d\<rparr>)))"

text \<open>\<open>db.QueryRow(...).Scan\<close>: the first row, \<open>sql.ErrNoRows\<close> when there is none.\<close>

datatype scan_error = No_rows | Scan_error string

definition query_row :: "statement \<Rightarrow> conn \<Rightarrow> (scan_error + sql_row) \<times> conn" where
  "query_row st c =
     (case db_query st c of
        (Inl m, c) \<Rightarrow> (Inl (Scan_error m), c)
      | (Inr (r # rs, e), c) \<Rightarrow> (Inr r, c)
      | (Inr ([], Some m), c) \<Rightarrow> (Inl (Scan_error m), c)
      | (Inr ([], None), c) \<Rightarrow> (Inl No_rows, c))"

text \<open>Scanning a column into a \<open>string\<close>, an \<open>int64\<close> or a \<open>sql.NullInt64\<close>.\<close>

fun scan_text :: "sql_value option \<Rightarrow> scan_error + string" where
  "scan_text (Some (SQL_Text s)) = Inr s"
| "scan_text (Some (SQL_Int n)) = Inr (itoa n)"
| "scan_text _ = Inl (Scan_error ''converting NULL to string is unsupported'')"

fun scan_int :: "sql_value option \<Rightarrow> scan_error + int" where
  "scan_int (Some (SQL_Int n)) = Inr n"
| "scan_int (Some (SQL_Text s)) =
     (case parse_int64 s of None \<Rightarrow> Inl (Scan_error ''converting driver.Value type string'') | Some n \<Rightarrow> Inr n)"
| "scan_int _ = Inl (Scan_error ''converting NULL to int64 is unsupported'')"

fun scan_null_int :: "sql_value option \<Rightarrow> scan_error + int option" where
  "scan_null_int (Some SQL_Null) = Inr None"
| "scan_null_int v = map_sum id Some (scan_int v)"

definition bind_sum :: "'e + 'a \<Rightarrow> ('a \<Rightarrow> 'e + 'b) \<Rightarrow> 'e + 'b" where
  "bind_sum r f = (case r of Inl e \<Rightarrow> Inl e | Inr a \<Rightarrow> f a)"

lemma bind_sum_simps [simp]: "bind_sum (Inl e) f = Inl e" "bind_sum (Inr a) f = f a"
  by (simp_all add: bind_sum_def)

text \<open>\<open>errors.Is(err, sql.ErrNoRows)\<close> becomes \<open>ErrNotFound\<close>, any other error is passed on.\<close>

fun scan_store_error :: "scan_error \<Rightarrow> store_error" where
  "scan_store_error No_rows = ErrNotFound"
| "scan_store_error (Scan_error m) = Driver m"

fun scan_driver_error :: "scan_error \<Rightarrow> store_error" where
  "scan_driver_error No_rows = Driver ''sql: no rows in result set''"
| "scan_driver_error (Scan_error m) = Driver m"

definition isUniqueViolation :: "string \<Rightarrow> bool" where
  "isUniqueViolation m = contains m ''UNIQUE constraint failed''"

text \<open>An insert's error: \<open>ErrExists\<close> for a unique violation.\<close>

definition insert_error :: "string \<Rightarrow> store_error" where
  "insert_error m = (if isUniqueViolation m then ErrExists else Driver m)"

section \<open>Tenants\<close>

definition sqlite_CreateTenantExpiry ::
  "string \<Rightarrow> string \<Rightarrow> time option \<Rightarrow> time \<Rightarrow> conn \<Rightarrow> (store_error + unit) \<times> conn" where
  "sqlite_CreateTenantExpiry slug displayName expiresAt now c =
     (case db_exec (Insert_tenant slug displayName (unix now) (map_option unix expiresAt)) c of
        (Inl m, c) \<Rightarrow> (Inl (insert_error m), c)
      | (Inr _, c) \<Rightarrow> (Inr (), c))"

definition sqlite_CreateTenant :: "string \<Rightarrow> string \<Rightarrow> time \<Rightarrow> conn \<Rightarrow> (store_error + unit) \<times> conn" where
  "sqlite_CreateTenant slug displayName now = sqlite_CreateTenantExpiry slug displayName None now"

definition scan_tenant :: "sql_row \<Rightarrow> scan_error + tenant" where
  "scan_tenant r =
     bind_sum (scan_text (map_of r ''slug'')) (\<lambda>slug.
     bind_sum (scan_text (map_of r ''display_name'')) (\<lambda>name.
     bind_sum (scan_int (map_of r ''created_at'')) (\<lambda>created.
     bind_sum (scan_null_int (map_of r ''expires_at'')) (\<lambda>expires.
     Inr \<lparr>Slug = slug, DisplayName = name, CreatedAt = time_unix created,
          ExpiresAt = map_option time_unix expires\<rparr>))))"

definition sqlite_GetTenant :: "string \<Rightarrow> conn \<Rightarrow> (store_error + tenant) \<times> conn" where
  "sqlite_GetTenant slug c =
     (case query_row (Select_tenant slug) c of
        (r, c) \<Rightarrow> (map_sum scan_store_error id (bind_sum r scan_tenant), c))"

definition sqlite_DeleteTenant :: "string \<Rightarrow> conn \<Rightarrow> (store_error + bool) \<times> conn" where
  "sqlite_DeleteTenant slug c =
     (case db_exec (Delete_tenant slug) c of
        (Inl m, c) \<Rightarrow> (Inl (Driver m), c)
      | (Inr n, c) \<Rightarrow> (Inr (n = 1), c))"

text \<open>The scan loop of \<open>DeleteExpiredTenants\<close>, then its delete loop.\<close>

fun scan_slugs :: "sql_row list \<Rightarrow> scan_error + string list" where
  "scan_slugs [] = Inr []"
| "scan_slugs (r # rs) =
     bind_sum (scan_text (map_of r ''slug'')) (\<lambda>s. bind_sum (scan_slugs rs) (\<lambda>ss. Inr (s # ss)))"

fun sqlite_delete_all :: "string list \<Rightarrow> conn \<Rightarrow> store_error option \<times> conn" where
  "sqlite_delete_all [] c = (None, c)"
| "sqlite_delete_all (s # ss) c =
     (case sqlite_DeleteTenant s c of
        (Inl e, c) \<Rightarrow> (Some e, c)
      | (Inr _, c) \<Rightarrow> sqlite_delete_all ss c)"

definition sqlite_DeleteExpiredTenants ::
  "time \<Rightarrow> conn \<Rightarrow> (string list \<times> store_error option) \<times> conn" where
  "sqlite_DeleteExpiredTenants now c =
     (case db_query (Select_expired (unix now)) c of
        (Inl m, c) \<Rightarrow> (([], Some (Driver m)), c)
      | (Inr (rows, err), c) \<Rightarrow>
          (case scan_slugs rows of
             Inl e \<Rightarrow> (([], Some (scan_driver_error e)), c)
           | Inr slugs \<Rightarrow>
               (case err of
                  Some m \<Rightarrow> (([], Some (Driver m)), c)
                | None \<Rightarrow> (case sqlite_delete_all slugs c of (e, c) \<Rightarrow> ((slugs, e), c)))))"

definition sqlite_CountLiveTenants :: "time \<Rightarrow> conn \<Rightarrow> (store_error + int) \<times> conn" where
  "sqlite_CountLiveTenants now c =
     (case query_row (Count_live (unix now)) c of
        (r, c) \<Rightarrow> (map_sum scan_driver_error id (bind_sum r (\<lambda>row. scan_int (map_of row ''n''))), c))"

section \<open>Quick-tunnel rate limiting\<close>

definition sqlite_QuickRateHit :: "string \<Rightarrow> time \<Rightarrow> conn \<Rightarrow> (store_error + int) \<times> conn" where
  "sqlite_QuickRateHit ip now c =
     (let window = go_quot (unix now) 3600 in
      case db_exec (Prune_rate (window - 2)) c of
        (Inl m, c) \<Rightarrow> (Inl (Driver m), c)
      | (Inr _, c) \<Rightarrow>
      (case db_exec (Upsert_rate ip window) c of
        (Inl m, c) \<Rightarrow> (Inl (Driver m), c)
      | (Inr _, c) \<Rightarrow>
      (case query_row (Select_rate ip window) c of
        (r, c) \<Rightarrow> (map_sum scan_driver_error id (bind_sum r (\<lambda>row. scan_int (map_of row ''count''))), c))))"

section \<open>Services\<close>

definition sqlite_agentKeyPrefix :: string where
  "sqlite_agentKeyPrefix = ''tun_agent''"

definition sqlite_agent_key :: "string \<Rightarrow> string" where
  "sqlite_agent_key rnd = sqlite_agentKeyPrefix @ ''_'' @ hex_encode rnd"

text \<open>\<open>newAgentKey\<close>: the plaintext from 24 random bytes, and its bcrypt hash.\<close>

definition sqlite_newAgentKey :: "bcrypt \<Rightarrow> string \<Rightarrow> string \<Rightarrow> store_error + string \<times> string" where
  "sqlite_newAgentKey B salt rnd =
     (let plaintext = sqlite_agent_key rnd in
      case HashSecret B salt plaintext of Inl e \<Rightarrow> Inl e | Inr hash \<Rightarrow> Inr (plaintext, hash))"

definition sqlite_CreateService ::
  "bcrypt \<Rightarrow> string \<Rightarrow> string \<Rightarrow> time \<Rightarrow> string \<Rightarrow> service \<Rightarrow> conn \<Rightarrow> (store_error + string) \<times> conn" where
  "sqlite_CreateService B salt rnd now tenantSlug svc c =
     and_then (sqlite_GetTenant tenantSlug c) (\<lambda>_ c.
     and_then (sqlite_newAgentKey B salt rnd, c) (\<lambda>(plaintext, hash) c.
       let svc = svc\<lparr>AgentKeyHash := hash, SvcCreatedAt := now, AuthMode := default_auth_mode (AuthMode svc)\<rparr> in
       case db_exec (Insert_service tenantSlug (Name svc) (AgentKeyHash svc) (AuthMode svc)
              (PasswordHash svc) (unix (SvcCreatedAt svc))) c of
         (Inl m, c) \<Rightarrow> (Inl (insert_error m), c)
       | (Inr _, c) \<Rightarrow> (Inr plaintext, c)))"

definition scan_service :: "sql_row \<Rightarrow> scan_error + service" where
  "scan_service r =
     bind_sum (scan_text (map_of r ''name'')) (\<lambda>name.
     bind_sum (scan_text (map_of r ''agent_key_hash'')) (\<lambda>kh.
     bind_sum (scan_text (map_of r ''auth_mode'')) (\<lambda>am.
     bind_sum (scan_text (map_of r ''password_hash'')) (\<lambda>ph.
     bind_sum (scan_int (map_of r ''created_at'')) (\<lambda>created.
     Inr \<lparr>Name = name, AgentKeyHash = kh, AuthMode = am, PasswordHash = ph,
          SvcCreatedAt = time_unix created\<rparr>)))))"

definition sqlite_GetService :: "string \<Rightarrow> string \<Rightarrow> conn \<Rightarrow> (store_error + service) \<times> conn" where
  "sqlite_GetService tenantSlug name c =
     (case query_row (Select_service tenantSlug name) c of
        (r, c) \<Rightarrow> (map_sum scan_store_error id (bind_sum r scan_service), c))"

definition sqlite_ValidatePassword ::
  "bcrypt \<Rightarrow> string \<Rightarrow> string \<Rightarrow> string \<Rightarrow> conn \<Rightarrow> (store_error + bool) \<times> conn" where
  "sqlite_ValidatePassword B tenantSlug name password c =
     and_then (sqlite_GetService tenantSlug name c) (\<lambda>svc c.
       if PasswordHash svc = [] then (Inr True, c)
       else (Inr (CheckSecret B (PasswordHash svc) password), c))"

definition sqlite_ValidateAgentKey ::
  "bcrypt \<Rightarrow> string \<Rightarrow> string \<Rightarrow> string \<Rightarrow> conn \<Rightarrow> (store_error + service) \<times> conn" where
  "sqlite_ValidateAgentKey B tenantSlug name key c =
     and_then (sqlite_GetService tenantSlug name c) (\<lambda>svc c.
       if key = [] \<or> \<not> CheckSecret B (AgentKeyHash svc) key then (Inl ErrInvalidAgentKey, c)
       else (Inr svc, c))"

section \<open>OAuth\<close>

definition sqlite_CreateSigningKey ::
  "string \<Rightarrow> string \<Rightarrow> time \<Rightarrow> conn \<Rightarrow> (store_error + unit) \<times> conn" where
  "sqlite_CreateSigningKey tenantSlug privateKeyPEM now c =
     (case db_exec (Insert_key_or_ignore tenantSlug privateKeyPEM (unix now)) c of
        (Inl m, c) \<Rightarrow> (Inl (Driver m), c)
      | (Inr _, c) \<Rightarrow> (Inr (), c))"

definition sqlite_GetSigningKey :: "string \<Rightarrow> conn \<Rightarrow> (store_error + string) \<times> conn" where
  "sqlite_GetSigningKey tenantSlug c =
     (case query_row (Select_key tenantSlug) c of
        (r, c) \<Rightarrow> (map_sum scan_store_error id
           (bind_sum r (\<lambda>row. scan_text (map_of row ''private_key_pem''))), c))"

definition sqlite_CreateOAuthClient ::
  "string \<Rightarrow> string \<Rightarrow> string \<Rightarrow> time \<Rightarrow> conn \<Rightarrow> (store_error + unit) \<times> conn" where
  "sqlite_CreateOAuthClient tenantSlug clientID redirectURIs now c =
     (case db_exec (Insert_client tenantSlug clientID redirectURIs (unix now)) c of
        (Inl m, c) \<Rightarrow> (Inl (insert_error m), c)
      | (Inr _, c) \<Rightarrow> (Inr (), c))"

definition sqlite_GetOAuthClient :: "string \<Rightarrow> string \<Rightarrow> conn \<Rightarrow> (store_error + string) \<times> conn" where
  "sqlite_GetOAuthClient tenantSlug clientID c =
     (case query_row (Select_client tenantSlug clientID) c of
        (r, c) \<Rightarrow> (map_sum scan_store_error id
           (bind_sum r (\<lambda>row. scan_text (map_of row ''redirect_uris''))), c))"

definition sqlite_CreateAuthCode ::
  "string \<Rightarrow> string \<Rightarrow> string \<Rightarrow> string \<Rightarrow> string \<Rightarrow> time \<Rightarrow> conn \<Rightarrow> (store_error + unit) \<times> conn" where
  "sqlite_CreateAuthCode codeHash tenantSlug clientID redirectURI codeChallenge expiresAt c =
     (case db_exec (Insert_code codeHash tenantSlug clientID redirectURI codeChallenge (unix expiresAt)) c of
        (Inl m, c) \<Rightarrow> (Inl (Driver m), c)
      | (Inr _, c) \<Rightarrow> (Inr (), c))"

definition scan_code :: "sql_row \<Rightarrow> scan_error + string \<times> string \<times> string \<times> string" where
  "scan_code r =
     bind_sum (scan_text (map_of r ''tenant_slug'')) (\<lambda>t.
     bind_sum (scan_text (map_of r ''client_id'')) (\<lambda>cid.
     bind_sum (scan_text (map_of r ''redirect_uri'')) (\<lambda>uri.
     bind_sum (scan_text (map_of r ''code_challenge'')) (\<lambda>ch. Inr (t, cid, uri, ch)))))"

definition sqlite_ConsumeAuthCode ::
  "string \<Rightarrow> time \<Rightarrow> conn \<Rightarrow> (store_error + string \<times> string \<times> string \<times> string) \<times> conn" where
  "sqlite_ConsumeAuthCode codeHash now c =
     (case db_exec (Claim_code (unix now) codeHash) c of
        (Inl m, c) \<Rightarrow> (Inl (Driver m), c)
      | (Inr n, c) \<Rightarrow>
          if n = 0 then (Inl ErrNotFound, c)
          else (case query_row (Select_code codeHash) c of
                  (r, c) \<Rightarrow> (map_sum scan_driver_error id (bind_sum r scan_code), c)))"

text \<open>\<open>var _ API = (*Store)(nil)\<close>: the backend as a value of the interface.\<close>

definition sqlite_api :: "conn store_api" where
  "sqlite_api = \<lparr>
     CreateTenantExpiry = sqlite_CreateTenantExpiry, GetTenant = sqlite_GetTenant,
     DeleteTenant = sqlite_DeleteTenant, DeleteExpiredTenants = sqlite_DeleteExpiredTenants,
     CountLiveTenants = sqlite_CountLiveTenants, QuickRateHit = sqlite_QuickRateHit,
     CreateService = sqlite_CreateService, GetService = sqlite_GetService,
     ValidatePassword = sqlite_ValidatePassword, ValidateAgentKey = sqlite_ValidateAgentKey,
     CreateSigningKey = sqlite_CreateSigningKey, GetSigningKey = sqlite_GetSigningKey,
     CreateOAuthClient = sqlite_CreateOAuthClient, GetOAuthClient = sqlite_GetOAuthClient,
     CreateAuthCode = sqlite_CreateAuthCode, ConsumeAuthCode = sqlite_ConsumeAuthCode\<rparr>"

section \<open>The contract\<close>

text \<open>In good order: the keys hold and no driver fault is scheduled.\<close>

definition conn_ok :: "conn \<Rightarrow> bool" where
  "conn_ok c \<longleftrightarrow> db_ok (c_db c) \<and> c_faults c = []"

definition view_conn :: "conn \<Rightarrow> registry" where
  "view_conn c = view_db (c_db c)"

lemma isUniqueViolation_unique [simp]: "isUniqueViolation (sql_error_text (Unique_violation cols))"
  unfolding isUniqueViolation_def contains_iff by (rule exI [of _ "[]"]) simp

lemma isUniqueViolation_foreign [simp]: "\<not> isUniqueViolation (sql_error_text Foreign_key_violation)"
  unfolding isUniqueViolation_def by code_simp

lemma conn_ok_update [simp]: "c_faults c = [] \<Longrightarrow> conn_ok (c\<lparr>c_db := d\<rparr>) \<longleftrightarrow> db_ok d"
  by (simp add: conn_ok_def)

lemma view_conn_update [simp]: "view_conn (c\<lparr>c_db := d\<rparr>) = view_db d"
  by (simp add: view_conn_def)

lemma healthy_exec:
  assumes "c_faults c = []"
  shows "db_exec st c = (case sql_exec st (c_db c) of
      Inl e \<Rightarrow> (Inl (sql_error_text e), c) | Inr (q, d) \<Rightarrow> (Inr (rs_changes q), c\<lparr>c_db := d\<rparr>))"
  using assms by (simp add: db_exec_def next_fault_def)

lemma healthy_query:
  assumes "c_faults c = []" and "sql_exec st (c_db c) = Inr (rows_result rs, c_db c)"
  shows "db_query st c = (Inr (rs, None), c)"
    and "query_row st c = (case rs of [] \<Rightarrow> (Inl No_rows, c) | r # _ \<Rightarrow> (Inr r, c))"
  using assms
  by (simp_all add: db_query_def query_row_def next_fault_def rows_result_def split: list.splits)

text \<open>A read implements the lookup in the abstract map.\<close>

lemma read_implements:
  assumes "\<And>d. sql_exec st d = Inr (rows_result (map cols (filter (\<lambda>r. k r = x) (tab d))), d)"
    and "\<And>c. op c = (case query_row st c of (r, c) \<Rightarrow> (map_sum scan_store_error id (bind_sum r sc), c))"
    and "\<And>r. sc (cols r) = Inr (v r)"
    and "\<And>c. rg (view_conn c) = row_map k v (tab (c_db c))"
  shows "implements conn_ok view_conn op (\<lambda>R. (spec_lookup (rg R) x, R))"
proof (rule implementsI)
  fix c
  assume ok: "conn_ok c"
  then have f: "c_faults c = []" by (simp add: conn_ok_def)
  let ?rows = "filter (\<lambda>r. k r = x) (tab (c_db c))"
  have "op c = ((case ?rows of [] \<Rightarrow> Inl ErrNotFound | r # _ \<Rightarrow> Inr (v r)), c)"
    using healthy_query(2) [OF f assms(1)] by (cases ?rows) (simp_all add: assms(2,3))
  then show "conn_ok (snd (op c)) \<and>
      (spec_lookup (rg (view_conn c)) x, view_conn c) = (erase (fst (op c)), view_conn (snd (op c)))"
    using ok by (simp add: assms(4) spec_lookup_rows split: list.splits)
qed

lemma scan_tenant_cols [simp]: "scan_tenant (tenant_cols r) = Inr (tenant_of_row r)"
  by (simp add: scan_tenant_def tenant_cols_def tenant_of_row_def sql_opt_int_def split: option.splits)

lemma scan_service_cols [simp]: "scan_service (service_cols r) = Inr (service_of_row r)"
  by (simp add: scan_service_def service_cols_def service_of_row_def)

lemma sqlite_GetTenant_ok:
  "implements conn_ok view_conn (sqlite_GetTenant slug) (\<lambda>R. (spec_lookup (rg_tenants R) slug, R))"
  by (rule read_implements [where tab = tenants and cols = tenant_cols and k = tr_slug and v = tenant_of_row
        and sc = scan_tenant and st = "Select_tenant slug"])
    (simp_all add: sqlite_GetTenant_def view_conn_def)

lemma sqlite_GetService_ok:
  "implements conn_ok view_conn (sqlite_GetService t n) (\<lambda>R. (spec_lookup (rg_services R) (t, n), R))"
  by (rule read_implements [where tab = services and cols = service_cols and k = service_key and v = service_of_row
        and sc = scan_service and st = "Select_service t n"])
    (simp_all add: sqlite_GetService_def view_conn_def)

lemma sqlite_GetSigningKey_ok:
  "implements conn_ok view_conn (sqlite_GetSigningKey t) (\<lambda>R. (spec_lookup (rg_keys R) t, R))"
  by (rule read_implements [where tab = signing_keys and k = kr_tenant_slug and v = kr_private_key_pem and st = "Select_key t"
        and cols = "\<lambda>r. [(''private_key_pem'', SQL_Text (kr_private_key_pem r))]"
        and sc = "\<lambda>row. scan_text (map_of row ''private_key_pem'')"])
    (simp_all add: sqlite_GetSigningKey_def view_conn_def)

lemma sqlite_GetOAuthClient_ok:
  "implements conn_ok view_conn (sqlite_GetOAuthClient t cid) (\<lambda>R. (spec_lookup (rg_clients R) (t, cid), R))"
  by (rule read_implements [where tab = oauth_clients and k = client_key and v = cr_redirect_uris and st = "Select_client t cid"
        and cols = "\<lambda>r. [(''redirect_uris'', SQL_Text (cr_redirect_uris r))]"
        and sc = "\<lambda>row. scan_text (map_of row ''redirect_uris'')"])
    (simp_all add: sqlite_GetOAuthClient_def view_conn_def)

text \<open>A write from a healthy connection: the statement ran, the keys still hold.\<close>

lemma write_ok:
  assumes "conn_ok c" and "sql_exec st (c_db c) = Inr (q, d)"
  shows "conn_ok (c\<lparr>c_db := d\<rparr>)"
  using assms sql_exec_ok by (simp add: conn_ok_def)

lemma insert_error_class [simp]: "erase_error (insert_error (sql_error_text e)) = exists_class e"
  by (cases e) (simp_all add: insert_error_def del: sql_error_text.simps)

lemma driver_error_class [simp]: "erase_error (Driver m) = driver_class e"
  by (simp add: driver_class_def)

text \<open>
  An operation that issues one writing statement implements what the statement means for the registry.
\<close>

lemma write_implements:
  assumes "\<And>c. op c = (case db_exec st c of (Inl m, c) \<Rightarrow> (Inl (er m), c) | (Inr n, c) \<Rightarrow> (Inr (g n), c))"
    and "stmt_meets cls g st spec"
    and "\<And>e. erase_error (er (sql_error_text e)) = cls e"
  shows "implements conn_ok view_conn op spec"
proof (rule implementsI)
  fix c
  assume ok: "conn_ok c"
  then have f: "c_faults c = []" and d: "db_ok (c_db c)" by (simp_all add: conn_ok_def)
  have spec: "spec (view_conn c) = (case sql_exec st (c_db c) of
      Inl e \<Rightarrow> (Inl (cls e), view_conn c) | Inr (q, d') \<Rightarrow> (Inr (g (rs_changes q)), view_db d'))"
    using assms(2) d by (simp add: stmt_meets_def view_conn_def split: sum.split)
  show "conn_ok (snd (op c)) \<and> spec (view_conn c) = (erase (fst (op c)), view_conn (snd (op c)))"
    using ok f spec write_ok [OF ok, of st]
    by (auto simp: assms(1,3) healthy_exec [OF f] split: sum.splits)
qed

lemma sqlite_CreateTenantExpiry_ok:
  "implements conn_ok view_conn (sqlite_CreateTenantExpiry slug name e now) (spec_create_tenant slug name e now)"
  by (rule write_implements [OF _ insert_tenant_meets insert_error_class])
    (simp add: sqlite_CreateTenantExpiry_def)

lemma sqlite_DeleteTenant_ok:
  "implements conn_ok view_conn (sqlite_DeleteTenant slug) (spec_delete_tenant slug)"
  by (rule write_implements [OF _ delete_tenant_meets driver_error_class])
    (simp add: sqlite_DeleteTenant_def)

lemma sqlite_CreateSigningKey_ok:
  "implements conn_ok view_conn (sqlite_CreateSigningKey t pem now) (spec_create_key t pem)"
  by (rule write_implements [OF _ insert_key_meets driver_error_class])
    (simp add: sqlite_CreateSigningKey_def)

lemma sqlite_CreateOAuthClient_ok:
  "implements conn_ok view_conn (sqlite_CreateOAuthClient t cid uris now) (spec_create_client t cid uris)"
  by (rule write_implements [OF _ insert_client_meets insert_error_class])
    (simp add: sqlite_CreateOAuthClient_def)

lemma sqlite_CreateAuthCode_ok:
  "implements conn_ok view_conn (sqlite_CreateAuthCode h t cid uri ch e) (spec_create_code h t cid uri ch e)"
  by (rule write_implements [OF _ insert_code_meets driver_error_class])
    (simp add: sqlite_CreateAuthCode_def)

text \<open>The delete loop removes every slug it is given.\<close>

lemma sqlite_delete_all_ok:
  "conn_ok c \<Longrightarrow> \<exists>c'. sqlite_delete_all ss c = (None, c') \<and> conn_ok c'
     \<and> view_conn c' = drop_tenants (set ss) (view_conn c)"
proof (induction ss arbitrary: c)
  case Nil
  then show ?case by simp
next
  case (Cons s ss)
  obtain r c1 where del: "sqlite_DeleteTenant s c = (r, c1)" by fastforce
  from implementsD [OF sqlite_DeleteTenant_ok Cons.prems del]
  have ok: "conn_ok c1" and r: "\<exists>b. r = Inr b" and v: "view_conn c1 = drop_tenants {s} (view_conn c)"
    by (auto simp: spec_delete_tenant_def)
  from Cons.IH [OF ok] show ?case using del r v by (auto simp: drop_tenants_twice)
qed

lemma scan_slugs_rows [simp]:
  "scan_slugs (map (\<lambda>r. [(''slug'', SQL_Text (f r))]) rs) = Inr (map f rs)"
  by (induction rs) simp_all

lemma sqlite_DeleteExpiredTenants_ok:
  assumes ok: "conn_ok c" and run: "sqlite_DeleteExpiredTenants now c = ((slugs, err), c')"
  shows "conn_ok c' \<and> err = None \<and> set slugs = expired_tenants now (view_conn c)
    \<and> view_conn c' = drop_tenants (expired_tenants now (view_conn c)) (view_conn c)"
proof -
  from ok have f: "c_faults c = []" and d: "db_ok (c_db c)" by (simp_all add: conn_ok_def)
  let ?rs = "filter (is_expired (unix now)) (tenants (c_db c))"
  obtain c1 where del: "sqlite_delete_all (map tr_slug ?rs) c = (None, c1)" "conn_ok c1"
      "view_conn c1 = drop_tenants (set (map tr_slug ?rs)) (view_conn c)"
    using sqlite_delete_all_ok [OF ok] by blast
  have "set (map tr_slug ?rs) = expired_tenants now (view_conn c)"
    using expired_view [OF d] by (simp add: view_conn_def)
  then show ?thesis
    using run del healthy_query(1) [OF f, of "Select_expired (unix now)"]
    by (auto simp: sqlite_DeleteExpiredTenants_def)
qed

lemma sqlite_CountLiveTenants_ok:
  "implements conn_ok view_conn (sqlite_CountLiveTenants now)
     (\<lambda>R. (Inr (int (card (live_tenants now R))), R))"
proof (rule implementsI)
  fix c
  assume ok: "conn_ok c"
  then have f: "c_faults c = []" and d: "db_ok (c_db c)" by (simp_all add: conn_ok_def)
  show "conn_ok (snd (sqlite_CountLiveTenants now c)) \<and>
     (Inr (int (card (live_tenants now (view_conn c)))), view_conn c) =
     (erase (fst (sqlite_CountLiveTenants now c)), view_conn (snd (sqlite_CountLiveTenants now c)))"
    using ok live_view [OF d, of now]
    by (simp add: sqlite_CountLiveTenants_def healthy_query(2) [OF f] view_conn_def)
qed

lemma sqlite_QuickRateHit_ok:
  "implements conn_ok view_conn (sqlite_QuickRateHit ip now) (spec_rate_hit ip now)"
proof (rule implementsI)
  fix c
  assume ok: "conn_ok c"
  then have f: "c_faults c = []" by (simp add: conn_ok_def)
  define w where "w = go_quot (unix now) 3600"
  obtain d1 d2 n q1 q2 rs where e1: "sql_exec (Prune_rate (w - 2)) (c_db c) = Inr (q1, d1)"
    and e2: "sql_exec (Upsert_rate ip w) d1 = Inr (q2, d2)"
    and e3: "sql_exec (Select_rate ip w) d2 = Inr (rows_result ([(''count'', SQL_Int n)] # rs), d2)"
    and spec: "spec_rate_hit ip now (view_db (c_db c)) = (Inr n, view_db d2)"
    using rate_hit_steps [OF w_def] by blast
  have run: "sqlite_QuickRateHit ip now c = (Inr n, c\<lparr>c_db := d2\<rparr>)"
    using f e3 by (simp add: sqlite_QuickRateHit_def healthy_exec e1 e2 w_def [symmetric]
        healthy_query(2) [of "c\<lparr>c_db := d2\<rparr>"] del: sql_exec.simps)
  have "db_ok d2" using ok sql_exec_ok [OF e1] sql_exec_ok [OF e2] by (simp add: conn_ok_def)
  then show "conn_ok (snd (sqlite_QuickRateHit ip now c)) \<and>
     spec_rate_hit ip now (view_conn c) =
     (erase (fst (sqlite_QuickRateHit ip now c)), view_conn (snd (sqlite_QuickRateHit ip now c)))"
    using f spec unfolding run by (simp add: view_conn_def)
qed

lemma scan_code_cols [simp]: "scan_code (code_cols r) =
    Inr (ac_tenant_slug r, ac_client_id r, ac_redirect_uri r, ac_code_challenge r)"
  by (simp add: scan_code_def code_cols_def)

lemma sqlite_ConsumeAuthCode_ok:
  "implements conn_ok view_conn (sqlite_ConsumeAuthCode h now) (spec_consume_code h now)"
proof (rule implementsI)
  fix c
  assume ok: "conn_ok c"
  then have f: "c_faults c = []" and d: "db_ok (c_db c)" by (simp_all add: conn_ok_def)
  from claim_steps [OF d, of now h] obtain m d' where
    e: "sql_exec (Claim_code (unix now) h) (c_db c) = Inr (change_result m 0, d')"
    and cases: "m = 0 \<and> spec_consume_code h now (view_db (c_db c)) = (Inl ErrNotFound, view_db d')
       \<or> m = 1 \<and> (\<exists>r. sql_exec (Select_code h) d' = Inr (rows_result [code_cols r], d')
           \<and> spec_consume_code h now (view_db (c_db c)) =
               (Inr (ac_tenant_slug r, ac_client_id r, ac_redirect_uri r, ac_code_challenge r), view_db d'))"
    by blast
  have "db_ok d'" using sql_exec_ok [OF e d] .
  then show "conn_ok (snd (sqlite_ConsumeAuthCode h now c)) \<and>
     spec_consume_code h now (view_conn c) =
     (erase (fst (sqlite_ConsumeAuthCode h now c)), view_conn (snd (sqlite_ConsumeAuthCode h now c)))"
    using cases f
    by (auto simp: sqlite_ConsumeAuthCode_def healthy_exec [OF f] e change_result_def view_conn_def
        healthy_query(2) [of "c\<lparr>c_db := d'\<rparr>"] simp del: sql_exec.simps)
qed

lemma insert_service_meets:
  assumes "db_ok d" and "has_tenant d t"
  shows "(case sql_exec (Insert_service t n kh am ph cr) d of
      Inl e \<Rightarrow> (Inl (exists_class e), view_db d)
    | Inr (q, d') \<Rightarrow> (Inr (rs_changes q), view_db d')) =
    (if (t, n) \<in> dom (rg_services (view_db d)) then (Inl ErrExists, view_db d)
     else (Inr 1, (view_db d)\<lparr>rg_services := (rg_services (view_db d))((t, n) \<mapsto>
       \<lparr>Name = n, AgentKeyHash = kh, AuthMode = am, PasswordHash = ph, SvcCreatedAt = time_unix cr\<rparr>)\<rparr>))"
  using insert_service_row_meets [OF refl assms, of n kh am ph cr] by (simp add: service_of_row_def)

lemma sqlite_CreateService_ok:
  assumes hash: "HashSecret B salt (sqlite_agent_key rnd) = Inr hash"
  shows "implements conn_ok view_conn (sqlite_CreateService B salt rnd now t svc)
     (spec_create_service (sqlite_agent_key rnd) hash now t svc)"
proof (rule implementsI)
  fix c
  assume ok: "conn_ok c"
  then have f: "c_faults c = []" and d: "db_ok (c_db c)" by (simp_all add: conn_ok_def)
  have get: "sqlite_GetTenant t c = (spec_lookup (rg_tenants (view_conn c)) t, c)"
    using healthy_query(2) [OF f, of "Select_tenant t"]
    by (simp add: sqlite_GetTenant_def view_conn_def spec_lookup_rows split: list.split)
  have key: "sqlite_newAgentKey B salt rnd = Inr (sqlite_agent_key rnd, hash)"
    by (simp add: sqlite_newAgentKey_def hash)
  show "conn_ok (snd (sqlite_CreateService B salt rnd now t svc c)) \<and>
     spec_create_service (sqlite_agent_key rnd) hash now t svc (view_conn c) =
     (erase (fst (sqlite_CreateService B salt rnd now t svc c)),
      view_conn (snd (sqlite_CreateService B salt rnd now t svc c)))"
  proof (cases "rg_tenants (view_conn c) t")
    case None
    then show ?thesis using ok
      by (simp add: sqlite_CreateService_def get spec_lookup_def spec_create_service_def domIff)
  next
    case (Some tn)
    let ?st = "Insert_service t (Name svc) hash (default_auth_mode (AuthMode svc)) (PasswordHash svc) (unix now)"
    have run: "sqlite_CreateService B salt rnd now t svc c = (case sql_exec ?st (c_db c) of
        Inl e \<Rightarrow> (Inl (insert_error (sql_error_text e)), c)
      | Inr (q, d) \<Rightarrow> (Inr (sqlite_agent_key rnd), c\<lparr>c_db := d\<rparr>))"
      by (simp add: sqlite_CreateService_def get spec_lookup_def Some key Let_def healthy_exec [OF f]
          del: sql_exec.simps split: sum.split)
    have t: "has_tenant (c_db c) t"
      using Some row_map_SomeD by (fastforce simp: has_tenant_def view_conn_def)
    have rec: "\<lparr>Name = Name svc, AgentKeyHash = hash, AuthMode = default_auth_mode (AuthMode svc),
        PasswordHash = PasswordHash svc, SvcCreatedAt = time_unix (unix now)\<rparr> =
      svc\<lparr>AgentKeyHash := hash, AuthMode := default_auth_mode (AuthMode svc), SvcCreatedAt := time_unix (unix now)\<rparr>"
      by (cases svc) simp
    from insert_service_meets [OF d t, of "Name svc" hash "default_auth_mode (AuthMode svc)"
        "PasswordHash svc" "unix now", unfolded rec] write_ok [OF ok, of ?st] Some ok
    show ?thesis unfolding run spec_create_service_def
      by (auto simp: view_conn_def domIff simp del: sql_exec.simps view_db_sel dom_row_map
          split: sum.splits if_splits)
  qed
qed

lemma sqlite_ValidatePassword_ok:
  "implements conn_ok view_conn (sqlite_ValidatePassword B t n pw) (\<lambda>R. (spec_validate_password B t n pw R, R))"
proof (rule implementsI)
  fix c
  assume ok: "conn_ok c"
  obtain r c' where get: "sqlite_GetService t n c = (r, c')" by fastforce
  from implementsD [OF sqlite_GetService_ok ok get] get
  show "conn_ok (snd (sqlite_ValidatePassword B t n pw c)) \<and>
     (spec_validate_password B t n pw (view_conn c), view_conn c) =
     (erase (fst (sqlite_ValidatePassword B t n pw c)), view_conn (snd (sqlite_ValidatePassword B t n pw c)))"
    by (cases r) (auto simp: sqlite_ValidatePassword_def spec_validate_password_def spec_lookup_def
        split: option.splits)
qed

lemma sqlite_ValidateAgentKey_ok:
  "implements conn_ok view_conn (sqlite_ValidateAgentKey B t n key) (\<lambda>R. (spec_validate_agent_key B t n key R, R))"
proof (rule implementsI)
  fix c
  assume ok: "conn_ok c"
  obtain r c' where get: "sqlite_GetService t n c = (r, c')" by fastforce
  from implementsD [OF sqlite_GetService_ok ok get] get
  show "conn_ok (snd (sqlite_ValidateAgentKey B t n key c)) \<and>
     (spec_validate_agent_key B t n key (view_conn c), view_conn c) =
     (erase (fst (sqlite_ValidateAgentKey B t n key c)), view_conn (snd (sqlite_ValidateAgentKey B t n key c)))"
    by (cases r) (auto simp: sqlite_ValidateAgentKey_def spec_validate_agent_key_def spec_lookup_def
        split: option.splits)
qed

lemmas sqlite_ops_ok =
  sqlite_CreateTenantExpiry_ok sqlite_GetTenant_ok sqlite_DeleteTenant_ok sqlite_CountLiveTenants_ok
  sqlite_QuickRateHit_ok sqlite_CreateService_ok sqlite_GetService_ok sqlite_ValidatePassword_ok
  sqlite_ValidateAgentKey_ok sqlite_CreateSigningKey_ok sqlite_GetSigningKey_ok
  sqlite_CreateOAuthClient_ok sqlite_GetOAuthClient_ok sqlite_CreateAuthCode_ok sqlite_ConsumeAuthCode_ok

lemma sqlite_agent_key_nonempty [simp]: "sqlite_agent_key rnd \<noteq> []"
  by (simp add: sqlite_agent_key_def)

lemma sqlite_agent_key_short [simp]: "length rnd = 24 \<Longrightarrow> length (sqlite_agent_key rnd) \<le> 72"
  by (simp add: sqlite_agent_key_def sqlite_agentKeyPrefix_def)

interpretation sqlite: store_contract sqlite_api view_conn conn_ok sqlite_agent_key
proof unfold_locales
  fix s now slugs err s'
  assume "conn_ok s" and "DeleteExpiredTenants sqlite_api now s = ((slugs, err), s')"
  then show "conn_ok s' \<and> err = None \<and> set slugs = expired_tenants now (view_conn s) \<and>
      view_conn s' = drop_tenants (expired_tenants now (view_conn s)) (view_conn s)"
    using sqlite_DeleteExpiredTenants_ok by (simp add: sqlite_api_def)
next
  show "conn_ok s \<Longrightarrow> registry_ok (view_conn s)" for s
    using view_registry_ok by (simp add: conn_ok_def view_conn_def)
qed (simp_all add: sqlite_api_def sqlite_ops_ok)

end
