(* ===== verification/D1_Store.thy ===== *)
theory D1_Store
  imports Sqlite_Store
begin

text \<open>
  \<open>internal/stored1/stored1.go\<close>: the same contract over Cloudflare D1's REST API. The HTTP service
  is not in the repository: it is the field \<open>d1_http\<close> of the store, a function that may answer
  anything (transport errors, statuses, undecodable bodies, success documents). Response bodies come
  as the decoded JSON document, or as raw text when \<open>json.Unmarshal\<close> refuses them; a JSON number is
  the integer \<open>int64\<close> gives for its \<open>float64\<close>, which is exact for the counters and Unix times here
  (below \<open>2^53\<close>). Error texts leave out the \<open>%v (%T)\<close> rendering of a bad column value.

  The last sections run the store against an idealised service that executes the statements of
  \<open>Database\<close>, with scheduled request failures: without failures it keeps the contract of \<open>Store_Spec\<close>.
\<close>

section \<open>The wire protocol\<close>

datatype any = A_nil | A_num int | A_str string | A_other string

datatype d1_request = Create_table string | Run statement

record api_error =
  ae_code :: int
  ae_message :: string

record stmt_result =
  st_success :: bool
  st_results :: "(string \<times> any) list list"
  st_rows_read :: int
  st_rows_written :: int
  st_errors :: "api_error list"

record query_response =
  qr_success :: bool
  qr_errors :: "api_error list"
  qr_result :: "stmt_result list"

datatype http_reply =
    Request_failed string
  | Transport_failed string
  | Read_failed string
  | Undecodable nat string
  | Document nat query_response

type_synonym 'w d1_service = "string \<Rightarrow> string \<Rightarrow> d1_request \<Rightarrow> 'w \<Rightarrow> http_reply \<times> 'w"

record 'w d1_store =
  d1_url :: string
  d1_token :: string
  d1_http :: "'w d1_service"

fun join_strings :: "string \<Rightarrow> string list \<Rightarrow> string" where
  "join_strings sep [] = []"
| "join_strings sep [s] = s"
| "join_strings sep (s # t # ts) = s @ sep @ join_strings sep (t # ts)"

definition joinErrors :: "api_error list \<Rightarrow> string" where
  "joinErrors errs =
     (let msgs = map ae_message errs in
      if msgs = [] then ''unknown error'' else join_strings ''; '' msgs)"

definition truncate :: "string \<Rightarrow> string" where
  "truncate s = (if length s > 200 then take 200 s @ [CHR 0xE2, CHR 0x80, CHR 0xA6] else s)"

text \<open>\<open>exec\<close>: one request, and every way its reply is refused.\<close>

fun d1_reply :: "http_reply \<Rightarrow> string + stmt_result" where
  "d1_reply (Request_failed m) = Inl m"
| "d1_reply (Transport_failed m) = Inl (''d1: request: '' @ m)"
| "d1_reply (Read_failed m) = Inl (''d1: read response: '' @ m)"
| "d1_reply (Undecodable status raw) = Inl (''d1: HTTP '' @ itoa (int status) @ '': '' @ truncate raw)"
| "d1_reply (Document status qr) =
     (if status \<noteq> 200 \<or> \<not> qr_success qr
      then Inl (''d1: HTTP '' @ itoa (int status) @ '': '' @ joinErrors (qr_errors qr))
      else case qr_result qr of
          [] \<Rightarrow> Inl ''d1: empty result''
        | r # _ \<Rightarrow> if \<not> st_success r then Inl (joinErrors (st_errors r)) else Inr r)"

definition d1_exec :: "'w d1_store \<Rightarrow> d1_request \<Rightarrow> 'w \<Rightarrow> (string + stmt_result) \<times> 'w" where
  "d1_exec S st w =
     (case d1_http S (d1_url S) (''Bearer '' @ d1_token S) st w of (rep, w) \<Rightarrow> (d1_reply rep, w))"

text \<open>\<open>query\<close>: sequential requests, stopping at the first failure; \<open>i\<close> is the loop index.\<close>

fun d1_loop ::
  "'w d1_store \<Rightarrow> nat \<Rightarrow> d1_request list \<Rightarrow> 'w \<Rightarrow> (stmt_result list \<times> string option) \<times> 'w" where
  "d1_loop S i [] w = (([], None), w)"
| "d1_loop S i (st # sts) w =
     (case d1_exec S st w of
        (Inl e, w) \<Rightarrow> (([], Some (''d1: statement '' @ itoa (int i + 1) @ '' failed: '' @ e)), w)
      | (Inr r, w) \<Rightarrow> (case d1_loop S (Suc i) sts w of ((rs, e), w) \<Rightarrow> ((r # rs, e), w)))"

definition d1_query ::
  "'w d1_store \<Rightarrow> d1_request list \<Rightarrow> 'w \<Rightarrow> (stmt_result list \<times> string option) \<times> 'w" where
  "d1_query S sts w = d1_loop S 0 sts w"

text \<open>The pattern \<open>res, err := s.query(...)\<close> with its early return; \<open>er\<close> maps the error.\<close>

definition d1_try ::
  "'w d1_store \<Rightarrow> (string \<Rightarrow> store_error) \<Rightarrow> d1_request list \<Rightarrow> 'w \<Rightarrow> (store_error + stmt_result list) \<times> 'w" where
  "d1_try S er sts w =
     (case d1_query S sts w of
        ((rs, Some e), w) \<Rightarrow> (Inl (er e), w)
      | ((rs, None), w) \<Rightarrow> (Inr rs, w))"

definition d1_wrap :: "string \<Rightarrow> string \<Rightarrow> store_error" where
  "d1_wrap ctx e = Driver (''d1: '' @ ctx @ '': '' @ e)"

definition d1_isUniqueViolation :: "string \<Rightarrow> bool" where
  "d1_isUniqueViolation e = contains e ''UNIQUE constraint''"

definition d1_insert_error :: "string \<Rightarrow> string \<Rightarrow> store_error" where
  "d1_insert_error ctx e = (if d1_isUniqueViolation e then ErrExists else d1_wrap ctx e)"

section \<open>Opening the store\<close>

record d1_config =
  AccountID :: string
  DatabaseID :: string
  APIToken :: string

definition defaultBaseURL :: string where
  "defaultBaseURL = ''https://api.cloudflare.com/client/v4''"

definition d1_tables :: "string list" where
  "d1_tables = [''tenants'', ''services'', ''quick_rate'', ''signing_keys'', ''oauth_clients'', ''auth_codes'']"

definition d1_migrate :: "'w d1_store \<Rightarrow> 'w \<Rightarrow> string option \<times> 'w" where
  "d1_migrate S w =
     (case d1_query S (map Create_table d1_tables) w of
        ((_, Some e), w) \<Rightarrow> (Some (''stored1: migrate: '' @ e), w)
      | ((_, None), w) \<Rightarrow> (None, w))"

definition d1_New :: "string \<Rightarrow> 'w d1_service \<Rightarrow> d1_config \<Rightarrow> 'w \<Rightarrow> (string + 'w d1_store) \<times> 'w" where
  "d1_New apiBaseURL svc cfg w =
     (if AccountID cfg = [] then (Inl ''stored1: account id is required'', w)
      else if DatabaseID cfg = [] then (Inl ''stored1: database id is required'', w)
      else if APIToken cfg = [] then (Inl ''stored1: api token is required'', w)
      else (let S = \<lparr>d1_url = apiBaseURL @ ''/accounts/'' @ AccountID cfg @ ''/d1/database/''
                        @ DatabaseID cfg @ ''/query'',
                     d1_token = APIToken cfg, d1_http = svc\<rparr>
            in case d1_migrate S w of
                 (Some e, w) \<Rightarrow> (Inl e, w)
               | (None, w) \<Rightarrow> (Inr S, w)))"

section \<open>Columns\<close>

text \<open>
  \<open>time.Parse(time.RFC3339, s)\<close>: \<open>getnum\<close> reads one or two digits (exactly two when fixed); the
  hour may have one digit, seconds may have a fraction of which nine digits count, the zone is \<open>Z\<close>
  or a signed \<open>hh:mm\<close> of at most \<open>24:60\<close>.
\<close>

fun getnum :: "bool \<Rightarrow> string \<Rightarrow> (nat \<times> string) option" where
  "getnum fixed [] = None"
| "getnum fixed (a # s) =
     (case digit_val a of
        None \<Rightarrow> None
      | Some x \<Rightarrow>
          (case s of
             [] \<Rightarrow> if fixed then None else Some (x, s)
           | b # t \<Rightarrow> (case digit_val b of
                 None \<Rightarrow> if fixed then None else Some (x, s)
               | Some y \<Rightarrow> Some (10 * x + y, t))))"

definition expect :: "char \<Rightarrow> string \<Rightarrow> string option" where
  "expect c s = cut_prefix s [c]"

definition rfc_year :: "string \<Rightarrow> (nat \<times> string) option" where
  "rfc_year s = (if length s < 4 then None
     else map_option (\<lambda>y. (y, drop 4 s)) (parse_digits 0 (take 4 s)))"

definition is_leap :: "nat \<Rightarrow> bool" where
  "is_leap y \<longleftrightarrow> 4 dvd y \<and> (\<not> 100 dvd y \<or> 400 dvd y)"

definition month_days :: "nat \<Rightarrow> nat \<Rightarrow> nat" where
  "month_days y m = (if m = 2 then (if is_leap y then 29 else 28)
     else if m \<in> {4, 6, 9, 11} then 30 else 31)"

definition days_from_epoch :: "nat \<Rightarrow> nat \<Rightarrow> nat \<Rightarrow> int" where
  "days_from_epoch y m d =
     (let p = int y - 1
      in 365 * p + p div 4 - p div 100 + p div 400 - 719162
         + int (sum_list (map (month_days y) [1..<m])) + int d - 1)"

definition rfc_nanos :: "string \<Rightarrow> int \<times> string" where
  "rfc_nanos s =
     (if (has_prefix s ''.'' \<or> has_prefix s '','') \<and> (case drop 1 s of [] \<Rightarrow> False | c # _ \<Rightarrow> digit_val c \<noteq> None)
      then (let ds = takeWhile (\<lambda>c. digit_val c \<noteq> None) (drop 1 s); k = take 9 ds in
            (int (the (parse_digits 0 k)) * 10 ^ (9 - length k), drop (Suc (length ds)) s))
      else (0, s))"

definition rfc_zone :: "string \<Rightarrow> (int \<times> string) option" where
  "rfc_zone s =
     (if has_prefix s ''Z'' then Some (0, drop 1 s)
      else if length s < 6 \<or> s ! 3 \<noteq> CHR '':'' then None
      else case (getnum True (take 2 (drop 1 s)), getnum True (take 2 (drop 4 s))) of
          (Some (h, _), Some (m, _)) \<Rightarrow>
            (if h > 24 \<or> m > 60 then None
             else if has_prefix s ''+'' then Some (int ((h * 60 + m) * 60), drop 6 s)
             else if has_prefix s ''-'' then Some (- int ((h * 60 + m) * 60), drop 6 s)
             else None)
        | _ \<Rightarrow> None)"

definition parse_rfc3339 :: "string \<Rightarrow> time option" where
  "parse_rfc3339 s =
     Option.bind (rfc_year s) (\<lambda>(y, s).
     Option.bind (expect (CHR ''-'') s) (\<lambda>s. Option.bind (getnum True s) (\<lambda>(mo, s).
     Option.bind (expect (CHR ''-'') s) (\<lambda>s. Option.bind (getnum True s) (\<lambda>(d, s).
     Option.bind (expect (CHR ''T'') s) (\<lambda>s. Option.bind (getnum False s) (\<lambda>(h, s).
     Option.bind (expect (CHR '':'') s) (\<lambda>s. Option.bind (getnum True s) (\<lambda>(mi, s).
     Option.bind (expect (CHR '':'') s) (\<lambda>s. Option.bind (getnum True s) (\<lambda>(sec, s).
     (let (ns, s) = rfc_nanos s in Option.bind (rfc_zone s) (\<lambda>(off, s).
       if s \<noteq> [] \<or> mo < 1 \<or> mo > 12 \<or> d < 1 \<or> d > month_days y mo \<or> h \<ge> 24 \<or> mi \<ge> 60 \<or> sec \<ge> 60
       then None
       else Some (time_unix (days_from_epoch y mo d * 86400 + int (h * 3600 + mi * 60 + sec) - off) + ns)
     )))))))))))))"

fun timeCol :: "any \<Rightarrow> store_error + time" where
  "timeCol (A_str x) =
     (case parse_rfc3339 x of
        Some t \<Rightarrow> Inr t
      | None \<Rightarrow> (case parse_int64 x of
            Some n \<Rightarrow> Inr (time_unix n)
          | None \<Rightarrow> Inl (Driver (''d1: unparseable time value ''))))"
| "timeCol (A_num x) = Inr (time_unix x)"
| "timeCol _ = Inl (Driver ''d1: unexpected time value'')"

definition optTime :: "any \<Rightarrow> store_error + time option" where
  "optTime v = (if v = A_nil then Inr None else map_sum id Some (timeCol v))"

text \<open>\<open>row[key]\<close> of a missing key is \<open>nil\<close>.\<close>

definition col :: "(string \<times> any) list \<Rightarrow> string \<Rightarrow> any" where
  "col row key = (case map_of row key of None \<Rightarrow> A_nil | Some v \<Rightarrow> v)"

definition strCol :: "(string \<times> any) list \<Rightarrow> string \<Rightarrow> store_error + string" where
  "strCol row key = (case col row key of A_str v \<Rightarrow> Inr v
     | _ \<Rightarrow> Inl (Driver (''d1: column '' @ key @ '': want string'')))"

definition intCol :: "(string \<times> any) list \<Rightarrow> string \<Rightarrow> store_error + int" where
  "intCol row key = (case col row key of
       A_num x \<Rightarrow> Inr x
     | A_str x \<Rightarrow> (case parse_int64 x of Some n \<Rightarrow> Inr n
                  | None \<Rightarrow> Inl (Driver (''d1: column '' @ key @ '': invalid syntax'')))
     | _ \<Rightarrow> Inl (Driver (''d1: column '' @ key @ '': want number'')))"

section \<open>Tenants\<close>

definition d1_CreateTenantExpiry ::
  "'w d1_store \<Rightarrow> string \<Rightarrow> string \<Rightarrow> time option \<Rightarrow> time \<Rightarrow> 'w \<Rightarrow> (store_error + unit) \<times> 'w" where
  "d1_CreateTenantExpiry S slug displayName expiresAt now w =
     and_then (d1_try S (d1_insert_error ''create tenant'')
         [Run (Insert_tenant slug displayName (unix now) (map_option unix expiresAt))] w)
       (\<lambda>_ w. (Inr (), w))"

definition d1_CreateTenant :: "'w d1_store \<Rightarrow> string \<Rightarrow> string \<Rightarrow> time \<Rightarrow> 'w \<Rightarrow> (store_error + unit) \<times> 'w" where
  "d1_CreateTenant S slug displayName now = d1_CreateTenantExpiry S slug displayName None now"

definition d1_tenant :: "(string \<times> any) list \<Rightarrow> store_error + tenant" where
  "d1_tenant row =
     bind_sum (strCol row ''slug'') (\<lambda>slug.
     bind_sum (strCol row ''display_name'') (\<lambda>name.
     bind_sum (timeCol (col row ''created_at'')) (\<lambda>created.
     bind_sum (optTime (col row ''expires_at'')) (\<lambda>expires.
     Inr \<lparr>Slug = slug, DisplayName = name, CreatedAt = created, ExpiresAt = expires\<rparr>))))"

text \<open>The first row of the first result, \<open>ErrNotFound\<close> when there is none.\<close>

definition first_row ::
  "stmt_result list \<Rightarrow> ((string \<times> any) list \<Rightarrow> store_error + 'a) \<Rightarrow> store_error + 'a" where
  "first_row res f = (case st_results (hd res) of [] \<Rightarrow> Inl ErrNotFound | row # _ \<Rightarrow> f row)"

definition d1_GetTenant :: "'w d1_store \<Rightarrow> string \<Rightarrow> 'w \<Rightarrow> (store_error + tenant) \<times> 'w" where
  "d1_GetTenant S slug w =
     and_then (d1_try S (d1_wrap ''get tenant'') [Run (Select_tenant slug)] w)
       (\<lambda>res w. (first_row res d1_tenant, w))"

definition d1_DeleteTenant :: "'w d1_store \<Rightarrow> string \<Rightarrow> 'w \<Rightarrow> (store_error + bool) \<times> 'w" where
  "d1_DeleteTenant S slug w =
     and_then (d1_try S (d1_wrap ''delete tenant'') [Run (Delete_tenant slug)] w)
       (\<lambda>res w. (Inr (st_rows_written (hd res) \<ge> 1), w))"

fun d1_slugs :: "(string \<times> any) list list \<Rightarrow> store_error + string list" where
  "d1_slugs [] = Inr []"
| "d1_slugs (row # rows) =
     bind_sum (strCol row ''slug'') (\<lambda>s. bind_sum (d1_slugs rows) (\<lambda>ss. Inr (s # ss)))"

definition d1_DeleteExpiredTenants ::
  "'w d1_store \<Rightarrow> time \<Rightarrow> 'w \<Rightarrow> (string list \<times> store_error option) \<times> 'w" where
  "d1_DeleteExpiredTenants S now w =
     (case d1_try S (d1_wrap ''list expired tenants'') [Run (Select_expired (unix now))] w of
        (Inl e, w) \<Rightarrow> (([], Some e), w)
      | (Inr res, w) \<Rightarrow>
          (case d1_slugs (st_results (hd res)) of
             Inl e \<Rightarrow> (([], Some e), w)
           | Inr slugs \<Rightarrow>
               if slugs = [] then (([], None), w)
               else (case d1_try S (d1_wrap ''delete expired tenants'')
                            (map (\<lambda>slug. Run (Delete_tenant slug)) slugs) w of
                       (Inl e, w) \<Rightarrow> ((slugs, Some e), w)
                     | (Inr _, w) \<Rightarrow> ((slugs, None), w))))"

definition d1_CountLiveTenants :: "'w d1_store \<Rightarrow> time \<Rightarrow> 'w \<Rightarrow> (store_error + int) \<times> 'w" where
  "d1_CountLiveTenants S now w =
     and_then (d1_try S (d1_wrap ''count live tenants'') [Run (Count_live (unix now))] w)
       (\<lambda>res w. (case st_results (hd res) of [] \<Rightarrow> Inr 0 | row # _ \<Rightarrow> intCol row ''n'', w))"

definition d1_QuickRateHit :: "'w d1_store \<Rightarrow> string \<Rightarrow> time \<Rightarrow> 'w \<Rightarrow> (store_error + int) \<times> 'w" where
  "d1_QuickRateHit S ip now w =
     (let window = go_quot (unix now) 3600 in
      and_then (d1_try S (d1_wrap ''quick rate hit'')
          [Run (Prune_rate (window - 2)), Run (Upsert_rate ip window), Run (Select_rate ip window)] w)
        (\<lambda>res w. (case st_results (res ! 2) of
             [] \<Rightarrow> Inl (Driver ''d1: quick rate hit: counter row missing after upsert'')
           | row # _ \<Rightarrow> intCol row ''count'', w)))"

section \<open>Services\<close>

definition d1_agentKeyPrefix :: string where
  "d1_agentKeyPrefix = ''tun_agent_''"

definition d1_agent_key :: "string \<Rightarrow> string" where
  "d1_agent_key rnd = d1_agentKeyPrefix @ ''_'' @ hex_encode rnd"

definition d1_newAgentKey :: "bcrypt \<Rightarrow> string \<Rightarrow> string \<Rightarrow> store_error + string \<times> string" where
  "d1_newAgentKey B salt rnd =
     (let plaintext = d1_agent_key rnd in
      case HashSecret B salt plaintext of Inl e \<Rightarrow> Inl e | Inr hash \<Rightarrow> Inr (plaintext, hash))"

definition d1_CreateService ::
  "'w d1_store \<Rightarrow> bcrypt \<Rightarrow> string \<Rightarrow> string \<Rightarrow> time \<Rightarrow> string \<Rightarrow> service \<Rightarrow> 'w \<Rightarrow> (store_error + string) \<times> 'w" where
  "d1_CreateService S B salt rnd now tenantSlug svc w =
     and_then (d1_newAgentKey B salt rnd, w) (\<lambda>(plaintext, hash) w.
       let svc = svc\<lparr>AgentKeyHash := hash, SvcCreatedAt := now, AuthMode := default_auth_mode (AuthMode svc)\<rparr> in
       and_then (d1_try S (d1_insert_error ''create service'')
           [Run (Insert_service_if tenantSlug (Name svc) (AgentKeyHash svc) (AuthMode svc)
              (PasswordHash svc) (unix (SvcCreatedAt svc)))] w)
         (\<lambda>res w. (if st_rows_written (hd res) = 0 then Inl ErrNotFound else Inr plaintext, w)))"

definition d1_service_row :: "(string \<times> any) list \<Rightarrow> store_error + service" where
  "d1_service_row row =
     bind_sum (strCol row ''name'') (\<lambda>name.
     bind_sum (strCol row ''agent_key_hash'') (\<lambda>kh.
     bind_sum (strCol row ''auth_mode'') (\<lambda>am.
     bind_sum (strCol row ''password_hash'') (\<lambda>ph.
     bind_sum (timeCol (col row ''created_at'')) (\<lambda>created.
     Inr \<lparr>Name = name, AgentKeyHash = kh, AuthMode = am, PasswordHash = ph, SvcCreatedAt = created\<rparr>)))))"

definition d1_GetService :: "'w d1_store \<Rightarrow> string \<Rightarrow> string \<Rightarrow> 'w \<Rightarrow> (store_error + service) \<times> 'w" where
  "d1_GetService S tenantSlug name w =
     and_then (d1_try S (d1_wrap ''get service'') [Run (Select_service tenantSlug name)] w)
       (\<lambda>res w. (first_row res d1_service_row, w))"

definition d1_ValidatePassword ::
  "'w d1_store \<Rightarrow> bcrypt \<Rightarrow> string \<Rightarrow> string \<Rightarrow> string \<Rightarrow> 'w \<Rightarrow> (store_error + bool) \<times> 'w" where
  "d1_ValidatePassword S B tenantSlug name password w =
     and_then (d1_GetService S tenantSlug name w) (\<lambda>svc w.
       if PasswordHash svc = [] then (Inr True, w)
       else (Inr (CheckSecret B (PasswordHash svc) password), w))"

definition d1_ValidateAgentKey ::
  "'w d1_store \<Rightarrow> bcrypt \<Rightarrow> string \<Rightarrow> string \<Rightarrow> string \<Rightarrow> 'w \<Rightarrow> (store_error + service) \<times> 'w" where
  "d1_ValidateAgentKey S B tenantSlug name key w =
     and_then (d1_GetService S tenantSlug name w) (\<lambda>svc w.
       if key = [] \<or> \<not> CheckSecret B (AgentKeyHash svc) key then (Inl ErrInvalidAgentKey, w)
       else (Inr svc, w))"

section \<open>OAuth\<close>

definition d1_CreateSigningKey ::
  "'w d1_store \<Rightarrow> string \<Rightarrow> string \<Rightarrow> time \<Rightarrow> 'w \<Rightarrow> (store_error + unit) \<times> 'w" where
  "d1_CreateSigningKey S tenantSlug privateKeyPEM now w =
     and_then (d1_try S (d1_wrap ''create signing key'')
         [Run (Insert_key_or_ignore tenantSlug privateKeyPEM (unix now))] w)
       (\<lambda>_ w. (Inr (), w))"

definition d1_GetSigningKey :: "'w d1_store \<Rightarrow> string \<Rightarrow> 'w \<Rightarrow> (store_error + string) \<times> 'w" where
  "d1_GetSigningKey S tenantSlug w =
     and_then (d1_try S (d1_wrap ''get signing key'') [Run (Select_key tenantSlug)] w)
       (\<lambda>res w. (first_row res (\<lambda>row. strCol row ''private_key_pem''), w))"

definition d1_CreateOAuthClient ::
  "'w d1_store \<Rightarrow> string \<Rightarrow> string \<Rightarrow> string \<Rightarrow> time \<Rightarrow> 'w \<Rightarrow> (store_error + unit) \<times> 'w" where
  "d1_CreateOAuthClient S tenantSlug clientID redirectURIs now w =
     and_then (d1_try S (d1_insert_error ''create oauth client'')
         [Run (Insert_client tenantSlug clientID redirectURIs (unix now))] w)
       (\<lambda>_ w. (Inr (), w))"

definition d1_GetOAuthClient :: "'w d1_store \<Rightarrow> string \<Rightarrow> string \<Rightarrow> 'w \<Rightarrow> (store_error + string) \<times> 'w" where
  "d1_GetOAuthClient S tenantSlug clientID w =
     and_then (d1_try S (d1_wrap ''get oauth client'') [Run (Select_client tenantSlug clientID)] w)
       (\<lambda>res w. (first_row res (\<lambda>row. strCol row ''redirect_uris''), w))"

definition d1_CreateAuthCode ::
  "'w d1_store \<Rightarrow> string \<Rightarrow> string \<Rightarrow> string \<Rightarrow> string \<Rightarrow> string \<Rightarrow> time \<Rightarrow> 'w \<Rightarrow> (store_error + unit) \<times> 'w" where
  "d1_CreateAuthCode S codeHash tenantSlug clientID redirectURI codeChallenge expiresAt w =
     and_then (d1_try S (d1_wrap ''create auth code'')
         [Run (Insert_code codeHash tenantSlug clientID redirectURI codeChallenge (unix expiresAt))] w)
       (\<lambda>_ w. (Inr (), w))"

definition d1_code_row :: "(string \<times> any) list \<Rightarrow> store_error + string \<times> string \<times> string \<times> string" where
  "d1_code_row row =
     bind_sum (strCol row ''tenant_slug'') (\<lambda>t.
     bind_sum (strCol row ''client_id'') (\<lambda>cid.
     bind_sum (strCol row ''redirect_uri'') (\<lambda>uri.
     bind_sum (strCol row ''code_challenge'') (\<lambda>ch. Inr (t, cid, uri, ch)))))"

definition d1_ConsumeAuthCode ::
  "'w d1_store \<Rightarrow> string \<Rightarrow> time \<Rightarrow> 'w \<Rightarrow> (store_error + string \<times> string \<times> string \<times> string) \<times> 'w" where
  "d1_ConsumeAuthCode S codeHash now w =
     and_then (d1_try S (d1_wrap ''consume auth code'') [Run (Claim_code (unix now) codeHash)] w)
       (\<lambda>res w. if st_rows_written (hd res) = 0 then (Inl ErrNotFound, w)
         else and_then (d1_try S (d1_wrap ''read consumed auth code'') [Run (Select_code codeHash)] w)
           (\<lambda>res w. (case st_results (hd res) of
               [row] \<Rightarrow> d1_code_row row
             | _ \<Rightarrow> Inl (Driver ''d1: consume auth code: row missing after successful claim''), w)))"

text \<open>\<open>var _ store.API = (*Store)(nil)\<close>: the client as a value of the interface.\<close>

definition d1_api :: "'w d1_store \<Rightarrow> 'w store_api" where
  "d1_api S = \<lparr>
     CreateTenantExpiry = d1_CreateTenantExpiry S, GetTenant = d1_GetTenant S,
     DeleteTenant = d1_DeleteTenant S, DeleteExpiredTenants = d1_DeleteExpiredTenants S,
     CountLiveTenants = d1_CountLiveTenants S, QuickRateHit = d1_QuickRateHit S,
     CreateService = d1_CreateService S, GetService = d1_GetService S,
     ValidatePassword = d1_ValidatePassword S, ValidateAgentKey = d1_ValidateAgentKey S,
     CreateSigningKey = d1_CreateSigningKey S, GetSigningKey = d1_GetSigningKey S,
     CreateOAuthClient = d1_CreateOAuthClient S, GetOAuthClient = d1_GetOAuthClient S,
     CreateAuthCode = d1_CreateAuthCode S, ConsumeAuthCode = d1_ConsumeAuthCode S\<rparr>"

end
