(* ===== verification/D1_Contract.thy ===== *)
theory D1_Contract
  imports D1_Store
begin

text \<open>
  The D1 client against an idealised service: the statements of \<open>Database\<close> run on a database, SQL
  errors come back as an HTTP 400 document, \<open>rows_written\<close> counts the changed rows and the rows
  cascaded with them, and a schedule says which of the coming requests fail on the way (before they
  have any effect). Without failures the client keeps the contract of \<open>Store_Spec\<close>; with them the
  committed statements are a prefix of the sequence.
\<close>

section \<open>The idealised service\<close>

record d1_world =
  dw_db :: database
  dw_faults :: "string option list"

fun any_of :: "sql_value \<Rightarrow> any" where
  "any_of SQL_Null = A_nil"
| "any_of (SQL_Int n) = A_num n"
| "any_of (SQL_Text s) = A_str s"

definition d1_row :: "sql_row \<Rightarrow> (string \<times> any) list" where
  "d1_row r = map (\<lambda>(k, v). (k, any_of v)) r"

definition d1_done :: "sql_result \<Rightarrow> stmt_result" where
  "d1_done q = \<lparr>st_success = True, st_results = map d1_row (rs_rows q),
     st_rows_read = int (length (rs_rows q)), st_rows_written = int (rs_changes q + rs_cascaded q),
     st_errors = []\<rparr>"

definition d1_ideal :: "d1_world d1_service" where
  "d1_ideal url auth req w =
     (let w' = w\<lparr>dw_faults := tl (dw_faults w)\<rparr> in
      case dw_faults w of
        Some m # fs \<Rightarrow> (Transport_failed m, w')
      | _ \<Rightarrow> (case req of
          Create_table t \<Rightarrow>
            (Document 200 \<lparr>qr_success = True, qr_errors = [], qr_result = [d1_done (rows_result [])]\<rparr>, w')
        | Run st \<Rightarrow> (case sql_exec st (dw_db w) of
            Inl e \<Rightarrow> (Document 400 \<lparr>qr_success = False,
                qr_errors = [\<lparr>ae_code = 7500, ae_message = sql_error_text e\<rparr>], qr_result = []\<rparr>, w')
          | Inr (q, d) \<Rightarrow>
              (Document 200 \<lparr>qr_success = True, qr_errors = [], qr_result = [d1_done q]\<rparr>, w'\<lparr>dw_db := d\<rparr>))))"

definition d1_over :: "string \<Rightarrow> string \<Rightarrow> d1_world d1_store" where
  "d1_over url token = \<lparr>d1_url = url, d1_token = token, d1_http = d1_ideal\<rparr>"

definition world_ok :: "d1_world \<Rightarrow> bool" where
  "world_ok w \<longleftrightarrow> db_ok (dw_db w) \<and> dw_faults w = []"

definition view_world :: "d1_world \<Rightarrow> registry" where
  "view_world w = view_db (dw_db w)"

lemma world_update [simp]:
  "dw_faults w = [] \<Longrightarrow> world_ok (w\<lparr>dw_db := d\<rparr>) \<longleftrightarrow> db_ok d"
  "view_world (w\<lparr>dw_db := d\<rparr>) = view_db d"
  by (simp_all add: world_ok_def view_world_def)

section \<open>Statements through the client\<close>

definition d1_error_text :: "nat \<Rightarrow> sql_error \<Rightarrow> string" where
  "d1_error_text i e = ''d1: statement '' @ itoa (int i + 1) @ '' failed: d1: HTTP 400: '' @ sql_error_text e"

lemma itoa_400: "itoa 400 = ''400''"
  by code_simp

lemma healthy_d1_exec:
  assumes "dw_faults w = []"
  shows "d1_exec (d1_over url token) (Run st) w = (case sql_exec st (dw_db w) of
      Inl e \<Rightarrow> (Inl (''d1: HTTP 400: '' @ sql_error_text e), w)
    | Inr (q, d) \<Rightarrow> (Inr (d1_done q), w\<lparr>dw_db := d\<rparr>))"
  using assms
  by (simp add: d1_exec_def d1_over_def d1_ideal_def Let_def joinErrors_def itoa_400 d1_done_def
      del: sql_exec.simps sql_error_text.simps split: sum.split)

lemma healthy_try:
  assumes "dw_faults w = []"
  shows "d1_try (d1_over url token) er [Run st] w = (case sql_exec st (dw_db w) of
      Inl e \<Rightarrow> (Inl (er (d1_error_text 0 e)), w)
    | Inr (q, d) \<Rightarrow> (Inr [d1_done q], w\<lparr>dw_db := d\<rparr>))"
  using assms
  by (simp add: d1_try_def d1_query_def healthy_d1_exec d1_error_text_def
      del: sql_exec.simps sql_error_text.simps split: sum.split)

lemma unique_in_text:
  "d1_isUniqueViolation (d1_error_text 0 e) \<longleftrightarrow> (\<exists>cols. e = Unique_violation cols)"
proof (cases e)
  case (Unique_violation cols)
  have "contains (p @ ''UNIQUE constraint'' @ q) ''UNIQUE constraint''" for p q
    by (rule contains_append)
  from this [of "''d1: statement '' @ itoa 1 @ '' failed: d1: HTTP 400: ''" "'' failed: '' @ cols"]
  show ?thesis by (simp add: Unique_violation d1_isUniqueViolation_def d1_error_text_def)
next
  case Foreign_key_violation
  have "\<not> d1_isUniqueViolation (d1_error_text 0 Foreign_key_violation)" by code_simp
  then show ?thesis using Foreign_key_violation by simp
qed

lemma d1_insert_error_class [simp]:
  "erase_error (d1_insert_error ctx (d1_error_text 0 e)) = exists_class e"
  by (cases e) (simp_all add: d1_insert_error_def unique_in_text d1_wrap_def)

lemma d1_wrap_class [simp]: "erase_error (d1_wrap ctx m) = driver_class e"
  by (simp add: d1_wrap_def driver_class_def)

lemma d1_done_sel [simp]:
  "st_results (d1_done q) = map d1_row (rs_rows q)"
  "st_rows_written (d1_done q) = int (rs_changes q + rs_cascaded q)"
  by (simp_all add: d1_done_def)

section \<open>Reads\<close>

lemma col_row [simp]: "col (d1_row r) key = (case map_of r key of None \<Rightarrow> A_nil | Some v \<Rightarrow> any_of v)"
  by (induction r) (auto simp: col_def d1_row_def)

lemma d1_tenant_cols [simp]: "d1_tenant (d1_row (tenant_cols r)) = Inr (tenant_of_row r)"
  by (simp add: d1_tenant_def tenant_cols_def strCol_def optTime_def tenant_of_row_def sql_opt_int_def
      split: option.splits)

lemma d1_service_cols [simp]: "d1_service_row (d1_row (service_cols r)) = Inr (service_of_row r)"
  by (simp add: d1_service_row_def service_cols_def strCol_def service_of_row_def)

lemma d1_code_cols [simp]: "d1_code_row (d1_row (code_cols r)) =
    Inr (ac_tenant_slug r, ac_client_id r, ac_redirect_uri r, ac_code_challenge r)"
  by (simp add: d1_code_row_def code_cols_def strCol_def)

lemma d1_read_implements:
  assumes "\<And>d. sql_exec st d = Inr (rows_result (map cols (filter (\<lambda>r. k r = x) (tab d))), d)"
    and "\<And>w. op w = and_then (d1_try (d1_over url token) er [Run st] w) (\<lambda>res w. (first_row res sc, w))"
    and "\<And>r. sc (d1_row (cols r)) = Inr (v r)"
    and "\<And>w. rg (view_world w) = row_map k v (tab (dw_db w))"
  shows "implements world_ok view_world op (\<lambda>R. (spec_lookup (rg R) x, R))"
proof (rule implementsI)
  fix w
  assume ok: "world_ok w"
  then have f: "dw_faults w = []" by (simp add: world_ok_def)
  let ?rows = "filter (\<lambda>r. k r = x) (tab (dw_db w))"
  have "op w = ((case ?rows of [] \<Rightarrow> Inl ErrNotFound | r # _ \<Rightarrow> Inr (v r)), w)"
    by (cases ?rows) (simp_all add: assms(1,2,3) healthy_try [OF f] first_row_def rows_result_def)
  then show "world_ok (snd (op w)) \<and>
      (spec_lookup (rg (view_world w)) x, view_world w) = (erase (fst (op w)), view_world (snd (op w)))"
    using ok by (simp add: assms(4) spec_lookup_rows split: list.splits)
qed

lemma d1_GetTenant_ok:
  "implements world_ok view_world (d1_GetTenant (d1_over url token) slug) (\<lambda>R. (spec_lookup (rg_tenants R) slug, R))"
  by (rule d1_read_implements [where tab = tenants and cols = tenant_cols and k = tr_slug and v = tenant_of_row
        and sc = d1_tenant and st = "Select_tenant slug", OF _ d1_GetTenant_def])
    (simp_all add: view_world_def)

lemma d1_GetService_ok:
  "implements world_ok view_world (d1_GetService (d1_over url token) t n) (\<lambda>R. (spec_lookup (rg_services R) (t, n), R))"
  by (rule d1_read_implements [where tab = services and cols = service_cols and k = service_key and v = service_of_row
        and sc = d1_service_row and st = "Select_service t n", OF _ d1_GetService_def])
    (simp_all add: view_world_def)

lemma d1_GetSigningKey_ok:
  "implements world_ok view_world (d1_GetSigningKey (d1_over url token) t) (\<lambda>R. (spec_lookup (rg_keys R) t, R))"
  by (rule d1_read_implements [where tab = signing_keys and k = kr_tenant_slug and v = kr_private_key_pem and st = "Select_key t"
        and cols = "\<lambda>r. [(''private_key_pem'', SQL_Text (kr_private_key_pem r))]"
        and sc = "\<lambda>row. strCol row ''private_key_pem''", OF _ d1_GetSigningKey_def])
    (simp_all add: view_world_def strCol_def)

lemma d1_GetOAuthClient_ok:
  "implements world_ok view_world (d1_GetOAuthClient (d1_over url token) t cid) (\<lambda>R. (spec_lookup (rg_clients R) (t, cid), R))"
  by (rule d1_read_implements [where tab = oauth_clients and k = client_key and v = cr_redirect_uris and st = "Select_client t cid"
        and cols = "\<lambda>r. [(''redirect_uris'', SQL_Text (cr_redirect_uris r))]"
        and sc = "\<lambda>row. strCol row ''redirect_uris''", OF _ d1_GetOAuthClient_def])
    (simp_all add: view_world_def strCol_def)

section \<open>Writes\<close>

lemma world_write_ok:
  assumes "world_ok w" and "sql_exec st (dw_db w) = Inr (q, d)"
  shows "world_ok (w\<lparr>dw_db := d\<rparr>)"
  using assms sql_exec_ok by (simp add: world_ok_def)

lemma d1_write_implements:
  assumes "\<And>w. op w = and_then (d1_try (d1_over url token) er [Run st] w) (\<lambda>res w. (Inr (f res), w))"
    and "stmt_meets cls g st spec"
    and "\<And>e. erase_error (er (d1_error_text 0 e)) = cls e"
    and "\<And>d q d'. db_ok d \<Longrightarrow> sql_exec st d = Inr (q, d') \<Longrightarrow> f [d1_done q] = g (rs_changes q)"
  shows "implements world_ok view_world op spec"
proof (rule implementsI)
  fix w
  assume ok: "world_ok w"
  then have f: "dw_faults w = []" and d: "db_ok (dw_db w)" by (simp_all add: world_ok_def)
  have spec: "spec (view_world w) = (case sql_exec st (dw_db w) of
      Inl e \<Rightarrow> (Inl (cls e), view_world w) | Inr (q, d') \<Rightarrow> (Inr (g (rs_changes q)), view_db d'))"
    using assms(2) d by (simp add: stmt_meets_def view_world_def split: sum.split)
  show "world_ok (snd (op w)) \<and> spec (view_world w) = (erase (fst (op w)), view_world (snd (op w)))"
    using ok f spec world_write_ok [OF ok, of st] assms(4) [OF d]
    by (auto simp: assms(1,3) healthy_try [OF f] split: sum.splits)
qed

lemma d1_CreateTenantExpiry_ok:
  "implements world_ok view_world (d1_CreateTenantExpiry (d1_over url token) slug name e now)
     (spec_create_tenant slug name e now)"
  by (rule d1_write_implements [OF _ insert_tenant_meets d1_insert_error_class])
    (simp_all add: d1_CreateTenantExpiry_def)

lemma delete_tenant_count:
  assumes "db_ok d" and "sql_exec (Delete_tenant slug) d = Inr (q, d')"
  shows "int (rs_changes q + rs_cascaded q) \<ge> 1 \<longleftrightarrow> rs_changes q = 1"
proof -
  have "length (filter (\<lambda>r. tr_slug r = slug) (tenants d)) = (if slug \<in> tr_slug ` set (tenants d) then 1 else 0)"
    using assms(1) by (intro distinct_filter_key_length) (simp add: db_ok_def pk_ok_def)
  then show ?thesis using assms(2) by (auto simp: Let_def change_result_def split: if_splits)
qed

lemma d1_DeleteTenant_ok:
  "implements world_ok view_world (d1_DeleteTenant (d1_over url token) slug) (spec_delete_tenant slug)"
proof (rule d1_write_implements [OF _ delete_tenant_meets d1_wrap_class])
  show "d1_DeleteTenant (d1_over url token) slug w =
      and_then (d1_try (d1_over url token) (d1_wrap ''delete tenant'') [Run (Delete_tenant slug)] w)
        (\<lambda>res w. (Inr (st_rows_written (hd res) \<ge> 1), w))" for w
    by (simp add: d1_DeleteTenant_def)
  show "(st_rows_written (hd [d1_done q]) \<ge> 1) = (rs_changes q = 1)"
    if "db_ok d" "sql_exec (Delete_tenant slug) d = Inr (q, d')" for d q d'
    using delete_tenant_count [OF that] by (simp only: list.sel d1_done_sel)
qed

lemma d1_CreateSigningKey_ok:
  "implements world_ok view_world (d1_CreateSigningKey (d1_over url token) t pem now) (spec_create_key t pem)"
  by (rule d1_write_implements [OF _ insert_key_meets d1_wrap_class])
    (simp_all add: d1_CreateSigningKey_def)

lemma d1_CreateOAuthClient_ok:
  "implements world_ok view_world (d1_CreateOAuthClient (d1_over url token) t cid uris now) (spec_create_client t cid uris)"
  by (rule d1_write_implements [OF _ insert_client_meets d1_insert_error_class])
    (simp_all add: d1_CreateOAuthClient_def)

lemma d1_CreateAuthCode_ok:
  "implements world_ok view_world (d1_CreateAuthCode (d1_over url token) h t cid uri ch e)
     (spec_create_code h t cid uri ch e)"
  by (rule d1_write_implements [OF _ insert_code_meets d1_wrap_class])
    (simp_all add: d1_CreateAuthCode_def)

lemma d1_CountLiveTenants_ok:
  "implements world_ok view_world (d1_CountLiveTenants (d1_over url token) now)
     (\<lambda>R. (Inr (int (card (live_tenants now R))), R))"
proof (rule implementsI)
  fix w
  assume ok: "world_ok w"
  then have f: "dw_faults w = []" and d: "db_ok (dw_db w)" by (simp_all add: world_ok_def)
  show "world_ok (snd (d1_CountLiveTenants (d1_over url token) now w)) \<and>
     (Inr (int (card (live_tenants now (view_world w)))), view_world w) =
     (erase (fst (d1_CountLiveTenants (d1_over url token) now w)),
      view_world (snd (d1_CountLiveTenants (d1_over url token) now w)))"
    using ok live_view [OF d, of now]
    by (simp add: d1_CountLiveTenants_def healthy_try [OF f] view_world_def rows_result_def intCol_def)
qed

text \<open>Several requests in a row, each on the database the one before left.\<close>

lemma d1_loop_step:
  assumes "dw_faults w = []" and "sql_exec st (dw_db w) = Inr (q, d)"
  shows "d1_loop (d1_over url token) i (Run st # sts) w =
    (case d1_loop (d1_over url token) (Suc i) sts (w\<lparr>dw_db := d\<rparr>) of ((rs, e), w) \<Rightarrow> ((d1_done q # rs, e), w))"
  by (simp add: healthy_d1_exec [OF assms(1)] assms(2) del: sql_exec.simps)

lemma d1_QuickRateHit_ok:
  "implements world_ok view_world (d1_QuickRateHit (d1_over url token) ip now) (spec_rate_hit ip now)"
proof (rule implementsI)
  fix s
  assume ok: "world_ok s"
  then have f: "dw_faults s = []" by (simp add: world_ok_def)
  define w where "w = go_quot (unix now) 3600"
  obtain d1 d2 n q1 q2 rs where e1: "sql_exec (Prune_rate (w - 2)) (dw_db s) = Inr (q1, d1)"
    and e2: "sql_exec (Upsert_rate ip w) d1 = Inr (q2, d2)"
    and e3: "sql_exec (Select_rate ip w) d2 = Inr (rows_result ([(''count'', SQL_Int n)] # rs), d2)"
    and spec: "spec_rate_hit ip now (view_db (dw_db s)) = (Inr n, view_db d2)"
    using rate_hit_steps [OF w_def] by blast
  have run: "d1_QuickRateHit (d1_over url token) ip now s = (Inr n, s\<lparr>dw_db := d2\<rparr>)"
    using f
    by (simp add: d1_QuickRateHit_def d1_try_def d1_query_def w_def [symmetric] d1_loop_step e1 e2 e3
        rows_result_def intCol_def del: sql_exec.simps d1_loop.simps(2))
  have "db_ok d2" using ok sql_exec_ok [OF e1] sql_exec_ok [OF e2] by (simp add: world_ok_def)
  then show "world_ok (snd (d1_QuickRateHit (d1_over url token) ip now s)) \<and>
     spec_rate_hit ip now (view_world s) =
     (erase (fst (d1_QuickRateHit (d1_over url token) ip now s)),
      view_world (snd (d1_QuickRateHit (d1_over url token) ip now s)))"
    using f spec unfolding run by (simp add: view_world_def)
qed

lemma d1_delete_loop:
  "world_ok w \<Longrightarrow> \<exists>rs w'. d1_loop (d1_over url token) i (map (\<lambda>s. Run (Delete_tenant s)) ss) w = ((rs, None), w')
     \<and> world_ok w' \<and> view_world w' = drop_tenants (set ss) (view_world w)"
proof (induction ss arbitrary: w i)
  case Nil
  then show ?case by simp
next
  case (Cons s ss)
  then have f: "dw_faults w = []" and d: "db_ok (dw_db w)" by (simp_all add: world_ok_def)
  have "\<exists>q d'. sql_exec (Delete_tenant s) (dw_db w) = Inr (q, d')" by (simp add: Let_def)
  then obtain q d' where e: "sql_exec (Delete_tenant s) (dw_db w) = Inr (q, d')" by blast
  have v: "view_db d' = drop_tenants {s} (view_db (dw_db w))"
    using delete_tenant_meets [of s, unfolded stmt_meets_def] d
    by (fastforce simp: spec_delete_tenant_def e simp del: sql_exec.simps)
  from Cons.IH [OF world_write_ok [OF Cons.prems e], of "Suc i"]
  show ?case using v
    by (auto simp: d1_loop_step [OF f e] view_world_def drop_tenants_twice simp del: d1_loop.simps)
qed

lemma d1_slugs_rows [simp]:
  "d1_slugs (map (\<lambda>r. d1_row [(''slug'', SQL_Text (g r))]) rs) = Inr (map g rs)"
  by (induction rs) (simp_all add: strCol_def)

lemma d1_DeleteExpiredTenants_ok:
  assumes ok: "world_ok w" and run: "d1_DeleteExpiredTenants (d1_over url token) now w = ((slugs, err), w')"
  shows "world_ok w' \<and> err = None \<and> set slugs = expired_tenants now (view_world w)
    \<and> view_world w' = drop_tenants (expired_tenants now (view_world w)) (view_world w)"
proof -
  from ok have f: "dw_faults w = []" and d: "db_ok (dw_db w)" by (simp_all add: world_ok_def)
  let ?ss = "map tr_slug (filter (is_expired (unix now)) (tenants (dw_db w)))"
  obtain rs w1 where del: "d1_loop (d1_over url token) 0 (map (\<lambda>s. Run (Delete_tenant s)) ?ss) w = ((rs, None), w1)"
      "world_ok w1" "view_world w1 = drop_tenants (set ?ss) (view_world w)"
    using d1_delete_loop [OF ok] by blast
  have "set ?ss = expired_tenants now (view_world w)"
    using expired_view [OF d] by (simp add: view_world_def)
  moreover have "d1_try (d1_over url token) er (map (\<lambda>s. Run (Delete_tenant s)) ?ss) w = (Inr rs, w1)" for er
    by (simp only: d1_try_def d1_query_def del(1) prod.case option.case)
  moreover have "?ss = [] \<Longrightarrow> w1 = w" using del(1) by simp
  ultimately show ?thesis
    using run del ok
    by (auto simp: d1_DeleteExpiredTenants_def healthy_try [OF f] rows_result_def o_def
        simp del: d1_loop.simps split: if_splits) (force simp: filter_empty_conv)
qed

lemma d1_CreateService_ok:
  assumes hash: "HashSecret B salt (d1_agent_key rnd) = Inr hash"
  shows "implements world_ok view_world (d1_CreateService (d1_over url token) B salt rnd now t svc)
     (spec_create_service (d1_agent_key rnd) hash now t svc)"
proof (rule implementsI)
  fix w
  assume ok: "world_ok w"
  then have f: "dw_faults w = []" and d: "db_ok (dw_db w)" by (simp_all add: world_ok_def)
  let ?st = "Insert_service_if t (Name svc) hash (default_auth_mode (AuthMode svc)) (PasswordHash svc) (unix now)"
  have run: "d1_CreateService (d1_over url token) B salt rnd now t svc w = (case sql_exec ?st (dw_db w) of
        Inl e \<Rightarrow> (Inl (d1_insert_error ''create service'' (d1_error_text 0 e)), w)
      | Inr (q, d) \<Rightarrow> (if rs_changes q + rs_cascaded q = 0 then Inl ErrNotFound else Inr (d1_agent_key rnd),
                       w\<lparr>dw_db := d\<rparr>))"
    by (simp add: d1_CreateService_def d1_newAgentKey_def hash healthy_try [OF f]
        del: sql_exec.simps split: sum.split)
  show "world_ok (snd (d1_CreateService (d1_over url token) B salt rnd now t svc w)) \<and>
     spec_create_service (d1_agent_key rnd) hash now t svc (view_world w) =
     (erase (fst (d1_CreateService (d1_over url token) B salt rnd now t svc w)),
      view_world (snd (d1_CreateService (d1_over url token) B salt rnd now t svc w)))"
  proof (cases "has_tenant (dw_db w) t")
    case False
    then show ?thesis using ok unfolding run
      by (simp add: spec_create_service_def change_result_def view_world_def has_tenant_def)
  next
    case True
    have rec: "\<lparr>Name = Name svc, AgentKeyHash = hash, AuthMode = default_auth_mode (AuthMode svc),
        PasswordHash = PasswordHash svc, SvcCreatedAt = time_unix (unix now)\<rparr> =
      svc\<lparr>AgentKeyHash := hash, AuthMode := default_auth_mode (AuthMode svc), SvcCreatedAt := time_unix (unix now)\<rparr>"
      by (cases svc) simp
    have same: "sql_exec ?st (dw_db w) = sql_exec (Insert_service t (Name svc) hash
        (default_auth_mode (AuthMode svc)) (PasswordHash svc) (unix now)) (dw_db w)"
      using True by simp
    have "t \<in> dom (rg_tenants (view_db (dw_db w)))" using True by (simp only: has_tenant_view)
    with insert_service_meets [OF d True, of "Name svc" hash "default_auth_mode (AuthMode svc)"
        "PasswordHash svc" "unix now", unfolded rec] world_write_ok [OF ok, of ?st] ok
    show ?thesis unfolding run same spec_create_service_def
      by (auto simp: view_world_def simp del: sql_exec.simps view_db_sel dom_row_map
          split: sum.splits if_splits)
  qed
qed

lemma d1_ValidatePassword_ok:
  "implements world_ok view_world (d1_ValidatePassword (d1_over url token) B t n pw)
     (\<lambda>R. (spec_validate_password B t n pw R, R))"
proof (rule implementsI)
  fix w
  assume ok: "world_ok w"
  obtain r w' where get: "d1_GetService (d1_over url token) t n w = (r, w')" by fastforce
  from implementsD [OF d1_GetService_ok ok get] get
  show "world_ok (snd (d1_ValidatePassword (d1_over url token) B t n pw w)) \<and>
     (spec_validate_password B t n pw (view_world w), view_world w) =
     (erase (fst (d1_ValidatePassword (d1_over url token) B t n pw w)),
      view_world (snd (d1_ValidatePassword (d1_over url token) B t n pw w)))"
    by (cases r) (auto simp: d1_ValidatePassword_def spec_validate_password_def spec_lookup_def
        split: option.splits)
qed

lemma d1_ValidateAgentKey_ok:
  "implements world_ok view_world (d1_ValidateAgentKey (d1_over url token) B t n key)
     (\<lambda>R. (spec_validate_agent_key B t n key R, R))"
proof (rule implementsI)
  fix w
  assume ok: "world_ok w"
  obtain r w' where get: "d1_GetService (d1_over url token) t n w = (r, w')" by fastforce
  from implementsD [OF d1_GetService_ok ok get] get
  show "world_ok (snd (d1_ValidateAgentKey (d1_over url token) B t n key w)) \<and>
     (spec_validate_agent_key B t n key (view_world w), view_world w) =
     (erase (fst (d1_ValidateAgentKey (d1_over url token) B t n key w)),
      view_world (snd (d1_ValidateAgentKey (d1_over url token) B t n key w)))"
    by (cases r) (auto simp: d1_ValidateAgentKey_def spec_validate_agent_key_def spec_lookup_def
        split: option.splits)
qed

text \<open>The interface: the client keeps the contract.\<close>

lemma d1_ConsumeAuthCode_ok:
  "implements world_ok view_world (d1_ConsumeAuthCode (d1_over url token) h now) (spec_consume_code h now)"
proof (rule implementsI)
  fix w
  assume ok: "world_ok w"
  then have f: "dw_faults w = []" and d: "db_ok (dw_db w)" by (simp_all add: world_ok_def)
  from claim_steps [OF d, of now h] obtain m d' where
    e: "sql_exec (Claim_code (unix now) h) (dw_db w) = Inr (change_result m 0, d')"
    and cases: "m = 0 \<and> spec_consume_code h now (view_db (dw_db w)) = (Inl ErrNotFound, view_db d')
       \<or> m = 1 \<and> (\<exists>r. sql_exec (Select_code h) d' = Inr (rows_result [code_cols r], d')
           \<and> spec_consume_code h now (view_db (dw_db w)) =
               (Inr (ac_tenant_slug r, ac_client_id r, ac_redirect_uri r, ac_code_challenge r), view_db d'))"
    by blast
  have "db_ok d'" using sql_exec_ok [OF e d] .
  then show "world_ok (snd (d1_ConsumeAuthCode (d1_over url token) h now w)) \<and>
     spec_consume_code h now (view_world w) =
     (erase (fst (d1_ConsumeAuthCode (d1_over url token) h now w)),
      view_world (snd (d1_ConsumeAuthCode (d1_over url token) h now w)))"
    using cases f
    by (auto simp: d1_ConsumeAuthCode_def healthy_try e change_result_def view_world_def rows_result_def
        simp del: sql_exec.simps)
qed

lemmas d1_ops_ok =
  d1_CreateTenantExpiry_ok d1_GetTenant_ok d1_DeleteTenant_ok d1_CountLiveTenants_ok
  d1_QuickRateHit_ok d1_CreateService_ok d1_GetService_ok d1_ValidatePassword_ok
  d1_ValidateAgentKey_ok d1_CreateSigningKey_ok d1_GetSigningKey_ok
  d1_CreateOAuthClient_ok d1_GetOAuthClient_ok d1_CreateAuthCode_ok d1_ConsumeAuthCode_ok

lemma d1_agent_key_nonempty [simp]: "d1_agent_key rnd \<noteq> []"
  by (simp add: d1_agent_key_def)

lemma d1_agent_key_short [simp]: "length rnd = 24 \<Longrightarrow> length (d1_agent_key rnd) \<le> 72"
  by (simp add: d1_agent_key_def d1_agentKeyPrefix_def)

interpretation d1: store_contract "d1_api (d1_over url token)" view_world world_ok d1_agent_key
  for url token
proof unfold_locales
  fix s now slugs err s'
  assume "world_ok s" and "DeleteExpiredTenants (d1_api (d1_over url token)) now s = ((slugs, err), s')"
  then show "world_ok s' \<and> err = None \<and> set slugs = expired_tenants now (view_world s) \<and>
      view_world s' = drop_tenants (expired_tenants now (view_world s)) (view_world s)"
    using d1_DeleteExpiredTenants_ok by (simp add: d1_api_def)
next
  show "world_ok s \<Longrightarrow> registry_ok (view_world s)" for s
    using view_registry_ok by (simp add: world_ok_def view_world_def)
qed (simp_all add: d1_api_def d1_ops_ok)

section \<open>Partial failure\<close>

text \<open>
  A sequence of requests stops at the first that fails: exactly the requests up to it were issued,
  in order, and nothing is undone.
\<close>

lemma d1_loop_prefix:
  "d1_loop S i sts w = ((rs, e), w') \<Longrightarrow>
     w' = fold (\<lambda>st w. snd (d1_exec S st w)) (take (length rs + (if e = None then 0 else 1)) sts) w
     \<and> (case e of None \<Rightarrow> length rs = length sts
        | Some m \<Rightarrow> length rs < length sts \<and>
            (\<exists>err. m = ''d1: statement '' @ itoa (int (i + length rs) + 1) @ '' failed: '' @ err))"
proof (induction sts arbitrary: i w rs)
  case Nil
  then show ?case by auto
next
  case (Cons st sts)
  obtain x w1 where x: "d1_exec S st w = (x, w1)" by fastforce
  show ?case
  proof (cases x)
    case (Inl err)
    then show ?thesis using Cons.prems x by auto
  next
    case (Inr r)
    obtain rs' where l: "d1_loop S (Suc i) sts w1 = ((rs', e), w')" and eq: "rs = r # rs'"
      using Cons.prems x Inr by (auto split: prod.splits)
    from Cons.IH [OF l] show ?thesis unfolding eq using x
      by (cases e) (auto simp: add.commute)
  qed
qed

text \<open>The rate-limit counter is incremented even when the read that follows fails.\<close>

lemma d1_exec_no_fault:
  assumes "dw_faults w = None # fs"
  shows "d1_exec (d1_over url token) (Run st) w = (case sql_exec st (dw_db w) of
      Inl e \<Rightarrow> (Inl (''d1: HTTP 400: '' @ sql_error_text e), w\<lparr>dw_faults := fs\<rparr>)
    | Inr (q, d) \<Rightarrow> (Inr (d1_done q), w\<lparr>dw_faults := fs, dw_db := d\<rparr>))"
  using assms
  by (simp add: d1_exec_def d1_over_def d1_ideal_def Let_def joinErrors_def itoa_400 d1_done_def
      del: sql_exec.simps sql_error_text.simps split: sum.split)

lemma d1_exec_fault:
  assumes "dw_faults w = Some m # fs"
  shows "d1_exec (d1_over url token) req w = (Inl (''d1: request: '' @ m), w\<lparr>dw_faults := fs\<rparr>)"
  using assms by (simp add: d1_exec_def d1_over_def d1_ideal_def Let_def)

lemma d1_rate_read_fails:
  assumes "dw_faults w = [None, None, Some m]"
  shows "\<exists>e w'. d1_QuickRateHit (d1_over url token) ip now w = (Inl e, w')
    \<and> rg_rates (view_world w') (ip, go_quot (unix now) 3600)
      = Some ((case rg_rates (view_world w) (ip, go_quot (unix now) 3600) of None \<Rightarrow> 0 | Some n \<Rightarrow> n) + 1)"
proof -
  define k where "k = go_quot (unix now) 3600"
  obtain d1 d2 n q1 q2 where e1: "sql_exec (Prune_rate (k - 2)) (dw_db w) = Inr (q1, d1)"
    and e2: "sql_exec (Upsert_rate ip k) d1 = Inr (q2, d2)"
    and spec: "spec_rate_hit ip now (view_db (dw_db w)) = (Inr n, view_db d2)"
    using rate_hit_steps [OF k_def] by blast
  define w1 w2 where "w1 = w\<lparr>dw_faults := [None, Some m], dw_db := d1\<rparr>" and "w2 = w1\<lparr>dw_faults := [Some m], dw_db := d2\<rparr>"
  have x1: "d1_exec (d1_over url token) (Run (Prune_rate (k - 2))) w = (Inr (d1_done q1), w1)"
    using d1_exec_no_fault [OF assms, of url token "Prune_rate (k - 2)"] by (simp add: e1 w1_def del: sql_exec.simps)
  have "dw_faults w1 = None # [Some m]" "dw_db w1 = d1" by (simp_all add: w1_def)
  then have x2: "d1_exec (d1_over url token) (Run (Upsert_rate ip k)) w1 = (Inr (d1_done q2), w2)"
    using d1_exec_no_fault [of w1 "[Some m]" url token "Upsert_rate ip k"] by (simp add: e2 w2_def del: sql_exec.simps)
  have x3: "\<exists>err. d1_exec (d1_over url token) (Run (Select_rate ip k)) w2 = (Inl err, w2\<lparr>dw_faults := []\<rparr>)"
    using d1_exec_fault [of w2 m "[]" url token] by (simp add: w2_def)
  obtain e where run: "d1_QuickRateHit (d1_over url token) ip now w = (Inl e, w2\<lparr>dw_faults := []\<rparr>)"
    using x1 x2 x3 by (auto simp: d1_QuickRateHit_def k_def [symmetric] Let_def d1_try_def d1_query_def)
  have "rg_rates (view_db d2) (ip, k) = Some ((case rg_rates (view_world w) (ip, k) of None \<Rightarrow> 0 | Some n \<Rightarrow> n) + 1)"
    using arg_cong [OF spec, of "\<lambda>x. rg_rates (snd x) (ip, k)"]
    by (simp add: spec_rate_hit_def Let_def k_def view_world_def del: view_db_sel split: option.splits)
  then show ?thesis using run by (auto simp: k_def view_world_def w2_def)
qed

end
