(* ===== verification/Store_History.thy ===== *)
theory Store_History
  imports D1_Contract
begin

text \<open>
  Histories of calls on the interface \<open>store.API\<close>: one constructor per method, the step an
  implementation takes and the step the abstract registry takes. Inside \<open>store_contract\<close> a backend's
  history refines the abstract one; the lemmas on abstract histories are proved once and hold for
  every backend.
\<close>

datatype store_op =
    Op_CreateTenantExpiry string string "time option" time
  | Op_GetTenant string
  | Op_DeleteTenant string
  | Op_DeleteExpiredTenants time
  | Op_CountLiveTenants time
  | Op_QuickRateHit string time
  | Op_CreateService string string time string service
  | Op_GetService string string
  | Op_ValidatePassword string string string
  | Op_ValidateAgentKey string string string
  | Op_CreateSigningKey string string time
  | Op_GetSigningKey string
  | Op_CreateOAuthClient string string string time
  | Op_GetOAuthClient string string
  | Op_CreateAuthCode string string string string string time
  | Op_ConsumeAuthCode string time

datatype response =
    R_error store_error
  | R_unit
  | R_bool bool
  | R_int int
  | R_text string
  | R_tenant tenant
  | R_service service
  | R_code "string \<times> string \<times> string \<times> string"
  | R_slugs "string set"

definition respond :: "('a \<Rightarrow> response) \<Rightarrow> (store_error + 'a) \<times> 's \<Rightarrow> response \<times> 's" where
  "respond f r = (case r of (Inl e, s) \<Rightarrow> (R_error e, s) | (Inr a, s) \<Rightarrow> (f a, s))"

lemma respond_Inr [simp]: "respond f (Inr a, s) = (f a, s)"
  by (simp add: respond_def)

lemma respond_Inl [simp]: "respond f (Inl e, s) = (R_error e, s)"
  by (simp add: respond_def)

definition respond_slugs :: "(string list \<times> store_error option) \<times> 's \<Rightarrow> response \<times> 's" where
  "respond_slugs r = (case r of ((slugs, Some e), s) \<Rightarrow> (R_error e, s)
     | ((slugs, None), s) \<Rightarrow> (R_slugs (set slugs), s))"

fun api_step :: "'s store_api \<Rightarrow> bcrypt \<Rightarrow> store_op \<Rightarrow> 's \<Rightarrow> response \<times> 's" where
  "api_step A B (Op_CreateTenantExpiry slug name e now) s = respond (\<lambda>_. R_unit) (CreateTenantExpiry A slug name e now s)"
| "api_step A B (Op_GetTenant slug) s = respond R_tenant (GetTenant A slug s)"
| "api_step A B (Op_DeleteTenant slug) s = respond R_bool (DeleteTenant A slug s)"
| "api_step A B (Op_DeleteExpiredTenants now) s = respond_slugs (DeleteExpiredTenants A now s)"
| "api_step A B (Op_CountLiveTenants now) s = respond R_int (CountLiveTenants A now s)"
| "api_step A B (Op_QuickRateHit ip now) s = respond R_int (QuickRateHit A ip now s)"
| "api_step A B (Op_CreateService salt rnd now t svc) s = respond R_text (CreateService A B salt rnd now t svc s)"
| "api_step A B (Op_GetService t n) s = respond R_service (GetService A t n s)"
| "api_step A B (Op_ValidatePassword t n pw) s = respond R_bool (ValidatePassword A B t n pw s)"
| "api_step A B (Op_ValidateAgentKey t n key) s = respond R_service (ValidateAgentKey A B t n key s)"
| "api_step A B (Op_CreateSigningKey t pem now) s = respond (\<lambda>_. R_unit) (CreateSigningKey A t pem now s)"
| "api_step A B (Op_GetSigningKey t) s = respond R_text (GetSigningKey A t s)"
| "api_step A B (Op_CreateOAuthClient t cid uris now) s = respond (\<lambda>_. R_unit) (CreateOAuthClient A t cid uris now s)"
| "api_step A B (Op_GetOAuthClient t cid) s = respond R_text (GetOAuthClient A t cid s)"
| "api_step A B (Op_CreateAuthCode h t cid uri ch e) s = respond (\<lambda>_. R_unit) (CreateAuthCode A h t cid uri ch e s)"
| "api_step A B (Op_ConsumeAuthCode h now) s = respond R_code (ConsumeAuthCode A h now s)"

text \<open>The hash stored for a key that fits bcrypt's 72 bytes.\<close>

definition hash_of :: "bcrypt \<Rightarrow> string \<Rightarrow> string \<Rightarrow> string" where
  "hash_of B salt key = (case HashSecret B salt key of Inl e \<Rightarrow> [] | Inr h \<Rightarrow> h)"

fun spec_step :: "bcrypt \<Rightarrow> (string \<Rightarrow> string) \<Rightarrow> store_op \<Rightarrow> registry \<Rightarrow> response \<times> registry" where
  "spec_step B k (Op_CreateTenantExpiry slug name e now) R = respond (\<lambda>_. R_unit) (spec_create_tenant slug name e now R)"
| "spec_step B k (Op_GetTenant slug) R = respond R_tenant (spec_lookup (rg_tenants R) slug, R)"
| "spec_step B k (Op_DeleteTenant slug) R = respond R_bool (spec_delete_tenant slug R)"
| "spec_step B k (Op_DeleteExpiredTenants now) R =
     (R_slugs (expired_tenants now R), drop_tenants (expired_tenants now R) R)"
| "spec_step B k (Op_CountLiveTenants now) R = (R_int (int (card (live_tenants now R))), R)"
| "spec_step B k (Op_QuickRateHit ip now) R = respond R_int (spec_rate_hit ip now R)"
| "spec_step B k (Op_CreateService salt rnd now t svc) R =
     respond R_text (spec_create_service (k rnd) (hash_of B salt (k rnd)) now t svc R)"
| "spec_step B k (Op_GetService t n) R = respond R_service (spec_lookup (rg_services R) (t, n), R)"
| "spec_step B k (Op_ValidatePassword t n pw) R = respond R_bool (spec_validate_password B t n pw R, R)"
| "spec_step B k (Op_ValidateAgentKey t n key) R = respond R_service (spec_validate_agent_key B t n key R, R)"
| "spec_step B k (Op_CreateSigningKey t pem now) R = respond (\<lambda>_. R_unit) (spec_create_key t pem R)"
| "spec_step B k (Op_GetSigningKey t) R = respond R_text (spec_lookup (rg_keys R) t, R)"
| "spec_step B k (Op_CreateOAuthClient t cid uris now) R = respond (\<lambda>_. R_unit) (spec_create_client t cid uris R)"
| "spec_step B k (Op_GetOAuthClient t cid) R = respond R_text (spec_lookup (rg_clients R) (t, cid), R)"
| "spec_step B k (Op_CreateAuthCode h t cid uri ch e) R = respond (\<lambda>_. R_unit) (spec_create_code h t cid uri ch e R)"
| "spec_step B k (Op_ConsumeAuthCode h now) R = respond R_code (spec_consume_code h now R)"

fun run_steps :: "('o \<Rightarrow> 's \<Rightarrow> 'r \<times> 's) \<Rightarrow> 'o list \<Rightarrow> 's \<Rightarrow> 'r list \<times> 's" where
  "run_steps f [] s = ([], s)"
| "run_steps f (x # xs) s = (case f x s of (r, s) \<Rightarrow> (case run_steps f xs s of (rs, s) \<Rightarrow> (r # rs, s)))"

fun erase_response :: "response \<Rightarrow> response" where
  "erase_response (R_error e) = R_error (erase_error e)"
| "erase_response r = r"

text \<open>An agent key is made of 24 random bytes.\<close>

fun op_ok :: "store_op \<Rightarrow> bool" where
  "op_ok (Op_CreateService salt rnd now t svc) = (length rnd = 24)"
| "op_ok _ = True"

fun creates_service :: "store_op \<Rightarrow> bool" where
  "creates_service (Op_CreateService salt rnd now t svc) = True"
| "creates_service _ = False"

fun creates_code :: "string \<Rightarrow> store_op \<Rightarrow> bool" where
  "creates_code h (Op_CreateAuthCode h' t cid uri ch e) = (h' = h)"
| "creates_code h _ = False"

lemma run_steps_append:
  "run_steps f (xs @ ys) s = (case run_steps f xs s of (rs, s) \<Rightarrow>
     (case run_steps f ys s of (qs, s) \<Rightarrow> (rs @ qs, s)))"
  by (induction xs arbitrary: s) (auto split: prod.splits)

lemma run_steps_length: "run_steps f xs s = (rs, s') \<Longrightarrow> length rs = length xs"
  by (induction xs arbitrary: s rs) (auto split: prod.splits)

section \<open>Abstract histories\<close>

text \<open>A code that is missing or used stays so until it is created again.\<close>

definition code_spent :: "string \<Rightarrow> registry \<Rightarrow> bool" where
  "code_spent h R = (case rg_codes R h of None \<Rightarrow> True | Some i \<Rightarrow> ci_used i \<noteq> None)"

lemma drop_tenants_codes: "rg_codes (drop_tenants S R) h =
    (case rg_codes R h of None \<Rightarrow> None | Some i \<Rightarrow> if ci_tenant i \<in> S then None else Some i)"
  by (simp add: drop_tenants_def)

lemma code_spent_drop: "code_spent h R \<Longrightarrow> code_spent h (drop_tenants S R)"
  by (auto simp: code_spent_def drop_tenants_codes split: option.splits)

lemmas spec_op_defs = spec_create_tenant_def spec_delete_tenant_def spec_rate_hit_def spec_create_service_def
  spec_create_key_def spec_create_client_def spec_create_code_def spec_consume_code_def

lemma code_spent_step:
  assumes "code_spent h R" and "\<not> creates_code h x" and "spec_step B k x R = (r, R')"
  shows "code_spent h R'"
  using assms
proof (cases x)
  case (Op_DeleteTenant t)
  with assms show ?thesis by (auto simp: spec_delete_tenant_def respond_def code_spent_drop)
next
  case (Op_DeleteExpiredTenants now)
  with assms show ?thesis by (auto simp: code_spent_drop)
next
  case (Op_ConsumeAuthCode h' now)
  with assms show ?thesis
    by (auto simp: spec_consume_code_def respond_def code_spent_def split: option.splits if_splits)
qed (auto simp: spec_op_defs respond_def code_spent_def Let_def split: sum.splits prod.splits if_splits option.splits)

lemma code_spent_run:
  "code_spent h R \<Longrightarrow> list_all (\<lambda>x. \<not> creates_code h x) xs \<Longrightarrow> run_steps (spec_step B k) xs R = (rs, R') \<Longrightarrow>
   code_spent h R'"
  by (induction xs arbitrary: R rs) (auto split: prod.splits dest: code_spent_step)

lemma spent_refused: "code_spent h R \<Longrightarrow> spec_consume_code h now R = (Inl ErrNotFound, R)"
  by (auto simp: code_spent_def spec_consume_code_def split: option.splits)

lemma consumed_spent: "spec_consume_code h now R = (Inr c, R') \<Longrightarrow> code_spent h R'"
  by (auto simp: code_spent_def spec_consume_code_def split: option.splits if_splits)

section \<open>Histories of a backend\<close>

lemma respond_refines:
  assumes "implements ok view f g" and "ok s" and "\<And>a. erase_response (h a) = h a"
  shows "ok (snd (respond h (f s))) \<and>
    respond h (g (view s)) = (erase_response (fst (respond h (f s))), view (snd (respond h (f s))))"
proof -
  obtain r s' where f: "f s = (r, s')" by fastforce
  from implementsD [OF assms(1,2) f] f show ?thesis
    by (cases r) (simp_all add: respond_def assms(3))
qed

context store_contract
begin

lemmas response_refines = respond_refines [where ok = ok and view = view]

lemma hash_total:
  assumes "bcrypt_ok B" and "length rnd = 24"
  shows "HashSecret B salt (agent_key rnd) = Inr (hash_of B salt (agent_key rnd))"
proof -
  have "length (agent_key rnd) \<le> 72" using agent_key_short assms(2) .
  then obtain h where "bc_generate B salt (agent_key rnd) = Some h"
    using assms(1) by (metis bcrypt_ok_def option.exhaust)
  then show ?thesis by (simp add: HashSecret_def hash_of_def)
qed

lemma step_refines:
  assumes B: "bcrypt_ok B" and x: "op_ok x" and ok: "ok s"
  shows "ok (snd (api_step api B x s)) \<and>
    spec_step B agent_key x (view s) = (erase_response (fst (api_step api B x s)), view (snd (api_step api B x s)))"
proof (cases x)
  case (Op_DeleteExpiredTenants now)
  obtain slugs err s' where run: "DeleteExpiredTenants api now s = ((slugs, err), s')"
    by (metis prod.exhaust)
  from delete_expired [OF ok run] run show ?thesis
    by (simp add: Op_DeleteExpiredTenants respond_slugs_def)
next
  case (Op_CreateService salt rnd now t svc)
  with x have "length rnd = 24" by simp
  from create_service [OF hash_total [OF B this, of salt], of now t svc]
  show ?thesis using response_refines [OF _ ok, where h = R_text] by (simp add: Op_CreateService)
next
  case (Op_CreateTenantExpiry slug name e now)
  then show ?thesis using response_refines [OF create_tenant ok, where h = "\<lambda>_. R_unit"] by simp
next
  case (Op_GetTenant slug)
  then show ?thesis using response_refines [OF get_tenant ok, where h = R_tenant] by simp
next
  case (Op_DeleteTenant slug)
  then show ?thesis using response_refines [OF delete_tenant ok, where h = R_bool] by simp
next
  case (Op_CountLiveTenants now)
  show ?thesis
    using response_refines [OF count_live ok, where h = R_int, of now]
    unfolding Op_CountLiveTenants spec_step.simps api_step.simps respond_Inr
    by (metis erase_response.simps(4))
next
  case (Op_QuickRateHit ip now)
  then show ?thesis using response_refines [OF rate_hit ok, where h = R_int] by simp
next
  case (Op_GetService t n)
  then show ?thesis using response_refines [OF get_service ok, where h = R_service] by simp
next
  case (Op_ValidatePassword t n pw)
  then show ?thesis using response_refines [OF validate_password ok, where h = R_bool] by simp
next
  case (Op_ValidateAgentKey t n key)
  then show ?thesis using response_refines [OF validate_agent_key ok, where h = R_service] by simp
next
  case (Op_CreateSigningKey t pem now)
  then show ?thesis using response_refines [OF create_key ok, where h = "\<lambda>_. R_unit"] by simp
next
  case (Op_GetSigningKey t)
  then show ?thesis using response_refines [OF get_key ok, where h = R_text] by simp
next
  case (Op_CreateOAuthClient t cid uris now)
  then show ?thesis using response_refines [OF create_client ok, where h = "\<lambda>_. R_unit"] by simp
next
  case (Op_GetOAuthClient t cid)
  then show ?thesis using response_refines [OF get_client ok, where h = R_text] by simp
next
  case (Op_CreateAuthCode h t cid uri ch e)
  then show ?thesis using response_refines [OF create_code ok, where h = "\<lambda>_. R_unit"] by simp
next
  case (Op_ConsumeAuthCode h now)
  then show ?thesis using response_refines [OF consume_code ok, where h = R_code] by simp
qed

lemma history_refines:
  assumes "bcrypt_ok B"
  shows "list_all op_ok xs \<Longrightarrow> ok s \<Longrightarrow> run_steps (api_step api B) xs s = (rs, s') \<Longrightarrow>
    ok s' \<and> run_steps (spec_step B agent_key) xs (view s) = (map erase_response rs, view s')"
proof (induction xs arbitrary: s rs)
  case Nil
  then show ?case by simp
next
  case (Cons x xs)
  obtain r s1 where x: "api_step api B x s = (r, s1)" by fastforce
  from Cons.prems(3) x obtain qs where qs: "run_steps (api_step api B) xs s1 = (qs, s')" "rs = r # qs"
    by (auto split: prod.splits)
  from step_refines [OF assms _ Cons.prems(2), of x] Cons.prems(1) x
  have "ok s1" "spec_step B agent_key x (view s) = (erase_response r, view s1)" by simp_all
  with Cons.IH [OF _ _ qs(1)] Cons.prems(1) qs(2) show ?case by simp
qed

text \<open>After a claim of a code succeeded, every later claim is refused, until the code is created again.\<close>

lemma code_single_use:
  assumes B: "bcrypt_ok B" and ok: "ok s"
    and first: "ConsumeAuthCode api h now s = (Inr c, s1)"
    and mid: "run_steps (api_step api B) xs s1 = (rs, s2)" "list_all op_ok xs"
    and no: "list_all (\<lambda>x. \<not> creates_code h x) xs"
  shows "\<exists>s3. ConsumeAuthCode api h later s2 = (Inl ErrNotFound, s3)"
proof -
  have o1: "ok s1" and c: "spec_consume_code h now (view s) = (Inr c, view s1)"
    using implementsD [OF consume_code ok first] by simp_all
  have o2: "ok s2" and r: "run_steps (spec_step B agent_key) xs (view s1) = (map erase_response rs, view s2)"
    using history_refines [OF B mid(2) o1 mid(1)] by simp_all
  have spent: "code_spent h (view s2)"
    using code_spent_run [OF consumed_spent [OF c] no r] .
  obtain q s3 where q: "ConsumeAuthCode api h later s2 = (q, s3)" by fastforce
  have "erase q = Inl ErrNotFound"
    using implementsD(2) [OF consume_code o2 q] spent_refused [OF spent] by simp
  then obtain e where "q = Inl e" "erase_error e = ErrNotFound" by (auto simp: erase_eq_Inl)
  then have "q = Inl ErrNotFound" by (cases e) simp_all
  with q show ?thesis by blast
qed

end

lemma spec_step_key: "\<not> creates_service x \<Longrightarrow> spec_step B k x R = spec_step B k' x R"
  by (cases x) simp_all

lemma spec_run_key:
  "list_all (\<lambda>x. \<not> creates_service x) xs \<Longrightarrow> run_steps (spec_step B k) xs R = run_steps (spec_step B k') xs R"
  by (induction xs arbitrary: R) (auto simp: spec_step_key [of _ B k _ k'] split: prod.splits)

end
