(* ===== verification/Control_Plane.thy ===== *)
theory Control_Plane
  imports Store_History Http
begin

text \<open>
  \<open>internal/controlplane/controlplane.go\<close>: \<open>POST /api/v1/quick\<close> and
  \<open>DELETE /api/v1/quick/{tenant}\<close> over any storage backend. What a handler reads from the clock,
  from \<open>crypto/rand\<close> and from \<open>oauth.GenerateKey\<close> is an argument. The lemmas are proved in
  \<open>store_contract\<close>, so they hold for both backends.
\<close>

section \<open>The handlers\<close>

definition QuickTTL :: int where
  "QuickTTL = secs (24 * 3600)"

definition quickRateLimit :: int where
  "quickRateLimit = 10"

definition maxLiveTunnels :: int where
  "maxLiveTunnels = 500"

definition cp_writeErr :: "nat \<Rightarrow> string \<Rightarrow> response" where
  "cp_writeErr status msg = writeJSON status (J_obj [(''error'', J_str msg)])"

text \<open>One reading of the clock per call of \<open>time.Now\<close>, in the order of the handler.\<close>

record quick_env =
  qe_rate_now :: time
  qe_count_now :: time
  qe_expiry_now :: time
  qe_draws :: "nat \<Rightarrow> string option \<times> time"
  qe_password_salt :: string
  qe_key_salt :: string
  qe_key_rnd :: string
  qe_service_now :: time
  qe_pem :: "string option"
  qe_pem_now :: time

definition allowQuick :: "'s store_api \<Rightarrow> string \<Rightarrow> time \<Rightarrow> 's \<Rightarrow> bool \<times> 's" where
  "allowQuick A remoteAddr now s =
     (let ip = (case split_host_port remoteAddr of None \<Rightarrow> remoteAddr | Some (host, port) \<Rightarrow> host) in
      case QuickRateHit A ip now s of
        (Inl e, s) \<Rightarrow> (True, s)
      | (Inr count, s) \<Rightarrow> (count \<le> quickRateLimit, s))"

definition quickSlugAlphabet :: string where
  "quickSlugAlphabet = ''abcdefghijklmnopqrstuvwxyz0123456789''"

definition quick_slug :: "string \<Rightarrow> string" where
  "quick_slug b = ''q-'' @ map (\<lambda>c. quickSlugAlphabet ! (of_char c mod 36)) b"

definition is_quick_slug :: "string \<Rightarrow> bool" where
  "is_quick_slug slug \<longleftrightarrow> (\<exists>b. slug = quick_slug b)"

text \<open>The retry loop; \<open>n\<close> rounds are left and \<open>draws i\<close> is what round \<open>i\<close> reads.\<close>

fun create_quick_loop ::
  "'s store_api \<Rightarrow> time \<Rightarrow> (nat \<Rightarrow> string option \<times> time) \<Rightarrow> nat \<Rightarrow> nat \<Rightarrow> 's \<Rightarrow> (store_error + string) \<times> 's" where
  "create_quick_loop A expiresAt draws 0 i s = (Inl ErrExists, s)"
| "create_quick_loop A expiresAt draws (Suc n) i s =
     (case draws i of
        (None, now) \<Rightarrow> (Inl (Driver ''rand''), s)
      | (Some b, now) \<Rightarrow>
          (case CreateTenantExpiry A (quick_slug b) ''quick tunnel'' (Some expiresAt) now s of
             (Inl e, s) \<Rightarrow> if e = ErrExists then create_quick_loop A expiresAt draws n (Suc i) s else (Inl e, s)
           | (Inr _, s) \<Rightarrow> (Inr (quick_slug b), s)))"

definition createQuickTenant ::
  "'s store_api \<Rightarrow> time \<Rightarrow> (nat \<Rightarrow> string option \<times> time) \<Rightarrow> 's \<Rightarrow> (store_error + string) \<times> 's" where
  "createQuickTenant A expiresAt draws s = create_quick_loop A expiresAt draws 10 0 s"

text \<open>The optional body \<open>{"auth": bool, "password": string}\<close>; \<open>None\<close> for invalid JSON.\<close>

definition quick_params :: "request \<Rightarrow> (bool \<times> string) option" where
  "quick_params r =
     (if rq_content_length r > 0 then
        Option.bind (decode_first 65536 (rq_body r)) (\<lambda>j.
        Option.bind (members j) (\<lambda>kvs.
        Option.bind (decode_field (map_option Some \<circ> as_bool) (Some None) ''auth'' None kvs) (\<lambda>au.
        Option.bind (decode_field as_string None ''password'' [] kvs) (\<lambda>pw.
        Some (case au of None \<Rightarrow> True | Some b \<Rightarrow> b, pw)))))
      else Some (True, []))"

text \<open>The checks before anything is created: rate limit, capacity, parameters.\<close>

definition quick_admit ::
  "'s store_api \<Rightarrow> quick_env \<Rightarrow> request \<Rightarrow> 's \<Rightarrow> (response + bool \<times> string) \<times> 's" where
  "quick_admit A env r s =
     (case allowQuick A (rq_remote r) (qe_rate_now env) s of
        (allowed, s) \<Rightarrow>
      if \<not> allowed then (Inl (cp_writeErr 429 ''quick tunnel rate limit exceeded; try again later''), s)
      else
      (case CountLiveTenants A (qe_count_now env) s of
        (Inl e, s) \<Rightarrow> (Inl (cp_writeErr 500 ''store error''), s)
      | (Inr live, s) \<Rightarrow>
          if live \<ge> maxLiveTunnels then (Inl (cp_writeErr 503 ''service at capacity, try again later''), s)
          else (case quick_params r of
              None \<Rightarrow> (Inl (cp_writeErr 400 ''invalid JSON body''), s)
            | Some (auth, password) \<Rightarrow>
                if auth \<and> password = []
                then (Inl (cp_writeErr 400 ''password is required when auth is enabled''), s)
                else (Inr (auth, password), s))))"

definition quick_created :: "string \<Rightarrow> string \<Rightarrow> time \<Rightarrow> response" where
  "quick_created slug agentKey expiresAt =
     writeJSON 201 (J_obj [(''agent_key'', J_str agentKey), (''expires_at'', J_num (itoa (unix expiresAt))),
       (''service'', J_str ''mcp''), (''tenant'', J_str slug)])"

text \<open>The creating half of \<open>handleQuick\<close>: tenant, password hash, service, signing key.\<close>

definition quick_create ::
  "'s store_api \<Rightarrow> bcrypt \<Rightarrow> quick_env \<Rightarrow> bool \<Rightarrow> string \<Rightarrow> 's \<Rightarrow> response \<times> 's" where
  "quick_create A B env auth password s =
     (let expiresAt = qe_expiry_now env + QuickTTL in
      case createQuickTenant A expiresAt (qe_draws env) s of
        (Inl e, s) \<Rightarrow> (cp_writeErr 500 ''store error'', s)
      | (Inr slug, s) \<Rightarrow>
      (case (if auth \<and> password \<noteq> [] then HashSecret B (qe_password_salt env) password else Inr []) of
        Inl e \<Rightarrow> (cp_writeErr 500 ''hash error'', s)
      | Inr hash \<Rightarrow>
      (let svc = \<lparr>Name = ''mcp'', AgentKeyHash = [], AuthMode = (if auth then ''oauth'' else ''open''),
                  PasswordHash = hash, SvcCreatedAt = 0\<rparr> in
       case CreateService A B (qe_key_salt env) (qe_key_rnd env) (qe_service_now env) slug svc s of
        (Inl e, s) \<Rightarrow> (cp_writeErr 500 ''store error'', s)
      | (Inr agentKey, s) \<Rightarrow>
          if \<not> auth then (quick_created slug agentKey expiresAt, s)
          else (case qe_pem env of
              None \<Rightarrow> (cp_writeErr 500 ''key generation failed'', s)
            | Some pem \<Rightarrow>
                (case CreateSigningKey A slug pem (qe_pem_now env) s of
                   (Inl e, s) \<Rightarrow> (cp_writeErr 500 ''store error'', s)
                 | (Inr _, s) \<Rightarrow> (quick_created slug agentKey expiresAt, s))))))"

definition handleQuick ::
  "'s store_api \<Rightarrow> bcrypt \<Rightarrow> quick_env \<Rightarrow> request \<Rightarrow> 's \<Rightarrow> response \<times> 's" where
  "handleQuick A B env r s =
     (case quick_admit A env r s of
        (Inl resp, s) \<Rightarrow> (resp, s)
      | (Inr (auth, password), s) \<Rightarrow> quick_create A B env auth password s)"

definition handleDelete ::
  "'s store_api \<Rightarrow> bcrypt \<Rightarrow> string \<Rightarrow> request \<Rightarrow> 's \<Rightarrow> response \<times> 's" where
  "handleDelete A B tenant r s =
     (let service = header r ''X-Service-Name''; key = bearer_key r in
      if service = [] \<or> key = []
      then (cp_writeErr 401 ''X-Service-Name and Authorization: Bearer <agent_key> are required'', s)
      else (case ValidateAgentKey A B tenant service key s of
          (Inl e, s) \<Rightarrow> (cp_writeErr 401 ''invalid agent key'', s)
        | (Inr _, s) \<Rightarrow>
            (case DeleteTenant A tenant s of
               (Inl e, s) \<Rightarrow> (cp_writeErr 500 ''store error'', s)
             | (Inr found, s) \<Rightarrow> if \<not> found then (cp_writeErr 404 ''tenant not found'', s)
                                else (no_content, s))))"

lemma cp_status [simp]:
  "rp_status (cp_writeErr status msg) = status"
  "rp_status (quick_created slug key e) = 201"
  by (simp_all add: cp_writeErr_def quick_created_def)

text \<open>A slug is \<open>q-\<close> and one alphabet character per random byte.\<close>

lemma quick_slug_shape:
  "quick_slug b = ''q-'' @ t \<Longrightarrow> length t = length b \<and> set t \<subseteq> set quickSlugAlphabet"
proof -
  have n: "length quickSlugAlphabet = 36" by (simp add: quickSlugAlphabet_def)
  have "quickSlugAlphabet ! (of_char c mod 36) \<in> set quickSlugAlphabet" for c
    by (rule nth_mem) (simp add: n)
  then show "quick_slug b = ''q-'' @ t \<Longrightarrow> ?thesis" by (auto simp: quick_slug_def)
qed

section \<open>What the handlers promise\<close>

definition quick_tenant :: "string \<Rightarrow> time \<Rightarrow> time \<Rightarrow> tenant" where
  "quick_tenant slug now e = \<lparr>Slug = slug, DisplayName = ''quick tunnel'', CreatedAt = time_unix (unix now),
     ExpiresAt = Some (time_unix (unix e))\<rparr>"

text \<open>The service a successful \<open>POST /api/v1/quick\<close> leaves behind.\<close>

definition quick_service_ok :: "bcrypt \<Rightarrow> bool \<Rightarrow> string \<Rightarrow> string \<Rightarrow> service \<Rightarrow> bool" where
  "quick_service_ok B auth password key svc \<longleftrightarrow>
     Name svc = ''mcp'' \<and> CheckSecret B (AgentKeyHash svc) key
     \<and> AuthMode svc = (if auth then ''oauth'' else ''open'')
     \<and> (if auth then PasswordHash svc \<noteq> [] \<and> CheckSecret B (PasswordHash svc) password
        else PasswordHash svc = [])"

lemma HashSecret_checks:
  assumes "bcrypt_ok B" and "HashSecret B salt p = Inr h"
  shows "h \<noteq> [] \<and> CheckSecret B h p"
  using assms by (auto simp: HashSecret_def CheckSecret_def bcrypt_ok_def split: option.splits)

lemma rates_only:
  assumes "spec_rate_hit ip now R = (x, R')"
  shows "rg_tenants R' = rg_tenants R" "rg_services R' = rg_services R" "rg_keys R' = rg_keys R"
    "rg_clients R' = rg_clients R" "rg_codes R' = rg_codes R"
  using assms by (auto simp: spec_rate_hit_def Let_def)

context store_contract
begin

lemma fresh_slug:
  assumes "ok s" and "slug \<notin> dom (rg_tenants (view s))"
  shows "rg_services (view s) (slug, n) = None" and "rg_keys (view s) slug = None"
  using references [OF assms(1)] assms(2) by (auto simp: registry_ok_def)

lemma create_quick_loop_spec:
  assumes "ok s" and "create_quick_loop api e draws n i s = (r, s')"
  shows "ok s' \<and> (case r of
      Inl err \<Rightarrow> view s' = view s
    | Inr slug \<Rightarrow> slug \<notin> dom (rg_tenants (view s))
        \<and> (\<exists>j b now. i \<le> j \<and> j < i + n \<and> draws j = (Some b, now) \<and> slug = quick_slug b
             \<and> view s' = (view s)\<lparr>rg_tenants := (rg_tenants (view s))(slug \<mapsto> quick_tenant slug now e)\<rparr>))"
  using assms
proof (induction n arbitrary: i s)
  case 0
  then show ?case by auto
next
  case (Suc n)
  obtain d now where draw: "draws i = (d, now)" by fastforce
  show ?case
  proof (cases d)
    case None
    with Suc.prems draw show ?thesis by auto
  next
    case (Some b)
    obtain x s1 where c: "CreateTenantExpiry api (quick_slug b) ''quick tunnel'' (Some e) now s = (x, s1)"
      by fastforce
    note spec = implementsD [OF create_tenant Suc.prems(1) c]
    show ?thesis
    proof (cases x)
      case (Inr u)
      with spec have new: "quick_slug b \<notin> dom (rg_tenants (view s))"
        and v: "view s1 = (view s)\<lparr>rg_tenants := (rg_tenants (view s))(quick_slug b \<mapsto> quick_tenant (quick_slug b) now e)\<rparr>"
        by (auto simp: spec_create_tenant_def quick_tenant_def split: if_splits)
      have "r = Inr (quick_slug b)" "s' = s1" using Suc.prems(2) draw Some c Inr by simp_all
      then show ?thesis using spec(1) new v draw Some by auto
    next
      case (Inl err)
      with spec have v: "view s1 = view s" by (auto simp: spec_create_tenant_def split: if_splits)
      show ?thesis
      proof (cases "err = ErrExists")
        case True
        with Suc.prems(2) draw Some c Inl have "create_quick_loop api e draws n (Suc i) s1 = (r, s')" by simp
        from Suc.IH [OF spec(1) this] show ?thesis unfolding v
          by (cases r) (auto, metis Suc_leD add_Suc_right add_Suc_shift)
      next
        case False
        with Suc.prems(2) draw Some c Inl have "r = Inl err" "s' = s1" by simp_all
        then show ?thesis using spec(1) v by simp
      qed
    qed
  qed
qed

lemma admit_spec:
  assumes "ok s" and "quick_admit api env r s = (x, s')"
  shows "ok s' \<and> rg_tenants (view s') = rg_tenants (view s) \<and> rg_services (view s') = rg_services (view s)
    \<and> rg_keys (view s') = rg_keys (view s) \<and> rg_clients (view s') = rg_clients (view s)
    \<and> rg_codes (view s') = rg_codes (view s)
    \<and> (\<forall>auth password. x = Inr (auth, password) \<longrightarrow> quick_params r = Some (auth, password)
         \<and> (auth \<longrightarrow> password \<noteq> []) \<and> int (card (live_tenants (qe_count_now env) (view s))) < maxLiveTunnels)
    \<and> (\<forall>resp. x = Inl resp \<longrightarrow> rp_status resp \<in> {400, 429, 503})"
proof -
  define ip where "ip = (case split_host_port (rq_remote r) of None \<Rightarrow> rq_remote r | Some (host, port) \<Rightarrow> host)"
  obtain h s1 where hit: "QuickRateHit api ip (qe_rate_now env) s = (h, s1)" by fastforce
  note spec = implementsD [OF rate_hit assms(1) hit]
  obtain count where h: "h = Inr count" using spec(2) by (cases h) (auto simp: spec_rate_hit_def Let_def)
  obtain l s2 where cnt: "CountLiveTenants api (qe_count_now env) s1 = (l, s2)" by fastforce
  note spec2 = implementsD [OF count_live spec(1) cnt]
  have "rg_tenants (view s1) = rg_tenants (view s)" using rates_only(1) [OF spec(2)] .
  then have live: "live_tenants (qe_count_now env) (view s1) = live_tenants (qe_count_now env) (view s)"
    by (simp add: live_tenants_def)
  have l: "l = Inr (int (card (live_tenants (qe_count_now env) (view s))))" and v2: "view s2 = view s1"
    using spec2(2) live by simp_all
  show ?thesis
    using assms(2) spec(1) spec2(1) rates_only [OF spec(2)] v2
    by (auto simp: quick_admit_def allowQuick_def ip_def [symmetric] hit h cnt l Let_def
        split: if_splits option.splits)
qed

text \<open>
  A \<open>201\<close> means: one new tenant with one service (and one signing key when OAuth guards it), all
  other tenants untouched.
\<close>

lemma create_spec:
  assumes ok: "ok s" and B: "bcrypt_ok B" and rnd: "length (qe_key_rnd env) = 24"
    and run: "quick_create api B env auth password s = (resp, s')" and created: "rp_status resp = 201"
    and pw: "auth \<longrightarrow> password \<noteq> []"
  shows "ok s' \<and> (\<exists>slug now svc. slug \<notin> dom (rg_tenants (view s)) \<and> is_quick_slug slug
    \<and> resp = quick_created slug (agent_key (qe_key_rnd env)) (qe_expiry_now env + QuickTTL)
    \<and> quick_service_ok B auth password (agent_key (qe_key_rnd env)) svc
    \<and> (auth \<longrightarrow> qe_pem env \<noteq> None)
    \<and> view s' = (view s)\<lparr>
        rg_tenants := (rg_tenants (view s))(slug \<mapsto> quick_tenant slug now (qe_expiry_now env + QuickTTL)),
        rg_services := (rg_services (view s))((slug, ''mcp'') \<mapsto> svc),
        rg_keys := (if auth then (rg_keys (view s))(slug := qe_pem env) else rg_keys (view s))\<rparr>)"
proof -
  define e where "e = qe_expiry_now env + QuickTTL"
  obtain x s1 where c: "createQuickTenant api e (qe_draws env) s = (x, s1)" by fastforce
  from run created c obtain slug where x: "x = Inr slug"
    by (cases x) (auto simp: quick_create_def e_def [symmetric])
  from create_quick_loop_spec [OF ok c [unfolded createQuickTenant_def]] x
  have "is_quick_slug slug" by (auto simp: is_quick_slug_def)
  with create_quick_loop_spec [OF ok c [unfolded createQuickTenant_def]] x obtain now where
    o1: "ok s1" and new: "slug \<notin> dom (rg_tenants (view s))" "is_quick_slug slug" and
    v1: "view s1 = (view s)\<lparr>rg_tenants := (rg_tenants (view s))(slug \<mapsto> quick_tenant slug now e)\<rparr>"
    by auto
  define hr where "hr = (if auth \<and> password \<noteq> [] then HashSecret B (qe_password_salt env) password else Inr [])"
  from run created c x obtain hash where h: "hr = Inr hash"
    by (cases hr) (auto simp: quick_create_def e_def [symmetric] hr_def [symmetric])
  have hash: "if auth then hash \<noteq> [] \<and> CheckSecret B hash password else hash = []"
    using h pw HashSecret_checks [OF B] by (auto simp: hr_def split: if_splits)
  define svc0 where "svc0 = \<lparr>Name = ''mcp'', AgentKeyHash = [], AuthMode = (if auth then ''oauth'' else ''open''),
                  PasswordHash = hash, SvcCreatedAt = 0\<rparr>"
  note kh = hash_total [OF B rnd, of "qe_key_salt env"]
  obtain y s2 where cs: "CreateService api B (qe_key_salt env) (qe_key_rnd env) (qe_service_now env) slug svc0 s1 = (y, s2)"
    by fastforce
  note sspec = implementsD [OF create_service [OF kh] o1 cs]
  define svc where "svc = svc0\<lparr>AgentKeyHash := hash_of B (qe_key_salt env) (agent_key (qe_key_rnd env)),
      AuthMode := default_auth_mode (AuthMode svc0), SvcCreatedAt := time_unix (unix (qe_service_now env))\<rparr>"
  have "(slug, ''mcp'') \<notin> dom (rg_services (view s1))" "slug \<in> dom (rg_tenants (view s1))"
    using fresh_slug(1) [OF ok new(1)] by (simp_all add: v1 domIff)
  then have y: "y = Inr (agent_key (qe_key_rnd env))"
    and v2: "view s2 = (view s1)\<lparr>rg_services := (rg_services (view s1))((slug, ''mcp'') \<mapsto> svc)\<rparr>"
    using sspec(2) by (auto simp: spec_create_service_def svc_def svc0_def)
  have svc: "quick_service_ok B auth password (agent_key (qe_key_rnd env)) svc"
    using hash HashSecret_checks [OF B kh]
    by (auto simp: quick_service_ok_def svc_def svc0_def default_auth_mode_def)
  note run' = run [unfolded quick_create_def Let_def, folded e_def, unfolded c x sum.case prod.case,
      folded hr_def, unfolded h sum.case, folded svc0_def, unfolded cs y sum.case prod.case]
  show ?thesis
  proof (cases auth)
    case False
    then show ?thesis using run' sspec(1) new svc v2 v1
      by (intro conjI exI [of _ slug] exI [of _ now] exI [of _ svc]) (simp_all add: e_def)
  next
    case True
    from run' created True obtain pem where pem: "qe_pem env = Some pem" by (cases "qe_pem env") auto
    obtain z s3 where ck: "CreateSigningKey api slug pem (qe_pem_now env) s2 = (z, s3)" by fastforce
    note kspec = implementsD [OF create_key sspec(1) ck]
    have "slug \<notin> dom (rg_keys (view s2))" "slug \<in> dom (rg_tenants (view s2))"
      using fresh_slug(2) [OF ok new(1)] by (simp_all add: v2 v1 domIff)
    then have z: "z = Inr ()" and v3: "view s3 = (view s2)\<lparr>rg_keys := (rg_keys (view s2))(slug \<mapsto> pem)\<rparr>"
      using kspec(2) by (auto simp: spec_create_key_def)
    then show ?thesis using run' True pem ck kspec(1) new svc v2 v1
      by (intro conjI exI [of _ slug] exI [of _ now] exI [of _ svc]) (simp_all add: e_def)
  qed
qed

text \<open>The whole handler.\<close>

lemma handleQuick_created:
  assumes ok: "ok s" and B: "bcrypt_ok B" and rnd: "length (qe_key_rnd env) = 24"
    and run: "handleQuick api B env r s = (resp, s')" and created: "rp_status resp = 201"
  shows "ok s' \<and> (\<exists>auth password slug now svc. quick_params r = Some (auth, password) \<and> (auth \<longrightarrow> password \<noteq> [])
    \<and> int (card (live_tenants (qe_count_now env) (view s))) < maxLiveTunnels
    \<and> slug \<notin> dom (rg_tenants (view s)) \<and> is_quick_slug slug
    \<and> resp = quick_created slug (agent_key (qe_key_rnd env)) (qe_expiry_now env + QuickTTL)
    \<and> quick_service_ok B auth password (agent_key (qe_key_rnd env)) svc
    \<and> (auth \<longrightarrow> qe_pem env \<noteq> None)
    \<and> rg_tenants (view s') = (rg_tenants (view s))(slug \<mapsto> quick_tenant slug now (qe_expiry_now env + QuickTTL))
    \<and> rg_services (view s') = (rg_services (view s))((slug, ''mcp'') \<mapsto> svc)
    \<and> rg_keys (view s') = (if auth then (rg_keys (view s))(slug := qe_pem env) else rg_keys (view s))
    \<and> rg_clients (view s') = rg_clients (view s) \<and> rg_codes (view s') = rg_codes (view s))"
proof -
  obtain x s1 where a: "quick_admit api env r s = (x, s1)" by fastforce
  note adm = admit_spec [OF ok a]
  from run created a adm obtain auth password where x: "x = Inr (auth, password)"
    by (cases x) (fastforce simp: handleQuick_def)+
  have cr: "quick_create api B env auth password s1 = (resp, s')" using run a x by (simp add: handleQuick_def)
  have same: "rg_tenants (view s1) = rg_tenants (view s)" "rg_services (view s1) = rg_services (view s)"
    "rg_keys (view s1) = rg_keys (view s)" "rg_clients (view s1) = rg_clients (view s)"
    "rg_codes (view s1) = rg_codes (view s)" and o1: "ok s1" using adm by simp_all
  have par: "quick_params r = Some (auth, password)" "auth \<longrightarrow> password \<noteq> []"
    "int (card (live_tenants (qe_count_now env) (view s))) < maxLiveTunnels" using adm x by simp_all
  from create_spec [OF o1 B rnd cr created par(2)] obtain slug now svc
    where o2: "ok s'" and new: "slug \<notin> dom (rg_tenants (view s1))" "is_quick_slug slug"
    and res: "resp = quick_created slug (agent_key (qe_key_rnd env)) (qe_expiry_now env + QuickTTL)"
      "quick_service_ok B auth password (agent_key (qe_key_rnd env)) svc" "auth \<longrightarrow> qe_pem env \<noteq> None"
    and v: "view s' = (view s1)\<lparr>
        rg_tenants := (rg_tenants (view s1))(slug \<mapsto> quick_tenant slug now (qe_expiry_now env + QuickTTL)),
        rg_services := (rg_services (view s1))((slug, ''mcp'') \<mapsto> svc),
        rg_keys := (if auth then (rg_keys (view s1))(slug := qe_pem env) else rg_keys (view s1))\<rparr>"
    by (elim conjE exE) rule
  show ?thesis
    by (rule conjI [OF o2], rule exI [of _ auth], rule exI [of _ password], rule exI [of _ slug],
        rule exI [of _ now], rule exI [of _ svc])
      (use par res new in \<open>simp add: v same\<close>)
qed

text \<open>A refusal before creation leaves tenants, services, keys, clients and codes as they were.\<close>

lemma handleQuick_refused:
  assumes "ok s" and "handleQuick api B env r s = (resp, s')" and "rp_status resp \<in> {400, 429, 503}"
  shows "ok s' \<and> rg_tenants (view s') = rg_tenants (view s) \<and> rg_services (view s') = rg_services (view s)
    \<and> rg_keys (view s') = rg_keys (view s)"
proof -
  obtain x s1 where a: "quick_admit api env r s = (x, s1)" by fastforce
  note adm = admit_spec [OF assms(1) a]
  have created: "rp_status (fst (quick_create api B env auth password s1)) \<in> {201, 500}" for auth password
    by (auto simp: quick_create_def Let_def split: sum.splits prod.splits option.splits)
  have "\<exists>resp'. x = Inl resp'"
  proof (rule ccontr)
    assume "\<not> ?thesis"
    then obtain auth password where "x = Inr (auth, password)" by (cases x) auto
    then have "quick_create api B env auth password s1 = (resp, s')"
      using assms(2) a by (simp add: handleQuick_def)
    with created [of auth password] assms(3) show False by auto
  qed
  then show ?thesis using assms(2) a adm by (auto simp: handleQuick_def)
qed

text \<open>Deleting: exactly when the key authenticates for a service of the tenant, and then all of the tenant.\<close>

lemma handleDelete_spec:
  assumes "ok s" and "handleDelete api B tenant r s = (resp, s')"
  shows "ok s' \<and>
    (let name = header r ''X-Service-Name''; key = bearer_key r;
         authorized = (name \<noteq> [] \<and> key \<noteq> [] \<and>
           (\<exists>svc. rg_services (view s) (tenant, name) = Some svc \<and> CheckSecret B (AgentKeyHash svc) key))
     in if authorized then rp_status resp = 204 \<and> view s' = drop_tenants {tenant} (view s)
        else rp_status resp = 401 \<and> view s' = view s)"
proof -
  let ?name = "header r ''X-Service-Name''" and ?key = "bearer_key r"
  show ?thesis
  proof (cases "?name = [] \<or> ?key = []")
    case True
    then show ?thesis using assms by (auto simp: handleDelete_def Let_def)
  next
    case False
    obtain v s1 where val: "ValidateAgentKey api B tenant ?name ?key s = (v, s1)" by fastforce
    note vspec = implementsD [OF validate_agent_key assms(1) val]
    show ?thesis
    proof (cases v)
      case (Inl e)
      then show ?thesis using assms(2) False val vspec
        by (auto simp: handleDelete_def Let_def spec_validate_agent_key_def split: option.splits if_splits)
    next
      case (Inr svc)
      then have svc: "rg_services (view s) (tenant, ?name) = Some svc" "CheckSecret B (AgentKeyHash svc) ?key"
        "view s1 = view s"
        using vspec(2) by (auto simp: spec_validate_agent_key_def split: option.splits if_splits)
      then have t: "tenant \<in> dom (rg_tenants (view s1))"
        using references [OF assms(1)] by (auto simp: registry_ok_def)
      obtain d s2 where del: "DeleteTenant api tenant s1 = (d, s2)" by fastforce
      note dspec = implementsD [OF delete_tenant vspec(1) del]
      have "d = Inr True" "view s2 = drop_tenants {tenant} (view s)"
        using dspec(2) t svc(3) by (auto simp: spec_delete_tenant_def)
      then show ?thesis using assms(2) False val Inr del svc dspec(1)
        by (auto simp: handleDelete_def Let_def)
    qed
  qed
qed

end

section \<open>Rate limit, capacity, and a tenant left behind\<close>

definition rate_ip :: "request \<Rightarrow> string" where
  "rate_ip r = (case split_host_port (rq_remote r) of None \<Rightarrow> rq_remote r | Some (host, port) \<Rightarrow> host)"

definition rate_window :: "time \<Rightarrow> int" where
  "rate_window now = go_quot (unix now) 3600"

definition hits :: "string \<Rightarrow> int \<Rightarrow> registry \<Rightarrow> int" where
  "hits ip w R = (case rg_rates R (ip, w) of None \<Rightarrow> 0 | Some c \<Rightarrow> c)"

fun run_quick :: "'s store_api \<Rightarrow> bcrypt \<Rightarrow> (quick_env \<times> request) list \<Rightarrow> 's \<Rightarrow> response list \<times> 's" where
  "run_quick A B [] s = ([], s)"
| "run_quick A B ((env, r) # xs) s =
     (case handleQuick A B env r s of (resp, s) \<Rightarrow>
      (case run_quick A B xs s of (resps, s) \<Rightarrow> (resp # resps, s)))"

lemma create_service_rates: "spec_create_service k h now t svc R = (x, R') \<Longrightarrow> rg_rates R' = rg_rates R"
  by (auto simp: spec_create_service_def split: if_splits)

lemma create_key_rates: "spec_create_key t pem R = (x, R') \<Longrightarrow> rg_rates R' = rg_rates R"
  by (auto simp: spec_create_key_def split: if_splits)

lemma hits_next:
  assumes "spec_rate_hit ip now R = (x, R')"
  shows "x = Inr (hits ip (rate_window now) R + 1)"
    and "hits ip (rate_window now) R' = hits ip (rate_window now) R + 1"
  using assms by (auto simp: spec_rate_hit_def Let_def hits_def rate_window_def split: option.splits)

context store_contract
begin

lemma create_keeps:
  assumes ok: "ok s" and B: "bcrypt_ok B" and rnd: "length (qe_key_rnd env) = 24"
    and run: "quick_create api B env auth password s = (resp, s')"
  shows "ok s' \<and> rg_rates (view s') = rg_rates (view s) \<and> rp_status resp \<in> {201, 500}"
proof -
  define e where "e = qe_expiry_now env + QuickTTL"
  obtain x s1 where c: "createQuickTenant api e (qe_draws env) s = (x, s1)" by fastforce
  note c1 = create_quick_loop_spec [OF ok c [unfolded createQuickTenant_def]]
  have o1: "ok s1" and v1: "rg_rates (view s1) = rg_rates (view s)"
    using c1 by (auto split: sum.splits)
  define hr where "hr = (if auth \<and> password \<noteq> [] then HashSecret B (qe_password_salt env) password else Inr [])"
  show ?thesis
  proof (cases "\<exists>slug hash. x = Inr slug \<and> hr = Inr hash")
    case False
    then show ?thesis using run o1 v1 unfolding quick_create_def Let_def
      by (cases x; cases hr) (auto simp: e_def [symmetric] c hr_def [symmetric])
  next
    case True
    then obtain slug hash where x: "x = Inr slug" and h: "hr = Inr hash" by blast
    define svc0 where "svc0 = \<lparr>Name = ''mcp'', AgentKeyHash = [], AuthMode = (if auth then ''oauth'' else ''open''),
                  PasswordHash = hash, SvcCreatedAt = 0\<rparr>"
    obtain y s2 where cs: "CreateService api B (qe_key_salt env) (qe_key_rnd env) (qe_service_now env) slug svc0 s1 = (y, s2)"
      by fastforce
    have o2: "ok s2" and v2: "rg_rates (view s2) = rg_rates (view s1)"
      using implementsD [OF create_service [OF hash_total [OF B rnd]] o1 cs] create_service_rates by blast+
    have k: "ok s3 \<and> rg_rates (view s3) = rg_rates (view s2)"
      if "CreateSigningKey api slug pem now s2 = (z, s3)" for pem now z s3
      using implementsD [OF create_key o2 that] create_key_rates by blast
    show ?thesis
      using run [unfolded quick_create_def Let_def, folded e_def, unfolded c x sum.case prod.case,
      folded hr_def, unfolded h sum.case, folded svc0_def, unfolded cs prod.case] o2 v2 v1 k
      by (auto split: sum.splits if_splits option.splits prod.splits)
  qed
qed

lemma rate_step:
  assumes ok: "ok s" and B: "bcrypt_ok B" and rnd: "length (qe_key_rnd env) = 24"
    and run: "handleQuick api B env r s = (resp, s')"
  shows "ok s' \<and> hits (rate_ip r) (rate_window (qe_rate_now env)) (view s')
        = hits (rate_ip r) (rate_window (qe_rate_now env)) (view s) + 1
    \<and> (rp_status resp = 429 \<longleftrightarrow> quickRateLimit < hits (rate_ip r) (rate_window (qe_rate_now env)) (view s) + 1)"
proof -
  let ?h = "hits (rate_ip r) (rate_window (qe_rate_now env))"
  obtain h s1 where hit: "QuickRateHit api (rate_ip r) (qe_rate_now env) s = (h, s1)" by fastforce
  note spec = implementsD [OF rate_hit ok hit]
  have h: "h = Inr (?h (view s) + 1)" and v: "?h (view s1) = ?h (view s) + 1"
    using hits_next [OF spec(2)] by simp_all
  obtain l s2 where cnt: "CountLiveTenants api (qe_count_now env) s1 = (l, s2)" by fastforce
  note spec2 = implementsD [OF count_live spec(1) cnt]
  obtain live where l: "l = Inr live" and v2: "view s2 = view s1" using spec2(2) by (cases l) auto
  note allow = allowQuick_def [of api "rq_remote r", folded rate_ip_def, unfolded Let_def]
  show ?thesis
  proof (cases "quickRateLimit < ?h (view s) + 1")
    case True
    then show ?thesis using run spec(1) v
      by (auto simp: handleQuick_def quick_admit_def allow hit h)
  next
    case False
    obtain x s3 where a: "quick_admit api env r s = (x, s3)" by fastforce
    have s3: "s3 = s2" and st: "\<And>resp. x = Inl resp \<Longrightarrow> rp_status resp \<noteq> 429"
      using a False by (auto simp: quick_admit_def allow hit h cnt l split: if_splits option.splits)
    have "ok s' \<and> ?h (view s') = ?h (view s2) \<and> rp_status resp \<noteq> 429"
    proof (cases x)
      case (Inl resp')
      then show ?thesis using run a st s3 spec2(1) by (simp add: handleQuick_def)
    next
      case (Inr ap)
      then obtain auth password where "quick_create api B env auth password s2 = (resp, s')"
        using run a s3 by (cases ap) (simp add: handleQuick_def)
      from create_keeps [OF spec2(1) B rnd this] show ?thesis by (auto simp: hits_def)
    qed
    then show ?thesis using v v2 False by simp
  qed
qed

text \<open>In one window an address gets past the limiter at most ten times, however many requests it makes.\<close>

lemma rate_limit:
  assumes B: "bcrypt_ok B"
  shows "ok s \<Longrightarrow> list_all (\<lambda>(env, r). rate_ip r = ip \<and> rate_window (qe_rate_now env) = w
      \<and> length (qe_key_rnd env) = 24) xs \<Longrightarrow> run_quick api B xs s = (resps, s') \<Longrightarrow>
    int (length (filter (\<lambda>resp. rp_status resp \<noteq> 429) resps)) \<le> max 0 (quickRateLimit - hits ip w (view s))"
proof (induction xs arbitrary: s resps)
  case Nil
  then show ?case by simp
next
  case (Cons x xs)
  obtain env r where x: "x = (env, r)" by fastforce
  obtain resp s1 where q: "handleQuick api B env r s = (resp, s1)" by fastforce
  obtain rest where rest: "run_quick api B xs s1 = (rest, s')" "resps = resp # rest"
    using Cons.prems(3) x q by (auto split: prod.splits)
  have step: "ok s1 \<and> hits ip w (view s1) = hits ip w (view s) + 1
      \<and> (rp_status resp = 429 \<longleftrightarrow> quickRateLimit < hits ip w (view s) + 1)"
    using rate_step [OF Cons.prems(1) B _ q] Cons.prems(2) x by auto
  have "int (length (filter (\<lambda>resp. rp_status resp \<noteq> 429) rest)) \<le> max 0 (quickRateLimit - hits ip w (view s1))"
    using Cons.IH [OF _ _ rest(1)] step Cons.prems(2) by simp
  then show ?case using step rest(2) by (cases "rp_status resp = 429") auto
qed

text \<open>After a \<open>201\<close> the ephemeral tenants live at the time of the count number at most \<open>maxLiveTunnels\<close>.\<close>

lemma capacity:
  assumes ok: "ok s" and B: "bcrypt_ok B" and rnd: "length (qe_key_rnd env) = 24"
    and run: "handleQuick api B env r s = (resp, s')" and created: "rp_status resp = 201"
  shows "int (card (live_tenants (qe_count_now env) (view s'))) \<le> maxLiveTunnels"
proof -
  from handleQuick_created [OF assms] obtain slug now where
    lim: "int (card (live_tenants (qe_count_now env) (view s))) < maxLiveTunnels"
    and t: "rg_tenants (view s') = (rg_tenants (view s))(slug \<mapsto> quick_tenant slug now (qe_expiry_now env + QuickTTL))"
    by (elim conjE exE) rule
  have "live_tenants (qe_count_now env) (view s') \<subseteq> insert slug (live_tenants (qe_count_now env) (view s))"
    by (auto simp: live_tenants_def t split: if_splits)
  moreover have fin: "finite (live_tenants (qe_count_now env) (view s))"
    using references [OF ok] by (auto simp: registry_ok_def live_tenants_def dom_def elim: rev_finite_subset)
  ultimately have "card (live_tenants (qe_count_now env) (view s'))
      \<le> card (insert slug (live_tenants (qe_count_now env) (view s)))"
    by (intro card_mono) simp_all
  also have "\<dots> \<le> Suc (card (live_tenants (qe_count_now env) (view s)))" by (simp add: card_insert_if fin)
  finally have "card (live_tenants (qe_count_now env) (view s')) \<le> Suc (card (live_tenants (qe_count_now env) (view s)))" .
  with lim show ?thesis by linarith
qed

text \<open>A password bcrypt refuses is noticed only after the tenant is created, and the tenant stays.\<close>

lemma hash_error_leaves_tenant:
  assumes ok: "ok s" and adm: "quick_admit api env r s = (Inr (True, password), s1)"
    and draw: "qe_draws env 0 = (Some b, now)" "quick_slug b \<notin> dom (rg_tenants (view s))"
    and long: "bc_generate B (qe_password_salt env) password = None"
    and run: "handleQuick api B env r s = (resp, s')"
  shows "rp_status resp = 500 \<and> quick_slug b \<in> dom (rg_tenants (view s'))
    \<and> rg_services (view s') (quick_slug b, ''mcp'') = None"
proof -
  define e where "e = qe_expiry_now env + QuickTTL"
  note a = admit_spec [OF ok adm]
  have o1: "ok s1" and t1: "rg_tenants (view s1) = rg_tenants (view s)" and pw: "password \<noteq> []" using a by auto
  obtain x s2 where c: "CreateTenantExpiry api (quick_slug b) ''quick tunnel'' (Some e) now s1 = (x, s2)" by fastforce
  have x: "x = Inr ()" and v2: "view s2 = (view s1)\<lparr>rg_tenants := (rg_tenants (view s1))(quick_slug b \<mapsto> quick_tenant (quick_slug b) now e)\<rparr>"
    using implementsD(2) [OF create_tenant o1 c] draw(2) t1
    by (auto simp: spec_create_tenant_def quick_tenant_def)
  have "createQuickTenant api e (qe_draws env) s1 = (Inr (quick_slug b), s2)"
    by (simp add: createQuickTenant_def numeral_eq_Suc draw(1) c x)
  then have "resp = cp_writeErr 500 ''hash error''" "s' = s2"
    using run adm pw long by (simp_all add: handleQuick_def quick_create_def e_def HashSecret_def)
  moreover have "rg_services (view s1) (quick_slug b, ''mcp'') = None"
    using fresh_slug(1) [OF o1] draw(2) t1 by simp
  ultimately show ?thesis by (simp add: v2)
qed

end

end
