(* ===== verification/Gateway.thy ===== *)
theory Gateway
  imports Control_Plane
begin

text \<open>
  \<open>internal/gateway/gateway.go\<close> (and the header names of \<open>internal/tunnelproto\<close>): agents are
  admitted against the store, and their sessions are kept in a registry keyed by tenant and service.
  Sessions are numbered; each belongs to the goroutine of the handler that accepted it. The locked
  sections of the source are the atomic steps, so \<open>register\<close> is two of them: the swap under the
  lock, and the close of the displaced session after it. WebSocket and yamux are not in the
  repository; of a session only whether it has closed matters here.
\<close>

section \<open>Admission\<close>

definition ConnectPath :: string where
  "ConnectPath = ''/tunnel/connect''"

definition HeaderTenant :: string where
  "HeaderTenant = ''X-Tenant''"

definition HeaderServiceName :: string where
  "HeaderServiceName = ''X-Service-Name''"

definition AuthorizationHeader :: "string \<Rightarrow> string" where
  "AuthorizationHeader agentKey = ''Bearer '' @ agentKey"

definition sessionKey :: "string \<Rightarrow> string \<Rightarrow> string" where
  "sessionKey tenant service = tenant @ [CHR 0x00] @ service"

text \<open>The checks of \<open>ServeHTTP\<close>: the response that refuses, or the session key to register under.\<close>

definition gateway_admit ::
  "'s store_api \<Rightarrow> bcrypt \<Rightarrow> request \<Rightarrow> 's \<Rightarrow> (Http.response + string) \<times> 's" where
  "gateway_admit A B r s =
     (let tenant = header r HeaderTenant; service = header r HeaderServiceName; key = bearer_key r in
      if tenant = [] \<or> service = [] then (Inl (http_error ''unauthorized'' 401), s)
      else (case ValidateAgentKey A B tenant service key s of
          (Inl e, s) \<Rightarrow> (Inl (http_error ''unauthorized'' 401), s)
        | (Inr _, s) \<Rightarrow> (Inr (sessionKey tenant service), s)))"

section \<open>The session registry\<close>

text \<open>
  Where a handler is: it has swapped the registry entry and must still close the session it
  displaced, it waits for its own session to die, or it has returned.
\<close>

datatype pc = Closing "nat option" | Serving | Returned

record gateway =
  gw_sessions :: "string \<rightharpoonup> nat"
  gw_closed :: "nat set"
  gw_handlers :: "nat \<rightharpoonup> string \<times> pc"

definition gw_new :: gateway where
  "gw_new = \<lparr>gw_sessions = Map.empty, gw_closed = {}, gw_handlers = Map.empty\<rparr>"

text \<open>\<open>register\<close>, the part under the lock.\<close>

definition gw_swap :: "string \<Rightarrow> nat \<Rightarrow> gateway \<Rightarrow> gateway" where
  "gw_swap key i g = g\<lparr>gw_sessions := (gw_sessions g)(key \<mapsto> i),
     gw_handlers := (gw_handlers g)(i \<mapsto> (key, Closing (gw_sessions g key)))\<rparr>"

text \<open>\<open>register\<close>, after the lock: close the old session if there is one.\<close>

definition gw_close_old :: "nat \<Rightarrow> gateway \<Rightarrow> gateway" where
  "gw_close_old i g =
     (case gw_handlers g i of
        Some (key, Closing old) \<Rightarrow> g\<lparr>gw_closed := (case old of None \<Rightarrow> gw_closed g | Some j \<Rightarrow> insert j (gw_closed g)),
           gw_handlers := (gw_handlers g)(i \<mapsto> (key, Serving))\<rparr>
      | _ \<Rightarrow> g)"

definition gw_unregister :: "string \<Rightarrow> nat \<Rightarrow> gateway \<Rightarrow> gateway" where
  "gw_unregister key i g =
     (if gw_sessions g key = Some i then g\<lparr>gw_sessions := (gw_sessions g)(key := None)\<rparr> else g)"

definition gw_return :: "string \<Rightarrow> nat \<Rightarrow> gateway \<Rightarrow> gateway" where
  "gw_return key i g = (let g = gw_unregister key i g in
     g\<lparr>gw_handlers := (gw_handlers g)(i \<mapsto> (key, Returned))\<rparr>)"

definition gw_die :: "nat \<Rightarrow> gateway \<Rightarrow> gateway" where
  "gw_die i g = g\<lparr>gw_closed := insert i (gw_closed g)\<rparr>"

text \<open>\<open>Dial\<close> finds the session under the lock; opening a stream on it fails when it has closed.\<close>

definition gw_Dial :: "string \<Rightarrow> string \<Rightarrow> gateway \<Rightarrow> nat option" where
  "gw_Dial tenant service g =
     (case gw_sessions g (sessionKey tenant service) of
        None \<Rightarrow> None
      | Some i \<Rightarrow> if i \<in> gw_closed g then None else Some i)"

definition gw_Online :: "string \<Rightarrow> string \<Rightarrow> gateway \<Rightarrow> bool" where
  "gw_Online tenant service g = (gw_sessions g (sessionKey tenant service) \<noteq> None)"

text \<open>A session may die at any time, before its handler has registered it too.\<close>

inductive gw_step :: "gateway \<Rightarrow> gateway \<Rightarrow> bool" where
  accept: "gw_handlers g i = None \<Longrightarrow> gw_step g (gw_swap key i g)"
| close_old: "gw_handlers g i = Some (key, Closing old) \<Longrightarrow> gw_step g (gw_close_old i g)"
| die: "gw_step g (gw_die i g)"
| return: "gw_handlers g i = Some (key, Serving) \<Longrightarrow> i \<in> gw_closed g \<Longrightarrow> gw_step g (gw_return key i g)"

inductive_cases gw_stepE: "gw_step g g'"

inductive gw_reachable :: "gateway \<Rightarrow> bool" where
  start: "gw_reachable gw_new"
| step: "gw_reachable g \<Longrightarrow> gw_step g g' \<Longrightarrow> gw_reachable g'"

section \<open>Invariants\<close>

text \<open>
  A registered session belongs to a handler for that key that has not returned; a session that is
  neither registered nor closed is about to be closed by its successor.
\<close>

definition gw_owned :: "gateway \<Rightarrow> bool" where
  "gw_owned g \<longleftrightarrow> (\<forall>key i. gw_sessions g key = Some i \<longrightarrow> (\<exists>p. gw_handlers g i = Some (key, p) \<and> p \<noteq> Returned))"

definition gw_no_leak :: "gateway \<Rightarrow> bool" where
  "gw_no_leak g \<longleftrightarrow> (\<forall>i key p. gw_handlers g i = Some (key, p) \<longrightarrow> i \<notin> gw_closed g \<longrightarrow>
     gw_sessions g key = Some i \<or> (\<exists>j. gw_handlers g j = Some (key, Closing (Some i))))"

definition gw_inv :: "gateway \<Rightarrow> bool" where
  "gw_inv g \<longleftrightarrow> gw_owned g \<and> gw_no_leak g"

lemma gw_inv_new: "gw_inv gw_new"
  by (simp add: gw_inv_def gw_owned_def gw_no_leak_def gw_new_def)

lemma gw_inv_swap:
  assumes "gw_inv g" and "gw_handlers g i = None"
  shows "gw_inv (gw_swap key i g)"
proof -
  have "gw_owned (gw_swap key i g)"
    using assms by (auto simp: gw_inv_def gw_owned_def gw_swap_def) (metis option.distinct(1))
  moreover have "gw_no_leak (gw_swap key i g)"
    unfolding gw_no_leak_def
  proof (intro allI impI)
    fix k x p
    assume h: "gw_handlers (gw_swap key i g) k = Some (x, p)" and c: "k \<notin> gw_closed (gw_swap key i g)"
    show "gw_sessions (gw_swap key i g) x = Some k
        \<or> (\<exists>j. gw_handlers (gw_swap key i g) j = Some (x, Closing (Some k)))"
    proof (cases "k = i")
      case True
      with h show ?thesis by (simp add: gw_swap_def)
    next
      case False
      with h c have "gw_handlers g k = Some (x, p)" "k \<notin> gw_closed g" by (simp_all add: gw_swap_def)
      then consider "gw_sessions g x = Some k" | j where "gw_handlers g j = Some (x, Closing (Some k))"
        using assms(1) by (auto simp: gw_inv_def gw_no_leak_def)
      then show ?thesis
      proof cases
        case 1
        then show ?thesis by (cases "x = key") (auto simp: gw_swap_def)
      next
        case 2
        then have "j \<noteq> i" using assms(2) by auto
        with 2 show ?thesis by (auto simp: gw_swap_def)
      qed
    qed
  qed
  ultimately show ?thesis by (simp add: gw_inv_def)
qed

lemma gw_inv_close_old:
  assumes "gw_inv g" and i: "gw_handlers g i = Some (key, Closing old)"
  shows "gw_inv (gw_close_old i g)"
proof -
  let ?g = "gw_close_old i g"
  have g': "gw_sessions ?g = gw_sessions g" "gw_handlers ?g = (gw_handlers g)(i \<mapsto> (key, Serving))"
    "gw_closed ?g = (case old of None \<Rightarrow> gw_closed g | Some j \<Rightarrow> insert j (gw_closed g))"
    by (simp_all add: gw_close_old_def i)
  have "gw_owned ?g"
    using assms(1) i by (auto simp: gw_inv_def gw_owned_def g') (metis option.inject prod.inject)
  moreover have "gw_no_leak ?g"
    unfolding gw_no_leak_def
  proof (intro allI impI)
    fix k x p
    assume h: "gw_handlers ?g k = Some (x, p)" and c: "k \<notin> gw_closed ?g"
    have c': "k \<notin> gw_closed g" "old \<noteq> Some k" using c by (auto simp: g' split: option.splits)
    obtain q where "gw_handlers g k = Some (x, q)" using h i by (cases "k = i") (auto simp: g')
    then consider "gw_sessions g x = Some k" | j where "gw_handlers g j = Some (x, Closing (Some k))"
      using assms(1) c'(1) by (auto simp: gw_inv_def gw_no_leak_def)
    then show "gw_sessions ?g x = Some k \<or> (\<exists>j. gw_handlers ?g j = Some (x, Closing (Some k)))"
    proof cases
      case 1
      then show ?thesis by (simp add: g')
    next
      case 2
      then have "j \<noteq> i" using i c'(2) by auto
      with 2 show ?thesis by (auto simp: g')
    qed
  qed
  ultimately show ?thesis by (simp add: gw_inv_def)
qed

lemma gw_inv_die:
  assumes "gw_inv g"
  shows "gw_inv (gw_die i g)"
  using assms by (auto simp: gw_inv_def gw_owned_def gw_no_leak_def gw_die_def)

lemma gw_inv_return:
  assumes "gw_inv g" and i: "gw_handlers g i = Some (key, Serving)" and c: "i \<in> gw_closed g"
  shows "gw_inv (gw_return key i g)"
proof -
  have s: "gw_sessions (gw_return key i g) = (if gw_sessions g key = Some i then (gw_sessions g)(key := None) else gw_sessions g)"
    and h: "gw_handlers (gw_return key i g) = (gw_handlers g)(i \<mapsto> (key, Returned))"
    and cl: "gw_closed (gw_return key i g) = gw_closed g"
    by (simp_all add: gw_return_def gw_unregister_def Let_def)
  have "gw_owned (gw_return key i g)"
    unfolding gw_owned_def
  proof (intro allI impI)
    fix x k
    assume "gw_sessions (gw_return key i g) x = Some k"
    then have k: "gw_sessions g x = Some k" "\<not> (x = key \<and> k = i)" by (auto simp: s split: if_splits)
    then obtain p where p: "gw_handlers g k = Some (x, p)" "p \<noteq> Returned" using assms(1) by (auto simp: gw_inv_def gw_owned_def)
    moreover have "k \<noteq> i" using p k(2) i by auto
    ultimately show "\<exists>p. gw_handlers (gw_return key i g) k = Some (x, p) \<and> p \<noteq> Returned" by (simp add: h)
  qed
  moreover have "gw_no_leak (gw_return key i g)"
    unfolding gw_no_leak_def
  proof (intro allI impI)
    fix k x p
    assume hk: "gw_handlers (gw_return key i g) k = Some (x, p)" and ck: "k \<notin> gw_closed (gw_return key i g)"
    then have ki: "k \<noteq> i" "gw_handlers g k = Some (x, p)" using c by (auto simp: cl h split: if_splits)
    with ck consider "gw_sessions g x = Some k" | j where "gw_handlers g j = Some (x, Closing (Some k))"
      using assms(1) unfolding gw_inv_def gw_no_leak_def cl by blast
    then show "gw_sessions (gw_return key i g) x = Some k \<or> (\<exists>j. gw_handlers (gw_return key i g) j = Some (x, Closing (Some k)))"
    proof cases
      case 1
      then show ?thesis using ki(1) by (cases "x = key") (simp_all add: s)
    next
      case 2
      then have "j \<noteq> i" using i by auto
      with 2 have "gw_handlers (gw_return key i g) j = Some (x, Closing (Some k))" by (simp add: h)
      then show ?thesis by blast
    qed
  qed
  ultimately show ?thesis by (simp add: gw_inv_def)
qed

lemma gw_inv_step: "gw_inv g \<Longrightarrow> gw_step g g' \<Longrightarrow> gw_inv g'"
  by (elim gw_stepE) (auto simp: gw_inv_swap gw_inv_close_old gw_inv_die gw_inv_return)

lemma gw_inv_reachable: "gw_reachable g \<Longrightarrow> gw_inv g"
  by (induction rule: gw_reachable.induct) (auto simp: gw_inv_new gw_inv_step)

text \<open>
  When no handler is between its two halves of \<open>register\<close>, the live sessions are exactly the
  registered ones: one for each key at most, and \<open>Dial\<close> finds it.
\<close>

lemma gw_quiescent:
  assumes "gw_reachable g" and "\<nexists>j key old. gw_handlers g j = Some (key, Closing old)"
    and "gw_handlers g i = Some (sessionKey tenant service, p)" and "i \<notin> gw_closed g"
  shows "gw_Dial tenant service g = Some i"
proof -
  have "gw_sessions g (sessionKey tenant service) = Some i"
    using gw_inv_reachable [OF assms(1)] assms(2-4) by (auto simp: gw_inv_def gw_no_leak_def)
  then show ?thesis using assms(4) by (simp add: gw_Dial_def)
qed

text \<open>A returning handler never removes another session's entry, and a newer session stays.\<close>

lemma gw_return_keeps:
  assumes "gw_sessions g key = Some j" and "j \<noteq> i"
  shows "gw_sessions (gw_return key' i g) key = Some j"
  using assms by (auto simp: gw_return_def gw_unregister_def Let_def)

text \<open>Keys of different services differ, as tenants contain no zero byte.\<close>

lemma sessionKey_inj:
  assumes "CHR 0x00 \<notin> set t" and "CHR 0x00 \<notin> set t'" and "sessionKey t n = sessionKey t' n'"
  shows "t = t' \<and> n = n'"
proof -
  have "index_byte (sessionKey t n) (CHR 0x00) = Some (length t)" "index_byte (sessionKey t' n') (CHR 0x00) = Some (length t')"
    using assms(1,2) by (simp_all add: sessionKey_def)
  with assms(3) have "length t = length t'" by simp
  with assms(3) show ?thesis by (simp add: sessionKey_def)
qed

section \<open>Who gets registered\<close>

context store_contract
begin

lemma gateway_admit_spec:
  assumes "ok s" and "gateway_admit api B r s = (x, s')"
  shows "ok s' \<and> view s' = view s \<and>
    (let t = header r HeaderTenant; n = header r HeaderServiceName in
     case x of
       Inr sk \<Rightarrow> sk = sessionKey t n \<and> t \<noteq> [] \<and> n \<noteq> [] \<and> bearer_key r \<noteq> [] \<and>
         (\<exists>svc. rg_services (view s) (t, n) = Some svc \<and> CheckSecret B (AgentKeyHash svc) (bearer_key r))
     | Inl resp \<Rightarrow> rp_status resp = 401 \<and> (t = [] \<or> n = [] \<or> bearer_key r = [] \<or>
         (\<forall>svc. rg_services (view s) (t, n) = Some svc \<longrightarrow> \<not> CheckSecret B (AgentKeyHash svc) (bearer_key r))))"
proof -
  obtain v s1 where val: "ValidateAgentKey api B (header r HeaderTenant) (header r HeaderServiceName) (bearer_key r) s = (v, s1)"
    by fastforce
  from implementsD [OF validate_agent_key assms(1) val] assms val show ?thesis
    by (cases v) (auto simp: gateway_admit_def Let_def spec_validate_agent_key_def split: option.splits if_splits)
qed

end

end
