(* ===== verification/Agent.thy ===== *)
theory Agent
  imports Gateway Go_Url Headers
begin

text \<open>
  \<open>internal/agent/agent.go\<close> and the agent part of \<open>internal/config\<close>: the client of the tunnel. It
  dials the gateway with its credentials, rewrites each proxied request for the upstream, and
  reconnects with a jittered exponential backoff. WebSocket, yamux and the HTTP client are not in the
  repository: how a connection ends is an event, the upstream's answer an argument.
\<close>

section \<open>Configuration\<close>

record agent_config =
  agc_server :: string
  agc_tenant :: string
  agc_key :: string
  agc_service :: string
  agc_upstream :: string
  agc_headers :: "(string \<times> string list) list"
  agc_initial :: time
  agc_max :: time

record agent_client =
  ag_server :: string
  ag_key :: string
  ag_tenant :: string
  ag_service :: string
  ag_upstream :: url
  ag_headers :: "(string \<times> string list) list"
  ag_initial :: time
  ag_max :: time

definition agent_New :: "agent_config \<Rightarrow> string + agent_client" where
  "agent_New cfg =
     (case Parse (agc_upstream cfg) of
        None \<Rightarrow> Inl ''invalid upstream URL''
      | Some u \<Rightarrow>
          if u_scheme u \<noteq> ''http'' \<and> u_scheme u \<noteq> ''https''
          then Inl ''upstream must be an http(s) URL like http://localhost:3000''
          else Inr \<lparr>ag_server = trim_right (agc_server cfg) ''/'' @ ConnectPath, ag_key = agc_key cfg,
                    ag_tenant = agc_tenant cfg, ag_service = agc_service cfg, ag_upstream = u,
                    ag_headers = agc_headers cfg, ag_initial = agc_initial cfg, ag_max = agc_max cfg\<rparr>)"

section \<open>Connecting\<close>

text \<open>The request \<open>serve\<close> dials with, as the gateway receives it.\<close>

definition agent_connect :: "agent_client \<Rightarrow> request" where
  "agent_connect c = \<lparr>rq_method = ''GET'', rq_path = ConnectPath,
     rq_headers = [(''Authorization'', AuthorizationHeader (ag_key c)), (HeaderTenant, ag_tenant c),
                   (HeaderServiceName, ag_service c)],
     rq_form = [], rq_post_form = None, rq_body = [], rq_content_length = 0, rq_remote = []\<rparr>"

lemma agent_connect_headers:
  "header (agent_connect c) HeaderTenant = ag_tenant c" "header (agent_connect c) HeaderServiceName = ag_service c"
  "bearer_key (agent_connect c) = trim_space (ag_key c)"
proof -
  have "trim_prefix (AuthorizationHeader k) ''Bearer '' = k" for k unfolding AuthorizationHeader_def by (rule trim_prefix_append)
  then show "bearer_key (agent_connect c) = trim_space (ag_key c)"
    by (simp add: agent_connect_def bearer_key_def header_def first_value_def)
qed (simp_all add: agent_connect_def header_def first_value_def HeaderTenant_def HeaderServiceName_def)

section \<open>One request\<close>

text \<open>A request as \<open>http.ReadRequest\<close> reads it off the stream, and as the HTTP client sends it.\<close>

record wire_request =
  wr_method :: string
  wr_url :: url
  wr_host :: string
  wr_headers :: headers
  wr_body :: string

definition agent_rewrite :: "agent_client \<Rightarrow> wire_request \<Rightarrow> wire_request" where
  "agent_rewrite c r = r\<lparr>
     wr_url := (wr_url r)\<lparr>u_scheme := u_scheme (ag_upstream c), u_host := u_host (ag_upstream c)\<rparr>,
     wr_host := [],
     wr_headers := copyHeaders (hdr_del ''Cookie'' (hdr_del ''Proxy-Authorization'' (hdr_del ''Authorization'' (wr_headers r))))
       (ag_headers c)\<rparr>"

definition agent_bad_gateway :: response where
  "agent_bad_gateway = \<lparr>rp_status = 502, rp_headers = [(''Content-Type'', ''text/plain'')], rp_body = []\<rparr>"

text \<open>
  \<open>handleStream\<close>: nothing comes back on a stream without a readable request; \<open>upstream\<close> is the HTTP
  client over the network (\<open>None\<close> for an error).
\<close>

definition handleStream ::
  "agent_client \<Rightarrow> (wire_request \<Rightarrow> 'u \<Rightarrow> response option \<times> 'u) \<Rightarrow> wire_request option \<Rightarrow> 'u \<Rightarrow> response option \<times> 'u" where
  "handleStream c upstream rq u =
     (case rq of
        None \<Rightarrow> (None, u)
      | Some r \<Rightarrow> (case upstream (agent_rewrite c r) u of
            (None, u) \<Rightarrow> (Some agent_bad_gateway, u)
          | (Some resp, u) \<Rightarrow> (Some resp, u)))"

definition credential_names :: "string list" where
  "credential_names = [''Authorization'', ''Proxy-Authorization'', ''Cookie'']"

definition configured :: "agent_client \<Rightarrow> string set" where
  "configured c = (canonical \<circ> fst) ` set (ag_headers c)"

lemma canonical_credentials: "map canonical credential_names = credential_names"
  by code_simp

text \<open>
  The upstream sees the client's credentials under no name; of the other headers it sees the
  configured ones, and the client's where none is configured.
\<close>

lemma agent_rewrite_headers:
  assumes "k \<notin> configured c"
  shows "wr_headers (agent_rewrite c r) k = (if k \<in> set credential_names then None else wr_headers r k)"
proof -
  have c: "canonical ''Authorization'' = ''Authorization''" "canonical ''Proxy-Authorization'' = ''Proxy-Authorization''"
    "canonical ''Cookie'' = ''Cookie''" using canonical_credentials by (simp_all add: credential_names_def)
  show ?thesis
    using assms unfolding configured_def
    by (auto simp: agent_rewrite_def copyHeaders_other hdr_del_def c credential_names_def)
qed

lemma agent_rewrite_configured:
  assumes "(k, vals) \<in> set (ag_headers c)" and "distinct (map (canonical \<circ> fst) (ag_headers c))"
  shows "wr_headers (agent_rewrite c r) (canonical k) = Some vals"
  using copyHeaders_in [OF assms] by (simp add: agent_rewrite_def)

text \<open>The upstream's own path and query are not used: the request keeps the path it came with.\<close>

lemma agent_rewrite_path:
  "u_path (wr_url (agent_rewrite c r)) = u_path (wr_url r)"
  "u_rawquery (wr_url (agent_rewrite c r)) = u_rawquery (wr_url r)"
  "u_host (wr_url (agent_rewrite c r)) = u_host (ag_upstream c)"
  "u_scheme (wr_url (agent_rewrite c r)) = u_scheme (ag_upstream c)"
  by (simp_all add: agent_rewrite_def)

section \<open>One tunnel\<close>

text \<open>
  How the connection \<open>serve\<close> makes goes: the dial or yamux fails, or streams are accepted until an
  error. Every stream has a goroutine of its own, which finds a readable request on it or not; here
  they run one after the other, on the state of the upstream.
\<close>

datatype tunnel = Dial_failed string | Yamux_failed string | Accepted "wire_request option list" string

fun agent_streams ::
  "agent_client \<Rightarrow> (wire_request \<Rightarrow> 'u \<Rightarrow> response option \<times> 'u) \<Rightarrow> wire_request option list \<Rightarrow> 'u \<Rightarrow> response option list \<times> 'u" where
  "agent_streams c upstream [] u = ([], u)"
| "agent_streams c upstream (rq # rqs) u =
     (case handleStream c upstream rq u of (r, u) \<Rightarrow> (case agent_streams c upstream rqs u of (rs, u) \<Rightarrow> (r # rs, u)))"

definition agent_serve ::
  "agent_client \<Rightarrow> (wire_request \<Rightarrow> 'u \<Rightarrow> response option \<times> 'u) \<Rightarrow> tunnel \<Rightarrow> 'u \<Rightarrow> string \<times> response option list \<times> 'u" where
  "agent_serve c upstream t u =
     (case t of
        Dial_failed e \<Rightarrow> (''dial '' @ ag_server c @ '': '' @ e, [], u)
      | Yamux_failed e \<Rightarrow> (''yamux server: '' @ e, [], u)
      | Accepted rqs e \<Rightarrow> (case agent_streams c upstream rqs u of (rs, u) \<Rightarrow> (''accept stream: '' @ e, rs, u)))"

text \<open>
  Every stream with a readable request gets exactly one response, and the upstream sees exactly the
  rewritten requests, each once and in order.
\<close>

definition seen_by :: "(wire_request \<Rightarrow> 'u \<Rightarrow> response option \<times> 'u) \<Rightarrow> wire_request \<Rightarrow> wire_request list \<times> 'u \<Rightarrow> response option \<times> wire_request list \<times> 'u" where
  "seen_by upstream r lu = (case lu of (l, u) \<Rightarrow> (case upstream r u of (resp, u) \<Rightarrow> (resp, l @ [r], u)))"

lemma agent_streams_seen:
  "agent_streams c (seen_by upstream) rqs (l, u) = (rs, l', u') \<Longrightarrow>
     list_all2 (\<lambda>rq r. (r = None) = (rq = None)) rqs rs \<and> l' = l @ map (agent_rewrite c) (concat (map (case_option [] (\<lambda>r. [r])) rqs))"
proof (induction rqs arbitrary: l u rs)
  case (Cons rq rqs)
  obtain r l1 u1 where h: "handleStream c (seen_by upstream) rq (l, u) = (r, l1, u1)" by (metis prod_cases3)
  with Cons.prems obtain rs' where t: "agent_streams c (seen_by upstream) rqs (l1, u1) = (rs', l', u')" "rs = r # rs'"
    by (auto split: prod.splits)
  have "(r = None) = (rq = None) \<and> l1 = l @ map (agent_rewrite c) (case_option [] (\<lambda>r. [r]) rq)"
    using h by (auto simp: handleStream_def seen_by_def split: option.splits prod.splits)
  with Cons.IH [OF t(1)] t(2) show ?case by simp
qed simp

section \<open>Reconnecting\<close>

text \<open>\<open>rand.Int63n(2*delta+1)\<close> draws \<open>rnd\<close>, which is at most \<open>2*delta\<close>.\<close>

definition jitter :: "time \<Rightarrow> int \<Rightarrow> time" where
  "jitter d rnd = (let delta = go_quot d 4 in d - delta + rnd)"

definition next_backoff :: "time \<Rightarrow> time \<Rightarrow> time" where
  "next_backoff mx b = (if b * 2 > mx then mx else b * 2)"

text \<open>
  How \<open>serve\<close> and the sleep after it end: the context is cancelled while serving, or the tunnel
  breaks and the sleep runs to its end or is cancelled. \<open>agent_run\<close> gives the sleeps of \<open>Run\<close>.
\<close>

datatype serve_end = Cancelled_serving | Broken int | Broken_cancelled int

fun agent_run :: "time \<Rightarrow> time \<Rightarrow> serve_end list \<Rightarrow> time list" where
  "agent_run mx b [] = []"
| "agent_run mx b (Cancelled_serving # es) = []"
| "agent_run mx b (Broken_cancelled rnd # es) = [jitter b rnd]"
| "agent_run mx b (Broken rnd # es) = jitter b rnd # agent_run mx (next_backoff mx b) es"

definition agent_Run :: "agent_client \<Rightarrow> serve_end list \<Rightarrow> time list" where
  "agent_Run c es = agent_run (ag_max c) (ag_initial c) es"

fun drawn :: "serve_end \<Rightarrow> int" where
  "drawn (Broken rnd) = rnd"
| "drawn (Broken_cancelled rnd) = rnd"
| "drawn Cancelled_serving = 0"

definition backoff_at :: "time \<Rightarrow> time \<Rightarrow> nat \<Rightarrow> time" where
  "backoff_at b mx n = min mx (b * 2 ^ n)"

lemma next_backoff_at:
  assumes "0 \<le> b" and "b \<le> mx"
  shows "backoff_at (next_backoff mx b) mx n = backoff_at b mx (Suc n)"
proof (cases "b * 2 > mx")
  case True
  have "(1::int) \<le> 2 ^ n" by simp
  then have "mx * 1 \<le> mx * 2 ^ n" using assms by (intro mult_left_mono) auto
  moreover have "b * 2 * 1 \<le> b * 2 * 2 ^ n" using assms by (intro mult_left_mono) auto
  ultimately show ?thesis using True by (simp add: backoff_at_def next_backoff_def algebra_simps)
qed (simp add: backoff_at_def next_backoff_def algebra_simps)

lemma next_backoff_range: "0 \<le> b \<Longrightarrow> b \<le> mx \<Longrightarrow> 0 \<le> next_backoff mx b \<and> next_backoff mx b \<le> mx"
  by (simp add: next_backoff_def)

lemma jitter_range:
  assumes "0 \<le> d" and "0 \<le> rnd" and "rnd \<le> 2 * go_quot d 4"
  shows "3 * d \<le> 4 * jitter d rnd" and "4 * jitter d rnd \<le> 5 * d"
  using assms by (simp_all add: jitter_def Let_def go_quot_nonneg)

text \<open>
  The \<open>n\<close>-th sleep is within a quarter of \<open>min maxBackoff (initialBackoff * 2^n)\<close>, however long the
  connections in between lived.
\<close>

lemma agent_run_sleeps:
  assumes "0 \<le> b" and "b \<le> mx" and "n < length (agent_run mx b es)"
  shows "n < length es \<and> agent_run mx b es ! n = jitter (backoff_at b mx n) (drawn (es ! n))"
  using assms
proof (induction mx b es arbitrary: n rule: agent_run.induct)
  case (3 mx b rnd es)
  then show ?case by (simp add: backoff_at_def)
next
  case (4 mx b rnd es)
  show ?case
  proof (cases n)
    case 0
    with "4.prems" show ?thesis by (simp add: backoff_at_def)
  next
    case (Suc m)
    with "4.IH" [of m] "4.prems" next_backoff_range [of b mx] show ?thesis by (simp add: next_backoff_at)
  qed
qed simp_all

end
