(* ===== verification/Tokencache.thy ===== *)
theory Tokencache
  imports Go_Url Headers
begin

text \<open>
  \<open>internal/tokencache\<close>: the registry of bearer tokens, one file per upstream URL, and the source that
  refreshes them. The file system is a list of files and a schedule of what happens to each system
  call: it succeeds, it fails after some bytes, or the process dies there. SHA-256, the token
  endpoint, the token command and the clock are arguments.
\<close>

section \<open>Entries\<close>

record entry =
  e_url :: string
  e_access :: string
  e_expires :: int
  e_refresh :: string
  e_token_url :: string
  e_client :: string
  e_cmd :: string

definition SourceType :: "entry \<Rightarrow> string" where
  "SourceType e = (if e_cmd e \<noteq> [] then ''command'' else if e_refresh e \<noteq> [] then ''refreshable'' else ''static'')"

text \<open>The members \<open>Marshal\<close> writes (\<open>omitempty\<close>), and the fields \<open>Unmarshal\<close> reads.\<close>

definition opt_member :: "string \<Rightarrow> string \<Rightarrow> (string \<times> json) list" where
  "opt_member k s = (if s = [] then [] else [(k, J_str s)])"

definition entry_members :: "entry \<Rightarrow> (string \<times> json) list" where
  "entry_members e = [(''url'', J_str (e_url e))] @ opt_member ''access_token'' (e_access e)
     @ (if e_expires e = 0 then [] else [(''expires_at'', J_num (itoa (e_expires e)))])
     @ opt_member ''refresh_token'' (e_refresh e) @ opt_member ''token_url'' (e_token_url e)
     @ opt_member ''client_id'' (e_client e) @ opt_member ''token_cmd'' (e_cmd e)"

definition decode_entry :: "string \<Rightarrow> entry option" where
  "decode_entry data =
     Option.bind (unmarshal data) (\<lambda>j.
     Option.bind (members j) (\<lambda>kvs.
     Option.bind (decode_field as_string None ''url'' [] kvs) (\<lambda>url.
     Option.bind (decode_field as_string None ''access_token'' [] kvs) (\<lambda>access.
     Option.bind (decode_field as_int64 None ''expires_at'' 0 kvs) (\<lambda>expires.
     Option.bind (decode_field as_string None ''refresh_token'' [] kvs) (\<lambda>refresh.
     Option.bind (decode_field as_string None ''token_url'' [] kvs) (\<lambda>tu.
     Option.bind (decode_field as_string None ''client_id'' [] kvs) (\<lambda>client.
     Option.bind (decode_field as_string None ''token_cmd'' [] kvs) (\<lambda>cmd.
     Some \<lparr>e_url = url, e_access = access, e_expires = expires, e_refresh = refresh, e_token_url = tu,
           e_client = client, e_cmd = cmd\<rparr>)))))))))"

text \<open>\<open>MarshalIndent\<close> with two spaces, on an object of scalars.\<close>

fun indented :: "(string \<times> json) list \<Rightarrow> string" where
  "indented [] = []"
| "indented [(k, v)] = CHR 0x0A # CHR '' '' # CHR '' '' # enc_str k @ CHR '':'' # CHR '' '' # json_enc v"
| "indented ((k, v) # kv # kvs) =
     CHR 0x0A # CHR '' '' # CHR '' '' # enc_str k @ CHR '':'' # CHR '' '' # json_enc v @ CHR '','' # indented (kv # kvs)"

definition encode_entry :: "entry \<Rightarrow> string" where
  "encode_entry e = CHR 0x7B # indented (entry_members e) @ [CHR 0x0A, CHR 0x7D]"

section \<open>Keys\<close>

definition default_port :: "url \<Rightarrow> bool" where
  "default_port u \<longleftrightarrow> u_scheme u = ''http'' \<and> has_suffix (u_host u) '':80''
     \<or> u_scheme u = ''https'' \<and> has_suffix (u_host u) '':443''"

definition drop_port :: "url \<Rightarrow> url" where
  "drop_port u = (if \<not> default_port u then u
     else u\<lparr>u_host := (case last_index_byte (u_host u) (CHR '':'') of None \<Rightarrow> u_host u | Some i \<Rightarrow> take i (u_host u))\<rparr>)"

text \<open>\<open>strings.ToLower\<close> on the ASCII letters.\<close>

definition NormalizeURL :: "string \<Rightarrow> string option" where
  "NormalizeURL raw =
     (case Parse raw of
        None \<Rightarrow> None
      | Some u \<Rightarrow>
          if u_scheme u = [] \<or> u_host u = [] then None
          else (let u = drop_port (u\<lparr>u_scheme := map lower_byte (u_scheme u), u_host := map lower_byte (u_host u)\<rparr>) in
                Some (url_string (u\<lparr>u_path := trim_right (u_path u) ''/'', u_rawquery := [], u_fragment := []\<rparr>))))"

definition cache_key :: "(string \<Rightarrow> string) \<Rightarrow> string \<Rightarrow> string option" where
  "cache_key sha raw = map_option (\<lambda>n. hex_encode (sha n) @ ''.json'') (NormalizeURL raw)"

section \<open>Files\<close>

datatype sys = Sys_ok | Sys_fails nat | Sys_dies nat

record disk =
  dk_files :: "((string \<times> string) \<times> string) list"
  dk_sys :: "sys list"

datatype file_act = Mkdir string | Create "string \<times> string" | Chmod "string \<times> string" | Write "string \<times> string" string
  | Close_file "string \<times> string" | Rename "string \<times> string" "string \<times> string" | Unlink "string \<times> string"

definition next_sys :: "disk \<Rightarrow> sys \<times> disk" where
  "next_sys d = (case dk_sys d of [] \<Rightarrow> (Sys_ok, d) | s # ss \<Rightarrow> (s, d\<lparr>dk_sys := ss\<rparr>))"

definition set_file :: "string \<times> string \<Rightarrow> string \<Rightarrow> ((string \<times> string) \<times> string) list \<Rightarrow> ((string \<times> string) \<times> string) list" where
  "set_file p c fs = (p, c) # filter (\<lambda>f. fst f \<noteq> p) fs"

definition no_file :: "string \<times> string \<Rightarrow> ((string \<times> string) \<times> string) list \<Rightarrow> ((string \<times> string) \<times> string) list" where
  "no_file p fs = filter (\<lambda>f. fst f \<noteq> p) fs"

text \<open>The effect of a call, and of a write that stops after \<open>n\<close> bytes; only a write is interrupted halfway.\<close>

fun act :: "file_act \<Rightarrow> ((string \<times> string) \<times> string) list \<Rightarrow> ((string \<times> string) \<times> string) list" where
  "act (Mkdir dir) fs = fs"
| "act (Create p) fs = set_file p [] fs"
| "act (Chmod p) fs = fs"
| "act (Write p data) fs = (case map_of fs p of None \<Rightarrow> fs | Some c \<Rightarrow> set_file p (c @ data) fs)"
| "act (Close_file p) fs = fs"
| "act (Rename p q) fs = (case map_of fs p of None \<Rightarrow> fs | Some c \<Rightarrow> set_file q c (no_file p fs))"
| "act (Unlink p) fs = no_file p fs"

fun act_partly :: "file_act \<Rightarrow> nat \<Rightarrow> ((string \<times> string) \<times> string) list \<Rightarrow> ((string \<times> string) \<times> string) list" where
  "act_partly (Write p data) n fs = act (Write p (take n data)) fs"
| "act_partly _ n fs = fs"

datatype call_end = Done | Failed | Died

definition sys_call :: "file_act \<Rightarrow> disk \<Rightarrow> call_end \<times> disk" where
  "sys_call a d =
     (case next_sys d of
        (Sys_ok, d) \<Rightarrow> (Done, d\<lparr>dk_files := act a (dk_files d)\<rparr>)
      | (Sys_fails n, d) \<Rightarrow> (Failed, d\<lparr>dk_files := act_partly a n (dk_files d)\<rparr>)
      | (Sys_dies n, d) \<Rightarrow> (Died, d\<lparr>dk_files := act_partly a n (dk_files d)\<rparr>))"

text \<open>A sequence of calls, each of whose errors is returned at once; the first that does not succeed ends it.\<close>

fun sys_calls :: "file_act list \<Rightarrow> disk \<Rightarrow> call_end \<times> disk" where
  "sys_calls [] d = (Done, d)"
| "sys_calls (a # as) d = (case sys_call a d of (Done, d) \<Rightarrow> sys_calls as d | (r, d) \<Rightarrow> (r, d))"

section \<open>The store\<close>

datatype tc_error = Bad_url | No_config_dir | Sys_error | Bad_entry | Process_died

definition tc_dir :: "string \<Rightarrow> string option \<Rightarrow> string option" where
  "tc_dir dir config = (if dir \<noteq> [] then Some dir else map_option (\<lambda>base. base @ ''/mcptunnels/tokens'') config)"

definition tc_path :: "(string \<Rightarrow> string) \<Rightarrow> string option \<Rightarrow> string \<Rightarrow> tc_error + (string \<times> string)" where
  "tc_path sha dir raw =
     (case cache_key sha raw of
        None \<Rightarrow> Inl Bad_url
      | Some k \<Rightarrow> (case dir of None \<Rightarrow> Inl No_config_dir | Some d \<Rightarrow> Inr (d, k)))"

text \<open>
  Paths are pairs of directory and name. \<open>config\<close> is \<open>UserConfigDir\<close>'s answer, a clean path, which
  \<open>filepath.Join\<close> leaves as it is.
\<close>

text \<open>
  \<open>Save\<close>: \<open>tmp\<close> is the name \<open>CreateTemp\<close> chooses. The deferred \<open>Remove\<close> runs unless the process has
  died; its own error is ignored, and after the rename it finds nothing to remove.
\<close>

definition tc_Save :: "(string \<Rightarrow> string) \<Rightarrow> string option \<Rightarrow> string \<Rightarrow> entry \<Rightarrow> disk \<Rightarrow> (tc_error + unit) \<times> disk" where
  "tc_Save sha dir tmp e d =
     (case tc_path sha dir (e_url e) of
        Inl err \<Rightarrow> (Inl err, d)
      | Inr (dn, k) \<Rightarrow>
          (case sys_calls [Mkdir dn, Create (dn, tmp)] d of
             (Died, d) \<Rightarrow> (Inl Process_died, d)
           | (Failed, d) \<Rightarrow> (Inl Sys_error, d)
           | (Done, d) \<Rightarrow>
               (case sys_calls [Chmod (dn, tmp), Write (dn, tmp) (encode_entry e), Close_file (dn, tmp), Rename (dn, tmp) (dn, k)] d of
                  (Died, d) \<Rightarrow> (Inl Process_died, d)
                | (r, d) \<Rightarrow>
                    (case sys_call (Unlink (dn, tmp)) d of
                       (Died, d) \<Rightarrow> (Inl Process_died, d)
                     | (_, d) \<Rightarrow> (if r = Done then Inr () else Inl Sys_error, d)))))"

text \<open>\<open>ReadFile\<close>: \<open>Inr None\<close> when there is no such file.\<close>

definition read_file :: "string \<times> string \<Rightarrow> disk \<Rightarrow> (tc_error + string option) \<times> disk" where
  "read_file p d =
     (case next_sys d of
        (Sys_ok, d) \<Rightarrow> (Inr (map_of (dk_files d) p), d)
      | (Sys_fails n, d) \<Rightarrow> (Inl Sys_error, d)
      | (Sys_dies n, d) \<Rightarrow> (Inl Process_died, d))"

definition tc_Lookup :: "(string \<Rightarrow> string) \<Rightarrow> string option \<Rightarrow> string \<Rightarrow> disk \<Rightarrow> (tc_error + entry option) \<times> disk" where
  "tc_Lookup sha dir raw d =
     (case tc_path sha dir raw of
        Inl err \<Rightarrow> (Inl err, d)
      | Inr p \<Rightarrow>
          (case read_file p d of
             (Inl err, d) \<Rightarrow> (Inl err, d)
           | (Inr None, d) \<Rightarrow> (Inr None, d)
           | (Inr (Some data), d) \<Rightarrow>
               (case decode_entry data of None \<Rightarrow> (Inl Bad_entry, d) | Some e \<Rightarrow> (Inr (Some e), d))))"

definition tc_Remove :: "(string \<Rightarrow> string) \<Rightarrow> string option \<Rightarrow> string \<Rightarrow> disk \<Rightarrow> (tc_error + unit) \<times> disk" where
  "tc_Remove sha dir raw d =
     (case tc_path sha dir raw of
        Inl err \<Rightarrow> (Inl err, d)
      | Inr p \<Rightarrow>
          (case sys_call (Unlink p) d of
             (Done, d) \<Rightarrow> (Inr (), d)
           | (Failed, d) \<Rightarrow> (Inl Sys_error, d)
           | (Died, d) \<Rightarrow> (Inl Process_died, d)))"

text \<open>\<open>List\<close>: files that cannot be read or decoded are skipped.\<close>

fun list_entries :: "(string \<times> string) list \<Rightarrow> disk \<Rightarrow> entry list \<times> disk" where
  "list_entries [] d = ([], d)"
| "list_entries (p # ps) d =
     (if \<not> has_suffix (snd p) ''.json'' then list_entries ps d
      else (case read_file p d of
          (Inr (Some data), d) \<Rightarrow> (case list_entries ps d of (es, d) \<Rightarrow>
            ((case decode_entry data of None \<Rightarrow> es | Some e \<Rightarrow> e # es), d))
        | (_, d) \<Rightarrow> list_entries ps d))"

definition tc_List :: "string option \<Rightarrow> disk \<Rightarrow> (tc_error + entry list) \<times> disk" where
  "tc_List dir d =
     (case dir of
        None \<Rightarrow> (Inl No_config_dir, d)
      | Some dn \<Rightarrow>
          (case next_sys d of
             (Sys_ok, d) \<Rightarrow> (case list_entries (map fst (sort_key (\<lambda>f. snd (fst f)) (filter (\<lambda>f. fst (fst f) = dn) (dk_files d)))) d of
               (es, d) \<Rightarrow> (Inr es, d))
           | (_, d) \<Rightarrow> (Inl Sys_error, d)))"

section \<open>An entry reads back\<close>

definition plain_entry :: "entry \<Rightarrow> bool" where
  "plain_entry e \<longleftrightarrow> ascii (e_url e) \<and> ascii (e_access e) \<and> - (2 ^ 63) \<le> e_expires e \<and> e_expires e < 2 ^ 63
     \<and> ascii (e_refresh e) \<and> ascii (e_token_url e) \<and> ascii (e_client e) \<and> ascii (e_cmd e)"

lemma p_value_ws: "is_ws c \<Longrightarrow> p_value n (c # s) = p_value n s"
  by (cases n) (simp_all add: skip_ws_def)

lemma ws_bytes [simp]: "is_ws (CHR 0x0A)" "is_ws (CHR '' '')"
  by (simp_all add: is_ws_def)

lemma skip_ws_drop [simp]: "is_ws c \<Longrightarrow> skip_ws (c # s) = skip_ws s"
  by (simp add: skip_ws_def)

lemma p_members_indented:
  assumes "list_all (\<lambda>(k, v). ascii k \<and> json_plain v) kvs" and "kvs \<noteq> []" and "length (indented kvs) \<le> n"
  shows "p_members n (indented kvs @ CHR 0x0A # CHR 0x7D # r) = Some (kvs, r)"
  using assms
proof (induction kvs arbitrary: n rule: indented.induct)
  case (2 k v)
  then obtain m where n: "n = Suc m" by (cases n) simp_all
  have "p_value m (json_enc v @ CHR 0x0A # CHR 0x7D # r) = Some (v, CHR 0x0A # CHR 0x7D # r)"
    using 2 n by (intro p_value_enc) (simp_all add: no_number_def digit_val_def)
  then show ?case
    using 2 n p_str_enc_chars [of k] by (simp add: enc_str_def p_value_ws del: p_value.simps)
next
  case (3 k v kv kvs)
  then obtain m where n: "n = Suc m" by (cases n) simp_all
  have "p_value m (json_enc v @ CHR '','' # indented (kv # kvs) @ CHR 0x0A # CHR 0x7D # r)
      = Some (v, CHR '','' # indented (kv # kvs) @ CHR 0x0A # CHR 0x7D # r)"
    using 3 n by (intro p_value_enc) simp_all
  moreover have "p_members m (indented (kv # kvs) @ CHR 0x0A # CHR 0x7D # r) = Some (kv # kvs, r)"
    using 3 n by (intro "3.IH") auto
  ultimately show ?case
    using 3 n p_str_enc_chars [of k] by (simp add: enc_str_def p_value_ws del: p_value.simps)
qed simp

lemma unmarshal_indented:
  assumes "list_all (\<lambda>(k, v). ascii k \<and> json_plain v) kvs" and "kvs \<noteq> []"
  shows "unmarshal (CHR 0x7B # indented kvs @ [CHR 0x0A, CHR 0x7D]) = Some (J_obj kvs)"
proof -
  let ?body = "indented kvs @ [CHR 0x0A, CHR 0x7D]"
  have "p_members (2 * length (CHR 0x7B # ?body) + 1) ?body = Some (kvs, [])"
    using p_members_indented [OF assms, of _ "[]"] by (simp del: p_members.simps)
  moreover have "\<not> has_prefix (skip_ws ?body) [CHR 0x7D]"
    using assms(2) by (cases kvs rule: indented.cases) (simp_all add: enc_str_def)
  ultimately show ?thesis by (simp add: unmarshal_def skip_ws_def del: p_members.simps)
qed

lemma decode_field_append:
  "decode_field f nul name cur (xs @ ys) = Option.bind (decode_field f nul name cur xs) (\<lambda>cur. decode_field f nul name cur ys)"
  by (induction f nul name cur xs rule: decode_field.induct) (auto split: option.splits)

lemma decode_opt_member:
  "decode_field f nul name cur (opt_member k s) =
     (if s = [] \<or> \<not> fold_eq k name then Some cur else f (J_str s))"
  by (simp add: opt_member_def split: option.split)

definition entry_names :: "string list" where
  "entry_names = [''url'', ''access_token'', ''expires_at'', ''refresh_token'', ''token_url'', ''client_id'', ''token_cmd'']"

lemma entry_names_differ: "k \<in> set entry_names \<Longrightarrow> n \<in> set entry_names \<Longrightarrow> fold_eq k n \<longleftrightarrow> k = n"
proof -
  have "list_all (\<lambda>k. list_all (\<lambda>n. fold_eq k n \<longleftrightarrow> k = n) entry_names) entry_names" by code_simp
  then show "k \<in> set entry_names \<Longrightarrow> n \<in> set entry_names \<Longrightarrow> fold_eq k n \<longleftrightarrow> k = n" by (auto simp: list_all_iff)
qed

lemma entry_text:
  assumes "plain_entry e"
  shows "decode_entry (encode_entry e) = Some e"
proof -
  let ?kvs = "entry_members e"
  have "list_all (\<lambda>(k, v). ascii k \<and> json_plain v) ?kvs"
    using assms by (simp add: entry_members_def opt_member_def plain_entry_def parse_int64_itoa ascii_def)
  moreover have "?kvs \<noteq> []" by (simp add: entry_members_def)
  ultimately have u: "unmarshal (encode_entry e) = Some (J_obj ?kvs)"
    unfolding encode_entry_def by (rule unmarshal_indented)
  note fields = entry_members_def decode_field_append decode_opt_member entry_names_differ entry_names_def
  have s: "decode_field as_string None ''url'' [] ?kvs = Some (e_url e)"
    "decode_field as_string None ''access_token'' [] ?kvs = Some (e_access e)"
    "decode_field as_string None ''refresh_token'' [] ?kvs = Some (e_refresh e)"
    "decode_field as_string None ''token_url'' [] ?kvs = Some (e_token_url e)"
    "decode_field as_string None ''client_id'' [] ?kvs = Some (e_client e)"
    "decode_field as_string None ''token_cmd'' [] ?kvs = Some (e_cmd e)"
    by (simp_all add: fields)
  have i: "decode_field as_int64 None ''expires_at'' 0 ?kvs = Some (e_expires e)"
    using assms by (simp add: fields plain_entry_def parse_int64_itoa)
  show ?thesis by (simp add: decode_entry_def u members_def s i)
qed

section \<open>Saving is atomic\<close>

text \<open>
  The file an entry is saved under is at every moment the old one or the whole new one: whatever call
  fails or kills the process.
\<close>

definition file_at :: "disk \<Rightarrow> string \<times> string \<Rightarrow> string option" where
  "file_at d p = map_of (dk_files d) p"

lemma map_of_no_file [simp]: "map_of (no_file p fs) q = (if q = p then None else map_of fs q)"
  by (induction fs) (auto simp: no_file_def)

lemma map_of_set_file [simp]: "map_of (set_file p c fs) q = (if q = p then Some c else map_of fs q)"
  using map_of_no_file [of p fs q] by (simp add: set_file_def no_file_def)

fun touches :: "file_act \<Rightarrow> (string \<times> string) set" where
  "touches (Mkdir dir) = {}"
| "touches (Create p) = {p}"
| "touches (Chmod p) = {}"
| "touches (Write p data) = {p}"
| "touches (Close_file p) = {}"
| "touches (Rename p q) = {p, q}"
| "touches (Unlink p) = {p}"

lemma act_other: "q \<notin> touches a \<Longrightarrow> map_of (act a fs) q = map_of fs q" "q \<notin> touches a \<Longrightarrow> map_of (act_partly a n fs) q = map_of fs q"
  by (cases a; auto split: option.splits)+

lemma next_sys_files: "dk_files (snd (next_sys d)) = dk_files d"
  by (simp add: next_sys_def split: list.split)

lemma sys_call_other: "sys_call a d = (r, d') \<Longrightarrow> q \<notin> touches a \<Longrightarrow> file_at d' q = file_at d q"
  using next_sys_files [of d] by (auto simp: sys_call_def file_at_def act_other split: prod.splits sys.splits)

lemma sys_calls_other:
  "sys_calls as d = (r, d') \<Longrightarrow> q \<notin> \<Union> (touches ` set as) \<Longrightarrow> file_at d' q = file_at d q"
  by (induction as arbitrary: d) (auto split: prod.splits call_end.splits dest: sys_call_other)

text \<open>Only a sequence that ends well has replaced the file.\<close>

lemma sys_call_done: "sys_call a d = (Done, d') \<Longrightarrow> dk_files d' = act a (dk_files d)"
  using next_sys_files [of d] by (auto simp: sys_call_def split: prod.splits sys.splits)

lemma sys_call_rename:
  "sys_call (Rename p q) d = (r, d') \<Longrightarrow> q \<noteq> p \<Longrightarrow> file_at d' q = (if r = Done \<and> file_at d p \<noteq> None then file_at d p else file_at d q)"
  using next_sys_files [of d] by (auto simp: sys_call_def file_at_def split: prod.splits sys.splits option.splits)

lemma write_calls:
  assumes "sys_calls [Chmod t, Write t data, Close_file t, Rename t p] d = (r, d')" and "file_at d t = Some []" and "p \<noteq> t"
  shows "file_at d' p = (if r = Done then Some data else file_at d p)"
proof -
  obtain r1 d1 where c: "sys_call (Chmod t) d = (r1, d1)" by fastforce
  obtain r2 d2 where w: "sys_call (Write t data) d1 = (r2, d2)" by fastforce
  obtain r3 d3 where l: "sys_call (Close_file t) d2 = (r3, d3)" by fastforce
  obtain r4 d4 where m: "sys_call (Rename t p) d3 = (r4, d4)" by fastforce
  have p: "file_at d1 p = file_at d p" "file_at d2 p = file_at d p" "file_at d3 p = file_at d p"
    using sys_call_other [OF c, of p] sys_call_other [OF w, of p] sys_call_other [OF l, of p] assms(3) by simp_all
  have t: "file_at d1 t = Some []" "r2 = Done \<Longrightarrow> file_at d2 t = Some data" "file_at d3 t = file_at d2 t"
    using sys_call_other [OF c, of t] sys_call_other [OF l, of t] sys_call_done [of _ d1 d2] w assms(2)
    by (auto simp: file_at_def)
  show ?thesis
    using assms(1) c w l m p t sys_call_rename [OF m assms(3)] by (auto split: call_end.splits)
qed

lemma create_calls:
  "sys_calls [Mkdir dn, Create t] d = (Done, d') \<Longrightarrow> file_at d' t = Some []"
  by (auto simp: file_at_def split: prod.splits call_end.splits dest!: sys_call_done)

lemma tc_Save_atomic:
  assumes "tc_Save sha dir tmp e d = (r, d')" and "tc_path sha dir (e_url e) = Inr p" and "snd p \<noteq> tmp"
  shows "file_at d' p = file_at d p \<or> file_at d' p = Some (encode_entry e)"
    and "r = Inr () \<Longrightarrow> file_at d' p = Some (encode_entry e)"
    and "\<And>q. q \<noteq> p \<Longrightarrow> q \<noteq> (fst p, tmp) \<Longrightarrow> file_at d' q = file_at d q"
proof -
  obtain dn k where p: "p = (dn, k)" by fastforce
  let ?t = "(dn, tmp)"
  obtain r1 d1 where c: "sys_calls [Mkdir dn, Create ?t] d = (r1, d1)" by fastforce
  obtain r2 d2 where w: "sys_calls [Chmod ?t, Write ?t (encode_entry e), Close_file ?t, Rename ?t (dn, k)] d1 = (r2, d2)" by fastforce
  obtain r3 d3 where u: "sys_call (Unlink ?t) d2 = (r3, d3)" by fastforce
  have ne: "(dn, k) \<noteq> ?t" using assms(3) p by auto
  have run: "(r1 \<noteq> Done \<and> d' = d1 \<and> r \<noteq> Inr ()) \<or> (r1 = Done \<and> r2 = Died \<and> d' = d2 \<and> r \<noteq> Inr ())
      \<or> (r1 = Done \<and> d' = d3 \<and> (r = Inr () \<longrightarrow> r2 = Done))"
    using assms(1,2) c w u p by (auto simp: tc_Save_def simp del: sys_calls.simps split: call_end.splits if_splits)
  have k1: "file_at d1 (dn, k) = file_at d (dn, k)" using sys_calls_other [OF c, of "(dn, k)"] ne by auto
  have k2: "r1 = Done \<Longrightarrow> file_at d2 (dn, k) = (if r2 = Done then Some (encode_entry e) else file_at d1 (dn, k))"
    using write_calls [OF w _ ne] create_calls c by blast
  have k3: "file_at d3 (dn, k) = file_at d2 (dn, k)" using sys_call_other [OF u, of "(dn, k)"] ne by auto
  show "file_at d' p = file_at d p \<or> file_at d' p = Some (encode_entry e)"
    using run k1 k2 k3 by (auto simp: p)
  show "r = Inr () \<Longrightarrow> file_at d' p = Some (encode_entry e)"
    using run k1 k2 k3 by (auto simp: p)
  show "q \<noteq> p \<Longrightarrow> q \<noteq> (fst p, tmp) \<Longrightarrow> file_at d' q = file_at d q" for q
    using run sys_calls_other [OF c, of q] sys_calls_other [OF w, of q] sys_call_other [OF u, of q] by (auto simp: p)
qed

text \<open>The name \<open>CreateTemp\<close> chooses for the pattern \<open>.tmp-*.json\<close> is no entry's.\<close>

lemma cache_key_tmp: "cache_key sha raw = Some k \<Longrightarrow> k \<noteq> ''.tmp-'' @ x"
proof
  assume k: "cache_key sha raw = Some k" "k = ''.tmp-'' @ x"
  from k(1) obtain n where "k = hex_encode (sha n) @ ''.json''" by (auto simp: cache_key_def)
  with k(2) have n: "''.tmp-'' @ x = hex_encode (sha n) @ ''.json''" by simp
  show False
  proof (cases "hex_encode (sha n)")
    case (Cons c s)
    with n have "c = CHR ''.''" by simp
    with hex_encode_alphabet [of "sha n"] Cons show False by (simp add: hex_alphabet_def)
  qed (use n in simp)
qed

lemma tc_path_tmp: "tc_path sha dir raw = Inr p \<Longrightarrow> snd p \<noteq> ''.tmp-'' @ x"
  using cache_key_tmp by (auto simp: tc_path_def split: option.splits)

text \<open>A saved entry is found again under every URL with the same normal form.\<close>

lemma tc_Save_Lookup:
  assumes "tc_Save sha dir (''.tmp-'' @ x) e d = (Inr (), d')" and "dk_sys d' = []"
    and "NormalizeURL raw = NormalizeURL (e_url e)" and "plain_entry e"
  shows "tc_Lookup sha dir raw d' = (Inr (Some e), d')"
proof -
  obtain p where p: "tc_path sha dir (e_url e) = Inr p" using assms(1) by (auto simp: tc_Save_def split: sum.splits)
  have "tc_path sha dir raw = Inr p" using p assms(3) by (simp add: tc_path_def cache_key_def)
  moreover have "file_at d' p = Some (encode_entry e)" using tc_Save_atomic(2) [OF assms(1) p tc_path_tmp [OF p]] by simp
  ultimately show ?thesis
    using assms(2,4) by (simp add: tc_Lookup_def read_file_def next_sys_def file_at_def entry_text)
qed

text \<open>Removing an entry leaves no entry of the URL; an entry that is not there is no error.\<close>

lemma tc_Remove_Lookup:
  assumes "tc_Remove sha dir raw d = (Inr (), d')" and "dk_sys d' = []"
  shows "tc_Lookup sha dir raw d' = (Inr None, d')"
  using assms by (auto simp: tc_Remove_def tc_Lookup_def read_file_def next_sys_def
      split: sum.splits prod.splits call_end.splits dest!: sys_call_done)

text \<open>
  A file left behind by a process that died between writing and renaming ends in \<open>.json\<close>: \<open>List\<close>
  shows its entry, \<open>Lookup\<close> does not.
\<close>

lemma tc_List_leftover:
  assumes "plain_entry e" and "dk_sys d = []" and "dk_files d = [((dn, ''.tmp-'' @ x @ ''.json''), encode_entry e)]"
  shows "fst (tc_List (Some dn) d) = Inr [e]" and "NormalizeURL raw \<noteq> None \<Longrightarrow> fst (tc_Lookup sha (Some dn) raw d) = Inr None"
proof -
  have "has_suffix (''.tmp-'' @ x @ ''.json'') ''.json''"
    using has_prefix_append [of "rev ''.json''" "rev (''.tmp-'' @ x)"] by (simp add: has_suffix_def)
  with assms show "fst (tc_List (Some dn) d) = Inr [e]"
    by (simp add: tc_List_def next_sys_def read_file_def entry_text)
  show "fst (tc_Lookup sha (Some dn) raw d) = Inr None" if "NormalizeURL raw \<noteq> None"
  proof -
    from that obtain k where k: "cache_key sha raw = Some k" by (auto simp: cache_key_def)
    with cache_key_tmp [OF k, of "x @ ''.json''"] assms show ?thesis
      by (simp add: tc_Lookup_def tc_path_def read_file_def next_sys_def)
  qed
qed

end
