(* ===== verification/Token_Source.thy ===== *)
theory Token_Source
  imports Tokencache
begin

text \<open>
  \<open>internal/tokencache/source.go\<close> and the transport of \<open>tokencache.go\<close>: a source hands out the entry's
  token and renews it through the refresh grant or the token command. The lock is held over a whole
  call, so a call is one step. The token endpoint, the command and the clock are arguments; the clock
  readings of a call are the members of \<open>tk_clock\<close>, in nanoseconds.
\<close>

definition skew :: time where
  "skew = secs 30"

definition cmdStaleness :: time where
  "cmdStaleness = secs 300"

record tk_source =
  so_entry :: entry
  so_loaded :: time

record tk_clock =
  tk_expiry :: time
  tk_since :: time
  tk_granted :: time
  tk_loaded :: time

text \<open>The environment of a call: the clock, the name a temporary file gets, the client of the token
  endpoint (an error, or status code, status and body, with the error that ends it), the shell.\<close>

record 'u tk_env =
  ev_clock :: tk_clock
  ev_tmp :: string
  ev_post :: "string \<Rightarrow> string \<Rightarrow> 'u \<Rightarrow> (string + nat \<times> string \<times> string \<times> string option) \<times> 'u"
  ev_shell :: "string \<Rightarrow> 'u \<Rightarrow> (string + string) \<times> 'u"

datatype tk_error = Not_refreshable | Bad_token_url | Refresh_failed string | Refresh_rejected string
  | Bad_grant | Save_failed tc_error | Command_failed string | Empty_output

definition expired :: "tk_clock \<Rightarrow> int \<Rightarrow> bool" where
  "expired t at \<longleftrightarrow> at \<noteq> 0 \<and> at \<le> unix (tk_expiry t + skew)"

definition refresh_form :: "entry \<Rightarrow> string" where
  "refresh_form e =
     (let form = [(''grant_type'', ''refresh_token''), (''refresh_token'', e_refresh e)]
      in values_encode (if e_client e = [] then form else values_set ''client_id'' (e_client e) form))"

record grant =
  gr_access :: string
  gr_expires_in :: int
  gr_refresh :: string

definition decode_grant :: "string \<Rightarrow> grant option" where
  "decode_grant data =
     Option.bind (unmarshal data) (\<lambda>j.
     Option.bind (members j) (\<lambda>kvs.
     Option.bind (decode_field as_string None ''access_token'' [] kvs) (\<lambda>a.
     Option.bind (decode_field as_int64 None ''expires_in'' 0 kvs) (\<lambda>n.
     Option.bind (decode_field as_string None ''refresh_token'' [] kvs) (\<lambda>r.
     Some \<lparr>gr_access = a, gr_expires_in = n, gr_refresh = r\<rparr>)))))"

text \<open>64-bit addition.\<close>

definition add_int64 :: "int \<Rightarrow> int \<Rightarrow> int" where
  "add_int64 a b = (a + b + 2 ^ 63) mod 2 ^ 64 - 2 ^ 63"

definition granted :: "grant \<Rightarrow> tk_clock \<Rightarrow> entry \<Rightarrow> entry" where
  "granted g t e =
     (let e = e\<lparr>e_access := gr_access g\<rparr>;
          e = (if gr_expires_in g > 0 then e\<lparr>e_expires := add_int64 (unix (tk_granted t)) (gr_expires_in g)\<rparr> else e)
      in if gr_refresh g \<noteq> [] then e\<lparr>e_refresh := gr_refresh g\<rparr> else e)"

text \<open>\<open>store\<close> is the function and the directory to save with, \<open>None\<close> for a source without a store.\<close>

definition refreshGrant ::
  "((string \<Rightarrow> string) \<times> string option) option \<Rightarrow> 'u tk_env \<Rightarrow> tk_source \<Rightarrow> disk \<Rightarrow> 'u
     \<Rightarrow> (tk_error + string) \<times> tk_source \<times> disk \<times> 'u" where
  "refreshGrant store ev s d u =
     (if Parse (e_token_url (so_entry s)) = None then (Inl Bad_token_url, s, d, u)
      else (case ev_post ev (e_token_url (so_entry s)) (refresh_form (so_entry s)) u of
          (Inl err, u) \<Rightarrow> (Inl (Refresh_failed err), s, d, u)
        | (Inr (code, status, body, err), u) \<Rightarrow>
            if err \<noteq> None \<and> length body < 1048576 then (Inl (Refresh_failed (the err)), s, d, u)
            else if code div 100 \<noteq> 2 then (Inl (Refresh_rejected (status @ '': '' @ trim_space (take 1048576 body))), s, d, u)
            else (case decode_grant (take 1048576 body) of
                None \<Rightarrow> (Inl Bad_grant, s, d, u)
              | Some g \<Rightarrow>
                  if gr_access g = [] then (Inl Bad_grant, s, d, u)
                  else (let s = s\<lparr>so_entry := granted g (ev_clock ev) (so_entry s), so_loaded := tk_loaded (ev_clock ev)\<rparr> in
                        case store of
                          None \<Rightarrow> (Inr (gr_access g), s, d, u)
                        | Some (sha, dir) \<Rightarrow>
                            (case tc_Save sha dir (ev_tmp ev) (so_entry s) d of
                               (Inl err, d) \<Rightarrow> (Inl (Save_failed err), s, d, u)
                             | (Inr _, d) \<Rightarrow> (Inr (gr_access g), s, d, u))))))"

definition runCmd :: "'u tk_env \<Rightarrow> tk_source \<Rightarrow> 'u \<Rightarrow> (tk_error + string) \<times> tk_source \<times> 'u" where
  "runCmd ev s u =
     (case ev_shell ev (e_cmd (so_entry s)) u of
        (Inl err, u) \<Rightarrow> (Inl (Command_failed err), s, u)
      | (Inr out, u) \<Rightarrow>
          (let tok = trim_space out in
           if tok = [] then (Inl Empty_output, s, u)
           else (Inr tok, s\<lparr>so_entry := (so_entry s)\<lparr>e_access := tok\<rparr>, so_loaded := tk_loaded (ev_clock ev)\<rparr>, u)))"

definition usable :: "tk_clock \<Rightarrow> tk_source \<Rightarrow> bool" where
  "usable t s \<longleftrightarrow> e_access (so_entry s) \<noteq> [] \<and> \<not> expired t (e_expires (so_entry s))
     \<and> (e_cmd (so_entry s) = [] \<or> tk_since t - so_loaded s < cmdStaleness \<or> e_expires (so_entry s) \<noteq> 0)"

definition lockedToken ::
  "((string \<Rightarrow> string) \<times> string option) option \<Rightarrow> 'u tk_env \<Rightarrow> bool \<Rightarrow> tk_source \<Rightarrow> disk \<Rightarrow> 'u
     \<Rightarrow> (tk_error + string) \<times> tk_source \<times> disk \<times> 'u" where
  "lockedToken store ev force s d u =
     (if \<not> force \<and> usable (ev_clock ev) s then (Inr (e_access (so_entry s)), s, d, u)
      else if e_refresh (so_entry s) \<noteq> [] \<and> e_token_url (so_entry s) \<noteq> [] then refreshGrant store ev s d u
      else if e_cmd (so_entry s) \<noteq> [] then (case runCmd ev s u of (r, s, u) \<Rightarrow> (r, s, d, u))
      else (Inl Not_refreshable, s, d, u))"

section \<open>The transport\<close>

text \<open>
  \<open>RoundTrip\<close>: \<open>base\<close> is the transport below, a function of the headers and the body of a request;
  \<open>getBody\<close> is the request's \<open>GetBody\<close> (\<open>None\<close> when it has none), the body it gives or its error.
  \<open>ev\<close> and \<open>ev'\<close> are the environments of the two calls of the source.
\<close>

record tr_request =
  tr_headers :: headers
  tr_body :: "string option"
  tr_getBody :: "(string + string) option"

datatype tr_error = Token_error tk_error | Base_error string | Not_replayable | Body_error string

definition setAuth :: "tr_request \<Rightarrow> string \<Rightarrow> tr_request" where
  "setAuth q tok = q\<lparr>tr_headers := hdr_set ''Authorization'' (''Bearer '' @ tok) (tr_headers q)\<rparr>"

definition RoundTrip ::
  "((string \<Rightarrow> string) \<times> string option) option \<Rightarrow> 'u tk_env \<Rightarrow> 'u tk_env
     \<Rightarrow> (tr_request \<Rightarrow> 'u \<Rightarrow> (string + nat \<times> 'r) \<times> 'u) \<Rightarrow> tr_request \<Rightarrow> tk_source \<Rightarrow> disk \<Rightarrow> 'u
     \<Rightarrow> (tr_error + nat \<times> 'r) \<times> tk_source \<times> disk \<times> 'u" where
  "RoundTrip store ev ev' base q s d u =
     (case lockedToken store ev False s d u of
        (Inl err, s, d, u) \<Rightarrow> (Inl (Token_error err), s, d, u)
      | (Inr tok, s, d, u) \<Rightarrow>
          (case base (setAuth q tok) u of
             (Inl err, u) \<Rightarrow> (Inl (Base_error err), s, d, u)
           | (Inr (code, r), u) \<Rightarrow>
               if code \<noteq> 401 then (Inr (code, r), s, d, u)
               else if tr_body q \<noteq> None \<and> tr_getBody q = None then (Inl Not_replayable, s, d, u)
               else (case lockedToken store ev' True s d u of
                   (Inl err, s, d, u) \<Rightarrow> (Inl (Token_error err), s, d, u)
                 | (Inr tok', s, d, u) \<Rightarrow>
                     (case tr_getBody q of
                        Some (Inl err) \<Rightarrow> (Inl (Body_error err), s, d, u)
                      | gb \<Rightarrow>
                          (let q' = setAuth q tok' in
                           let q' = (case gb of Some (Inr b) \<Rightarrow> q'\<lparr>tr_body := Some b\<rparr> | _ \<Rightarrow> q') in
                           case base q' u of
                             (Inl err, u) \<Rightarrow> (Inl (Base_error err), s, d, u)
                           | (Inr resp, u) \<Rightarrow> (Inr resp, s, d, u))))))"

section \<open>What a source hands out\<close>

lemma refreshGrant_token:
  "refreshGrant store ev s d u = (Inr tok, s', d', u') \<Longrightarrow>
   \<exists>code status body err u1 g. ev_post ev (e_token_url (so_entry s)) (refresh_form (so_entry s)) u = (Inr (code, status, body, err), u1)
     \<and> code div 100 = 2 \<and> decode_grant (take 1048576 body) = Some g \<and> gr_access g = tok \<and> tok \<noteq> []
     \<and> so_entry s' = granted g (ev_clock ev) (so_entry s) \<and> so_loaded s' = tk_loaded (ev_clock ev)"
  by (auto simp: refreshGrant_def Let_def split: if_splits prod.splits sum.splits option.splits)

lemma runCmd_token:
  "runCmd ev s u = (Inr tok, s', u') \<Longrightarrow>
   \<exists>out. ev_shell ev (e_cmd (so_entry s)) u = (Inr out, u') \<and> tok = trim_space out \<and> tok \<noteq> []
     \<and> so_entry s' = (so_entry s)\<lparr>e_access := tok\<rparr> \<and> so_loaded s' = tk_loaded (ev_clock ev)"
  by (auto simp: runCmd_def Let_def split: if_splits prod.splits sum.splits)

lemma granted_access: "e_access (granted g t e) = gr_access g" "e_url (granted g t e) = e_url e"
  "e_token_url (granted g t e) = e_token_url e" "e_cmd (granted g t e) = e_cmd e"
  by (simp_all add: granted_def Let_def)

text \<open>The token handed out is the entry's, and never empty.\<close>

lemma lockedToken_token:
  assumes "lockedToken store ev force s d u = (Inr tok, s', d', u')"
  shows "e_access (so_entry s') = tok \<and> tok \<noteq> []"
  using assms
  by (auto simp: lockedToken_def usable_def granted_access split: if_splits prod.splits
      dest!: refreshGrant_token runCmd_token)

text \<open>A token that is not renewed has at least 30 seconds to live (in whole seconds), or no expiry.\<close>

lemma lockedToken_kept:
  assumes "lockedToken store ev False s d u = (Inr tok, s', d', u')" and "e_expires (so_entry s) \<noteq> 0"
    and "e_expires (so_entry s) < unix (tk_expiry (ev_clock ev)) + 31"
  shows "\<exists>u1. (\<exists>r. ev_post ev (e_token_url (so_entry s)) (refresh_form (so_entry s)) u = (Inr r, u1))
     \<or> (\<exists>out. ev_shell ev (e_cmd (so_entry s)) u = (Inr out, u1))"
proof -
  have "\<not> usable (ev_clock ev) s" using assms(2,3) by (simp add: usable_def expired_def skew_def)
  with assms(1) show ?thesis
    by (auto simp: lockedToken_def split: if_splits prod.splits dest!: refreshGrant_token runCmd_token)
qed

text \<open>
  A grant without \<open>expires_in\<close> keeps the old expiry: a source whose token has expired renews it at
  every call.
\<close>

lemma grant_without_expiry:
  assumes "refreshGrant store ev s d u = (Inr tok, s', d', u')" and "expired t (e_expires (so_entry s))"
    and "\<And>code status body err u1 g. ev_post ev (e_token_url (so_entry s)) (refresh_form (so_entry s)) u = (Inr (code, status, body, err), u1)
      \<Longrightarrow> decode_grant (take 1048576 body) = Some g \<Longrightarrow> gr_expires_in g \<le> 0"
  shows "\<not> usable t s'"
proof -
  from refreshGrant_token [OF assms(1)] assms(3) obtain g where "so_entry s' = granted g (ev_clock ev) (so_entry s)" "gr_expires_in g \<le> 0" by blast
  then have "e_expires (so_entry s') = e_expires (so_entry s)" by (simp add: granted_def Let_def)
  with assms(2) show ?thesis by (simp add: usable_def)
qed

section \<open>What is sent\<close>

definition base_logged :: "(tr_request \<Rightarrow> 'u \<Rightarrow> (string + nat \<times> 'r) \<times> 'u) \<Rightarrow> tr_request \<Rightarrow> tr_request list \<times> 'u
    \<Rightarrow> (string + nat \<times> 'r) \<times> tr_request list \<times> 'u" where
  "base_logged base q lu = (case lu of (l, u) \<Rightarrow> (case base q u of (r, u) \<Rightarrow> (r, l @ [q], u)))"

definition lift_env :: "'u tk_env \<Rightarrow> ('l \<times> 'u) tk_env" where
  "lift_env ev = \<lparr>ev_clock = ev_clock ev, ev_tmp = ev_tmp ev,
     ev_post = (\<lambda>url form (l, u). case ev_post ev url form u of (r, u) \<Rightarrow> (r, l, u)),
     ev_shell = (\<lambda>cmd (l, u). case ev_shell ev cmd u of (r, u) \<Rightarrow> (r, l, u))\<rparr>"

lemma lockedToken_lift:
  "lockedToken store (lift_env ev) force s d (l, u) =
     (case lockedToken store ev force s d u of (r, s, d, u) \<Rightarrow> (r, s, d, l, u))"
  by (auto simp: lockedToken_def refreshGrant_def runCmd_def lift_env_def Let_def split: prod.splits sum.splits option.splits)

text \<open>
  At most two requests: the first with a token, the second only after a 401, with a token obtained by
  a renewal, the same headers and the replayed body.
\<close>

definition replayed :: "tr_request \<Rightarrow> tr_request \<Rightarrow> bool" where
  "replayed q q' \<longleftrightarrow> tr_headers q' = tr_headers q \<and> tr_getBody q' = tr_getBody q
     \<and> (tr_getBody q = None \<and> tr_body q' = None \<or> (\<exists>b. tr_getBody q = Some (Inr b) \<and> tr_body q' = Some b))"

lemma RoundTrip_logged:
  assumes "RoundTrip store (lift_env ev) (lift_env ev') (base_logged base) q s d (l, u) = (r, s', d', l', u')"
  shows "l' = l
    \<or> (\<exists>tok. tok \<noteq> [] \<and> l' = l @ [setAuth q tok])
    \<or> (\<exists>tok u1 resp tok' q'. tok \<noteq> [] \<and> fst (base (setAuth q tok) u1) = Inr (401, resp) \<and> tok' \<noteq> [] \<and> tok' = e_access (so_entry s')
         \<and> replayed (setAuth q tok') q' \<and> l' = l @ [setAuth q tok, q'])"
proof -
  obtain r1 s1 d1 u1 where t: "lockedToken store ev False s d u = (r1, s1, d1, u1)" by (metis prod_cases4)
  show ?thesis
  proof (cases r1)
    case (Inl e)
    with assms t show ?thesis by (simp add: RoundTrip_def lockedToken_lift)
  next
    case (Inr tok)
    then have tok: "tok \<noteq> []" using lockedToken_token [of store ev False s d u tok s1 d1 u1] t by simp
    obtain b1 u2 where b: "base (setAuth q tok) u1 = (b1, u2)" by fastforce
    show ?thesis
    proof (cases "\<exists>resp. b1 = Inr (401, resp) \<and> (tr_body q = None \<or> tr_getBody q \<noteq> None)")
      case False
      have "l' = l @ [setAuth q tok]"
      proof (cases b1)
        case (Inr resp)
        obtain code x where x: "resp = (code, x)" by fastforce
        have "code \<noteq> 401 \<or> code = 401 \<and> (\<exists>y. tr_body q = Some y) \<and> tr_getBody q = None" using False Inr x by auto
        then show ?thesis
          using assms by (elim disjE conjE exE) (simp_all add: RoundTrip_def lockedToken_lift base_logged_def t b x Inr \<open>r1 = Inr tok\<close>)
      qed (use assms in \<open>simp add: RoundTrip_def lockedToken_lift base_logged_def t b \<open>r1 = Inr tok\<close>\<close>)
      with tok show ?thesis by blast
    next
      case True
      then obtain resp where resp: "b1 = Inr (401, resp)" "tr_body q = None \<or> tr_getBody q \<noteq> None" by blast
      obtain r3 s3 d3 u3 where t3: "lockedToken store ev' True s1 d1 u2 = (r3, s3, d3, u3)" by (metis prod_cases4)
      show ?thesis
      proof (cases "\<exists>tok' gb. r3 = Inr tok' \<and> tr_getBody q = gb \<and> (\<forall>e. gb \<noteq> Some (Inl e))")
        case False
        have "l' = l @ [setAuth q tok]"
        proof (cases r3)
          case (Inr tok')
          with False obtain e where "tr_getBody q = Some (Inl e)" by auto
          with assms resp show ?thesis by (simp add: RoundTrip_def lockedToken_lift base_logged_def t b t3 Inr \<open>r1 = Inr tok\<close>)
        qed (use assms resp in \<open>auto simp: RoundTrip_def lockedToken_lift base_logged_def t b t3 \<open>r1 = Inr tok\<close>\<close>)
        with tok show ?thesis by blast
      next
        case True
        then obtain tok' where tok': "r3 = Inr tok'" "\<forall>e. tr_getBody q \<noteq> Some (Inl e)" by blast
        let ?q = "case tr_getBody q of Some (Inr b) \<Rightarrow> (setAuth q tok')\<lparr>tr_body := Some b\<rparr> | _ \<Rightarrow> setAuth q tok'"
        have "l' = l @ [setAuth q tok, ?q] \<and> s' = s3"
        proof (cases "tr_getBody q")
          case None
          with assms resp show ?thesis
            by (cases "base (setAuth q tok') u3")
              (simp add: RoundTrip_def lockedToken_lift base_logged_def Let_def t b t3 tok'(1) \<open>r1 = Inr tok\<close> split: sum.splits)
        next
          case (Some gb)
          with tok'(2) obtain y where "gb = Inr y" by (cases gb) auto
          with Some assms resp show ?thesis
            by (cases "base ((setAuth q tok')\<lparr>tr_body := Some y\<rparr>) u3")
              (simp add: RoundTrip_def lockedToken_lift base_logged_def Let_def t b t3 tok'(1) \<open>r1 = Inr tok\<close> split: sum.splits)
        qed
        moreover have "replayed (setAuth q tok') ?q"
          using resp(2) tok'(2) by (auto simp: replayed_def setAuth_def split: option.splits sum.splits)
        moreover have "tok' \<noteq> []" "tok' = e_access (so_entry s3)" 
          using lockedToken_token [of store ev' True s1 d1 u2 tok' s3 d3 u3] t3 tok'(1) by simp_all
        moreover have "fst (base (setAuth q tok) u1) = Inr (401, resp)" using b resp(1) by simp
        ultimately have "tok \<noteq> [] \<and> fst (base (setAuth q tok) u1) = Inr (401, resp) \<and> tok' \<noteq> [] \<and> tok' = e_access (so_entry s')
            \<and> replayed (setAuth q tok') ?q \<and> l' = l @ [setAuth q tok, ?q]" using tok by simp
        then show ?thesis by (intro disjI2 exI) assumption
      qed
    qed
  qed
qed

end
