(* ===== verification/Bridge.thy ===== *)
theory Bridge
  imports Http Go_Url
begin

text \<open>
  \<open>internal/bridge/bridge.go\<close>: a child process speaking newline-delimited JSON-RPC behind an HTTP
  endpoint. Every POST handler, the goroutine that reads the child's output and the one that waits
  for its exit are threads; the sections under \<open>s.mu\<close>, the channel operations and the writes are
  the atomic steps. The steps are an executable function of an event, which says whose turn it is;
  a run is a list of events.
\<close>

section \<open>Messages\<close>

definition maxBody :: nat where
  "maxBody = 4194304"

definition notifQueue :: nat where
  "notifQueue = 256"

text \<open>
  \<open>envelope\<close>: the member \<open>id\<close> as its raw text (\<open>None\<close> when absent or \<open>null\<close>) and \<open>method\<close>. The
  raw text of a value is what the parser consumed.
\<close>

record envelope =
  env_id :: "string option"
  env_method :: string

definition first_json :: "string \<Rightarrow> (json \<times> string) option" where
  "first_json s = p_value (2 * length s + 2) s"

fun raw_members :: "nat \<Rightarrow> string \<Rightarrow> (string \<times> json \<times> string) list" where
  "raw_members 0 s = []"
| "raw_members (Suc n) s =
     (case p_str (drop 1 (skip_ws s)) of
        None \<Rightarrow> []
      | Some (k, r) \<Rightarrow>
          (let t = skip_ws (drop 1 (skip_ws r)) in
           case first_json t of
             None \<Rightarrow> []
           | Some (v, r) \<Rightarrow>
               (k, v, take (length t - length r) t)
               # (if has_prefix (skip_ws r) '','' then raw_members n (drop 1 (skip_ws r)) else [])))"

fun raw_field :: "string \<Rightarrow> string option \<Rightarrow> (string \<times> json \<times> string) list \<Rightarrow> string option" where
  "raw_field name cur [] = cur"
| "raw_field name cur ((k, v, raw) # kvs) =
     raw_field name (if \<not> fold_eq k name then cur else if v = J_null then None else Some raw) kvs"

definition parse_envelope :: "string \<Rightarrow> envelope option" where
  "parse_envelope s =
     (case unmarshal s of
        None \<Rightarrow> None
      | Some j \<Rightarrow>
          Option.bind (members j) (\<lambda>kvs.
          Option.bind (decode_field as_string None ''method'' [] kvs) (\<lambda>m.
          Some \<lparr>env_id = (if kvs = [] then None
                          else raw_field ''id'' None (raw_members (length s) (drop 1 (skip_ws s)))),
                env_method = m\<rparr>)))"

section \<open>The handlers\<close>

text \<open>What \<open>ServeHTTP\<close> and the first half of \<open>handlePost\<close> make of a request; \<open>exited\<close> is \<open>s.done\<close>.\<close>

datatype bridge_call =
    Call_reply response
  | Call_stream
  | Call_forward string
  | Call_request string string

definition bridge_error :: "nat \<Rightarrow> string \<Rightarrow> bridge_call" where
  "bridge_error status msg = Call_reply (http_error msg status)"

definition bridge_post :: "string option \<Rightarrow> bridge_call" where
  "bridge_post body =
     (case body of
        None \<Rightarrow> bridge_error 400 ''bad request body''
      | Some b \<Rightarrow>
          if length b > maxBody then bridge_error 400 ''bad request body''
          else (case parse_envelope b of
              None \<Rightarrow> bridge_error 400 ''body must be a single JSON-RPC object''
            | Some env \<Rightarrow>
                (case env_id env of
                   None \<Rightarrow> Call_forward b
                 | Some k \<Rightarrow> if env_method env = [] then Call_forward b else Call_request k b)))"

text \<open>Every response carries the session id.\<close>

definition bridge_headers :: "string \<Rightarrow> (string \<times> string) list" where
  "bridge_headers session = [(''Mcp-Session-Id'', session)]"

definition bridge_reply :: "string \<Rightarrow> bridge_call \<Rightarrow> bridge_call" where
  "bridge_reply session c = (case c of Call_reply r \<Rightarrow> Call_reply (add_headers (bridge_headers session) r) | _ \<Rightarrow> c)"

definition bridge_serve :: "string \<Rightarrow> bool \<Rightarrow> string \<Rightarrow> string option \<Rightarrow> bridge_call" where
  "bridge_serve session exited m body = bridge_reply session
     (if exited then bridge_error 502 ''mcp server process has exited''
      else if m = ''POST'' then bridge_post body
      else if m = ''GET'' then Call_stream
      else if m = ''DELETE'' then Call_reply \<lparr>rp_status = 200, rp_headers = [], rp_body = []\<rparr>
      else Call_reply (add_headers [(''Allow'', ''GET, POST, DELETE'')] (http_error ''method not allowed'' 405)))"

text \<open>A message on the SSE stream of \<open>handleGet\<close>, and a message on the child's standard input.\<close>

definition sse_event :: "string \<Rightarrow> string" where
  "sse_event msg = ''event: message'' @ [CHR 0x0A] @ ''data: '' @ msg @ [CHR 0x0A, CHR 0x0A]"

definition stdin_line :: "string \<Rightarrow> string" where
  "stdin_line msg = msg @ [CHR 0x0A]"

section \<open>State and steps\<close>

text \<open>
  How a request ends: with the child's line, because the child exited while it waited or had exited
  when it was to be sent, because the write failed, or because its client went away.
\<close>

datatype outcome = Answer string | Exited | Refused | Write_failed string | Gone

text \<open>The responses: of a request (none to a client that went away), of a forwarded message, of the stream.\<close>

definition post_reply :: "string \<Rightarrow> outcome \<Rightarrow> response option" where
  "post_reply session r = map_option (add_headers (bridge_headers session))
     (case r of
        Answer m \<Rightarrow> Some \<lparr>rp_status = 200, rp_headers = [(''Content-Type'', ''application/json'')], rp_body = m\<rparr>
      | Exited \<Rightarrow> Some (http_error ''mcp server process exited mid-request'' 502)
      | Refused \<Rightarrow> Some (http_error ''mcp server process has exited'' 502)
      | Write_failed e \<Rightarrow> Some (http_error (''write to mcp server: '' @ e) 502)
      | Gone \<Rightarrow> None)"

definition forward_reply :: "string \<Rightarrow> outcome option \<Rightarrow> response option" where
  "forward_reply session r = (case r of
     None \<Rightarrow> Some \<lparr>rp_status = 202, rp_headers = bridge_headers session, rp_body = []\<rparr>
   | Some r \<Rightarrow> post_reply session r)"

definition stream_reply :: "string \<Rightarrow> string list \<Rightarrow> response" where
  "stream_reply session msgs = \<lparr>rp_status = 200,
     rp_headers = bridge_headers session @ [(''Content-Type'', ''text/event-stream''), (''Cache-Control'', ''no-cache''), (''Connection'', ''keep-alive'')],
     rp_body = concat (map sse_event msgs)\<rparr>"

text \<open>
  A request handler has registered its channel and is about to send, waits in its \<open>select\<close>, leaves
  (its deferred deregistration is still to come), or has left. Its channel has its number.
\<close>

datatype post_pc = Sending | Waiting | Leaving outcome | Left outcome

record post =
  po_key :: string
  po_body :: string
  po_pc :: post_pc

datatype reader = Reading | Delivering nat string | Panicked

record bridge =
  br_pending :: "string \<rightharpoonup> nat"
  br_posts :: "nat \<rightharpoonup> post"
  br_buf :: "nat \<rightharpoonup> string"
  br_closed :: "nat set"
  br_reader :: reader
  br_notifs :: "string list"
  br_stdin :: "string list"
  br_swept :: bool
  br_err :: "string option"
  br_done :: bool

definition br_new :: bridge where
  "br_new = \<lparr>br_pending = Map.empty, br_posts = Map.empty, br_buf = Map.empty, br_closed = {}, br_reader = Reading,
     br_notifs = [], br_stdin = [], br_swept = False, br_err = None, br_done = False\<rparr>"

text \<open>The events: a step of a request handler, of a forwarded message, of the reader, of the SSE
  stream, of the goroutine that waits for the child.\<close>

datatype br_event =
    Post nat string string
  | Send nat "string option"
  | Receive nat
  | Notice_closed nat
  | Notice_done nat
  | Cancel nat
  | Leave nat
  | Forward_send string "string option"
  | Line string
  | Deliver
  | Stream_take
  | Sweep "string option"
  | Close_done

definition set_pc :: "nat \<Rightarrow> post_pc \<Rightarrow> bridge \<Rightarrow> bridge" where
  "set_pc i pc b = (case br_posts b i of None \<Rightarrow> b
     | Some p \<Rightarrow> b\<lparr>br_posts := (br_posts b)(i \<mapsto> p\<lparr>po_pc := pc\<rparr>)\<rparr>)"

definition pc_is :: "nat \<Rightarrow> post_pc \<Rightarrow> bridge \<Rightarrow> bool" where
  "pc_is i pc b = (case br_posts b i of None \<Rightarrow> False | Some p \<Rightarrow> po_pc p = pc)"

text \<open>\<open>send\<close>, under the lock; \<open>fault\<close> is the error of the write, if it fails.\<close>

definition bridge_send :: "string \<Rightarrow> string option \<Rightarrow> bridge \<Rightarrow> outcome option \<times> bridge" where
  "bridge_send msg fault b =
     (if br_done b then (Some Refused, b)
      else (case fault of
          None \<Rightarrow> (None, b\<lparr>br_stdin := br_stdin b @ [stdin_line msg]\<rparr>)
        | Some e \<Rightarrow> (Some (Write_failed e), b)))"

text \<open>One line of \<open>readLoop\<close> up to the unlock: skipped, queued, dropped, or on its way to a request.\<close>

definition read_line :: "string \<Rightarrow> bridge \<Rightarrow> bridge" where
  "read_line line b =
     (if trim_space line = [] then b
      else (case parse_envelope line of
          None \<Rightarrow> b
        | Some env \<Rightarrow>
            (case Option.bind (env_id env) (br_pending b) of
               Some i \<Rightarrow> b\<lparr>br_reader := Delivering i line\<rparr>
             | None \<Rightarrow> if length (br_notifs b) < notifQueue then b\<lparr>br_notifs := br_notifs b @ [line]\<rparr> else b)))"

fun fire :: "br_event \<Rightarrow> bridge \<Rightarrow> bridge option" where
  "fire (Post i key body) b =
     (if br_posts b i \<noteq> None then None
      else Some (b\<lparr>br_pending := (br_pending b)(key \<mapsto> i),
                   br_posts := (br_posts b)(i \<mapsto> \<lparr>po_key = key, po_body = body, po_pc = Sending\<rparr>)\<rparr>))"
| "fire (Send i ok) b =
     (case br_posts b i of
        None \<Rightarrow> None
      | Some p \<Rightarrow>
          if po_pc p \<noteq> Sending then None
          else (case bridge_send (po_body p) ok b of
              (None, b) \<Rightarrow> Some (set_pc i Waiting b)
            | (Some r, b) \<Rightarrow> Some (set_pc i (Leaving r) b)))"
| "fire (Receive i) b =
     (case br_buf b i of
        None \<Rightarrow> None
      | Some m \<Rightarrow> if pc_is i Waiting b then Some (set_pc i (Leaving (Answer m)) (b\<lparr>br_buf := (br_buf b)(i := None)\<rparr>)) else None)"
| "fire (Notice_closed i) b =
     (if pc_is i Waiting b \<and> i \<in> br_closed b \<and> br_buf b i = None then Some (set_pc i (Leaving Exited) b) else None)"
| "fire (Notice_done i) b = (if pc_is i Waiting b \<and> br_done b then Some (set_pc i (Leaving Exited) b) else None)"
| "fire (Cancel i) b = (if pc_is i Waiting b then Some (set_pc i (Leaving Gone) b) else None)"
| "fire (Leave i) b =
     (case br_posts b i of
        None \<Rightarrow> None
      | Some p \<Rightarrow> (case po_pc p of
            Leaving r \<Rightarrow> Some (set_pc i (Left r) (b\<lparr>br_pending := (br_pending b)(po_key p := None)\<rparr>))
          | _ \<Rightarrow> None))"
| "fire (Forward_send msg ok) b = Some (snd (bridge_send msg ok b))"
| "fire (Line l) b = (if br_reader b = Reading then Some (read_line l b) else None)"
| "fire Deliver b =
     (case br_reader b of
        Delivering i m \<Rightarrow>
          if i \<in> br_closed b then Some (b\<lparr>br_reader := Panicked\<rparr>)
          else if br_buf b i = None then Some (b\<lparr>br_buf := (br_buf b)(i \<mapsto> m), br_reader := Reading\<rparr>)
          else None
      | _ \<Rightarrow> None)"
| "fire Stream_take b = (case br_notifs b of [] \<Rightarrow> None | m # ms \<Rightarrow> Some (b\<lparr>br_notifs := ms\<rparr>))"
| "fire (Sweep err) b =
     (if br_swept b then None
      else Some (b\<lparr>br_closed := br_closed b \<union> ran (br_pending b), br_pending := Map.empty, br_swept := True, br_err := err\<rparr>))"
| "fire Close_done b = (if br_swept b \<and> \<not> br_done b then Some (b\<lparr>br_done := True\<rparr>) else None)"

text \<open>\<open>Err\<close> waits for \<open>Done\<close>: there is no answer before it.\<close>

definition br_Err :: "bridge \<Rightarrow> string option option" where
  "br_Err b = (if br_done b then Some (br_err b) else None)"

text \<open>
  \<open>Start\<close>: the errors of the three pipes and of the start, where there are some, in the order they
  can occur, and the random bytes of the session id.
\<close>

definition first_error :: "string option list \<Rightarrow> string option" where
  "first_error es = (case filter (\<lambda>e. e \<noteq> None) es of [] \<Rightarrow> None | e # _ \<Rightarrow> e)"

datatype start_error = Pipe_failed string | Start_failed_for string string

definition bridge_Start :: "string option list \<Rightarrow> string option \<Rightarrow> string \<Rightarrow> string \<Rightarrow> start_error + bridge \<times> string" where
  "bridge_Start pipes start name rnd =
     (case first_error pipes of
        Some e \<Rightarrow> Inl (Pipe_failed e)
      | None \<Rightarrow> (case start of
          Some e \<Rightarrow> Inl (Start_failed_for name e)
        | None \<Rightarrow> Inr (br_new, hex_encode rnd)))"

text \<open>What \<open>readLoop\<close> and \<open>logStderr\<close> scan off the child's output; each line of the first is an event \<open>Line\<close>.\<close>

definition bridge_maxLine :: nat where
  "bridge_maxLine = 33554432"

definition bridge_lines :: "string \<Rightarrow> string list" where
  "bridge_lines stdout = scan_lines bridge_maxLine stdout"

definition logStderr :: "string \<Rightarrow> string list" where
  "logStderr stderr = scan_lines 1048576 stderr"

fun br_run :: "br_event list \<Rightarrow> bridge \<Rightarrow> bridge option" where
  "br_run [] b = Some b"
| "br_run (e # es) b = Option.bind (fire e b) (br_run es)"

text \<open>States reached by events the environment's policy allows.\<close>

inductive br_reach :: "(br_event \<Rightarrow> bridge \<Rightarrow> bool) \<Rightarrow> bridge \<Rightarrow> bool" for allowed where
  start: "br_reach allowed br_new"
| step: "br_reach allowed b \<Longrightarrow> allowed e b \<Longrightarrow> fire e b = Some b' \<Longrightarrow> br_reach allowed b'"

definition any_event :: "br_event \<Rightarrow> bridge \<Rightarrow> bool" where
  "any_event e b = True"

text \<open>The clients' ids are distinct: no request is posted with the id of one in flight.\<close>

definition in_flight :: "bridge \<Rightarrow> nat \<Rightarrow> string \<Rightarrow> bool" where
  "in_flight b i k \<longleftrightarrow> (\<exists>p. br_posts b i = Some p \<and> po_key p = k \<and> (\<forall>r. po_pc p \<noteq> Left r))"

definition distinct_ids :: "br_event \<Rightarrow> bridge \<Rightarrow> bool" where
  "distinct_ids e b \<longleftrightarrow> (\<forall>i k body. e = Post i k body \<longrightarrow> (\<forall>j. \<not> in_flight b j k))"

section \<open>Invariants\<close>

text \<open>A message for a handler carries the handler's id, wherever it is.\<close>

definition has_id :: "string \<Rightarrow> string \<Rightarrow> bool" where
  "has_id m k \<longleftrightarrow> (\<exists>env. parse_envelope m = Some env \<and> env_id env = Some k)"

definition key_of :: "bridge \<Rightarrow> nat \<Rightarrow> string option" where
  "key_of b i = map_option po_key (br_posts b i)"

definition addressed :: "bridge \<Rightarrow> nat \<Rightarrow> string \<Rightarrow> bool" where
  "addressed b i m \<longleftrightarrow> (\<exists>k. key_of b i = Some k \<and> has_id m k)"

text \<open>Which messages a handler holds: the one in its buffer, the one on its way, the one it answered.\<close>

definition holds :: "bridge \<Rightarrow> nat \<Rightarrow> string \<Rightarrow> bool" where
  "holds b i m \<longleftrightarrow> br_buf b i = Some m \<or> br_reader b = Delivering i m
     \<or> pc_is i (Leaving (Answer m)) b \<or> pc_is i (Left (Answer m)) b"

definition ids_match :: "bridge \<Rightarrow> bool" where
  "ids_match b \<longleftrightarrow> (\<forall>k i. br_pending b k = Some i \<longrightarrow> key_of b i = Some k)
     \<and> (\<forall>i m. holds b i m \<longrightarrow> addressed b i m)"

lemma ids_match_new: "ids_match br_new"
  by (simp add: ids_match_def br_new_def holds_def pc_is_def)

lemma set_pc_sel [simp]:
  "br_pending (set_pc i pc b) = br_pending b" "br_buf (set_pc i pc b) = br_buf b" "br_closed (set_pc i pc b) = br_closed b"
  "br_reader (set_pc i pc b) = br_reader b" "br_notifs (set_pc i pc b) = br_notifs b" "br_done (set_pc i pc b) = br_done b"
  "br_stdin (set_pc i pc b) = br_stdin b" "br_swept (set_pc i pc b) = br_swept b"
  by (simp_all add: set_pc_def split: option.split)

lemma set_pc_posts: "br_posts (set_pc i pc b) j =
    (if j = i then map_option (\<lambda>p. p\<lparr>po_pc := pc\<rparr>) (br_posts b i) else br_posts b j)"
  by (simp add: set_pc_def split: option.split)

lemma key_of_set_pc [simp]: "key_of (set_pc i pc b) = key_of b"
  by (auto simp: key_of_def set_pc_posts option.map_comp comp_def fun_eq_iff)

lemma pc_is_set_pc: "pc_is j pc' (set_pc i pc b) \<longleftrightarrow> (if j = i then br_posts b i \<noteq> None \<and> pc = pc' else pc_is j pc' b)"
  by (auto simp: pc_is_def set_pc_posts split: option.splits)

lemma pc_is_update [simp]:
  "pc_is x pc (b\<lparr>br_pending := q\<rparr>) = pc_is x pc b" "pc_is x pc (b\<lparr>br_buf := f\<rparr>) = pc_is x pc b"
  "pc_is x pc (b\<lparr>br_stdin := l\<rparr>) = pc_is x pc b" "pc_is x pc (b\<lparr>br_notifs := l\<rparr>) = pc_is x pc b"
  "pc_is x pc (b\<lparr>br_reader := r\<rparr>) = pc_is x pc b" "pc_is x pc (b\<lparr>br_closed := c\<rparr>) = pc_is x pc b"
  "pc_is x pc (b\<lparr>br_err := t'\<rparr>) = pc_is x pc b"
  "pc_is x pc (b\<lparr>br_swept := t\<rparr>) = pc_is x pc b" "pc_is x pc (b\<lparr>br_done := t\<rparr>) = pc_is x pc b"
  "pc_is x pc (b\<lparr>br_pending := q, br_posts := (br_posts b)(i \<mapsto> p)\<rparr>) = (if x = i then po_pc p = pc else pc_is x pc b)"
  by (simp_all add: pc_is_def)

lemma read_line_sel [simp]:
  "br_posts (read_line l b) = br_posts b" "br_buf (read_line l b) = br_buf b" "br_pending (read_line l b) = br_pending b"
  "br_closed (read_line l b) = br_closed b" "br_stdin (read_line l b) = br_stdin b" "br_done (read_line l b) = br_done b"
  "br_swept (read_line l b) = br_swept b" "pc_is x pc (read_line l b) = pc_is x pc b"
  by (simp_all add: read_line_def split: option.split)

text \<open>
  A step keeps the invariant when keys stay, registrations only go, and what a handler holds after it
  either held before or carries the handler's id.
\<close>

lemma ids_match_step:
  assumes "ids_match b" and "\<And>i k. key_of b i = Some k \<Longrightarrow> key_of b' i = Some k"
    and "\<And>k i. br_pending b' k = Some i \<Longrightarrow> br_pending b k = Some i \<or> key_of b' i = Some k"
    and "\<And>i m. holds b' i m \<Longrightarrow> holds b i m \<or> addressed b' i m"
  shows "ids_match b'"
  using assms unfolding ids_match_def addressed_def by metis

lemma fire_ids_match:
  assumes inv: "ids_match b" and run: "fire e b = Some b'"
  shows "ids_match b'"
proof (rule ids_match_step [OF inv])
  show "key_of b' i = Some k" if "key_of b i = Some k" for i k
    using run that
    by (cases e) (auto simp: bridge_send_def key_of_def set_pc_posts read_line_def split: if_splits option.splits
        post_pc.splits reader.splits list.splits)
  show "br_pending b k = Some i \<or> key_of b' i = Some k" if "br_pending b' k = Some i" for i k
    using run that
    by (cases e) (auto simp: bridge_send_def key_of_def read_line_def split: if_splits option.splits
        post_pc.splits reader.splits list.splits)
  have line: "addressed b' i m" if "br_reader b = Reading" "b' = read_line l b" "br_reader b' = Delivering i m" for i m l
  proof -
    from that obtain env k where "parse_envelope m = Some env" "env_id env = Some k" "br_pending b k = Some i" "m = l"
      by (auto simp: read_line_def bind_eq_Some_conv split: if_splits option.splits)
    moreover have "key_of b' i = key_of b i" using that(2) by (simp add: read_line_def key_of_def split: option.split)
    ultimately show ?thesis using inv by (auto simp: ids_match_def addressed_def has_id_def)
  qed
  show "holds b i m \<or> addressed b' i m" if h: "holds b' i m" for i m
  proof (cases "br_reader b' = Delivering i m \<and> br_reader b = Reading")
    case True
    with run obtain l where "b' = read_line l b"
      by (cases e) (auto simp: bridge_send_def split: if_splits option.splits post_pc.splits reader.splits list.splits)
    with line True show ?thesis by blast
  next
    case False
    show ?thesis
    proof (cases e)
      case (Leave j)
      with run obtain p r where p: "br_posts b j = Some p" "po_pc p = Leaving r"
        and b': "b' = set_pc j (Left r) (b\<lparr>br_pending := (br_pending b)(po_key p := None)\<rparr>)"
        by (auto split: option.splits post_pc.splits)
      then have "pc_is j (Leaving r) b" by (simp add: pc_is_def)
      with h p show ?thesis by (auto simp: b' holds_def pc_is_set_pc split: if_splits)
    next
      case (Receive j)
      with run obtain x where x: "br_buf b j = Some x" "pc_is j Waiting b"
        and b': "b' = set_pc j (Leaving (Answer x)) (b\<lparr>br_buf := (br_buf b)(j := None)\<rparr>)"
        by (auto split: option.splits if_splits)
      with h show ?thesis by (auto simp: holds_def pc_is_set_pc split: if_splits)
    qed (use h run False in \<open>auto simp: holds_def bridge_send_def pc_is_set_pc split: if_splits option.splits list.splits reader.splits\<close>)
  qed
qed

lemma ids_match_reach: "br_reach allowed b \<Longrightarrow> ids_match b"
  by (induction rule: br_reach.induct) (auto intro: ids_match_new fire_ids_match)

text \<open>
  With distinct ids every waiting request is registered under its own key until the child exits:
  its answer can only come to it.
\<close>

definition awaiting :: "bridge \<Rightarrow> nat \<Rightarrow> string \<Rightarrow> bool" where
  "awaiting b i k \<longleftrightarrow> (\<exists>p. br_posts b i = Some p \<and> po_key p = k \<and> po_pc p \<in> {Sending, Waiting})"

definition registered :: "bridge \<Rightarrow> bool" where
  "registered b \<longleftrightarrow> (\<forall>i j k. in_flight b i k \<longrightarrow> in_flight b j k \<longrightarrow> i = j)
     \<and> (\<forall>i k. awaiting b i k \<longrightarrow> br_pending b k = Some i \<or> i \<in> br_closed b)"

lemma registered_new: "registered br_new"
  by (simp add: registered_def in_flight_def awaiting_def br_new_def)

lemma awaiting_in_flight: "awaiting b i k \<Longrightarrow> in_flight b i k"
  by (auto simp: awaiting_def in_flight_def)

text \<open>A step that posts nothing and removes no registration of a waiting request.\<close>

lemma registered_step:
  assumes "registered b" and "\<And>i k. in_flight b' i k \<Longrightarrow> in_flight b i k" and "\<And>i k. awaiting b' i k \<Longrightarrow> awaiting b i k"
    and "\<And>i k. awaiting b' i k \<Longrightarrow> br_pending b k = Some i \<Longrightarrow> br_pending b' k = Some i \<or> i \<in> br_closed b'"
    and "br_closed b \<subseteq> br_closed b'"
  shows "registered b'"
  using assms unfolding registered_def by blast

lemma registered_set_pc:
  assumes "registered b" and "br_posts b i = Some p" and "\<forall>r. po_pc p \<noteq> Left r" and "pc = Waiting \<Longrightarrow> po_pc p = Sending" and "pc \<noteq> Sending"
  shows "registered (set_pc i pc b)"
  using assms by (intro registered_step [OF assms(1)]) (auto simp: in_flight_def awaiting_def set_pc_posts split: if_splits)

lemma registered_end:
  assumes "registered b" and "pc_is i Waiting b"
  shows "registered (set_pc i (Leaving r) b)"
proof -
  from assms(2) obtain p where "br_posts b i = Some p" "po_pc p = Waiting" by (auto simp: pc_is_def split: option.splits)
  with assms(1) show ?thesis by (intro registered_set_pc) auto
qed

lemma registered_cong:
  "br_posts b' = br_posts b \<Longrightarrow> br_pending b' = br_pending b \<Longrightarrow> br_closed b' = br_closed b \<Longrightarrow> registered b' = registered b"
  by (simp add: registered_def in_flight_def awaiting_def)

lemma fire_registered:
  assumes inv: "registered b" and ok: "distinct_ids e b" and run: "fire e b = Some b'"
  shows "registered b'"
proof (cases e)
  case (Post i k body)
  with run have b': "br_posts b i = None" "b' = b\<lparr>br_pending := (br_pending b)(k \<mapsto> i),
      br_posts := (br_posts b)(i \<mapsto> \<lparr>po_key = k, po_body = body, po_pc = Sending\<rparr>)\<rparr>" by (auto split: if_splits)
  have new: "\<not> in_flight b j k" for j using ok Post by (simp add: distinct_ids_def)
  have f: "in_flight b' j x \<longleftrightarrow> (if j = i then x = k else in_flight b j x)" for j x
    by (auto simp: b'(2) in_flight_def)
  have a: "awaiting b' j x \<longleftrightarrow> (if j = i then x = k else awaiting b j x)" for j x
    by (auto simp: b'(2) awaiting_def)
  show ?thesis
    using inv new awaiting_in_flight unfolding registered_def f a by (auto simp: b'(2) split: if_splits; metis)
next
  case (Leave i)
  with run obtain p r where p: "br_posts b i = Some p" "po_pc p = Leaving r"
    and b': "b' = set_pc i (Left r) (b\<lparr>br_pending := (br_pending b)(po_key p := None)\<rparr>)"
    by (auto split: option.splits post_pc.splits)
  have own: "in_flight b i (po_key p)" using p by (auto simp: in_flight_def)
  show ?thesis
  proof (rule registered_step [OF inv])
    show "in_flight b j k" if "in_flight b' j k" for j k
      using that by (auto simp: b' in_flight_def set_pc_posts split: if_splits)
    show aw: "awaiting b j k" if "awaiting b' j k" for j k
      using that by (auto simp: b' awaiting_def set_pc_posts split: if_splits)
    show "br_pending b' k = Some j \<or> j \<in> br_closed b'" if "awaiting b' j k" "br_pending b k = Some j" for j k
    proof -
      have "j \<noteq> i" using that(1) p by (auto simp: b' awaiting_def set_pc_posts)
      moreover have "in_flight b j k" using aw [OF that(1)] by (rule awaiting_in_flight)
      ultimately have "k \<noteq> po_key p" using inv own by (auto simp: registered_def)
      then show ?thesis using that(2) by (simp add: b')
    qed
  qed (simp add: b')
next
  case (Send i okw)
  with run obtain p where p: "br_posts b i = Some p" "po_pc p = Sending" by (auto split: option.splits if_splits)
  obtain pc b1 where b': "b' = set_pc i pc b1" and pc: "pc \<noteq> Sending" and b1: "b1 = b \<or> b1 = b\<lparr>br_stdin := br_stdin b @ [stdin_line (po_body p)]\<rparr>"
    using run Send p by (auto simp: bridge_send_def split: if_splits option.splits)
  have "registered b1" using b1 inv registered_cong [of b1 b] by auto
  then show ?thesis using b1 p pc unfolding b' by (intro registered_set_pc) auto
next
  case (Receive i)
  with run obtain m where b': "b' = set_pc i (Leaving (Answer m)) (b\<lparr>br_buf := (br_buf b)(i := None)\<rparr>)" "pc_is i Waiting b"
    by (auto split: option.splits if_splits)
  have "registered (b\<lparr>br_buf := (br_buf b)(i := None)\<rparr>)" using inv registered_cong [of "b\<lparr>br_buf := (br_buf b)(i := None)\<rparr>" b] by simp
  then show ?thesis using b'(2) unfolding b'(1) by (intro registered_end) auto
next
  case (Notice_closed i)
  with run have b': "b' = set_pc i (Leaving Exited) b" "pc_is i Waiting b" by (auto split: if_splits)
  with inv show ?thesis by (simp add: registered_end)
next
  case (Notice_done i)
  with run have b': "b' = set_pc i (Leaving Exited) b" "pc_is i Waiting b" by (auto split: if_splits)
  with inv show ?thesis by (simp add: registered_end)
next
  case (Cancel i)
  with run have b': "b' = set_pc i (Leaving Gone) b" "pc_is i Waiting b" by (auto split: if_splits)
  with inv show ?thesis by (simp add: registered_end)
next
  case (Sweep err)
  with run have b': "b' = b\<lparr>br_closed := br_closed b \<union> ran (br_pending b), br_pending := Map.empty, br_swept := True, br_err := err\<rparr>"
    by (auto split: if_splits)
  show ?thesis unfolding b'
    by (rule registered_step [OF inv]) (auto simp: in_flight_def awaiting_def ran_def)
qed (use inv run registered_cong [of b' b] in \<open>auto simp: bridge_send_def
      split: if_splits option.splits reader.splits list.splits\<close>)

lemma registered_reach: "br_reach distinct_ids b \<Longrightarrow> registered b"
  by (induction rule: br_reach.induct) (auto intro: registered_new fire_registered)

section \<open>What the bridge promises\<close>

text \<open>An answer is a line of the child with the request's own id, whatever the schedule.\<close>

lemma answer_has_id:
  assumes "br_reach allowed b" and "br_posts b i = Some p" and "po_pc p = Left (Answer m)"
  shows "has_id m (po_key p)"
proof -
  have "holds b i m" using assms(2,3) by (simp add: holds_def pc_is_def)
  with ids_match_reach [OF assms(1)] have "addressed b i m" by (simp add: ids_match_def)
  with assms(2) show ?thesis by (auto simp: addressed_def key_of_def)
qed

text \<open>With distinct ids, the line with a waiting request's id goes to that request.\<close>

lemma line_reaches_waiter:
  assumes reach: "br_reach distinct_ids b" and wait: "br_posts b i = Some p" "po_pc p = Waiting" "i \<notin> br_closed b"
    and idle: "br_reader b = Reading" and line: "has_id m (po_key p)" "trim_space m \<noteq> []"
  shows "fire (Line m) b = Some (b\<lparr>br_reader := Delivering i m\<rparr>)"
proof -
  have "awaiting b i (po_key p)" using wait(1,2) by (simp add: awaiting_def)
  with registered_reach [OF reach] wait(3) have "br_pending b (po_key p) = Some i" by (auto simp: registered_def)
  with line idle show ?thesis by (auto simp: read_line_def has_id_def)
qed

text \<open>Once the child's exit is announced no request stays in its \<open>select\<close>.\<close>

lemma exit_releases:
  assumes "br_done b" and "br_posts b i = Some p" and "po_pc p = Waiting"
  shows "fire (Notice_done i) b = Some (set_pc i (Leaving Exited) b)"
  using assms by (simp add: pc_is_def)

text \<open>
  Two requests in flight with the same id, as two clients of one tunnel that both count from one
  will have: the second takes over the registration, receives the answer to the first, and the answer
  to the second is queued as if the server had initiated it, while the first keeps waiting.
\<close>

definition mix_up :: "string \<Rightarrow> string \<Rightarrow> string \<Rightarrow> string \<Rightarrow> string \<Rightarrow> br_event list" where
  "mix_up k req1 req2 ans1 ans2 = [Post 1 k req1, Send 1 None, Post 2 k req2, Send 2 None,
     Line ans1, Deliver, Receive 2, Leave 2, Line ans2]"

lemma equal_ids_mixed_up:
  assumes "has_id ans1 k" "has_id ans2 k" and "trim_space ans1 \<noteq> []" "trim_space ans2 \<noteq> []"
  shows "\<exists>b. br_run (mix_up k req1 req2 ans1 ans2) br_new = Some b
    \<and> br_stdin b = [stdin_line req1, stdin_line req2]
    \<and> br_posts b 1 = Some \<lparr>po_key = k, po_body = req1, po_pc = Waiting\<rparr>
    \<and> br_posts b 2 = Some \<lparr>po_key = k, po_body = req2, po_pc = Left (Answer ans1)\<rparr>
    \<and> br_notifs b = [ans2] \<and> br_pending b k = None"
proof -
  obtain e1 e2 where "parse_envelope ans1 = Some e1" "env_id e1 = Some k" "parse_envelope ans2 = Some e2" "env_id e2 = Some k"
    using assms(1,2) by (auto simp: has_id_def)
  with assms(3,4) show ?thesis
    by (simp add: mix_up_def br_new_def bridge_send_def set_pc_def pc_is_def read_line_def notifQueue_def)
qed

text \<open>
  The reader looks a channel up under the lock and sends after it; when the child's exit is handled
  in between, the channel is closed and the send panics.
\<close>

lemma send_on_closed_channel:
  assumes "br_reach allowed b" and "br_reader b = Delivering i m" and "\<not> br_swept b" and "br_pending b k = Some i"
  shows "\<exists>b'. br_run [Sweep err, Deliver] b = Some b' \<and> br_reader b' = Panicked"
  using assms by (auto simp: ran_def)

text \<open>
  When the child answers an id twice and the client goes away before it takes the first answer, the
  reader waits for room in a channel nobody reads and nobody closes: no later line is delivered.
\<close>

definition stuck :: "nat \<Rightarrow> string \<Rightarrow> bridge \<Rightarrow> bool" where
  "stuck i m b \<longleftrightarrow> br_reader b = Delivering i m \<and> br_buf b i \<noteq> None \<and> i \<notin> br_closed b \<and> i \<notin> ran (br_pending b)
     \<and> (\<exists>p r. br_posts b i = Some p \<and> po_pc p = Left r)"

lemma stuck_left: "stuck i m b \<Longrightarrow> \<exists>r. pc_is i (Left r) b"
  by (auto simp: stuck_def pc_is_def)

lemma fire_stuck:
  assumes "stuck i m b" and "fire e b = Some b'"
  shows "stuck i m b'"
proof -
  have left: "pc_is i pc b \<Longrightarrow> \<exists>r. pc = Left r" for pc using assms(1) by (auto simp: stuck_def pc_is_def)
  have other: "stuck i m (set_pc j pc b)" if "j \<noteq> i" for j pc
    using assms(1) that by (simp add: stuck_def set_pc_posts)
  show ?thesis
  proof (cases e)
    case (Post j k body)
    with assms show ?thesis by (auto simp: stuck_def ran_def split: if_splits)
  next
    case (Send j ok)
    with assms have "j \<noteq> i" by (auto simp: stuck_def split: if_splits)
    with assms Send show ?thesis by (auto simp: stuck_def bridge_send_def set_pc_posts split: option.splits if_splits)
  next
    case (Leave j)
    with assms have "j \<noteq> i" by (auto simp: stuck_def)
    with assms Leave show ?thesis by (auto simp: stuck_def ran_def set_pc_posts split: option.splits post_pc.splits if_splits)
  next
    case (Receive j)
    with assms(2) left [of Waiting] have "j \<noteq> i" by (auto split: option.splits if_splits)
    with assms Receive show ?thesis by (auto simp: stuck_def set_pc_posts split: option.splits if_splits)
  qed (use assms left [of Waiting] other in \<open>auto simp: stuck_def bridge_send_def set_pc_posts ran_def
      split: if_splits option.splits list.splits\<close>)
qed

lemma run_stuck: "stuck i m b \<Longrightarrow> br_run es b = Some b' \<Longrightarrow> stuck i m b'"
  by (induction es arbitrary: b) (auto simp: bind_eq_Some_conv dest: fire_stuck)

definition answered_twice :: "string \<Rightarrow> string \<Rightarrow> string \<Rightarrow> br_event list" where
  "answered_twice k req ans = [Post 1 k req, Send 1 None, Line ans, Deliver, Line ans, Cancel 1, Leave 1]"

lemma answered_twice_stuck:
  assumes "has_id ans k" and "trim_space ans \<noteq> []"
  shows "\<exists>b. br_run (answered_twice k req ans) br_new = Some b \<and> stuck 1 ans b"
proof -
  obtain e where "parse_envelope ans = Some e" "env_id e = Some k" using assms(1) by (auto simp: has_id_def)
  with assms(2) show ?thesis
    by (simp add: answered_twice_def br_new_def bridge_send_def set_pc_def pc_is_def read_line_def stuck_def ran_def)
qed

lemma br_run_reach:
  assumes "\<And>e b. allowed e b"
  shows "br_reach allowed b \<Longrightarrow> br_run es b = Some b' \<Longrightarrow> br_reach allowed b'"
proof (induction es arbitrary: b)
  case (Cons e es)
  then obtain b1 where "fire e b = Some b1" "br_run es b1 = Some b'" by (auto simp: bind_eq_Some_conv)
  with Cons.IH [of b1] br_reach.step [OF Cons.prems(1) assms] show ?case by blast
qed simp

end
