(* ===== verification/Stdiofront.thy ===== *)
theory Stdiofront
  imports Bridge Headers Go_Url
begin

text \<open>
  \<open>internal/stdiofront/stdiofront.go\<close>, the mirror image of the bridge: lines of a client on standard
  input become requests to a remote endpoint, and its answers and events become lines on standard
  output. The HTTP client over the network is an argument, a function of the request and of a state
  of its own. Every operation is a function of the server's state; requests run in goroutines, and a
  run here is one schedule in which they complete one after the other.
\<close>

section \<open>The event stream\<close>

definition front_maxLine :: nat where
  "front_maxLine = 33554432"

text \<open>
  \<open>dispatch\<close>: the payload of one event goes to the output; it says whether reading goes on.
  An output is the list of the messages written, each of them followed by a newline.
\<close>

definition front_dispatch :: "string \<Rightarrow> string \<Rightarrow> string list \<Rightarrow> bool \<times> string list" where
  "front_dispatch data want out =
     (let line = trim_space data in
      if line = [] then (True, out)
      else if want \<noteq> [] \<and> (case parse_envelope line of None \<Rightarrow> False | Some env \<Rightarrow> env_id env = Some want)
      then (False, out @ [line])
      else (True, out @ [line]))"

text \<open>One line of \<open>readEvents\<close>, with its terminator if it has one.\<close>

definition front_line :: "string \<Rightarrow> string \<Rightarrow> string \<Rightarrow> string list \<Rightarrow> bool \<times> string \<times> string list" where
  "front_line want line data out =
     (let line = trim_right line [CHR 0x0D, CHR 0x0A] in
      if line = [] then
        (if data = [] then (True, [], out)
         else (case front_dispatch data want out of (go, out) \<Rightarrow> (go, [], out)))
      else (case cut_prefix line ''data:'' of
          Some rest \<Rightarrow> (True, data @ trim_prefix rest '' '' @ [CHR 0x0A], out)
        | None \<Rightarrow> (True, data, out)))"

text \<open>
  \<open>readEvents\<close> on what \<open>ReadString\<close> cuts the body into: all but the last piece end with a newline,
  the last one (empty when the body ends with a newline) comes with the end of the body or an error.
\<close>

fun front_pieces :: "string \<Rightarrow> string list \<Rightarrow> string \<Rightarrow> string list \<Rightarrow> string list" where
  "front_pieces want [] data out = out"
| "front_pieces want [p] data out =
     (case (if p = [] then (True, data, out) else front_line want p data out) of
        (False, data, out) \<Rightarrow> out
      | (True, data, out) \<Rightarrow> if data = [] then out else snd (front_dispatch data want out))"
| "front_pieces want (p # q # ps) data out =
     (case front_line want (p @ [CHR 0x0A]) data out of
        (False, data, out) \<Rightarrow> out
      | (True, data, out) \<Rightarrow> front_pieces want (q # ps) data out)"

definition readEvents :: "string \<Rightarrow> string \<Rightarrow> string list \<Rightarrow> string list" where
  "readEvents body want out = front_pieces want (split_byte (CHR 0x0A) body) [] out"

section \<open>State and requests\<close>

record front =
  fr_session :: string
  fr_init :: "string option"
  fr_stream :: bool
  fr_out :: "string list"

definition front_new :: front where
  "front_new = \<lparr>fr_session = [], fr_init = None, fr_stream = False, fr_out = []\<rparr>"

text \<open>What \<open>Serve\<close> is given, a request as it is handed to the HTTP client, and its response: the
  body, and the error that ends it if there is one.\<close>

record front_config =
  fc_upstream :: url
  fc_headers :: "(string \<times> string list) list"

record front_request =
  fq_method :: string
  fq_headers :: headers
  fq_body :: string

record front_response =
  fs_code :: nat
  fs_status :: string
  fs_headers :: headers
  fs_body :: string
  fs_error :: "string option"

type_synonym 'u front_client = "front_request \<Rightarrow> 'u \<Rightarrow> (string + front_response) \<times> 'u"

definition writeLine :: "string \<Rightarrow> front \<Rightarrow> front" where
  "writeLine line s = s\<lparr>fr_out := fr_out s @ [line]\<rparr>"

text \<open>The bytes on standard output.\<close>

definition stdout_bytes :: "string list \<Rightarrow> string" where
  "stdout_bytes out = concat (map (\<lambda>l. l @ [CHR 0x0A]) out)"

definition jsonQuote :: "string \<Rightarrow> string" where
  "jsonQuote s = enc_str s"

definition error_line :: "string \<Rightarrow> string \<Rightarrow> string" where
  "error_line k msg =
     [CHR 0x7B, CHR 0x22] @ ''jsonrpc'' @ [CHR 0x22, CHR '':'', CHR 0x22] @ ''2.0'' @ [CHR 0x22, CHR '','', CHR 0x22] @ ''id''
     @ [CHR 0x22, CHR '':''] @ k @ [CHR '','', CHR 0x22] @ ''error'' @ [CHR 0x22, CHR '':'', CHR 0x7B, CHR 0x22] @ ''code''
     @ [CHR 0x22, CHR '':''] @ ''-32603'' @ [CHR '','', CHR 0x22] @ ''message'' @ [CHR 0x22, CHR '':''] @ jsonQuote msg
     @ [CHR 0x7D, CHR 0x7D]"

definition writeError :: "string \<Rightarrow> string \<Rightarrow> front \<Rightarrow> front" where
  "writeError k msg = writeLine (error_line k msg)"

definition with_session :: "front \<Rightarrow> headers \<Rightarrow> headers" where
  "with_session s h = (if fr_session s = [] then h else hdr_set ''Mcp-Session-Id'' (fr_session s) h)"

text \<open>\<open>http.NewRequestWithContext\<close> parses the text of the URL again, which may fail.\<close>

definition front_do :: "front_config \<Rightarrow> 'u front_client \<Rightarrow> front_request \<Rightarrow> 'u \<Rightarrow> (string + front_response) \<times> 'u" where
  "front_do c up q u = (if Parse (url_string (fc_upstream c)) = None then (Inl ''parse error'', u) else up q u)"

definition doPost_request :: "front_config \<Rightarrow> front \<Rightarrow> string \<Rightarrow> front_request" where
  "doPost_request c s msg = \<lparr>fq_method = ''POST'',
     fq_headers = copyHeaders (with_session s (hdr_set ''Accept'' ''application/json, text/event-stream''
       (hdr_set ''Content-Type'' ''application/json'' Map.empty))) (fc_headers c),
     fq_body = msg\<rparr>"

definition doPost :: "front_config \<Rightarrow> 'u front_client \<Rightarrow> string \<Rightarrow> front \<Rightarrow> 'u \<Rightarrow> (string + front_response) \<times> 'u" where
  "doPost c up msg s u = front_do c up (doPost_request c s msg) u"

definition is_2xx :: "nat \<Rightarrow> bool" where
  "is_2xx code \<longleftrightarrow> code div 100 = 2"

definition take_session :: "front_response \<Rightarrow> front \<Rightarrow> front" where
  "take_session resp s =
     (if hdr_get (fs_headers resp) ''Mcp-Session-Id'' = [] then s
      else s\<lparr>fr_session := hdr_get (fs_headers resp) ''Mcp-Session-Id''\<rparr>)"

definition front_reinit :: "front_config \<Rightarrow> 'u front_client \<Rightarrow> front \<Rightarrow> 'u \<Rightarrow> (string + unit) \<times> front \<times> 'u" where
  "front_reinit c up s u =
     (let s = s\<lparr>fr_session := []\<rparr> in
      case fr_init s of
        None \<Rightarrow> (Inl ''session expired and no initialize request cached'', s, u)
      | Some m \<Rightarrow>
          (case doPost c up m s u of
             (Inl e, u) \<Rightarrow> (Inl e, s, u)
           | (Inr resp, u) \<Rightarrow>
               if \<not> is_2xx (fs_code resp) then (Inl (''re-initialize: upstream returned '' @ fs_status resp), s, u)
               else (Inr (), take_session resp s, u)))"

definition front_post :: "front_config \<Rightarrow> 'u front_client \<Rightarrow> string \<Rightarrow> front \<Rightarrow> 'u \<Rightarrow> (string + front_response) \<times> front \<times> 'u" where
  "front_post c up msg s u =
     (case doPost c up msg s u of
        (Inl e, u) \<Rightarrow> (Inl e, s, u)
      | (Inr resp, u) \<Rightarrow>
          if fs_code resp \<noteq> 404 \<or> fr_session s = [] then (Inr resp, s, u)
          else (case front_reinit c up s u of
              (Inl e, s, u) \<Rightarrow> (Inl e, s, u)
            | (Inr _, s, u) \<Rightarrow> (case doPost c up msg s u of (r, u) \<Rightarrow> (r, s, u))))"

section \<open>One message of the client\<close>

text \<open>\<open>io.ReadAll\<close> of a \<open>LimitReader\<close>: an error of the body is not seen once the limit is reached.\<close>

definition read_limited :: "nat \<Rightarrow> front_response \<Rightarrow> string \<times> string option" where
  "read_limited limit resp =
     (if limit \<le> length (fs_body resp) then (take limit (fs_body resp), None) else (fs_body resp, fs_error resp))"

definition quoted_error :: "string option \<Rightarrow> string" where
  "quoted_error e = (case e of None \<Rightarrow> ''%!w(<nil>)'' | Some m \<Rightarrow> m)"

definition after_initialize :: "string \<Rightarrow> string \<Rightarrow> front_response \<Rightarrow> front \<Rightarrow> front" where
  "after_initialize m msg resp s =
     (if m = ''initialize'' \<and> is_2xx (fs_code resp) then (take_session resp (s\<lparr>fr_init := Some msg\<rparr>))\<lparr>fr_stream := True\<rparr> else s)"

definition front_answer :: "string \<Rightarrow> front_response \<Rightarrow> front \<Rightarrow> front" where
  "front_answer k resp s =
     (if \<not> is_2xx (fs_code resp)
      then writeError k (''upstream returned '' @ fs_status resp @ '': '' @ trim_space (fst (read_limited 1048576 resp))) s
      else if has_prefix (hdr_get (fs_headers resp) ''Content-Type'') ''text/event-stream''
      then s\<lparr>fr_out := readEvents (fs_body resp) k (fr_out s)\<rparr>
      else (case read_limited (front_maxLine + 1) resp of (line, e) \<Rightarrow>
        if e \<noteq> None \<or> trim_space line = [] then writeError k (''reading upstream response: '' @ quoted_error e) s
        else writeLine (trim_space line) s))"

definition front_request_call :: "front_config \<Rightarrow> 'u front_client \<Rightarrow> string \<Rightarrow> string \<Rightarrow> string \<Rightarrow> front \<Rightarrow> 'u \<Rightarrow> front \<times> 'u" where
  "front_request_call c up msg k m s u =
     (case front_post c up msg s u of
        (Inl e, s, u) \<Rightarrow> (writeError k e s, u)
      | (Inr resp, s, u) \<Rightarrow> (front_answer k resp (after_initialize m msg resp s), u))"

definition front_handleLine :: "front_config \<Rightarrow> 'u front_client \<Rightarrow> string \<Rightarrow> front \<Rightarrow> 'u \<Rightarrow> front \<times> 'u" where
  "front_handleLine c up line s u =
     (case parse_envelope line of
        None \<Rightarrow> (s, u)
      | Some env \<Rightarrow>
          (case env_id env of
             Some k \<Rightarrow>
               if env_method env \<noteq> [] then front_request_call c up line k (env_method env) s u
               else (case front_post c up line s u of (_, s, u) \<Rightarrow> (s, u))
           | None \<Rightarrow> (case front_post c up line s u of (_, s, u) \<Rightarrow> (s, u))))"

section \<open>The session\<close>

text \<open>\<open>scanLines\<close>: blank lines are skipped.\<close>

definition scanLines :: "string \<Rightarrow> string list" where
  "scanLines input = filter (\<lambda>l. l \<noteq> []) (map trim_space (scan_lines front_maxLine input))"

definition closeSession :: "front_config \<Rightarrow> 'u front_client \<Rightarrow> front \<Rightarrow> 'u \<Rightarrow> 'u" where
  "closeSession c up s u =
     (if fr_session s = [] then u
      else snd (front_do c up \<lparr>fq_method = ''DELETE'',
        fq_headers = copyHeaders (hdr_set ''Mcp-Session-Id'' (fr_session s) Map.empty) (fc_headers c), fq_body = []\<rparr> u))"

fun front_lines :: "front_config \<Rightarrow> 'u front_client \<Rightarrow> string list \<Rightarrow> front \<Rightarrow> 'u \<Rightarrow> front \<times> 'u" where
  "front_lines c up [] s u = (s, u)"
| "front_lines c up (l # ls) s u = (case front_handleLine c up l s u of (s, u) \<Rightarrow> front_lines c up ls s u)"

definition front_Serve :: "front_config \<Rightarrow> 'u front_client \<Rightarrow> string \<Rightarrow> 'u \<Rightarrow> front \<times> 'u" where
  "front_Serve c up input u =
     (case front_lines c up (scanLines input) front_new u of (s, u) \<Rightarrow> (s, closeSession c up s u))"

section \<open>The stream of the server\<close>

definition stream_request :: "front_config \<Rightarrow> front \<Rightarrow> front_request" where
  "stream_request c s = \<lparr>fq_method = ''GET'',
     fq_headers = copyHeaders (with_session s (hdr_set ''Accept'' ''text/event-stream'' Map.empty)) (fc_headers c), fq_body = []\<rparr>"

text \<open>
  How one round of \<open>stream\<close> goes: the request fails, or is answered; then the sleep, where there is
  one, runs to its end or is cancelled. \<open>front_stream\<close> gives the sleeps and the output.
\<close>

datatype stream_round = Stream_error bool | Stream_reply front_response bool

fun front_stream :: "time \<Rightarrow> stream_round list \<Rightarrow> string list \<Rightarrow> time list \<times> string list" where
  "front_stream b [] out = ([], out)"
| "front_stream b (Stream_error slept # es) out =
     (if \<not> slept then ([b], out)
      else (case front_stream (if b * 2 > secs 5 then secs 5 else b * 2) es out of (ts, out) \<Rightarrow> (b # ts, out)))"
| "front_stream b (Stream_reply resp slept # es) out =
     (if fs_code resp = 405 then ([], out)
      else if \<not> is_2xx (fs_code resp)
      then (if \<not> slept then ([b], out) else (case front_stream b es out of (ts, out) \<Rightarrow> (b # ts, out)))
      else front_stream 200000000 es (readEvents (fs_body resp) [] out))"

definition stream_start :: time where
  "stream_start = 200000000"

section \<open>What the reader of events computes\<close>

text \<open>
  The reference: the lines of the body without their terminators, the payloads of its events, and of
  the payloads that are not blank those up to the awaited answer.
\<close>

definition sse_lines :: "string \<Rightarrow> string list" where
  "sse_lines body = map (\<lambda>p. trim_right p [CHR 0x0D, CHR 0x0A]) (drop_last_empty (split_byte (CHR 0x0A) body))"

fun sse_payloads :: "string \<Rightarrow> string list \<Rightarrow> string list" where
  "sse_payloads data [] = (if data = [] then [] else [data])"
| "sse_payloads data (l # ls) =
     (if l = [] then (if data = [] then [] else [data]) @ sse_payloads [] ls
      else (case cut_prefix l ''data:'' of
          Some rest \<Rightarrow> sse_payloads (data @ trim_prefix rest '' '' @ [CHR 0x0A]) ls
        | None \<Rightarrow> sse_payloads data ls))"

definition is_answer :: "string \<Rightarrow> string \<Rightarrow> bool" where
  "is_answer want m \<longleftrightarrow> want \<noteq> [] \<and> (case parse_envelope m of None \<Rightarrow> False | Some env \<Rightarrow> env_id env = Some want)"

fun until_answer :: "string \<Rightarrow> string list \<Rightarrow> string list" where
  "until_answer want [] = []"
| "until_answer want (m # ms) = m # (if is_answer want m then [] else until_answer want ms)"

definition sse_messages :: "string \<Rightarrow> string list" where
  "sse_messages body = filter (\<lambda>m. m \<noteq> []) (map trim_space (sse_payloads [] (sse_lines body)))"

lemma is_answer_has_id: "is_answer want m \<longleftrightarrow> want \<noteq> [] \<and> has_id m want"
  by (auto simp: is_answer_def has_id_def split: option.split)

lemma trim_right_newline [simp]: "trim_right (p @ [CHR 0x0A]) [CHR 0x0D, CHR 0x0A] = trim_right p [CHR 0x0D, CHR 0x0A]"
  by (simp add: trim_right_def)

text \<open>\<open>front_pieces\<close> is \<open>front_tail\<close> on the lines without terminator.\<close>

abbreviation messages_of :: "string list \<Rightarrow> string list" where
  "messages_of ds \<equiv> filter (\<lambda>m. m \<noteq> []) (map trim_space ds)"

lemma until_answer_dispatch:
  "front_dispatch d want out = (go, out') \<Longrightarrow>
   (out @ until_answer want (messages_of (d # ds)) = (if go then out' @ until_answer want (messages_of ds) else out'))"
  by (auto simp: front_dispatch_def is_answer_def Let_def split: if_splits option.splits)

lemma dispatch_last: "snd (front_dispatch d want out) = out @ messages_of [d]"
  by (simp add: front_dispatch_def Let_def)

lemma front_line_messages:
  assumes "front_line want p data out = (go, data', out')"
  shows "out @ until_answer want (messages_of (sse_payloads data (trim_right p [CHR 0x0D, CHR 0x0A] # ls)))
    = (if go then out' @ until_answer want (messages_of (sse_payloads data' ls)) else out')"
proof (cases "trim_right p [CHR 0x0D, CHR 0x0A] = []")
  case True
  show ?thesis
  proof (cases "data = []")
    case False
    with assms True obtain out1 where d: "front_dispatch data want out = (go, out')" "data' = []"
      by (auto simp: front_line_def Let_def split: prod.splits)
    from until_answer_dispatch [OF d(1), of "sse_payloads [] ls"] d(2) True False show ?thesis
      by (simp del: until_answer.simps filter.simps list.map)
  qed (use assms True in \<open>auto simp: front_line_def Let_def\<close>)
qed (use assms in \<open>auto simp: front_line_def Let_def split: option.splits\<close>)

lemma front_pieces_messages:
  assumes "ps \<noteq> []"
  shows "front_pieces want ps data out = out @ until_answer want (messages_of
    (sse_payloads data (map (\<lambda>p. trim_right p [CHR 0x0D, CHR 0x0A]) (drop_last_empty ps))))"
  using assms
proof (induction want ps data out rule: front_pieces.induct)
  case (2 want p data out)
  show ?case
  proof (cases "p = []")
    case True
    then show ?thesis by (simp add: drop_last_empty_def dispatch_last)
  next
    case False
    obtain go data' out' where l: "front_line want p data out = (go, data', out')" by (metis prod_cases3)
    have u: "until_answer want (messages_of [d]) = messages_of [d]" for d by simp
    have "drop_last_empty [p] = [p]" using False by (simp add: drop_last_empty_def)
    moreover have "front_pieces want [p] data out =
        (if go then if data' = [] then out' else out' @ until_answer want (messages_of [data']) else out')"
      using False l by (simp only: front_pieces.simps if_False prod.case dispatch_last u) (simp split: bool.split)
    ultimately show ?thesis using front_line_messages [OF l, of "[]"] by (simp only: list.map sse_payloads.simps) simp
  qed
next
  case (3 want p q ps data out)
  obtain go data' out' where l: "front_line want (p @ [CHR 0x0A]) data out = (go, data', out')" by (metis prod_cases3)
  have d: "drop_last_empty (p # q # ps) = p # drop_last_empty (q # ps)" by (auto simp: drop_last_empty_def)
  from front_line_messages [OF l] l show ?case
    by (cases go) (simp_all add: d "3.IH" [OF l [symmetric]])
qed simp

lemma split_byte_nonempty [simp]: "split_byte c s \<noteq> []"
  by (induction s) (auto split: list.split)

lemma readEvents_messages: "readEvents body want out = out @ until_answer want (sse_messages body)"
  by (simp add: readEvents_def front_pieces_messages sse_messages_def sse_lines_def)

lemma until_answer_all: "\<forall>m \<in> set ms. \<not> is_answer want m \<Longrightarrow> until_answer want ms = ms"
  by (induction ms) auto

lemma until_answer_last: "\<forall>m \<in> set ms. \<not> is_answer want m \<Longrightarrow> is_answer want a \<Longrightarrow> until_answer want (ms @ a # ns) = ms @ [a]"
  by (induction ms) auto

section \<open>The stream of the bridge\<close>

text \<open>What \<open>handleGet\<close> of the bridge sends is read back as the messages, without the blanks around them.\<close>

lemma split_sse_event:
  assumes "CHR 0x0A \<notin> set m"
  shows "split_byte (CHR 0x0A) (sse_event m @ rest) = ''event: message'' # (''data: '' @ m) # [] # split_byte (CHR 0x0A) rest"
proof -
  have e: "sse_event m @ rest = ''event: message'' @ CHR 0x0A # (''data: '' @ m) @ CHR 0x0A # [] @ CHR 0x0A # rest"
    by (simp add: sse_event_def)
  have "CHR 0x0A \<notin> set ''event: message''" "CHR 0x0A \<notin> set (''data: '' @ m)" "CHR 0x0A \<notin> set []" using assms by simp_all
  then show ?thesis unfolding e by (simp only: split_byte_append not_False_eq_True)
qed

lemma bridge_payloads:
  assumes "\<forall>m \<in> set ms. CHR 0x0A \<notin> set m"
  shows "sse_payloads [] (sse_lines (concat (map sse_event ms))) = map (\<lambda>m. trim_right m [CHR 0x0D, CHR 0x0A] @ [CHR 0x0A]) ms"
  using assms
proof (induction ms)
  case Nil
  show ?case by code_simp
next
  case (Cons m ms)
  let ?cut = "[CHR 0x0D, CHR 0x0A]"
  have e: "trim_right ''event: message'' ?cut = ''event: message''" "cut_prefix ''event: message'' ''data:'' = None" by code_simp+
  have d: "trim_right (''data: '' @ m) ?cut = ''data:'' @ '' '' @ trim_right m ?cut"
    using trim_right_append [of "''data: ''" ?cut m] by simp
  have t: "trim_prefix ('' '' @ trim_right m ?cut) '' '' = trim_right m ?cut" by (rule trim_prefix_append)
  have n: "trim_right [] ?cut = []" by code_simp
  have dl: "drop_last_empty (a # b # [] # split_byte c s) = a # b # [] # drop_last_empty (split_byte c s)" for a b c s
    by (auto simp: drop_last_empty_def)
  have "sse_lines (concat (map sse_event (m # ms))) = ''event: message'' # (''data:'' @ '' '' @ trim_right m ?cut) # [] # sse_lines (concat (map sse_event ms))"
    using Cons.prems by (simp add: sse_lines_def split_sse_event dl e d n del: append_Cons)
  moreover have "''event: message'' \<noteq> []" "''data:'' @ '' '' @ trim_right m ?cut \<noteq> []" by simp_all
  ultimately show ?case
    using Cons t
    by (simp del: append_Cons add: e(2) cut_prefix_append)
qed

lemma bridge_stream_read:
  assumes "\<forall>m \<in> set ms. CHR 0x0A \<notin> set m \<and> trim_space m \<noteq> []"
  shows "readEvents (concat (map sse_event ms)) [] out = out @ map trim_space ms"
proof -
  have t: "trim_space (trim_right m [CHR 0x0D, CHR 0x0A] @ [CHR 0x0A]) = trim_space m" for m
    by (simp add: trim_space_snoc trim_space_right)
  have "messages_of (sse_payloads [] (sse_lines (concat (map sse_event ms)))) = map trim_space ms"
    using assms by (simp add: bridge_payloads t comp_def filter_id_conv)
  moreover have "\<not> is_answer [] m" for m by (simp add: is_answer_def)
  ultimately show ?thesis by (simp add: readEvents_messages sse_messages_def until_answer_all)
qed

section \<open>Answers\<close>

text \<open>A synthesized error is a JSON-RPC error object with the id of the request.\<close>

lemma error_line_enc:
  "error_line (json_enc k) msg = json_enc (J_obj [(''jsonrpc'', J_str ''2.0''), (''id'', k),
     (''error'', J_obj [(''code'', J_num (itoa (- 32603))), (''message'', J_str msg)])])"
proof -
  have "enc_str ''jsonrpc'' = CHR 0x22 # ''jsonrpc'' @ [CHR 0x22]" "enc_str ''2.0'' = CHR 0x22 # ''2.0'' @ [CHR 0x22]"
    "enc_str ''id'' = CHR 0x22 # ''id'' @ [CHR 0x22]" "enc_str ''error'' = CHR 0x22 # ''error'' @ [CHR 0x22]"
    "enc_str ''code'' = CHR 0x22 # ''code'' @ [CHR 0x22]" "enc_str ''message'' = CHR 0x22 # ''message'' @ [CHR 0x22]"
    by code_simp+
  moreover have "itoa (- 32603) = ''-32603''"
    by (simp add: itoa_def itoa_nat.simps digit_char_def, code_simp)
  ultimately show ?thesis by (simp add: error_line_def jsonQuote_def)
qed

lemma until_answer_found:
  "k \<noteq> [] \<Longrightarrow> (\<exists>m \<in> set (until_answer k ms). has_id m k) \<longleftrightarrow> (\<exists>m \<in> set ms. has_id m k)"
  by (induction ms) (auto simp: is_answer_has_id)

lemma until_answer_ends:
  "k \<noteq> [] \<Longrightarrow> \<exists>m \<in> set ms. has_id m k \<Longrightarrow> has_id (last (until_answer k ms)) k"
proof (induction ms)
  case (Cons m ms)
  show ?case
  proof (cases "has_id m k")
    case True
    with Cons.prems(1) show ?thesis by (simp add: is_answer_has_id)
  next
    case False
    with Cons.prems have "\<exists>m \<in> set ms. has_id m k" by auto
    moreover from this have "until_answer k ms \<noteq> []" by (cases ms) auto
    ultimately show ?thesis using Cons False by (simp add: is_answer_has_id)
  qed
qed simp

text \<open>What one request adds to the output.\<close>

definition event_stream :: "front_response \<Rightarrow> bool" where
  "event_stream resp \<longleftrightarrow> is_2xx (fs_code resp) \<and> has_prefix (hdr_get (fs_headers resp) ''Content-Type'') ''text/event-stream''"

definition one_answer :: "string \<Rightarrow> string \<Rightarrow> bool" where
  "one_answer k l \<longleftrightarrow> (\<exists>e. l = error_line k e) \<or> (\<exists>body. l = trim_space body \<and> l \<noteq> [])"

lemma front_answer_out:
  "\<not> event_stream resp \<Longrightarrow> \<exists>l. fr_out (front_answer k resp s) = fr_out s @ [l] \<and> one_answer k l"
  by (auto simp: front_answer_def event_stream_def writeError_def writeLine_def one_answer_def split: prod.splits)

lemma front_answer_events:
  "event_stream resp \<Longrightarrow> fr_out (front_answer k resp s) = fr_out s @ until_answer k (sse_messages (fs_body resp))"
  by (simp add: front_answer_def event_stream_def readEvents_messages)

lemma take_session_sel [simp]: "fr_out (take_session resp s) = fr_out s" "fr_init (take_session resp s) = fr_init s"
  by (simp_all add: take_session_def)

lemma after_initialize_out [simp]: "fr_out (after_initialize m msg resp s) = fr_out s"
  by (simp add: after_initialize_def)

lemma front_reinit_out: "front_reinit c up s u = (r, s', u') \<Longrightarrow> fr_out s' = fr_out s \<and> fr_init s' = fr_init s"
  by (auto simp: front_reinit_def Let_def split: option.splits prod.splits sum.splits if_splits)

lemma front_post_out: "front_post c up msg s u = (r, s', u') \<Longrightarrow> fr_out s' = fr_out s \<and> fr_init s' = fr_init s"
  by (auto simp: front_post_def split: prod.splits sum.splits if_splits dest: front_reinit_out)

text \<open>An upstream that answers no message with an event stream: exactly one line for every request.\<close>

definition plain_answers :: "'u front_client \<Rightarrow> bool" where
  "plain_answers up \<longleftrightarrow> (\<forall>q u resp u'. up q u = (Inr resp, u') \<longrightarrow> \<not> event_stream resp)"

lemma doPost_plain: "plain_answers up \<Longrightarrow> doPost c up msg s u = (Inr resp, u') \<Longrightarrow> \<not> event_stream resp"
  by (auto simp: doPost_def front_do_def plain_answers_def split: if_splits)

lemma front_post_plain:
  "plain_answers up \<Longrightarrow> front_post c up msg s u = (Inr resp, s', u') \<Longrightarrow> \<not> event_stream resp"
  by (auto simp: front_post_def split: prod.splits sum.splits if_splits dest: doPost_plain)

lemma front_request_call_out:
  assumes "plain_answers up" and "front_request_call c up msg k m s u = (s', u')"
  shows "\<exists>l. fr_out s' = fr_out s @ [l] \<and> one_answer k l"
proof -
  obtain r s1 u1 where p: "front_post c up msg s u = (r, s1, u1)" by (metis prod_cases3)
  show ?thesis
  proof (cases r)
    case (Inl e)
    with assms(2) p front_post_out [OF p] show ?thesis
      by (auto simp: front_request_call_def writeError_def writeLine_def one_answer_def)
  next
    case (Inr resp)
    from front_answer_out [of resp k "after_initialize m msg resp s1"] front_post_plain [OF assms(1)] p Inr assms(2)
    show ?thesis using front_post_out [OF p] by (auto simp: front_request_call_def)
  qed
qed

definition request_id :: "string \<Rightarrow> string option" where
  "request_id line = (case parse_envelope line of
     None \<Rightarrow> None | Some env \<Rightarrow> if env_method env = [] then None else env_id env)"

lemma front_handleLine_out:
  assumes "plain_answers up" and "front_handleLine c up line s u = (s', u')"
  shows "case request_id line of None \<Rightarrow> fr_out s' = fr_out s | Some k \<Rightarrow> \<exists>l. fr_out s' = fr_out s @ [l] \<and> one_answer k l"
  using assms front_request_call_out [OF assms(1)]
  by (auto simp: front_handleLine_def request_id_def split: option.splits prod.splits if_splits dest: front_post_out)

definition request_ids :: "string list \<Rightarrow> string list" where
  "request_ids ls = concat (map (\<lambda>l. case request_id l of None \<Rightarrow> [] | Some k \<Rightarrow> [k]) ls)"

lemma front_lines_out:
  assumes "plain_answers up" and "front_lines c up ls s u = (s', u')"
  shows "\<exists>out. fr_out s' = fr_out s @ out \<and> list_all2 one_answer (request_ids ls) out"
  using assms(2)
proof (induction ls arbitrary: s u)
  case (Cons l ls)
  obtain s1 u1 where h: "front_handleLine c up l s u = (s1, u1)" by fastforce
  with Cons.prems have "front_lines c up ls s1 u1 = (s', u')" by simp
  from Cons.IH [OF this] obtain out where o: "fr_out s' = fr_out s1 @ out" "list_all2 one_answer (request_ids ls) out" by blast
  show ?case
  proof (cases "request_id l")
    case None
    with front_handleLine_out [OF assms(1) h] o show ?thesis by (simp add: request_ids_def)
  next
    case (Some k)
    with front_handleLine_out [OF assms(1) h] obtain x where "fr_out s1 = fr_out s @ [x]" "one_answer k x" by auto
    with o Some show ?thesis by (intro exI [of _ "x # out"]) (simp add: request_ids_def)
  qed
qed (simp add: request_ids_def)

lemma front_Serve_out:
  assumes "plain_answers up"
  shows "list_all2 one_answer (request_ids (scanLines input)) (fr_out (fst (front_Serve c up input u)))"
proof -
  obtain s' u' where l: "front_lines c up (scanLines input) front_new u = (s', u')" by fastforce
  from front_lines_out [OF assms l] l show ?thesis by (auto simp: front_Serve_def front_new_def)
qed

section \<open>What is sent upstream\<close>

definition logged :: "'u front_client \<Rightarrow> (front_request list \<times> 'u) front_client" where
  "logged up q lu = (case lu of (l, u) \<Rightarrow> (case up q u of (r, u) \<Rightarrow> (r, l @ [q], u)))"

lemma doPost_logged:
  "doPost c (logged up) msg s (l, u) = (r, l', u') \<Longrightarrow> l' = l \<or> l' = l @ [doPost_request c s msg]"
  by (auto simp: doPost_def front_do_def logged_def split: if_splits prod.splits)

text \<open>
  For one message at most three requests: the message under the session; and, if that is answered 404
  while there is one, the cached initialize under none, and the message again.
\<close>

definition no_session :: "front \<Rightarrow> front" where
  "no_session s = s\<lparr>fr_session := []\<rparr>"

lemma front_reinit_logged:
  assumes "front_reinit c (logged up) s (l, u) = (r, s', l', u')"
  shows "l' = l \<or> (\<exists>i. fr_init s = Some i \<and> l' = l @ [doPost_request c (no_session s) i])"
  using assms
  by (auto simp: front_reinit_def Let_def no_session_def split: option.splits prod.splits sum.splits if_splits dest: doPost_logged)

lemma front_post_logged:
  assumes "front_post c (logged up) msg s (l, u) = (r, s', l', u')"
  shows "l' \<in> {l, l @ [doPost_request c s msg]}
    \<or> fr_session s \<noteq> [] \<and> (\<exists>i. fr_init s = Some i \<and>
         (l' = l @ [doPost_request c s msg, doPost_request c (no_session s) i]
          \<or> l' = l @ [doPost_request c s msg, doPost_request c (no_session s) i, doPost_request c s' msg]))"
proof -
  obtain r1 l1 u1 where d: "doPost c (logged up) msg s (l, u) = (r1, l1, u1)" by (metis prod_cases3)
  show ?thesis
  proof (cases "\<exists>resp. r1 = Inr resp \<and> fs_code resp = 404 \<and> fr_session s \<noteq> []")
    case False
    with assms d doPost_logged [OF d] show ?thesis by (auto simp: front_post_def split: sum.splits if_splits)
  next
    case True
    then obtain resp where resp: "r1 = Inr resp" "fs_code resp = 404" "fr_session s \<noteq> []" by blast
    then have ok: "Parse (url_string (fc_upstream c)) \<noteq> None" and l1: "l1 = l @ [doPost_request c s msg]"
      using d by (auto simp: doPost_def front_do_def logged_def split: if_splits prod.splits)
    obtain r2 s2 l2 u2 where i: "front_reinit c (logged up) s (l1, u1) = (r2, s2, l2, u2)" by (metis prod_cases4)
    show ?thesis
    proof (cases r2)
      case (Inl e)
      with assms d resp i have "l' = l2" by (simp add: front_post_def)
      with front_reinit_logged [OF i] l1 resp(3) show ?thesis by auto
    next
      case (Inr x)
      then have i2: "\<exists>m. fr_init s = Some m \<and> l2 = l1 @ [doPost_request c (no_session s) m]"
        using i by (auto simp: front_reinit_def Let_def no_session_def doPost_def front_do_def logged_def
            split: option.splits prod.splits sum.splits if_splits)
      obtain r3 l3 u3 where d3: "doPost c (logged up) msg s2 (l2, u2) = (r3, l3, u3)" by (metis prod_cases3)
      with assms d resp i Inr have "l' = l3" "s' = s2" by (simp_all add: front_post_def)
      with doPost_logged [OF d3] i2 l1 resp(3) show ?thesis by auto
    qed
  qed
qed

section \<open>The stream's pauses\<close>

lemma front_stream_pauses:
  assumes "stream_start \<le> b" and "b \<le> secs 5" and "t \<in> set (fst (front_stream b es out))"
  shows "stream_start \<le> t \<and> t \<le> secs 5"
  using assms
proof (induction b es out rule: front_stream.induct)
  case (2 b slept es out)
  then show ?case
    by (cases "front_stream (if b * 2 > secs 5 then secs 5 else b * 2) es out")
      (auto simp: stream_start_def secs_def nanos_def split: if_splits)
next
  case (3 b resp slept es out)
  then show ?case
    by (cases "front_stream b es out") (auto simp: stream_start_def secs_def nanos_def split: if_splits)
qed simp

end
