(* ===== verification/Commands.thy ===== *)
theory Commands
  imports Cli Agent Token_Source Stdiofront
begin

text \<open>
  \<open>cmd/mcptunnel\<close>: the argument handling of \<open>expose\<close>, \<open>run\<close> and \<open>token\<close>, and what the commands do
  with the parts they call. Terminal output is the messages that depend on state; signals, child
  processes and listeners are arguments.
\<close>

section \<open>Arguments\<close>

datatype usage = Flags flag_error | Unexpected string | Exclusive | Usage | Bad_upstream string | No_url
  | Empty_variable string | Needs string string

record exposeOpts =
  xo_server :: string
  xo_config :: string
  xo_noAuth :: bool
  xo_upstream :: string
  xo_headers :: "(string \<times> string list) list"
  xo_cmd :: "string list"

definition expose_flags :: flag_set where
  "expose_flags = [(''server'', String_flag), (''config'', String_flag), (''no-auth'', Bool_flag),
     (''url'', String_flag), (''header'', Header_flag)]"

text \<open>Everything after the first \<open>--\<close> is the command.\<close>

fun split_dashes :: "string list \<Rightarrow> string list \<times> string list" where
  "split_dashes [] = ([], [])"
| "split_dashes (a # args) = (if a = ''--'' then ([], args) else (case split_dashes args of (fs, cmd) \<Rightarrow> (a # fs, cmd)))"

definition http_url :: "string \<Rightarrow> bool" where
  "http_url raw = (case Parse raw of None \<Rightarrow> False
     | Some u \<Rightarrow> u_scheme u \<noteq> [] \<and> u_host u \<noteq> [] \<and> (u_scheme u = ''http'' \<or> u_scheme u = ''https''))"

definition parseExposeArgs :: "string list \<Rightarrow> usage + exposeOpts" where
  "parseExposeArgs args =
     (case split_dashes args of (flagArgs, cmdArgs) \<Rightarrow>
       (case ParseIntermixed expose_flags flagArgs of
          Inl e \<Rightarrow> Inl (Flags e)
        | Inr (kvs, p # pos) \<Rightarrow> Inl (Unexpected p)
        | Inr (kvs, []) \<Rightarrow>
            (let up = flag_value ''url'' [] kvs in
             if up \<noteq> [] \<and> cmdArgs \<noteq> [] then Inl Exclusive
             else if up = [] \<and> cmdArgs = [] then Inl Usage
             else if up \<noteq> [] \<and> \<not> http_url up then Inl (Bad_upstream up)
             else Inr \<lparr>xo_server = flag_value ''server'' DefaultServer kvs, xo_config = flag_value ''config'' [] kvs,
                       xo_noAuth = flag_true ''no-auth'' kvs, xo_upstream = up, xo_headers = flag_headers kvs,
                       xo_cmd = cmdArgs\<rparr>)))"

record runOpts =
  ro_upstream :: string
  ro_headers :: "(string \<times> string list) list"

definition run_flags :: flag_set where
  "run_flags = [(''url'', String_flag), (''header'', Header_flag)]"

definition parseRunArgs :: "string list \<Rightarrow> usage + runOpts" where
  "parseRunArgs args =
     (case ParseIntermixed run_flags args of
        Inl e \<Rightarrow> Inl (Flags e)
      | Inr (kvs, p # pos) \<Rightarrow> Inl (Unexpected p)
      | Inr (kvs, []) \<Rightarrow>
          (let up = flag_value ''url'' [] kvs in
           if up = [] then Inl Usage
           else if \<not> http_url up then Inl (Bad_upstream up)
           else Inr \<lparr>ro_upstream = up, ro_headers = flag_headers kvs\<rparr>))"

record tokenAddOpts =
  ta_url :: string
  ta_bearer :: string
  ta_bearerEnv :: string
  ta_expiresIn :: int
  ta_refreshToken :: string
  ta_tokenURL :: string
  ta_clientID :: string
  ta_tokenCmd :: string

definition token_flags :: flag_set where
  "token_flags = [(''url'', String_flag), (''bearer'', String_flag), (''bearer-env'', String_flag), (''expires-in'', Int_flag),
     (''refresh-token'', String_flag), (''token-url'', String_flag), (''client-id'', String_flag), (''token-cmd'', String_flag)]"

definition token_opts :: "(string \<times> string) list \<Rightarrow> tokenAddOpts" where
  "token_opts kvs = \<lparr>ta_url = flag_value ''url'' [] kvs, ta_bearer = flag_value ''bearer'' [] kvs,
     ta_bearerEnv = flag_value ''bearer-env'' [] kvs,
     ta_expiresIn = (case parse_int_any (flag_value ''expires-in'' ''0'' kvs) of None \<Rightarrow> 0 | Some n \<Rightarrow> n),
     ta_refreshToken = flag_value ''refresh-token'' [] kvs, ta_tokenURL = flag_value ''token-url'' [] kvs,
     ta_clientID = flag_value ''client-id'' [] kvs, ta_tokenCmd = flag_value ''token-cmd'' [] kvs\<rparr>"

text \<open>The checks at the end, in their order.\<close>

definition token_check :: "tokenAddOpts \<Rightarrow> usage + tokenAddOpts" where
  "token_check o1 =
     (if ta_tokenCmd o1 \<noteq> [] \<and> ta_bearer o1 \<noteq> [] then Inl Exclusive
      else if ta_tokenCmd o1 = [] \<and> ta_bearer o1 = [] then Inl Usage
      else if ta_refreshToken o1 \<noteq> [] \<and> ta_tokenURL o1 = [] then Inl (Needs ''refresh-token'' ''token-url'')
      else if ta_refreshToken o1 \<noteq> [] \<and> ta_tokenCmd o1 \<noteq> [] then Inl Exclusive
      else if ta_tokenURL o1 \<noteq> [] \<and> ta_refreshToken o1 = [] then Inl (Needs ''token-url'' ''refresh-token'')
      else if ta_clientID o1 \<noteq> [] \<and> ta_tokenURL o1 = [] then Inl (Needs ''client-id'' ''token-url'')
      else Inr o1)"

definition parseTokenAddArgs :: "(string \<Rightarrow> string) \<Rightarrow> string list \<Rightarrow> usage + tokenAddOpts" where
  "parseTokenAddArgs getenv args =
     (case ParseIntermixed token_flags args of
        Inl e \<Rightarrow> Inl (Flags e)
      | Inr (kvs, p # pos) \<Rightarrow> Inl (Unexpected p)
      | Inr (kvs, []) \<Rightarrow>
          (let o1 = token_opts kvs in
           if ta_url o1 = [] then Inl No_url
           else if NormalizeURL (ta_url o1) = None then Inl (Bad_upstream (ta_url o1))
           else if ta_bearer o1 \<noteq> [] \<and> ta_bearerEnv o1 \<noteq> [] then Inl Exclusive
           else if ta_bearerEnv o1 = [] then token_check o1
           else if getenv (ta_bearerEnv o1) = [] then Inl (Empty_variable (ta_bearerEnv o1))
           else token_check (o1\<lparr>ta_bearer := getenv (ta_bearerEnv o1)\<rparr>)))"

section \<open>Tokens\<close>

definition token_entry :: "time \<Rightarrow> tokenAddOpts \<Rightarrow> entry" where
  "token_entry now o1 = \<lparr>e_url = ta_url o1, e_access = ta_bearer o1,
     e_expires = (if ta_expiresIn o1 > 0 then add_int64 (unix now) (ta_expiresIn o1) else 0),
     e_refresh = ta_refreshToken o1, e_token_url = ta_tokenURL o1, e_client = ta_clientID o1, e_cmd = ta_tokenCmd o1\<rparr>"

definition runTokenAdd :: "(string \<Rightarrow> string) \<Rightarrow> (string \<Rightarrow> string) \<Rightarrow> string option \<Rightarrow> string \<Rightarrow> time \<Rightarrow> string list \<Rightarrow> disk
    \<Rightarrow> ((usage + tc_error) + entry) \<times> disk" where
  "runTokenAdd getenv sha dir tmp now args d =
     (case parseTokenAddArgs getenv args of
        Inl e \<Rightarrow> (Inl (Inl e), d)
      | Inr o1 \<Rightarrow> (case tc_Save sha dir tmp (token_entry now o1) d of
          (Inl e, d) \<Rightarrow> (Inl (Inr e), d)
        | (Inr _, d) \<Rightarrow> (Inr (token_entry now o1), d)))"

text \<open>\<open>Inr False\<close>: no token is stored for the URL, which the command reports as an error.\<close>

definition runTokenRemove :: "(string \<Rightarrow> string) \<Rightarrow> string option \<Rightarrow> string list \<Rightarrow> disk \<Rightarrow> ((usage + tc_error) + bool) \<times> disk" where
  "runTokenRemove sha dir args d =
     (case ParseIntermixed [(''url'', String_flag)] args of
        Inl e \<Rightarrow> (Inl (Inl (Flags e)), d)
      | Inr (kvs, p # pos) \<Rightarrow> (Inl (Inl (Unexpected p)), d)
      | Inr (kvs, []) \<Rightarrow>
          (let raw = flag_value ''url'' [] kvs in
           if raw = [] then (Inl (Inl No_url), d)
           else (case tc_Lookup sha dir raw d of
               (Inl e, d) \<Rightarrow> (Inl (Inr e), d)
             | (Inr None, d) \<Rightarrow> (Inr False, d)
             | (Inr (Some _), d) \<Rightarrow>
                 (case tc_Remove sha dir raw d of
                    (Inl e, d) \<Rightarrow> (Inl (Inr e), d)
                  | (Inr _, d) \<Rightarrow> (Inr True, d)))))"

text \<open>\<open>mask\<close>: the horizontal ellipsis is one rune of three bytes.\<close>

definition mask :: "string \<Rightarrow> string" where
  "mask tok = (if length tok \<le> 5 then utf8_enc 0x2026
     else take 3 tok @ utf8_enc 0x2026 @ drop (length tok - 2) tok)"

text \<open>\<open>tokenTransportFor\<close>: the entry the transport's source is made of.\<close>

definition tokenTransportFor :: "(string \<Rightarrow> string) \<Rightarrow> string option \<Rightarrow> string \<Rightarrow> (string \<times> string list) list \<Rightarrow> disk \<Rightarrow> entry option \<times> disk" where
  "tokenTransportFor sha dir up hs d =
     (if up = [] then (None, d)
      else if hdr_get (map_of hs) ''Authorization'' \<noteq> [] then (None, d)
      else (case tc_Lookup sha dir up d of
          (Inr (Some e), d) \<Rightarrow> (Some e, d)
        | (_, d) \<Rightarrow> (None, d)))"

text \<open>\<open>runTokenList\<close>: the rows; \<open>clock i\<close> is the reading at the \<open>i\<close>-th entry.\<close>

datatype expiry = Never_expires | Expired_since int | Expires_at int

definition token_row :: "time \<Rightarrow> entry \<Rightarrow> string \<times> string \<times> string \<times> expiry" where
  "token_row now e = (e_url e, mask (e_access e), SourceType e,
     (if e_expires e = 0 then Never_expires
      else if e_expires e \<le> unix now then Expired_since (e_expires e) else Expires_at (e_expires e)))"

definition runTokenList :: "string option \<Rightarrow> (nat \<Rightarrow> time) \<Rightarrow> string list \<Rightarrow> disk
    \<Rightarrow> ((usage + tc_error) + (string \<times> string \<times> string \<times> expiry) list) \<times> disk" where
  "runTokenList dir clock args d =
     (case ParseIntermixed [] args of
        Inl e \<Rightarrow> (Inl (Inl (Flags e)), d)
      | Inr (kvs, p # pos) \<Rightarrow> (Inl (Inl (Unexpected p)), d)
      | Inr (kvs, []) \<Rightarrow> (case tc_List dir d of
          (Inl e, d) \<Rightarrow> (Inl (Inr e), d)
        | (Inr es, d) \<Rightarrow> (Inr (map2 (\<lambda>i. token_row (clock i)) [0..<length es] es), d)))"

section \<open>Run\<close>

text \<open>\<open>runRun\<close> up to the call of \<open>Serve\<close>: what it is called with.\<close>

definition runRun :: "(string \<Rightarrow> string) \<Rightarrow> string option \<Rightarrow> string list \<Rightarrow> disk \<Rightarrow> (usage + front_config \<times> entry option) \<times> disk" where
  "runRun sha dir args d =
     (case parseRunArgs args of
        Inl e \<Rightarrow> (Inl e, d)
      | Inr o1 \<Rightarrow> (case Parse (ro_upstream o1) of
          None \<Rightarrow> (Inl (Bad_upstream (ro_upstream o1)), d)
        | Some u \<Rightarrow> (case tokenTransportFor sha dir (ro_upstream o1) (ro_headers o1) d of
            (t, d) \<Rightarrow> (Inr (\<lparr>fc_upstream = u, fc_headers = ro_headers o1\<rparr>, t), d))))"

section \<open>Commands\<close>

text \<open>\<open>run\<close> and \<open>runToken\<close>: which command the arguments name, and the exit code of \<open>main\<close>.\<close>

datatype command = Run_expose "string list" | Run_run "string list" | Token_add "string list" | Token_list "string list"
  | Token_remove "string list" | Print_usage | No_command | Unknown_command string

definition runToken :: "string list \<Rightarrow> command" where
  "runToken args =
     (case args of
        [] \<Rightarrow> No_command
      | a # args \<Rightarrow>
          if a = ''add'' then Token_add args
          else if a = ''list'' then Token_list args
          else if a = ''remove'' then Token_remove args
          else Unknown_command a)"

definition run_command :: "string list \<Rightarrow> command" where
  "run_command args =
     (case args of
        [] \<Rightarrow> No_command
      | a # args \<Rightarrow>
          if a = ''expose'' then Run_expose args
          else if a = ''run'' then Run_run args
          else if a = ''token'' then runToken args
          else if a = ''-h'' \<or> a = ''--help'' \<or> a = ''help'' then Print_usage
          else Unknown_command a)"

definition main_exit :: "(usage + 'e) option \<Rightarrow> nat" where
  "main_exit err = (case err of None \<Rightarrow> 0 | Some (Inl _) \<Rightarrow> 2 | Some (Inr _) \<Rightarrow> 1)"

section \<open>Expose\<close>

definition httpToWS :: "string \<Rightarrow> string" where
  "httpToWS base =
     (if has_prefix base ''https://'' then ''wss://'' @ trim_prefix base ''https://''
      else if has_prefix base ''http://'' then ''ws://'' @ trim_prefix base ''http://''
      else base)"

text \<open>What \<open>POST /quick\<close> is sent, and what of its answer is read.\<close>

definition quick_document :: "bool \<Rightarrow> string \<Rightarrow> json" where
  "quick_document auth password = J_obj [(''auth'', J_bool auth), (''password'', J_str password)]"

record quick_reply =
  qr_tenant :: string
  qr_service :: string
  qr_key :: string
  qr_expires :: int

definition no_reply :: quick_reply where
  "no_reply = \<lparr>qr_tenant = [], qr_service = [], qr_key = [], qr_expires = 0\<rparr>"

definition decode_quick :: "json \<Rightarrow> quick_reply option" where
  "decode_quick j =
     Option.bind (members j) (\<lambda>kvs.
     Option.bind (decode_field as_string None ''tenant'' [] kvs) (\<lambda>t.
     Option.bind (decode_field as_string None ''service'' [] kvs) (\<lambda>s.
     Option.bind (decode_field as_string None ''agent_key'' [] kvs) (\<lambda>k.
     Option.bind (decode_field as_int64 None ''expires_at'' 0 kvs) (\<lambda>e.
     Some \<lparr>qr_tenant = t, qr_service = s, qr_key = k, qr_expires = e\<rparr>)))))"

definition expose_config :: "string \<Rightarrow> quick_reply \<Rightarrow> string \<Rightarrow> (string \<times> string list) list \<Rightarrow> agent_config" where
  "expose_config base q up hs = \<lparr>agc_server = httpToWS base, agc_tenant = qr_tenant q, agc_key = qr_key q,
     agc_service = qr_service q, agc_upstream = up, agc_headers = hs, agc_initial = secs 1, agc_max = secs 30\<rparr>"

text \<open>\<open>deleteTunnel\<close>: the request, \<open>None\<close> when its URL does not parse.\<close>

definition deleteTunnel :: "string \<Rightarrow> quick_reply \<Rightarrow> api_request option" where
  "deleteTunnel base q =
     (let url = trim_right base ''/'' @ ''/api/v1/quick/'' @ qr_tenant q in
      if Parse url = None then None
      else Some \<lparr>aq_method = ''DELETE'', aq_url = url,
        aq_headers = hdr_set ''X-Service-Name'' (qr_service q) (hdr_set ''Authorization'' (''Bearer '' @ qr_key q) Map.empty),
        aq_body = None\<rparr>)"

text \<open>
  \<open>runExpose\<close> in a world \<open>'u\<close>: the client of the control plane, the start of the bridge and of its
  listener (\<open>None\<close> for an error, or the address), the lookup of a managed token (\<open>tokenTransportFor\<close> on
  the disk of that world), and the part that serves until it ends, with the deferred closing of
  listener and bridge. At its end \<open>Stopped\<close> has the public URL and the password that were printed.
\<close>

record 'u expose_env =
  xe_client :: "api_request \<Rightarrow> 'u \<Rightarrow> (string + nat \<times> string \<times> string \<times> string option) \<times> 'u"
  xe_start :: "string list \<Rightarrow> 'u \<Rightarrow> bool \<times> 'u"
  xe_listen :: "'u \<Rightarrow> string option \<times> 'u"
  xe_transport :: "string \<Rightarrow> (string \<times> string list) list \<Rightarrow> 'u \<Rightarrow> entry option \<times> 'u"
  xe_serve :: "agent_client \<Rightarrow> entry option \<Rightarrow> 'u \<Rightarrow> bool \<times> 'u"

datatype expose_end = Expose_usage usage | No_server | Control_plane_error cli_error | Start_failed | Listen_failed
  | Agent_config_error string | Stopped string "string option" bool

definition send_delete :: "'u expose_env \<Rightarrow> string \<Rightarrow> quick_reply \<Rightarrow> 'u \<Rightarrow> 'u" where
  "send_delete E base q u = (case deleteTunnel base q of None \<Rightarrow> u | Some r \<Rightarrow> snd (xe_client E r u))"

definition expose_upstream :: "'u expose_env \<Rightarrow> exposeOpts \<Rightarrow> 'u \<Rightarrow> (expose_end + string) \<times> 'u" where
  "expose_upstream E o1 u =
     (if xo_upstream o1 \<noteq> [] then (Inr (xo_upstream o1), u)
      else (case xe_start E (xo_cmd o1) u of
          (False, u) \<Rightarrow> (Inl Start_failed, u)
        | (True, u) \<Rightarrow> (case xe_listen E u of
              (None, u) \<Rightarrow> (Inl Listen_failed, u)
            | (Some addr, u) \<Rightarrow> (Inr (''http://'' @ addr), u))))"

definition public_url :: "string \<Rightarrow> quick_reply \<Rightarrow> string" where
  "public_url base q = base @ ''/t/'' @ qr_tenant q @ ''/s/'' @ qr_service q"

definition expose_tunnel :: "'u expose_env \<Rightarrow> string \<Rightarrow> quick_reply \<Rightarrow> exposeOpts \<Rightarrow> string option \<Rightarrow> 'u \<Rightarrow> expose_end \<times> 'u" where
  "expose_tunnel E base q o1 password u =
     (case expose_upstream E o1 u of
        (Inl e, u) \<Rightarrow> (e, u)
      | (Inr up, u) \<Rightarrow> (case xe_transport E (xo_upstream o1) (xo_headers o1) u of (t, u) \<Rightarrow>
          (case agent_New (expose_config base q up (xo_headers o1)) of
             Inl e \<Rightarrow> (Agent_config_error e, u)
           | Inr c \<Rightarrow> (case xe_serve E c t u of (ok, u) \<Rightarrow>
               (Stopped (public_url base q) password ok, send_delete E base q u)))))"

definition runExpose :: "'u expose_env \<Rightarrow> string option \<Rightarrow> string \<Rightarrow> string list \<Rightarrow> 'u \<Rightarrow> expose_end \<times> 'u" where
  "runExpose E configured_server rnd args u =
     (case parseExposeArgs args of
        Inl e \<Rightarrow> (Expose_usage e, u)
      | Inr o1 \<Rightarrow>
          (let from_config = (xo_server o1 = DefaultServer \<and> xo_config o1 \<noteq> []) in
           if from_config \<and> configured_server = None then (No_server, u)
           else (let base = (if from_config then the configured_server else xo_server o1);
                     auth = \<not> xo_noAuth o1;
                     password = (if auth then hex_encode rnd else []) in
             (case cli_Do (NewClient base) ''POST'' ''/quick'' [] (Some (quick_document auth password)) decode_quick (xe_client E) u of
                (Inl e, u) \<Rightarrow> (Control_plane_error e, u)
              | (Inr reply, u) \<Rightarrow> expose_tunnel E base (case reply of None \<Rightarrow> no_reply | Some q \<Rightarrow> q) o1
                    (if auth then Some password else None) u))))"

section \<open>The control plane and its client\<close>

text \<open>The server reads what the client sends, and the client what the server answers.\<close>

lemma quick_document_params:
  assumes "ascii password" and "length (json_enc (quick_document auth password)) \<le> 65536"
    and "rq_body r = json_enc (quick_document auth password)" and "0 < rq_content_length r"
  shows "quick_params r = Some (auth, password)"
proof -
  have "json_plain (quick_document auth password)"
    using assms(1) by (simp add: quick_document_def ascii_def)
  from decode_first_enc [OF this assms(2)] have d: "decode_first 65536 (rq_body r) = Some (quick_document auth password)"
    by (simp add: assms(3))
  have f: "fold_eq ''auth'' ''auth''" "\<not> fold_eq ''password'' ''auth''" "\<not> fold_eq ''auth'' ''password''" "fold_eq ''password'' ''password''"
    by code_simp+
  show ?thesis
    using assms(4) by (simp add: quick_params_def d) (simp add: quick_document_def members_def f)
qed

lemma quick_reply_read:
  assumes "ascii slug" and "ascii key" and "- (2 ^ 63) \<le> unix e" and "unix e < 2 ^ 63"
  shows "Option.bind (unmarshal (rp_body (quick_created slug key e))) decode_quick
    = Some \<lparr>qr_tenant = slug, qr_service = ''mcp'', qr_key = key, qr_expires = unix e\<rparr>"
proof -
  let ?kvs = "[(''agent_key'', J_str key), (''expires_at'', J_num (itoa (unix e))), (''service'', J_str ''mcp''), (''tenant'', J_str slug)]"
  have plain: "json_plain (J_obj ?kvs)" using assms by (simp add: parse_int64_itoa ascii_def)
  have f: "list_all (\<lambda>k. list_all (\<lambda>n. fold_eq k n \<longleftrightarrow> k = n) [''agent_key'', ''expires_at'', ''service'', ''tenant''])
      [''agent_key'', ''expires_at'', ''service'', ''tenant'']" by code_simp
  show ?thesis
    unfolding quick_created_def writeJSON_reads [OF plain] bind.bind_lunit
    using f assms(3,4) by (simp add: decode_quick_def members_def parse_int64_itoa)
qed

end
