(* ===== verification/Jwt.thy ===== *)
theory Jwt
  imports Go_Json
begin

text \<open>
  \<open>internal/oauth/jwt.go\<close>: ES256 access tokens. SHA-256, ECDSA, PEM and X.509 come from Go's
  crypto packages and are the fields of a record; \<open>crypto_ok\<close> states what they promise: digests of
  32 bytes, signatures of two 256-bit numbers, and that a signature verifies under the public key
  of the key that made it. Randomness and the clock are arguments; the
  quoting (\<open>%q\<close>) of a wrong issuer in its error text is left out.
\<close>

record ('k, 'p) crypto =
  cr_sha256 :: "string \<Rightarrow> string"
  cr_sign :: "'k \<Rightarrow> string \<Rightarrow> string \<Rightarrow> (nat \<times> nat) option"
  cr_verify :: "'p \<Rightarrow> string \<Rightarrow> nat \<Rightarrow> nat \<Rightarrow> bool"
  cr_public :: "'k \<Rightarrow> 'p"
  cr_pem_decode :: "string \<Rightarrow> string option"
  cr_x509_parse :: "string \<Rightarrow> 'k option"

definition crypto_ok :: "('k, 'p) crypto \<Rightarrow> bool" where
  "crypto_ok C \<longleftrightarrow>
     (\<forall>x. length (cr_sha256 C x) = 32) \<and>
     (\<forall>k h rnd r s. cr_sign C k h rnd = Some (r, s) \<longrightarrow>
        r < 2 ^ 256 \<and> s < 2 ^ 256 \<and> cr_verify C (cr_public C k) h r s)"

definition parseKey :: "('k, 'p) crypto \<Rightarrow> string \<Rightarrow> string + 'k" where
  "parseKey C privatePEM =
     (case cr_pem_decode C privatePEM of
        None \<Rightarrow> Inl ''oauth: invalid PEM''
      | Some der \<Rightarrow> (case cr_x509_parse C der of None \<Rightarrow> Inl ''x509: failed to parse EC private key'' | Some k \<Rightarrow> Inr k))"

section \<open>Big-endian numbers\<close>

fun FillBytes :: "nat \<Rightarrow> nat \<Rightarrow> string" where
  "FillBytes 0 x = []"
| "FillBytes (Suc n) x = FillBytes n (x div 256) @ [char_of (x mod 256)]"

definition SetBytes :: "string \<Rightarrow> nat" where
  "SetBytes bs = foldl (\<lambda>acc c. 256 * acc + of_char c) 0 bs"

lemma length_FillBytes [simp]: "length (FillBytes n x) = n"
  by (induction n arbitrary: x) simp_all

lemma SetBytes_FillBytes: "x < 256 ^ n \<Longrightarrow> SetBytes (FillBytes n x) = x"
proof (induction n arbitrary: x)
  case 0
  then show ?case by (simp add: SetBytes_def)
next
  case (Suc n)
  then have "x div 256 < 256 ^ n" by (simp add: less_mult_imp_div_less mult.commute)
  with Suc.IH [OF this] show ?case by (simp add: SetBytes_def)
qed

section \<open>Tokens\<close>

record access_claims =
  Issuer :: string
  Subject :: string
  ClientID :: string
  Scope :: string
  Audience :: "string list"
  ClaimsExpiresAt :: time

definition jwt_header :: json where
  "jwt_header = J_obj [(''alg'', J_str ''ES256''), (''typ'', J_str ''JWT'')]"

definition jwt_payload :: "string \<Rightarrow> string \<Rightarrow> string \<Rightarrow> string \<Rightarrow> string \<Rightarrow> int \<Rightarrow> int \<Rightarrow> string \<Rightarrow> json" where
  "jwt_payload issuer subject clientID scope aud exp iat jti = J_obj
     [(''aud'', J_str aud), (''client_id'', J_str clientID), (''exp'', J_num (itoa exp)), (''iat'', J_num (itoa iat)),
      (''iss'', J_str issuer), (''jti'', J_str (hex_encode jti)), (''scope'', J_str scope), (''sub'', J_str subject)]"

definition jwt_input :: "json \<Rightarrow> json \<Rightarrow> string" where
  "jwt_input hdr pl = b64_encode (json_enc hdr) @ ''.'' @ b64_encode (json_enc pl)"

text \<open>\<open>jti\<close> are the 16 random bytes of the token id, \<open>rnd\<close> the randomness of the signature.\<close>

definition signAccessToken ::
  "('k, 'p) crypto \<Rightarrow> 'k \<Rightarrow> string \<Rightarrow> string \<Rightarrow> string \<Rightarrow> string \<Rightarrow> string \<Rightarrow> time \<Rightarrow> time \<Rightarrow> string \<Rightarrow> string
    \<Rightarrow> string option" where
  "signAccessToken C key issuer subject clientID scope resource expiresAt now jti rnd =
     (let aud = (if resource = [] then issuer else resource);
          input = jwt_input jwt_header
            (jwt_payload issuer subject clientID scope aud (unix expiresAt) (unix now) jti)
      in case cr_sign C key (cr_sha256 C input) rnd of
           None \<Rightarrow> None
         | Some (r, s) \<Rightarrow> Some (input @ ''.'' @ b64_encode (FillBytes 32 r @ FillBytes 32 s)))"

text \<open>\<open>splitJWT\<close>: two cuts at the first dot; the third part keeps any further dots.\<close>

fun split_jwt_loop :: "nat \<Rightarrow> string list \<Rightarrow> string \<Rightarrow> string list option" where
  "split_jwt_loop 0 parts rest = Some (parts @ [rest])"
| "split_jwt_loop (Suc n) parts rest =
     (case index_byte rest (CHR ''.'') of
        None \<Rightarrow> None
      | Some i \<Rightarrow> split_jwt_loop n (parts @ [take i rest]) (drop (i + 1) rest))"

definition splitJWT :: "string \<Rightarrow> string list option" where
  "splitJWT token = split_jwt_loop 2 [] token"

fun str_of :: "json \<Rightarrow> string list" where
  "str_of (J_str s) = [s]"
| "str_of _ = []"

fun toStrings :: "json \<Rightarrow> string list" where
  "toStrings (J_str a) = [a]"
| "toStrings (J_arr a) = concat (map str_of a)"
| "toStrings _ = []"

text \<open>The claims struct: \<open>iss\<close>, \<open>sub\<close>, \<open>client_id\<close>, \<open>scope\<close>, \<open>aud\<close> (any value), \<open>exp\<close>.\<close>

definition decode_claims :: "string \<Rightarrow> (string \<times> string \<times> string \<times> string \<times> json \<times> int) option" where
  "decode_claims payload =
     Option.bind (unmarshal payload) (\<lambda>j.
     Option.bind (members j) (\<lambda>kvs.
     Option.bind (decode_field as_string None ''iss'' [] kvs) (\<lambda>iss.
     Option.bind (decode_field as_string None ''sub'' [] kvs) (\<lambda>sub.
     Option.bind (decode_field as_string None ''client_id'' [] kvs) (\<lambda>cid.
     Option.bind (decode_field as_string None ''scope'' [] kvs) (\<lambda>scope.
     Option.bind (decode_field Some (Some J_null) ''aud'' J_null kvs) (\<lambda>aud.
     Option.bind (decode_field as_int64 None ''exp'' 0 kvs) (\<lambda>exp.
     Some (iss, sub, cid, scope, aud, exp)))))))))"

definition validateAccessToken ::
  "('k, 'p) crypto \<Rightarrow> 'p \<Rightarrow> string \<Rightarrow> string \<Rightarrow> time \<Rightarrow> string + access_claims" where
  "validateAccessToken C pub issuer token now =
     (case splitJWT token of
        Some [h, p, sg] \<Rightarrow>
          (case b64_decode sg of
             None \<Rightarrow> Inl ''oauth: bad signature encoding''
           | Some sig \<Rightarrow>
               if length sig \<noteq> 64 then Inl ''oauth: bad signature encoding''
               else if \<not> cr_verify C pub (cr_sha256 C (h @ ''.'' @ p)) (SetBytes (take 32 sig)) (SetBytes (drop 32 sig))
               then Inl ''oauth: invalid signature''
               else (case b64_decode p of
                   None \<Rightarrow> Inl ''oauth: bad payload encoding''
                 | Some payload \<Rightarrow>
                     (case decode_claims payload of
                        None \<Rightarrow> Inl ''oauth: bad payload JSON''
                      | Some (iss, sub, cid, scope, aud, exp) \<Rightarrow>
                          if iss \<noteq> issuer then Inl (''oauth: wrong issuer '' @ iss)
                          else if unix now \<ge> exp then Inl ''oauth: token expired''
                          else Inr \<lparr>Issuer = iss, Subject = sub, ClientID = cid, Scope = scope,
                                    Audience = toStrings aud, ClaimsExpiresAt = time_unix exp\<rparr>)))
      | _ \<Rightarrow> Inl ''oauth: malformed token'')"

definition jwksHandler :: "string \<Rightarrow> string \<Rightarrow> json" where
  "jwksHandler x y = J_obj [(''keys'', J_arr [J_obj [(''alg'', J_str ''ES256''), (''crv'', J_str ''P-256''),
     (''kty'', J_str ''EC''), (''use'', J_str ''sig''), (''x'', J_str (b64_encode x)), (''y'', J_str (b64_encode y))]])]"

section \<open>What a token says\<close>

lemma splitJWT_parts:
  assumes "CHR ''.'' \<notin> set a" and "CHR ''.'' \<notin> set b"
  shows "splitJWT (a @ ''.'' @ b @ ''.'' @ c) = Some [a, b, c]"
  using assms by (simp add: splitJWT_def numeral_eq_Suc)

lemma splitJWT_Some:
  assumes "splitJWT t = Some ps"
  shows "\<exists>a b c. ps = [a, b, c] \<and> t = a @ ''.'' @ b @ ''.'' @ c \<and> CHR ''.'' \<notin> set a \<and> CHR ''.'' \<notin> set b"
proof -
  from assms obtain i j where i: "index_byte t (CHR ''.'') = Some i"
    and j: "index_byte (drop (Suc i) t) (CHR ''.'') = Some j"
    and ps: "ps = [take i t, take j (drop (Suc i) t), drop (Suc j) (drop (Suc i) t)]"
    by (auto simp: splitJWT_def numeral_eq_Suc split: option.splits)
  have "t = take i t @ ''.'' @ take j (drop (Suc i) t) @ ''.'' @ drop (Suc j) (drop (Suc i) t)"
    using index_byte_split [OF i] index_byte_split [OF j] by simp
  then show ?thesis using ps index_byte_Some [OF i] index_byte_Some [OF j] by auto
qed

lemma hex_digit_ascii: "n < 16 \<Longrightarrow> (of_char (hex_digit n) :: nat) < 128"
proof -
  have "list_all (\<lambda>n. (of_char (hex_digit n) :: nat) < 128) [0..<16]" by code_simp
  then show "n < 16 \<Longrightarrow> (of_char (hex_digit n) :: nat) < 128" by (simp add: list_all_iff)
qed

lemma ascii_hex [simp]: "ascii (hex_encode bs)"
  by (induction bs) (simp_all add: hex_byte_def hex_digit_ascii less_mult_imp_div_less)

lemma decode_claims_payload:
  assumes "ascii issuer" "ascii subject" "ascii clientID" "ascii scope" "ascii aud"
    and "- (2 ^ 63) \<le> exp" "exp < 2 ^ 63" "- (2 ^ 63) \<le> iat" "iat < 2 ^ 63"
  shows "decode_claims (json_enc (jwt_payload issuer subject clientID scope aud exp iat jti)) =
    Some (issuer, subject, clientID, scope, J_str aud, exp)"
proof -
  have "json_plain (jwt_payload issuer subject clientID scope aud exp iat jti)"
    using assms json_plain_itoa by (simp add: jwt_payload_def)
  then have "unmarshal (json_enc (jwt_payload issuer subject clientID scope aud exp iat jti)) =
      Some (jwt_payload issuer subject clientID scope aud exp iat jti)" by (rule unmarshal_enc)
  then show ?thesis
    using parse_int64_itoa [OF assms(6,7)]
    by (simp add: decode_claims_def jwt_payload_def members_def fold_eq_def lower_byte_def in_range_def)
qed

lemma sign_validates:
  assumes C: "crypto_ok C"
    and ascii: "ascii issuer" "ascii subject" "ascii clientID" "ascii scope" "ascii resource"
    and range: "unix expiresAt < 2 ^ 63" "- (2 ^ 63) \<le> unix iat" "unix iat < 2 ^ 63" "- (2 ^ 63) \<le> unix expiresAt"
    and token: "signAccessToken C key issuer subject clientID scope resource expiresAt iat jti rnd = Some token"
  shows "validateAccessToken C (cr_public C key) issuer token now =
    (if unix now < unix expiresAt
     then Inr \<lparr>Issuer = issuer, Subject = subject, ClientID = clientID, Scope = scope,
               Audience = [if resource = [] then issuer else resource], ClaimsExpiresAt = time_unix (unix expiresAt)\<rparr>
     else Inl ''oauth: token expired'')"
proof -
  define aud where "aud = (if resource = [] then issuer else resource)"
  define pl where "pl = jwt_payload issuer subject clientID scope aud (unix expiresAt) (unix iat) jti"
  define h p where "h = b64_encode (json_enc jwt_header)" and "p = b64_encode (json_enc pl)"
  from token obtain r s where sig: "cr_sign C key (cr_sha256 C (h @ ''.'' @ p)) rnd = Some (r, s)"
    and t: "token = h @ ''.'' @ p @ ''.'' @ b64_encode (FillBytes 32 r @ FillBytes 32 s)"
    by (auto simp: signAccessToken_def Let_def aud_def [symmetric] pl_def [symmetric] jwt_input_def h_def p_def
        split: option.splits)
  have bounds: "r < 256 ^ 32" "s < 256 ^ 32" and ver: "cr_verify C (cr_public C key) (cr_sha256 C (h @ ''.'' @ p)) r s"
    using C sig by (auto simp: crypto_ok_def)
  have "splitJWT token = Some [h, p, b64_encode (FillBytes 32 r @ FillBytes 32 s)]"
    unfolding t h_def p_def by (intro splitJWT_parts b64_no_dot)
  moreover have "decode_claims (json_enc pl) = Some (issuer, subject, clientID, scope, J_str aud, unix expiresAt)"
    unfolding pl_def using ascii range by (intro decode_claims_payload) (simp_all add: aud_def)
  ultimately show ?thesis
    using ver bounds
    by (simp add: validateAccessToken_def b64_decode_encode p_def SetBytes_FillBytes aud_def)
qed

text \<open>What an accepted token is: signed, from this issuer, and not expired.\<close>

lemma validate_sound:
  assumes "validateAccessToken C pub issuer token now = Inr claims"
  shows "Issuer claims = issuer \<and> now < ClaimsExpiresAt claims
    \<and> (\<exists>h p sg sig. splitJWT token = Some [h, p, sg] \<and> b64_decode sg = Some sig \<and> length sig = 64
         \<and> cr_verify C pub (cr_sha256 C (h @ ''.'' @ p)) (SetBytes (take 32 sig)) (SetBytes (drop 32 sig)))"
proof -
  have later: "unix now < exp \<Longrightarrow> now < time_unix exp" for exp
    by (simp add: unix_def time_unix_def nanos_def div_less_iff_less_mult)
  show ?thesis
    using assms splitJWT_Some [of token] later
    by (auto simp: validateAccessToken_def split: option.splits if_splits list.splits)
qed

lemma trim_space_clean:
  assumes "set s \<subseteq> set (CHR ''.'' # b64_alphabet)"
  shows "trim_space s = s"
proof -
  have "list_all (\<lambda>q. case q of [] \<Rightarrow> False | a # r \<Rightarrow> a \<notin> set (CHR ''.'' # b64_alphabet)) (space_seqs @ map rev space_seqs)"
    by code_simp
  then have "list_all (\<lambda>q. case q of [] \<Rightarrow> False | a # r \<Rightarrow> a \<notin> set s) (space_seqs @ map rev space_seqs)"
    using assms by (auto simp: list_all_iff simp del: list.set split: list.splits)
  then have "strip_any (space_seqs @ map rev space_seqs) s = None" "strip_any (space_seqs @ map rev space_seqs) (rev s) = None"
    using strip_any_None [of s] strip_any_None [of "rev s", unfolded set_rev] by blast+
  then have "strip_any space_seqs s = None" "strip_any (map rev space_seqs) (rev s) = None"
    by (simp_all add: strip_any_append split: option.splits)
  then show ?thesis by (simp add: trim_space_def drop_any_None)
qed

text \<open>A signed token reaches the server whole through the \<open>Authorization\<close> header.\<close>

lemma token_chars:
  assumes "signAccessToken C key issuer subject clientID scope resource expiresAt now jti rnd = Some token"
  shows "trim_space token = token"
  using assms b64_encode_alphabet
  by (intro trim_space_clean) (auto simp: signAccessToken_def Let_def jwt_input_def subset_iff split: option.splits)

end
