(* ===== verification/OAuth.thy ===== *)
theory OAuth
  imports Control_Plane Go_Url Jwt
begin

text \<open>
  \<open>internal/oauth\<close> (\<open>oauth.go\<close>, \<open>register.go\<close>, \<open>authorize.go\<close>, \<open>token.go\<close>, \<open>metadata.go\<close>): the
  authorization server of one tenant over any storage backend, and the resolver that caches the
  servers. State is the backend's state with the two in-memory rate limiters; the clock, random
  bytes and generated keys are arguments.
\<close>

section \<open>Responses\<close>

definition oauth_writeErr :: "nat \<Rightarrow> string \<Rightarrow> string \<Rightarrow> response" where
  "oauth_writeErr status errCode desc =
     writeJSON status (J_obj [(''error'', J_str errCode), (''error_description'', J_str desc)])"

text \<open>
  \<open>http.Redirect\<close> with \<open>302\<close>: the \<open>Location\<close> header. (For a target without scheme and host
  \<open>net/http\<close> makes the path absolute first; the short HTML body is left out.)
\<close>

definition redirect :: "string \<Rightarrow> response" where
  "redirect target = \<lparr>rp_status = 302, rp_headers = [(''Location'', target)], rp_body = []\<rparr>"

lemma oauth_status [simp]:
  "rp_status (oauth_writeErr status c d) = status"
  "rp_status (redirect target) = 302"
  by (simp_all add: oauth_writeErr_def redirect_def)

section \<open>The server of a tenant\<close>

record 'k oauth_server =
  os_issuer :: string
  os_baseURL :: string
  os_tenant :: string
  os_key :: 'k
  os_expiresAt :: time

text \<open>\<open>pem\<close> is what \<open>GenerateKey\<close> would return (\<open>None\<close>: it fails).\<close>

definition NewServer ::
  "'s store_api \<Rightarrow> ('k, 'p) crypto \<Rightarrow> string \<Rightarrow> string \<Rightarrow> time \<Rightarrow> string option \<Rightarrow> time \<Rightarrow> 's
    \<Rightarrow> (string + 'k oauth_server) \<times> 's" where
  "NewServer A C baseURL tenant expiresAt pem now s =
     (let finish = (\<lambda>pemStr s. case parseKey C pemStr of
          Inl e \<Rightarrow> (Inl e, s)
        | Inr key \<Rightarrow> (Inr \<lparr>os_issuer = trim_right baseURL ''/'' @ ''/t/'' @ tenant,
              os_baseURL = trim_right baseURL ''/'', os_tenant = tenant, os_key = key,
              os_expiresAt = expiresAt\<rparr>, s))
      in case GetSigningKey A tenant s of
          (Inr pemStr, s) \<Rightarrow> finish pemStr s
        | (Inl e, s) \<Rightarrow>
            (case pem of
               None \<Rightarrow> (Inl ''key generation failed'', s)
             | Some pemStr \<Rightarrow>
                 (case CreateSigningKey A tenant pemStr now s of
                    (Inl e, s) \<Rightarrow> (Inl ''create signing key'', s)
                  | (Inr _, s) \<Rightarrow> finish pemStr s)))"

definition ValidateAccessToken ::
  "('k, 'p) crypto \<Rightarrow> 'k oauth_server \<Rightarrow> string \<Rightarrow> time \<Rightarrow> string + access_claims" where
  "ValidateAccessToken C srv token now = validateAccessToken C (cr_public C (os_key srv)) (os_issuer srv) token now"

section \<open>Per-IP rate limiter\<close>

record ip_rate =
  ir_hits :: "string \<Rightarrow> int"
  ir_reset :: time

definition newIPRate :: "time \<Rightarrow> ip_rate" where
  "newIPRate now = \<lparr>ir_hits = (\<lambda>_. 0), ir_reset = now + secs 3600\<rparr>"

definition allow :: "string \<Rightarrow> int \<Rightarrow> time \<Rightarrow> ip_rate \<Rightarrow> bool \<times> ip_rate" where
  "allow ip limit now r =
     (let r = (if ir_reset r < now then \<lparr>ir_hits = (\<lambda>_. 0), ir_reset = now + secs 3600\<rparr> else r);
          r = r\<lparr>ir_hits := (ir_hits r)(ip := ir_hits r ip + 1)\<rparr>
      in (ir_hits r ip \<le> limit, r))"

definition clientIP :: "request \<Rightarrow> string" where
  "clientIP r =
     (case split_host_port (rq_remote r) of
        Some (host, port) \<Rightarrow> host
      | None \<Rightarrow>
          (let fwd = header r ''X-Forwarded-For''; ip = fst (cut_byte fwd (CHR '','')) in
           if fwd \<noteq> [] \<and> ip \<noteq> [] then trim_space ip else rq_remote r))"

record 's oauth_state =
  oa_store :: 's
  oa_register :: ip_rate
  oa_token :: ip_rate

section \<open>Dynamic client registration\<close>

definition registerRateLimit :: int where
  "registerRateLimit = 20"

definition validRedirectURI :: "string \<Rightarrow> bool" where
  "validRedirectURI uri =
     (case Parse uri of
        None \<Rightarrow> False
      | Some u \<Rightarrow>
          if u_scheme u = ''https'' then True
          else if u_scheme u \<noteq> ''http'' then False
          else if Hostname u = ''localhost'' then True
          else (case ParseIP (Hostname u) of None \<Rightarrow> False | Some ip \<Rightarrow> IsLoopback ip))"

definition register_params :: "string \<Rightarrow> (string list \<times> string \<times> string) option" where
  "register_params body =
     Option.bind (decode_first 1048576 body) (\<lambda>j.
     Option.bind (members j) (\<lambda>kvs.
     Option.bind (decode_field as_strings (Some []) ''redirect_uris'' [] kvs) (\<lambda>uris.
     Option.bind (decode_field as_string None ''token_endpoint_auth_method'' [] kvs) (\<lambda>am.
     Option.bind (decode_field as_string None ''client_name'' [] kvs) (\<lambda>cn.
     Some (uris, am, cn))))))"

definition uris_json :: "string list \<Rightarrow> json" where
  "uris_json uris = J_arr (map J_str uris)"

record register_env =
  re_now_rate :: time
  re_rnd :: string
  re_now_store :: time

definition handleRegister ::
  "'s store_api \<Rightarrow> 'k oauth_server \<Rightarrow> register_env \<Rightarrow> request \<Rightarrow> 's oauth_state \<Rightarrow> response \<times> 's oauth_state" where
  "handleRegister A srv env r st =
     (case allow (clientIP r) registerRateLimit (re_now_rate env) (oa_register st) of (allowed, rate) \<Rightarrow>
      let st = st\<lparr>oa_register := rate\<rparr> in
      if \<not> allowed then (oauth_writeErr 429 ''rate_limited'' ''too many registrations; try again later'', st)
      else (case register_params (rq_body r) of
          None \<Rightarrow> (oauth_writeErr 400 ''invalid_client_metadata'' ''invalid JSON body'', st)
        | Some (uris, am, cn) \<Rightarrow>
            if am \<noteq> [] \<and> am \<noteq> ''none''
            then (oauth_writeErr 400 ''invalid_client_metadata''
                    ''only public clients (token_endpoint_auth_method=none) are supported'', st)
            else if uris = [] then (oauth_writeErr 400 ''invalid_client_metadata'' ''redirect_uris is required'', st)
            else if \<not> list_all validRedirectURI uris
            then (oauth_writeErr 400 ''invalid_redirect_uri'' ''redirect_uri must be https or a loopback address'', st)
            else (let clientID = ''mcp_'' @ hex_encode (re_rnd env) in
              case CreateOAuthClient A (os_tenant srv) clientID (json_enc (uris_json uris)) (re_now_store env) (oa_store st) of
                (Inl e, s) \<Rightarrow> (oauth_writeErr 500 ''server_error'' ''failed to store client'', st\<lparr>oa_store := s\<rparr>)
              | (Inr _, s) \<Rightarrow>
                  (writeJSON 201 (J_obj [(''client_id'', J_str clientID), (''client_name'', J_str cn),
                     (''redirect_uris'', uris_json uris), (''token_endpoint_auth_method'', J_str ''none'')]),
                   st\<lparr>oa_store := s\<rparr>))))"

section \<open>The authorization endpoint\<close>

definition authCodeTTL :: int where
  "authCodeTTL = secs 60"

definition containsString :: "string list \<Rightarrow> string \<Rightarrow> bool" where
  "containsString haystack needle = list_ex (\<lambda>s. s = needle) haystack"

definition sha256hex :: "('k, 'p) crypto \<Rightarrow> string \<Rightarrow> string" where
  "sha256hex C s = hex_encode (cr_sha256 C s)"

text \<open>The query parameters added to a redirect URI.\<close>

definition with_query :: "url \<Rightarrow> (string \<times> string) list \<Rightarrow> url" where
  "with_query u ps = u\<lparr>u_rawquery := values_encode (fold (\<lambda>(k, v). values_set k v) ps (parse_query (u_rawquery u)))\<rparr>"

definition opt_state :: "string \<Rightarrow> (string \<times> string) list" where
  "opt_state state = (if state = [] then [] else [(''state'', state)])"

definition authError :: "string \<Rightarrow> string \<Rightarrow> string \<Rightarrow> string \<Rightarrow> response" where
  "authError redirectURI state errCode desc =
     (if redirectURI = [] then oauth_writeErr 400 errCode desc
      else (case Parse redirectURI of
          None \<Rightarrow> oauth_writeErr 400 errCode desc
        | Some u \<Rightarrow> redirect (url_string (with_query u
            ([(''error'', errCode), (''error_description'', desc)] @ opt_state state)))))"

definition hasPassword :: "'s store_api \<Rightarrow> 'k oauth_server \<Rightarrow> 's \<Rightarrow> bool \<times> 's" where
  "hasPassword A srv s =
     (case GetService A (os_tenant srv) ''mcp'' s of
        (Inl e, s) \<Rightarrow> (False, s)
      | (Inr svc, s) \<Rightarrow> (PasswordHash svc \<noteq> [], s))"

text \<open>\<open>html.EscapeString\<close> and the password form.\<close>

definition html_char :: "char \<Rightarrow> string" where
  "html_char c =
     (if c = CHR ''&'' then ''&amp;'' else if c = CHR 0x27 then ''&#39;''
      else if c = CHR ''<'' then ''&lt;'' else if c = CHR ''>'' then ''&gt;''
      else if c = CHR 0x22 then ''&#34;'' else [c])"

definition html_escape :: "string \<Rightarrow> string" where
  "html_escape s = concat (map html_char s)"

definition quoted :: "string \<Rightarrow> string" where
  "quoted s = CHR 0x22 # s @ [CHR 0x22]"

definition hidden_field :: "request \<Rightarrow> string \<Rightarrow> string" where
  "hidden_field r name = ''<input type='' @ quoted ''hidden'' @ '' name='' @ quoted name @ '' value=''
     @ quoted (html_escape (FormValue r name)) @ ''>'' @ [CHR 0x0A]"

definition renderPasswordForm :: "request \<Rightarrow> bool \<Rightarrow> response" where
  "renderPasswordForm r failed = \<lparr>rp_status = 200,
     rp_headers = [(''Content-Type'', ''text/html; charset=utf-8'')],
     rp_body =
       ''<!DOCTYPE html>'' @ [CHR 0x0A]
       @ ''<html><head><title>Authorize '' @ [CHR 0xE2, CHR 0x80, CHR 0x94] @ '' mcptunnels</title>'' @ [CHR 0x0A]
       @ ''<style>body{font-family:system-ui;max-width:400px;margin:80px auto;padding:0 16px}'' @ [CHR 0x0A]
       @ ''input[type=password]{width:100%;padding:8px;margin:8px 0;font-size:16px}'' @ [CHR 0x0A]
       @ ''button{padding:8px 24px;font-size:16px}</style></head>'' @ [CHR 0x0A]
       @ ''<body><h2>Authorize access</h2>'' @ [CHR 0x0A]
       @ ''<p>Enter the password shown by <code>mcptunnel expose</code>.</p>'' @ [CHR 0x0A]
       @ (if failed then ''<p style='' @ quoted ''color:red'' @ ''>Wrong password.</p>'' else []) @ [CHR 0x0A]
       @ ''<form method='' @ quoted ''post'' @ ''>'' @ [CHR 0x0A]
       @ concat (map (hidden_field r) [''client_id'', ''redirect_uri'', ''response_type'', ''code_challenge'',
           ''code_challenge_method'', ''state''])
       @ ''<input type='' @ quoted ''password'' @ '' name='' @ quoted ''password'' @ '' placeholder='' @ quoted ''Password''
       @ '' autofocus required>'' @ [CHR 0x0A]
       @ ''<br><button type='' @ quoted ''submit'' @ ''>Authorize</button>'' @ [CHR 0x0A]
       @ ''</form></body></html>''\<rparr>"

record authorize_env =
  ae_rnd :: string
  ae_now :: time

definition handleAuthorize ::
  "'s store_api \<Rightarrow> bcrypt \<Rightarrow> ('k, 'p) crypto \<Rightarrow> 'k oauth_server \<Rightarrow> authorize_env \<Rightarrow> request \<Rightarrow> 's \<Rightarrow> response \<times> 's" where
  "handleAuthorize A B C srv env r s =
     (let clientID = FormValue r ''client_id''; redirectURI = FormValue r ''redirect_uri'';
          codeChallenge = FormValue r ''code_challenge''; state = FormValue r ''state'';
          fail = authError redirectURI state
      in if FormValue r ''response_type'' \<noteq> ''code''
         then (fail ''unsupported_response_type'' ''only response_type=code is supported'', s)
         else if codeChallenge = [] \<or> FormValue r ''code_challenge_method'' \<noteq> ''S256''
         then (fail ''invalid_request'' ''PKCE S256 code_challenge is required'', s)
         else (case GetOAuthClient A (os_tenant srv) clientID s of
            (Inl e, s) \<Rightarrow> (fail ''invalid_client'' ''unknown client_id'', s)
          | (Inr urisJSON, s) \<Rightarrow>
          (case Option.bind (unmarshal urisJSON) (\<lambda>j. if j = J_null then Some [] else as_strings j) of
            None \<Rightarrow> (fail ''server_error'' ''corrupt client registration'', s)
          | Some registeredURIs \<Rightarrow>
              if \<not> containsString registeredURIs redirectURI
              then (fail ''invalid_request'' ''redirect_uri does not match registration'', s)
              else (case hasPassword A srv s of (protected, s) \<Rightarrow>
                (case (if protected then ValidatePassword A B (os_tenant srv) ''mcp'' (FormValue r ''password'') s
                       else (Inr True, s)) of (verdict, s) \<Rightarrow>
                 if verdict \<noteq> Inr True then (renderPasswordForm r (FormValue r ''password'' \<noteq> []), s)
                 else (let code = hex_encode (ae_rnd env) in
                   case CreateAuthCode A (sha256hex C code) (os_tenant srv) clientID redirectURI codeChallenge
                          (ae_now env + authCodeTTL) s of
                     (Inl e, s) \<Rightarrow> (fail ''server_error'' ''failed to create authorization code'', s)
                   | (Inr _, s) \<Rightarrow>
                       (case Parse redirectURI of
                          None \<Rightarrow> aborted
                        | Some u \<Rightarrow> redirect (url_string (with_query u ([(''code'', code)] @ opt_state state))), s)))))))"

section \<open>The token endpoint\<close>

definition tokenRateLimit :: int where
  "tokenRateLimit = 60"

definition verifyPKCE :: "('k, 'p) crypto \<Rightarrow> string \<Rightarrow> string \<Rightarrow> bool" where
  "verifyPKCE C verifier challenge \<longleftrightarrow> b64_encode (cr_sha256 C verifier) = challenge"

record token_env =
  te_now_rate :: time
  te_now_consume :: time
  te_now_iat :: time
  te_jti :: string
  te_sig_rnd :: string
  te_now_until :: time

definition token_response :: "string \<Rightarrow> int \<Rightarrow> response" where
  "token_response token expires_in = writeJSON 200 (J_obj [(''access_token'', J_str token),
     (''expires_in'', J_num (itoa expires_in)), (''scope'', J_str ''mcp''), (''token_type'', J_str ''Bearer'')])"

definition handleToken ::
  "'s store_api \<Rightarrow> ('k, 'p) crypto \<Rightarrow> 'k oauth_server \<Rightarrow> token_env \<Rightarrow> request \<Rightarrow> 's oauth_state
    \<Rightarrow> response \<times> 's oauth_state" where
  "handleToken A C srv env r st =
     (case allow (clientIP r) tokenRateLimit (te_now_rate env) (oa_token st) of (allowed, rate) \<Rightarrow>
      let st = st\<lparr>oa_token := rate\<rparr> in
      if \<not> allowed then (oauth_writeErr 429 ''rate_limited'' ''too many token requests; try again later'', st)
      else (case rq_post_form r of
          None \<Rightarrow> (oauth_writeErr 400 ''invalid_request'' ''malformed form body'', st)
        | Some form \<Rightarrow>
          if first_value form ''grant_type'' \<noteq> ''authorization_code''
          then (oauth_writeErr 400 ''unsupported_grant_type'' ''only authorization_code is supported'', st)
          else (let code = first_value form ''code''; clientID = first_value form ''client_id'';
                    redirectURI = first_value form ''redirect_uri''; codeVerifier = first_value form ''code_verifier'' in
            if code = [] \<or> clientID = [] \<or> codeVerifier = []
            then (oauth_writeErr 400 ''invalid_request'' ''code, client_id, and code_verifier are required'', st)
            else (case ConsumeAuthCode A (sha256hex C code) (te_now_consume env) (oa_store st) of
                (Inl e, s) \<Rightarrow> (oauth_writeErr 400 ''invalid_grant''
                    ''authorization code is invalid, expired, or already used'', st\<lparr>oa_store := s\<rparr>)
              | (Inr (storedTenant, storedClientID, storedRedirectURI, storedChallenge), s) \<Rightarrow>
                  (let st = st\<lparr>oa_store := s\<rparr> in
                   if storedTenant \<noteq> os_tenant srv \<or> storedClientID \<noteq> clientID \<or> storedRedirectURI \<noteq> redirectURI
                   then (oauth_writeErr 400 ''invalid_grant'' ''code does not match client or redirect_uri'', st)
                   else if \<not> verifyPKCE C codeVerifier storedChallenge
                   then (oauth_writeErr 400 ''invalid_grant'' ''PKCE verification failed'', st)
                   else (case signAccessToken C (os_key srv) (os_issuer srv) ''quick-tunnel'' clientID ''mcp'' []
                                (os_expiresAt srv) (te_now_iat env) (te_jti env) (te_sig_rnd env) of
                       None \<Rightarrow> (oauth_writeErr 500 ''server_error'' ''failed to sign token'', st)
                     | Some token \<Rightarrow>
                         (token_response token (go_quot (os_expiresAt srv - te_now_until env) nanos), st)))))))"

section \<open>Metadata\<close>

definition asMetadata :: "'k oauth_server \<Rightarrow> response" where
  "asMetadata srv = writeJSON 200 (J_obj
     [(''authorization_endpoint'', J_str (os_issuer srv @ ''/authorize'')),
      (''code_challenge_methods_supported'', J_arr [J_str ''S256'']),
      (''grant_types_supported'', J_arr [J_str ''authorization_code'']),
      (''issuer'', J_str (os_issuer srv)),
      (''jwks_uri'', J_str (os_issuer srv @ ''/jwks.json'')),
      (''registration_endpoint'', J_str (os_issuer srv @ ''/register'')),
      (''response_types_supported'', J_arr [J_str ''code'']),
      (''scopes_supported'', J_arr [J_str ''mcp'']),
      (''token_endpoint'', J_str (os_issuer srv @ ''/token'')),
      (''token_endpoint_auth_methods_supported'', J_arr [J_str ''none''])])"

definition protected_resource_prefix :: string where
  "protected_resource_prefix = ''/.well-known/oauth-protected-resource''"

text \<open>The slice \<open>r.URL.Path[len(prefix):]\<close> panics on a shorter path.\<close>

definition resourceMetadata :: "'k oauth_server \<Rightarrow> string \<Rightarrow> response" where
  "resourceMetadata srv path =
     (if length path < length protected_resource_prefix then aborted
      else writeJSON 200 (J_obj
        [(''authorization_servers'', J_arr [J_str (os_issuer srv)]),
         (''bearer_methods_supported'', J_arr [J_str ''header'']),
         (''resource'', J_str (os_baseURL srv @ drop (length protected_resource_prefix) path))]))"

section \<open>Routing\<close>

text \<open>
  The server's mux, for clean paths (\<open>ServeMux\<close> redirects the others); a \<open>GET\<close> pattern also takes
  \<open>HEAD\<close>.
\<close>

datatype endpoint = Ep_authorize | Ep_token | Ep_register | Ep_jwks | Ep_metadata | Ep_method | Ep_none

definition oauth_route :: "string \<Rightarrow> string \<Rightarrow> endpoint" where
  "oauth_route m p =
     (let get = (m = ''GET'' \<or> m = ''HEAD''); post = (m = ''POST'') in
      if p = ''/authorize'' then (if get \<or> post then Ep_authorize else Ep_method)
      else if p = ''/token'' then (if post then Ep_token else Ep_method)
      else if p = ''/register'' then (if post then Ep_register else Ep_method)
      else if p = ''/jwks.json'' then (if get then Ep_jwks else Ep_method)
      else if p = ''/.well-known/oauth-authorization-server'' then (if get then Ep_metadata else Ep_method)
      else Ep_none)"

definition security_headers :: "(string \<times> string) list" where
  "security_headers = [(''X-Content-Type-Options'', ''nosniff''), (''Referrer-Policy'', ''no-referrer''),
     (''Content-Security-Policy'', ''frame-ancestors '' @ [CHR 0x27] @ ''none'' @ [CHR 0x27])]"

record oauth_env =
  oe_authorize :: authorize_env
  oe_token :: token_env
  oe_register :: register_env
  oe_public_x :: string
  oe_public_y :: string

text \<open>\<open>Server.Handler\<close> on the path below the tenant's prefix.\<close>

definition oauth_serve ::
  "'s store_api \<Rightarrow> bcrypt \<Rightarrow> ('k, 'p) crypto \<Rightarrow> 'k oauth_server \<Rightarrow> oauth_env \<Rightarrow> request \<Rightarrow> string \<Rightarrow> 's oauth_state
    \<Rightarrow> response \<times> 's oauth_state" where
  "oauth_serve A B C srv env r path st =
     (case (case oauth_route (rq_method r) path of
          Ep_authorize \<Rightarrow> (case handleAuthorize A B C srv (oe_authorize env) r (oa_store st) of
                            (resp, s) \<Rightarrow> (resp, st\<lparr>oa_store := s\<rparr>))
        | Ep_token \<Rightarrow> handleToken A C srv (oe_token env) r st
        | Ep_register \<Rightarrow> handleRegister A srv (oe_register env) r st
        | Ep_jwks \<Rightarrow> (writeJSON 200 (jwksHandler (oe_public_x env) (oe_public_y env)), st)
        | Ep_metadata \<Rightarrow> (asMetadata srv, st)
        | Ep_method \<Rightarrow> (http_error ''Method Not Allowed'' 405, st)
        | Ep_none \<Rightarrow> (not_found, st)) of
        (resp, st) \<Rightarrow> (add_headers security_headers resp, st))"

section \<open>The resolver\<close>

record 'k resolver =
  rv_baseURL :: string
  rv_servers :: "string \<rightharpoonup> 'k oauth_server"

definition NewResolver :: "string \<Rightarrow> 'k resolver" where
  "NewResolver baseURL = \<lparr>rv_baseURL = trim_right baseURL ''/'', rv_servers = Map.empty\<rparr>"

definition resolver_server ::
  "'s store_api \<Rightarrow> ('k, 'p) crypto \<Rightarrow> string option \<Rightarrow> time \<Rightarrow> string \<Rightarrow> 'k resolver \<Rightarrow> 's
    \<Rightarrow> 'k oauth_server option \<times> 'k resolver \<times> 's" where
  "resolver_server A C pem now tenant rv s =
     (case rv_servers rv tenant of
        Some srv \<Rightarrow> (Some srv, rv, s)
      | None \<Rightarrow>
          (case GetTenant A tenant s of
             (Inl e, s) \<Rightarrow> (None, rv, s)
           | (Inr tn, s) \<Rightarrow>
               (let expiresAt = (case ExpiresAt tn of None \<Rightarrow> now + secs (24 * 3600) | Some e \<Rightarrow> e) in
                case NewServer A C (rv_baseURL rv) tenant expiresAt pem now s of
                  (Inl e, s) \<Rightarrow> (None, rv, s)
                | (Inr srv, s) \<Rightarrow> (Some srv, rv\<lparr>rv_servers := (rv_servers rv)(tenant \<mapsto> srv)\<rparr>, s))))"

text \<open>\<open>/t/{tenant}/...\<close>: the tenant and the path below it.\<close>

definition resolver_path :: "string \<Rightarrow> (string \<times> string) option" where
  "resolver_path path =
     (case cut_prefix path ''/t/'' of
        None \<Rightarrow> None
      | Some rest \<Rightarrow> (case index_byte rest (CHR ''/'') of
            None \<Rightarrow> None
          | Some slash \<Rightarrow> Some (take slash rest, drop slash rest)))"

definition well_known_tenant :: "string \<Rightarrow> string option" where
  "well_known_tenant path =
     (if \<not> has_prefix path ''/.well-known/oauth-'' then None
      else (case cut_str path ''/t/'' of
          None \<Rightarrow> None
        | Some (_, rest) \<Rightarrow> Some (case index_byte rest (CHR ''/'') of None \<Rightarrow> rest | Some slash \<Rightarrow> take slash rest)))"

definition resolver_handle ::
  "'s store_api \<Rightarrow> bcrypt \<Rightarrow> ('k, 'p) crypto \<Rightarrow> string option \<Rightarrow> time \<Rightarrow> oauth_env \<Rightarrow> request
    \<Rightarrow> 'k resolver \<times> 's oauth_state \<Rightarrow> response \<times> 'k resolver \<times> 's oauth_state" where
  "resolver_handle A B C pem now env r st =
     (case st of (rv, st) \<Rightarrow>
      (case resolver_path (rq_path r) of
         None \<Rightarrow> (not_found, rv, st)
       | Some (tenant, subPath) \<Rightarrow>
           (case resolver_server A C pem now tenant rv (oa_store st) of
              (None, rv, s) \<Rightarrow> (not_found, rv, st\<lparr>oa_store := s\<rparr>)
            | (Some srv, rv, s) \<Rightarrow>
                (case oauth_serve A B C srv env r subPath (st\<lparr>oa_store := s\<rparr>) of
                   (resp, st) \<Rightarrow> (resp, rv, st)))))"

definition well_known_handle ::
  "'s store_api \<Rightarrow> ('k, 'p) crypto \<Rightarrow> string option \<Rightarrow> time \<Rightarrow> request
    \<Rightarrow> 'k resolver \<times> 's oauth_state \<Rightarrow> response \<times> 'k resolver \<times> 's oauth_state" where
  "well_known_handle A C pem now r st =
     (case st of (rv, st) \<Rightarrow>
      (case well_known_tenant (rq_path r) of
         None \<Rightarrow> (not_found, rv, st)
       | Some tenant \<Rightarrow>
           (case resolver_server A C pem now tenant rv (oa_store st) of
              (None, rv, s) \<Rightarrow> (not_found, rv, st\<lparr>oa_store := s\<rparr>)
            | (Some srv, rv, s) \<Rightarrow>
                (if has_prefix (rq_path r) ''/.well-known/oauth-authorization-server'' then asMetadata srv
                 else resourceMetadata srv (rq_path r), rv, st\<lparr>oa_store := s\<rparr>))))"

end
