(* ===== verification/OAuth_Flow.thy ===== *)
theory OAuth_Flow
  imports OAuth
begin

text \<open>
  What the OAuth endpoints promise, proved over the storage contract: registration stores only
  acceptable redirect URIs, a code is created only behind the checks of the authorization endpoint,
  a token is issued only for a live, unused, matching code, and the token validates.
\<close>

section \<open>Registration\<close>

lemma unmarshal_uris:
  assumes "list_all ascii uris"
  shows "unmarshal (json_enc (uris_json uris)) = Some (uris_json uris)"
    and "as_strings (uris_json uris) = Some uris"
proof -
  have "json_plain (uris_json uris)" using assms by (auto simp: uris_json_def list_all_iff)
  then show "unmarshal (json_enc (uris_json uris)) = Some (uris_json uris)" by (rule unmarshal_enc)
  show "as_strings (uris_json uris) = Some uris"
    by (induction uris) (simp_all add: uris_json_def)
qed

text \<open>What a valid redirect URI is: \<open>https\<close>, or \<open>http\<close> on this machine.\<close>

lemma validRedirectURI_sound:
  assumes "validRedirectURI uri"
  shows "\<exists>u. Parse uri = Some u \<and> (u_scheme u = ''https'' \<or> u_scheme u = ''http'' \<and>
    (Hostname u = ''localhost'' \<or> (\<exists>ip. ParseIP (Hostname u) = Some ip \<and> IsLoopback ip)))"
  using assms by (auto simp: validRedirectURI_def split: option.splits if_splits)

text \<open>The code record an authorization creates.\<close>

definition code_record :: "'k oauth_server \<Rightarrow> authorize_env \<Rightarrow> request \<Rightarrow> code_info" where
  "code_record srv env r = \<lparr>ci_tenant = os_tenant srv, ci_client = FormValue r ''client_id'',
     ci_redirect = FormValue r ''redirect_uri'', ci_challenge = FormValue r ''code_challenge'',
     ci_expires = unix (ae_now env + authCodeTTL), ci_used = None\<rparr>"

text \<open>What must hold for an authorization: PKCE, a registered redirect URI, the password if there is one.\<close>

definition may_authorize :: "bcrypt \<Rightarrow> 'k oauth_server \<Rightarrow> request \<Rightarrow> registry \<Rightarrow> bool" where
  "may_authorize B srv r R \<longleftrightarrow>
     FormValue r ''response_type'' = ''code'' \<and> FormValue r ''code_challenge'' \<noteq> []
     \<and> FormValue r ''code_challenge_method'' = ''S256''
     \<and> (case rg_clients R (os_tenant srv, FormValue r ''client_id'') of None \<Rightarrow> False
        | Some js \<Rightarrow> (case Option.bind (unmarshal js) (\<lambda>j. if j = J_null then Some [] else as_strings j) of
             None \<Rightarrow> False | Some uris \<Rightarrow> FormValue r ''redirect_uri'' \<in> set uris))
     \<and> (case rg_services R (os_tenant srv, ''mcp'') of None \<Rightarrow> True
        | Some svc \<Rightarrow> PasswordHash svc = [] \<or> CheckSecret B (PasswordHash svc) (FormValue r ''password''))"

definition authorize_redirect :: "authorize_env \<Rightarrow> request \<Rightarrow> response" where
  "authorize_redirect env r =
     (case Parse (FormValue r ''redirect_uri'') of
        None \<Rightarrow> aborted
      | Some u \<Rightarrow> redirect (url_string (with_query u
          ([(''code'', hex_encode (ae_rnd env))] @ opt_state (FormValue r ''state'')))))"

text \<open>What a token request presents, and whether a stored code answers to it.\<close>

definition code_matches :: "('k, 'p) crypto \<Rightarrow> 'k oauth_server \<Rightarrow> (string \<times> string) list \<Rightarrow> code_info \<Rightarrow> bool" where
  "code_matches C srv form i \<longleftrightarrow> ci_tenant i = os_tenant srv \<and> ci_client i = first_value form ''client_id''
     \<and> ci_redirect i = first_value form ''redirect_uri''
     \<and> verifyPKCE C (first_value form ''code_verifier'') (ci_challenge i)"

definition token_form_ok :: "(string \<times> string) list \<Rightarrow> bool" where
  "token_form_ok form \<longleftrightarrow> first_value form ''grant_type'' = ''authorization_code'' \<and> first_value form ''code'' \<noteq> []
     \<and> first_value form ''client_id'' \<noteq> [] \<and> first_value form ''code_verifier'' \<noteq> []"

text \<open>A code that can never be claimed again from time \<open>now\<close> on.\<close>

definition code_dead :: "string \<Rightarrow> time \<Rightarrow> registry \<Rightarrow> bool" where
  "code_dead h now R = (case rg_codes R h of None \<Rightarrow> True | Some i \<Rightarrow> ci_used i \<noteq> None \<or> ci_expires i \<le> unix now)"

lemma dead_refused: "code_dead h now R \<Longrightarrow> now \<le> later \<Longrightarrow> spec_consume_code h later R = (Inl ErrNotFound, R)"
  using unix_mono [of now later] by (auto simp: code_dead_def spec_consume_code_def split: option.splits)

lemma consume_dead: "spec_consume_code h now R = (x, R') \<Longrightarrow> code_dead h now R'"
  by (auto simp: code_dead_def spec_consume_code_def split: option.splits if_splits)

lemma containsString_iff [simp]: "containsString xs x \<longleftrightarrow> x \<in> set xs"
  by (auto simp: containsString_def list_ex_iff)

context store_contract
begin

lemma register_spec:
  assumes ok: "ok (oa_store st)" and run: "handleRegister api srv env r st = (resp, st')"
    and created: "rp_status resp = 201"
  shows "ok (oa_store st') \<and> (\<exists>uris am cn. register_params (rq_body r) = Some (uris, am, cn)
    \<and> uris \<noteq> [] \<and> am \<in> {[], ''none''} \<and> list_all validRedirectURI uris
    \<and> (os_tenant srv, ''mcp_'' @ hex_encode (re_rnd env)) \<notin> dom (rg_clients (view (oa_store st)))
    \<and> view (oa_store st') = (view (oa_store st))\<lparr>rg_clients := (rg_clients (view (oa_store st)))
        ((os_tenant srv, ''mcp_'' @ hex_encode (re_rnd env)) \<mapsto> json_enc (uris_json uris))\<rparr>)"
proof -
  obtain allowed rate where a: "allow (clientIP r) registerRateLimit (re_now_rate env) (oa_register st) = (allowed, rate)"
    by fastforce
  let ?cid = "''mcp_'' @ hex_encode (re_rnd env)"
  from run created a obtain uris am cn where p: "register_params (rq_body r) = Some (uris, am, cn)"
    and checks: "uris \<noteq> []" "am \<in> {[], ''none''}" "list_all validRedirectURI uris"
    by (auto simp: handleRegister_def Let_def split: if_splits option.splits)
  obtain x s1 where c: "CreateOAuthClient api (os_tenant srv) ?cid (json_enc (uris_json uris))
      (re_now_store env) (oa_store st) = (x, s1)" by fastforce
  have "x = Inr ()" and st': "oa_store st' = s1"
    using run created a p checks c by (cases x; auto simp: handleRegister_def Let_def split: if_splits)+
  then have "spec_create_client (os_tenant srv) ?cid (json_enc (uris_json uris)) (view (oa_store st)) = (Inr (), view s1)"
    and "ok s1" using implementsD [OF create_client ok c] by simp_all
  then show ?thesis using p checks st'
    by (auto simp: spec_create_client_def split: if_splits)
qed

section \<open>The authorization endpoint\<close>

lemma has_password_spec:
  assumes "ok s" and "hasPassword api srv s = (b, s')"
  shows "ok s' \<and> view s' = view s
    \<and> b = (case rg_services (view s) (os_tenant srv, ''mcp'') of None \<Rightarrow> False | Some svc \<Rightarrow> PasswordHash svc \<noteq> [])"
proof -
  obtain x s1 where g: "GetService api (os_tenant srv) ''mcp'' s = (x, s1)" by fastforce
  from implementsD [OF get_service assms(1) g] assms(2) g show ?thesis
    by (cases x) (auto simp: hasPassword_def spec_lookup_def split: option.splits)
qed

lemma password_gate:
  assumes "ok s"
    and "(if protected then ValidatePassword api B t ''mcp'' pw s else (Inr True, s)) = (verdict, s')"
    and "protected = (case rg_services (view s) (t, ''mcp'') of None \<Rightarrow> False | Some svc \<Rightarrow> PasswordHash svc \<noteq> [])"
  shows "ok s' \<and> view s' = view s \<and> (verdict = Inr True \<longleftrightarrow>
    (case rg_services (view s) (t, ''mcp'') of None \<Rightarrow> True
     | Some svc \<Rightarrow> PasswordHash svc = [] \<or> CheckSecret B (PasswordHash svc) pw))"
proof (cases protected)
  case False
  then show ?thesis using assms by (auto split: option.splits)
next
  case True
  with assms(2) have v: "ValidatePassword api B t ''mcp'' pw s = (verdict, s')" by simp
  from implementsD [OF validate_password assms(1) v] True assms(3) show ?thesis
    by (cases verdict) (auto simp: spec_validate_password_def split: option.splits)
qed

lemma authorize_spec:
  assumes ok: "ok s" and run: "handleAuthorize api B C srv env r s = (resp, s')"
  shows "ok s' \<and> (if may_authorize B srv r (view s) \<and> sha256hex C (hex_encode (ae_rnd env)) \<notin> dom (rg_codes (view s))
        \<and> os_tenant srv \<in> dom (rg_tenants (view s))
     then resp = authorize_redirect env r \<and> view s' = (view s)\<lparr>rg_codes := (rg_codes (view s))
            (sha256hex C (hex_encode (ae_rnd env)) \<mapsto> code_record srv env r)\<rparr>
     else view s' = view s)"
proof (cases "FormValue r ''response_type'' = ''code'' \<and> FormValue r ''code_challenge'' \<noteq> []
     \<and> FormValue r ''code_challenge_method'' = ''S256''")
  case False
  then consider "FormValue r ''response_type'' \<noteq> ''code''"
    | "FormValue r ''response_type'' = ''code''" "FormValue r ''code_challenge'' = [] \<or> FormValue r ''code_challenge_method'' \<noteq> ''S256''"
    by blast
  then have "s' = s" using run by cases (simp_all add: handleAuthorize_def Let_def)
  moreover have "\<not> may_authorize B srv r (view s)" using False unfolding may_authorize_def by blast
  ultimately show ?thesis using ok by simp
next
  case form: True
  let ?cid = "FormValue r ''client_id''" and ?uri = "FormValue r ''redirect_uri''"
  let ?t = "os_tenant srv" and ?h = "sha256hex C (hex_encode (ae_rnd env))"
  obtain x s1 where g: "GetOAuthClient api ?t ?cid s = (x, s1)" by fastforce
  from implementsD [OF get_client ok g] have o1: "ok s1" and v1: "view s1 = view s"
    and x: "spec_lookup (rg_clients (view s)) (?t, ?cid) = erase x" unfolding prod.inject by (blast, metis, blast)
  define dec where "dec js = Option.bind (unmarshal js) (\<lambda>j. if j = J_null then Some [] else as_strings j)" for js
  show ?thesis
  proof (cases "\<exists>js uris. x = Inr js \<and> dec js = Some uris \<and> ?uri \<in> set uris")
    case False
    then have "view s' = view s \<and> ok s'"
      using run form g v1 o1
      by (auto simp: handleAuthorize_def Let_def dec_def [symmetric] split: sum.splits option.splits)
    moreover have "\<not> may_authorize B srv r (view s)"
      using False x by (auto simp: may_authorize_def spec_lookup_def dec_def [symmetric] split: option.splits)
    ultimately show ?thesis by simp
  next
    case True
    then obtain js uris where js: "x = Inr js" "dec js = Some uris" "?uri \<in> set uris" by blast
    then have cl: "rg_clients (view s) (?t, ?cid) = Some js" using x by (auto simp: spec_lookup_def split: option.splits)
    obtain b s2 where hp: "hasPassword api srv s1 = (b, s2)" by fastforce
    note hps = has_password_spec [OF o1 hp]
    obtain verdict s3 where vp: "(if b then ValidatePassword api B ?t ''mcp'' (FormValue r ''password'') s2
        else (Inr True, s2)) = (verdict, s3)" by fastforce
    have o2: "ok s2" and v2: "view s2 = view s" using hps v1 by simp_all
    note gate = password_gate [OF o2 vp, unfolded v2]
    have g3: "ok s3" "view s3 = view s" and pass: "verdict = Inr True \<longleftrightarrow> may_authorize B srv r (view s)"
      using gate hps v1 form cl js
      by (auto simp: may_authorize_def dec_def [symmetric])
    note run' = run [unfolded handleAuthorize_def Let_def, folded dec_def, unfolded g js(1) sum.case prod.case js(2) option.case hp vp]
    show ?thesis
    proof (cases "verdict = Inr True")
      case False
      then show ?thesis using run' form js(3) g3 pass by auto
    next
      case True
      obtain y s4 where cc: "CreateAuthCode api ?h ?t ?cid ?uri (FormValue r ''code_challenge'')
          (ae_now env + authCodeTTL) s3 = (y, s4)" by fastforce
      from implementsD [OF create_code g3(1) cc] True pass run' form js(3) cc g3(2) show ?thesis
        by (cases y) (auto simp: spec_create_code_def code_record_def authorize_redirect_def
            split: if_splits option.splits)
    qed
  qed
qed

section \<open>The token endpoint\<close>

text \<open>
  A request that gets to the store: the code is dead whatever comes of it, and a token is issued
  exactly when the code was live and matches.
\<close>

lemma token_spec:
  assumes ok: "ok (oa_store st)" and run: "handleToken api C srv env r st = (resp, st')"
    and allowed: "fst (allow (clientIP r) tokenRateLimit (te_now_rate env) (oa_token st))"
    and form: "rq_post_form r = Some form" "token_form_ok form"
    and sign: "signAccessToken C (os_key srv) (os_issuer srv) ''quick-tunnel'' (first_value form ''client_id'') ''mcp'' []
       (os_expiresAt srv) (te_now_iat env) (te_jti env) (te_sig_rnd env) = Some token"
  shows "ok (oa_store st') \<and> code_dead (sha256hex C (first_value form ''code'')) (te_now_consume env) (view (oa_store st'))
    \<and> (if (\<exists>i. rg_codes (view (oa_store st)) (sha256hex C (first_value form ''code'')) = Some i
            \<and> ci_used i = None \<and> unix (te_now_consume env) < ci_expires i \<and> code_matches C srv form i)
       then resp = token_response token (go_quot (os_expiresAt srv - te_now_until env) nanos)
       else rp_status resp = 400)"
proof -
  let ?h = "sha256hex C (first_value form ''code'')"
  obtain rate where a: "allow (clientIP r) tokenRateLimit (te_now_rate env) (oa_token st) = (True, rate)"
    using allowed by (metis (full_types) prod.collapse)
  obtain x s1 where c: "ConsumeAuthCode api ?h (te_now_consume env) (oa_store st) = (x, s1)" by fastforce
  from implementsD [OF consume_code ok c] have o1: "ok s1"
    and spec: "spec_consume_code ?h (te_now_consume env) (view (oa_store st)) = (erase x, view s1)" by simp_all
  have f: "first_value form ''grant_type'' = ''authorization_code''" "first_value form ''code'' \<noteq> []"
    "first_value form ''client_id'' \<noteq> []" "first_value form ''code_verifier'' \<noteq> []"
    using form(2) by (simp_all add: token_form_ok_def)
  note run' = run [unfolded handleToken_def Let_def a prod.case form(1) option.case]
  have st': "oa_store st' = s1" using run' c f sign
    by (cases x) (auto split: if_splits)
  have dead: "code_dead ?h (te_now_consume env) (view s1)" using consume_dead [OF spec] .
  show ?thesis
  proof (cases x)
    case (Inl e)
    then have e: "rp_status resp = 400" using run' c f by auto
    show ?thesis
      using spec Inl e o1 st' dead by (auto simp: spec_consume_code_def split: option.splits if_splits)
  next
    case (Inr q)
    obtain t cid uri ch where q: "q = (t, cid, uri, ch)" by (cases q) auto
    obtain i where i: "rg_codes (view (oa_store st)) ?h = Some i" "ci_used i = None"
      "unix (te_now_consume env) < ci_expires i" "t = ci_tenant i" "cid = ci_client i" "uri = ci_redirect i" "ch = ci_challenge i"
      using spec Inr q by (auto simp: spec_consume_code_def split: option.splits if_splits)
    then show ?thesis
      using run' c Inr q f sign o1 st' dead by (auto simp: code_matches_def split: if_splits)
  qed
qed

text \<open>A token without those conditions is never issued.\<close>

lemma token_issued:
  assumes ok: "ok (oa_store st)" and run: "handleToken api C srv env r st = (resp, st')"
    and issued: "rp_status resp = 200"
  shows "\<exists>form i token. rq_post_form r = Some form \<and> token_form_ok form
    \<and> rg_codes (view (oa_store st)) (sha256hex C (first_value form ''code'')) = Some i
    \<and> ci_used i = None \<and> unix (te_now_consume env) < ci_expires i \<and> code_matches C srv form i
    \<and> signAccessToken C (os_key srv) (os_issuer srv) ''quick-tunnel'' (first_value form ''client_id'') ''mcp'' []
       (os_expiresAt srv) (te_now_iat env) (te_jti env) (te_sig_rnd env) = Some token
    \<and> resp = token_response token (go_quot (os_expiresAt srv - te_now_until env) nanos)"
proof -
  obtain allowed rate where a: "allow (clientIP r) tokenRateLimit (te_now_rate env) (oa_token st) = (allowed, rate)"
    by fastforce
  from run issued a obtain form where f: "rq_post_form r = Some form" and al: "allowed"
    by (cases "rq_post_form r") (auto simp: handleToken_def Let_def split: if_splits)
  have tf: "token_form_ok form"
    using run issued a f by (auto simp: handleToken_def Let_def token_form_ok_def split: if_splits)
  let ?h = "sha256hex C (first_value form ''code'')"
  obtain x s1 where c: "ConsumeAuthCode api ?h (te_now_consume env) (oa_store st) = (x, s1)" by fastforce
  have fs: "first_value form ''grant_type'' = ''authorization_code''" "first_value form ''code'' \<noteq> []"
    "first_value form ''client_id'' \<noteq> []" "first_value form ''code_verifier'' \<noteq> []"
    using tf by (simp_all add: token_form_ok_def)
  note run' = run [unfolded handleToken_def Let_def a prod.case f option.case]
  obtain token where sign: "signAccessToken C (os_key srv) (os_issuer srv) ''quick-tunnel'' (first_value form ''client_id'')
      ''mcp'' [] (os_expiresAt srv) (te_now_iat env) (te_jti env) (te_sig_rnd env) = Some token"
    using run' issued al c fs by (cases x) (auto split: if_splits option.splits)
  have "fst (allow (clientIP r) tokenRateLimit (te_now_rate env) (oa_token st))" using a al by simp
  from token_spec [OF ok run this f tf sign] issued show ?thesis
    using f tf sign by (auto split: if_splits)
qed

text \<open>
  The whole flow: an authorized request's code, redeemed in time by the holder of the verifier,
  buys a token that validates until the tenant expires.
\<close>

lemma pkce_flow:
  assumes ok: "ok (oa_store st)" and C: "crypto_ok C"
    and authorize: "handleAuthorize api B C srv aenv areq (oa_store st) = (aresp, s1)"
    and may: "may_authorize B srv areq (view (oa_store st))"
      "sha256hex C (hex_encode (ae_rnd aenv)) \<notin> dom (rg_codes (view (oa_store st)))"
      "os_tenant srv \<in> dom (rg_tenants (view (oa_store st)))"
    and form: "rq_post_form r = Some form" "token_form_ok form" "first_value form ''code'' = hex_encode (ae_rnd aenv)"
      "first_value form ''client_id'' = FormValue areq ''client_id''"
      "first_value form ''redirect_uri'' = FormValue areq ''redirect_uri''"
    and pkce: "b64_encode (cr_sha256 C (first_value form ''code_verifier'')) = FormValue areq ''code_challenge''"
    and in_time: "unix (te_now_consume env) < unix (ae_now aenv) + 60"
    and allowed: "fst (allow (clientIP r) tokenRateLimit (te_now_rate env) (oa_token st))"
    and sign: "signAccessToken C (os_key srv) (os_issuer srv) ''quick-tunnel'' (first_value form ''client_id'') ''mcp'' []
       (os_expiresAt srv) (te_now_iat env) (te_jti env) (te_sig_rnd env) = Some token"
    and plain: "ascii (os_issuer srv)" "ascii (FormValue areq ''client_id'')"
    and range: "0 \<le> unix (os_expiresAt srv)" "unix (os_expiresAt srv) < 2 ^ 63" "0 \<le> unix (te_now_iat env)" "unix (te_now_iat env) < 2 ^ 63"
  shows "fst (handleToken api C srv env r (st\<lparr>oa_store := s1\<rparr>))
      = token_response token (go_quot (os_expiresAt srv - te_now_until env) nanos)"
    and "unix now < unix (os_expiresAt srv) \<Longrightarrow> ValidateAccessToken C srv token now =
      Inr \<lparr>Issuer = os_issuer srv, Subject = ''quick-tunnel'', ClientID = FormValue areq ''client_id'', Scope = ''mcp'',
           Audience = [os_issuer srv], ClaimsExpiresAt = time_unix (unix (os_expiresAt srv))\<rparr>"
proof -
  from authorize_spec [OF ok authorize] may have o1: "ok s1" and v1: "view s1 = (view (oa_store st))\<lparr>rg_codes :=
      (rg_codes (view (oa_store st)))(sha256hex C (hex_encode (ae_rnd aenv)) \<mapsto> code_record srv aenv areq)\<rparr>"
    by simp_all
  obtain resp st' where run: "handleToken api C srv env r (st\<lparr>oa_store := s1\<rparr>) = (resp, st')" by fastforce
  have "rg_codes (view s1) (sha256hex C (first_value form ''code'')) = Some (code_record srv aenv areq)"
    by (simp add: v1 form(3))
  moreover have "unix (te_now_consume env) < ci_expires (code_record srv aenv areq)"
    using in_time by (simp add: code_record_def authCodeTTL_def)
  moreover have "code_matches C srv form (code_record srv aenv areq)"
    using pkce form by (simp add: code_matches_def code_record_def verifyPKCE_def)
  moreover have "ci_used (code_record srv aenv areq) = None" by (simp add: code_record_def)
  ultimately have "resp = token_response token (go_quot (os_expiresAt srv - te_now_until env) nanos)"
    using token_spec [OF _ run _ form(1,2) sign] o1 allowed by auto
  with run show "fst (handleToken api C srv env r (st\<lparr>oa_store := s1\<rparr>))
      = token_response token (go_quot (os_expiresAt srv - te_now_until env) nanos)" by simp
  show "unix now < unix (os_expiresAt srv) \<Longrightarrow> ValidateAccessToken C srv token now =
      Inr \<lparr>Issuer = os_issuer srv, Subject = ''quick-tunnel'', ClientID = FormValue areq ''client_id'', Scope = ''mcp'',
           Audience = [os_issuer srv], ClaimsExpiresAt = time_unix (unix (os_expiresAt srv))\<rparr>"
    using sign_validates [OF C _ _ _ _ _ _ _ _ _ sign, of now] plain range form(4)
    by (simp add: ValidateAccessToken_def)
qed

end

section \<open>A store fault at the password gate\<close>

text \<open>
  \<open>hasPassword\<close> takes a failed lookup for "no password": with a driver fault on that one statement
  the endpoint authorizes without asking for the password.
\<close>

lemma query_row_no_fault:
  assumes "c_faults c = No_fault # fs"
  shows "query_row st c = (case query_row st (c\<lparr>c_faults := []\<rparr>) of (r, c') \<Rightarrow> (r, c'\<lparr>c_faults := fs\<rparr>))"
  using assms by (simp add: query_row_def db_query_def next_fault_def del: sql_exec.simps split: sum.split list.split prod.split)

lemma query_row_fault:
  assumes "c_faults c = Stmt_fault m # fs"
  shows "query_row st c = (Inl (Scan_error m), c\<lparr>c_faults := fs\<rparr>)"
  using assms by (simp add: query_row_def db_query_def next_fault_def)

lemma password_gate_fails_open:
  assumes db: "db_ok (c_db c)" and faults: "c_faults c = [No_fault, Stmt_fault m]"
    and open_: "may_authorize B srv (r\<lparr>rq_form := (''password'', correct) # rq_form r\<rparr>) (view_conn c)"
    and new: "sha256hex C (hex_encode (ae_rnd env)) \<notin> dom (rg_codes (view_conn c))"
    and tenant: "os_tenant srv \<in> dom (rg_tenants (view_conn c))"
  shows "fst (handleAuthorize sqlite_api B C srv env r c) = authorize_redirect env r
    \<and> rg_codes (view_conn (snd (handleAuthorize sqlite_api B C srv env r c)))
        (sha256hex C (hex_encode (ae_rnd env))) = Some (code_record srv env r)"
proof -
  let ?r' = "r\<lparr>rq_form := (''password'', correct) # rq_form r\<rparr>"
  have fv: "FormValue ?r' k = FormValue r k" if "k \<noteq> ''password''" for k
    using that by (simp add: FormValue_def first_value_def)
  let ?t = "os_tenant srv" and ?cid = "FormValue r ''client_id''" and ?h = "sha256hex C (hex_encode (ae_rnd env))"
  obtain js uris where cl: "rg_clients (view_conn c) (?t, ?cid) = Some js"
    and us: "Option.bind (unmarshal js) (\<lambda>j. if j = J_null then Some [] else as_strings j) = Some uris"
      "FormValue r ''redirect_uri'' \<in> set uris"
    and form: "FormValue r ''response_type'' = ''code''" "FormValue r ''code_challenge'' \<noteq> []"
      "FormValue r ''code_challenge_method'' = ''S256''"
    using open_ by (auto simp: may_authorize_def fv simp del: bind_eq_Some_conv split: option.splits)
  define c0 where "c0 = c\<lparr>c_faults := []\<rparr>"
  have o0: "conn_ok c0" and v0: "view_conn c0 = view_conn c"
    using db by (simp_all add: c0_def conn_ok_def view_conn_def)
  obtain x c1 where g0: "sqlite_GetOAuthClient ?t ?cid c0 = (x, c1)" by fastforce
  have x: "x = Inr js" using implementsD [OF sqlite_GetOAuthClient_ok o0 g0] cl v0 by (simp add: spec_lookup_def)
  have c1: "c1 = c0" using g0 o0 unfolding sqlite_GetOAuthClient_def
    by (auto simp: conn_ok_def healthy_query(2) split: prod.splits list.splits)
  have g: "sqlite_GetOAuthClient ?t ?cid c = (Inr js, c\<lparr>c_faults := [Stmt_fault m]\<rparr>)"
    using g0 x c1 query_row_no_fault [OF faults]
    by (auto simp: sqlite_GetOAuthClient_def c0_def split: prod.splits)
  have hp: "hasPassword sqlite_api srv (c\<lparr>c_faults := [Stmt_fault m]\<rparr>) = (False, c0)"
    by (simp add: hasPassword_def sqlite_api_def sqlite_GetService_def query_row_fault c0_def)
  obtain y c2 where cc: "sqlite_CreateAuthCode ?h ?t ?cid (FormValue r ''redirect_uri'') (FormValue r ''code_challenge'')
      (ae_now env + authCodeTTL) c0 = (y, c2)" by fastforce
  have "spec_create_code ?h ?t ?cid (FormValue r ''redirect_uri'') (FormValue r ''code_challenge'')
      (ae_now env + authCodeTTL) (view_conn c) = (erase y, view_conn c2)"
    using implementsD(2) [OF sqlite_CreateAuthCode_ok o0 cc] v0 by simp
  then have e: "(Inr (), (view_conn c)\<lparr>rg_codes := (rg_codes (view_conn c))(?h \<mapsto> code_record srv env r)\<rparr>)
      = (erase y, view_conn c2)"
    using new tenant by (auto simp: spec_create_code_def code_record_def)
  then have y: "y = Inr ()" by simp
  have v2: "rg_codes (view_conn c2) ?h = Some (code_record srv env r)"
    unfolding conjunct2 [OF e [unfolded prod.inject], symmetric] by simp
  have api: "GetOAuthClient sqlite_api = sqlite_GetOAuthClient" "CreateAuthCode sqlite_api = sqlite_CreateAuthCode"
    by (simp_all add: sqlite_api_def)
  show ?thesis
    using form us v2
    by (simp add: handleAuthorize_def Let_def api g hp cc y authorize_redirect_def del: bind_eq_Some_conv split: option.split)
qed

text \<open>
  \<open>NewServer\<close> takes every error of \<open>GetSigningKey\<close> for a missing key: after a failing read the server
  signs with a fresh key, which the store, that has one already, ignores.
\<close>

lemma key_fault_forks_key:
  assumes "c_faults c = [Stmt_fault m]" and "rg_keys (view_conn c) t = Some old" and "parseKey C pem = Inr k"
  shows "\<exists>srv. NewServer sqlite_api C base t e (Some pem) now c = (Inr srv, c\<lparr>c_faults := []\<rparr>) \<and> os_key srv = k
    \<and> rg_keys (view_conn (c\<lparr>c_faults := []\<rparr>)) t = Some old"
proof -
  have key: "sqlite_GetSigningKey t c = (Inl (Driver m), c\<lparr>c_faults := []\<rparr>)"
    by (simp add: sqlite_GetSigningKey_def query_row_def db_query_def next_fault_def assms(1))
  have "t \<in> kr_tenant_slug ` set (signing_keys (c_db c))"
    using assms(2) row_map_None [of kr_tenant_slug kr_private_key_pem "signing_keys (c_db c)" t] by (auto simp: view_conn_def)
  then have "sqlite_CreateSigningKey t pem now (c\<lparr>c_faults := []\<rparr>) = (Inr (), c\<lparr>c_faults := []\<rparr>)"
    by (simp add: sqlite_CreateSigningKey_def db_exec_def next_fault_def)
  with key assms(2,3) show ?thesis by (simp add: NewServer_def sqlite_api_def view_conn_def)
qed

end
