(* ===== verification/Proxy.thy ===== *)
theory Proxy
  imports OAuth_Flow Gateway
begin

text \<open>
  \<open>internal/proxy/proxy.go\<close> and \<open>internal/server/server.go\<close>: the public router of
  \<open>/t/{tenant}/s/{service}/...\<close> and the mux that puts the parts of tunneld together. The tunnel
  (\<open>dial\<close>) and Go's \<open>httputil.ReverseProxy\<close> over a dialled stream (\<open>forward\<close>, \<open>None\<close> for the error
  handler) are arguments.
\<close>

section \<open>Paths\<close>

text \<open>\<open>splitPath\<close>: tenant, service and the path for the upstream; empty when the path is not one.\<close>

definition splitPath :: "string \<Rightarrow> string \<times> string \<times> string" where
  "splitPath path =
     (case cut_prefix path ''/t/'' of
        None \<Rightarrow> ([], [], [])
      | Some p \<Rightarrow>
          (case index_byte p (CHR ''/'') of
             None \<Rightarrow> ([], [], [])
           | Some i \<Rightarrow>
               (case cut_prefix (drop i p) ''/s/'' of
                  None \<Rightarrow> ([], [], [])
                | Some sp \<Rightarrow>
                    (case index_byte sp (CHR ''/'') of
                       Some j \<Rightarrow> (take i p, take j sp, drop j sp)
                     | None \<Rightarrow> (take i p, sp, ''/'')))))"

lemma index_byte_absent [simp]: "c \<notin> set s \<Longrightarrow> index_byte s c = None"
  by simp

lemma splitPath_path:
  assumes "CHR ''/'' \<notin> set t" and "CHR ''/'' \<notin> set n" and "rest = [] \<or> (\<exists>r. rest = CHR ''/'' # r)"
  shows "splitPath (''/t/'' @ t @ ''/s/'' @ n @ rest) = (t, n, if rest = [] then ''/'' else rest)"
  using assms by (auto simp: splitPath_def has_prefix_def)

lemma splitPath_inverse:
  assumes "splitPath path = (t, n, rest)" and "t \<noteq> [] \<or> n \<noteq> [] \<or> rest \<noteq> []"
  shows "CHR ''/'' \<notin> set t \<and> CHR ''/'' \<notin> set n
    \<and> (path = ''/t/'' @ t @ ''/s/'' @ n @ rest \<or> path = ''/t/'' @ t @ ''/s/'' @ n \<and> rest = ''/'')"
proof -
  from assms obtain p i sp where p: "path = ''/t/'' @ p" and i: "index_byte p (CHR ''/'') = Some i"
    and sp: "drop i p = ''/s/'' @ sp"
    and r: "(t, n, rest) = (case index_byte sp (CHR ''/'') of
       Some j \<Rightarrow> (take i p, take j sp, drop j sp) | None \<Rightarrow> (take i p, sp, ''/''))"
    by (auto simp: splitPath_def cut_prefix_Some split: option.splits)
  have pt: "p = take i p @ ''/s/'' @ sp" using sp by (metis append_take_drop_id)
  have ti: "CHR ''/'' \<notin> set (take i p)" using index_byte_Some [OF i] by simp
  show ?thesis
  proof (cases "index_byte sp (CHR ''/'')")
    case None
    then have "t = take i p" "n = sp" "rest = ''/''" using r [unfolded None option.case] by simp_all
    with p pt ti None show ?thesis by simp
  next
    case (Some j)
    then have q: "t = take i p" "n = take j sp" "rest = drop j sp" using r by simp_all
    have "n @ rest = sp" by (simp add: q)
    then have "path = ''/t/'' @ t @ ''/s/'' @ n @ rest" using p pt q(1) by simp
    with q ti index_byte_Some [OF Some] show ?thesis by simp
  qed
qed

section \<open>The proxy\<close>

definition maxRequestBody :: int where
  "maxRequestBody = 8388608"

definition metadata_url :: "string \<Rightarrow> string \<Rightarrow> string \<Rightarrow> string" where
  "metadata_url base tenant service =
     base @ ''/.well-known/oauth-protected-resource/t/'' @ tenant @ ''/s/'' @ service"

text \<open>\<open>authorize\<close>: whether the request carries a token the tenant's server accepts.\<close>

definition proxy_authorize ::
  "'s store_api \<Rightarrow> ('k, 'p) crypto \<Rightarrow> string option \<Rightarrow> time \<Rightarrow> time \<Rightarrow> string \<Rightarrow> request
    \<Rightarrow> 'k resolver \<times> 's \<Rightarrow> (string + access_claims) \<times> 'k resolver \<times> 's" where
  "proxy_authorize A C pem now_server now tenant r st =
     (case st of (rv, s) \<Rightarrow>
      let token = bearer_key r in
      if token = [] then (Inl ''missing bearer token'', rv, s)
      else (case resolver_server A C pem now_server tenant rv s of
          (None, rv, s) \<Rightarrow> (Inl ''no OAuth AS for tenant'', rv, s)
        | (Some srv, rv, s) \<Rightarrow> (ValidateAccessToken C srv token now, rv, s)))"

definition bad_gateway :: response where
  "bad_gateway = http_error (''bad gateway: service offline'' @ [CHR 0x0A]) 502"

record 'c upstream =
  up_dial :: "string \<Rightarrow> string \<Rightarrow> 'c option"
  up_forward :: "'c \<Rightarrow> string \<Rightarrow> request \<Rightarrow> response option"

definition proxy_forward :: "'c upstream \<Rightarrow> string \<Rightarrow> string \<Rightarrow> string \<Rightarrow> request \<Rightarrow> response" where
  "proxy_forward U tenant service rest r =
     (case up_dial U tenant service of
        None \<Rightarrow> bad_gateway
      | Some c \<Rightarrow> (case up_forward U c rest r of None \<Rightarrow> bad_gateway | Some resp \<Rightarrow> resp))"

text \<open>
  What \<open>ServeHTTP\<close> decides; \<open>rv = None\<close> is a handler built without a resolver. A failed lookup other
  than \<open>ErrNotFound\<close> leaves \<open>svc\<close> nil, and reading \<open>svc.AuthMode\<close> panics.
\<close>

datatype verdict = Refuse response | Forward string string string

definition proxy_decide ::
  "'s store_api \<Rightarrow> ('k, 'p) crypto \<Rightarrow> string option \<Rightarrow> time \<Rightarrow> time \<Rightarrow> request
    \<Rightarrow> 'k resolver option \<times> 's \<Rightarrow> verdict \<times> 'k resolver option \<times> 's" where
  "proxy_decide A C pem now_server now r st =
     (case st of (orv, s) \<Rightarrow> (case splitPath (rq_path r) of (tenant, service, rest) \<Rightarrow>
      if tenant = [] \<or> service = [] then (Refuse not_found, orv, s)
      else if rq_content_length r > maxRequestBody
      then (Refuse (http_error (''request body too large'' @ [CHR 0x0A]) 413), orv, s)
      else (case GetService A tenant service s of
          (Inl e, s) \<Rightarrow> (Refuse (if e = ErrNotFound then not_found else aborted), orv, s)
        | (Inr svc, s) \<Rightarrow>
            (case orv of
               None \<Rightarrow> (Forward tenant service rest, orv, s)
             | Some rv \<Rightarrow>
                 if AuthMode svc \<noteq> ''oauth'' then (Forward tenant service rest, orv, s)
                 else (case proxy_authorize A C pem now_server now tenant r (rv, s) of
                     (Inl e, rv', s) \<Rightarrow>
                       (Refuse (add_headers [(''WWW-Authenticate'', ''Bearer resource_metadata='' @ [CHR 0x22]
                            @ metadata_url (rv_baseURL rv) tenant service @ [CHR 0x22])]
                          (http_error (''unauthorized'' @ [CHR 0x0A]) 401)), Some rv', s)
                   | (Inr claims, rv', s) \<Rightarrow> (Forward tenant service rest, Some rv', s))))))"

definition proxy_serve ::
  "'s store_api \<Rightarrow> ('k, 'p) crypto \<Rightarrow> 'c upstream \<Rightarrow> string option \<Rightarrow> time \<Rightarrow> time \<Rightarrow> request
    \<Rightarrow> 'k resolver option \<times> 's \<Rightarrow> response \<times> 'k resolver option \<times> 's" where
  "proxy_serve A C U pem now_server now r st =
     (case proxy_decide A C pem now_server now r st of
        (Refuse resp, st) \<Rightarrow> (resp, st)
      | (Forward tenant service rest, st) \<Rightarrow> (proxy_forward U tenant service rest r, st))"

definition Healthz :: response where
  "Healthz = \<lparr>rp_status = 200, rp_headers = [], rp_body = ''ok'' @ [CHR 0x0A]\<rparr>"

section \<open>What the proxy promises\<close>

text \<open>A cached server is the one of its tenant.\<close>

definition resolver_ok :: "'k resolver \<Rightarrow> bool" where
  "resolver_ok rv \<longleftrightarrow> (\<forall>t srv. rv_servers rv t = Some srv \<longrightarrow>
     os_tenant srv = t \<and> os_issuer srv = trim_right (rv_baseURL rv) ''/'' @ ''/t/'' @ t)"

lemma resolver_ok_new: "resolver_ok (NewResolver base)"
  by (simp add: resolver_ok_def NewResolver_def)

lemma NewServer_fields:
  assumes "NewServer A C base t e pem now s = (Inr srv, s')"
  shows "os_tenant srv = t \<and> os_issuer srv = trim_right base ''/'' @ ''/t/'' @ t \<and> os_expiresAt srv = e"
  using assms by (auto simp: NewServer_def Let_def split: sum.splits prod.splits option.splits)

lemma resolver_server_ok:
  assumes "resolver_ok rv" and "resolver_server A C pem now t rv s = (osrv, rv', s')"
  shows "resolver_ok rv' \<and> rv_baseURL rv' = rv_baseURL rv \<and> (\<forall>srv. osrv = Some srv \<longrightarrow>
    os_tenant srv = t \<and> os_issuer srv = trim_right (rv_baseURL rv) ''/'' @ ''/t/'' @ t)"
  using assms
  by (auto simp: resolver_server_def resolver_ok_def Let_def dest!: NewServer_fields
      split: option.splits sum.splits prod.splits if_splits)

lemma proxy_authorize_ok:
  assumes "resolver_ok rv" and "proxy_authorize A C pem ns now t r (rv, s) = (x, rv', s')"
  shows "resolver_ok rv' \<and> rv_baseURL rv' = rv_baseURL rv \<and> (\<forall>claims. x = Inr claims \<longrightarrow>
    (\<exists>srv. os_tenant srv = t \<and> os_issuer srv = trim_right (rv_baseURL rv) ''/'' @ ''/t/'' @ t
       \<and> ValidateAccessToken C srv (bearer_key r) now = Inr claims))"
proof (cases "bearer_key r = []")
  case True
  then show ?thesis using assms by (auto simp: proxy_authorize_def)
next
  case False
  obtain osrv rv1 s1 where rs: "resolver_server A C pem ns t rv s = (osrv, rv1, s1)" by (metis prod.exhaust)
  show ?thesis
    using assms(2) False resolver_server_ok [OF assms(1) rs]
    by (cases osrv) (auto simp: proxy_authorize_def Let_def rs)
qed

context store_contract
begin

lemma proxy_forwards_only:
  assumes ok: "ok s" and rv: "\<forall>rv. orv = Some rv \<longrightarrow> resolver_ok rv"
    and run: "proxy_decide api C pem ns now r (orv, s) = (Forward t n rest, orv', s')"
  shows "splitPath (rq_path r) = (t, n, rest) \<and> t \<noteq> [] \<and> n \<noteq> [] \<and> rq_content_length r \<le> maxRequestBody
    \<and> (\<exists>svc. rg_services (view s) (t, n) = Some svc
        \<and> (\<forall>rv. orv = Some rv \<and> AuthMode svc = ''oauth'' \<longrightarrow>
             (\<exists>srv claims. os_tenant srv = t \<and> os_issuer srv = trim_right (rv_baseURL rv) ''/'' @ ''/t/'' @ t
                \<and> ValidateAccessToken C srv (bearer_key r) now = Inr claims)))"
proof -
  obtain t' n' rest' where sp: "splitPath (rq_path r) = (t', n', rest')" by (metis prod.exhaust)
  obtain x s1 where g: "GetService api t' n' s = (x, s1)" by fastforce
  note spec = implementsD [OF get_service ok g]
  from run sp g have checks: "t' \<noteq> []" "n' \<noteq> []" "rq_content_length r \<le> maxRequestBody" and "\<exists>svc. x = Inr svc"
    by (cases x; auto simp: proxy_decide_def split: if_splits)+
  then obtain svc where x: "x = Inr svc" by blast
  then have svc: "rg_services (view s) (t', n') = Some svc"
    using spec(2) by (auto simp: spec_lookup_def split: option.splits)
  note run' = run [unfolded proxy_decide_def prod.case sp g x sum.case]
  show ?thesis
  proof (cases "\<exists>rv. orv = Some rv \<and> AuthMode svc = ''oauth''")
    case False
    then have "t = t' \<and> n = n' \<and> rest = rest'"
      using run' checks by (cases orv) auto
    with sp checks svc False show ?thesis by auto
  next
    case True
    then obtain rv1 where o: "orv = Some rv1" and m: "AuthMode svc = ''oauth''" by blast
    obtain y rv2 s2 where pa: "proxy_authorize api C pem ns now t' r (rv1, s1) = (y, rv2, s2)" by (metis prod.exhaust)
    have "\<exists>claims. y = Inr claims" and eq: "t = t' \<and> n = n' \<and> rest = rest'"
      using run' checks o m pa by (cases y; auto)+
    then obtain claims where y: "y = Inr claims" by blast
    from proxy_authorize_ok [OF _ pa] rv o y obtain srv where
      "os_tenant srv = t'" "os_issuer srv = trim_right (rv_baseURL rv1) ''/'' @ ''/t/'' @ t'"
      "ValidateAccessToken C srv (bearer_key r) now = Inr claims" by blast
    with sp checks svc eq o show ?thesis by auto
  qed
qed

end

text \<open>A token minted for one tenant's issuer is refused under any other issuer, whatever the key.\<close>

lemma other_issuer_refused:
  assumes "ascii issuer" "ascii subject" "ascii clientID" "ascii scope" "ascii resource"
    and "unix expiresAt < 2 ^ 63" "- (2 ^ 63) \<le> unix iat" "unix iat < 2 ^ 63" "- (2 ^ 63) \<le> unix expiresAt"
    and token: "signAccessToken C key issuer subject clientID scope resource expiresAt iat jti rnd = Some token"
    and other: "issuer' \<noteq> issuer"
  shows "\<exists>e. validateAccessToken C pub issuer' token now = Inl e"
proof -
  define aud where "aud = (if resource = [] then issuer else resource)"
  define pl where "pl = jwt_payload issuer subject clientID scope aud (unix expiresAt) (unix iat) jti"
  define h p where "h = b64_encode (json_enc jwt_header)" and "p = b64_encode (json_enc pl)"
  from token obtain r s where t: "token = h @ ''.'' @ p @ ''.'' @ b64_encode (FillBytes 32 r @ FillBytes 32 s)"
    by (auto simp: signAccessToken_def Let_def aud_def [symmetric] pl_def [symmetric] jwt_input_def h_def p_def
        split: option.splits)
  have "splitJWT token = Some [h, p, b64_encode (FillBytes 32 r @ FillBytes 32 s)]"
    unfolding t h_def p_def by (intro splitJWT_parts b64_no_dot)
  moreover have "decode_claims (json_enc pl) = Some (issuer, subject, clientID, scope, J_str aud, unix expiresAt)"
    unfolding pl_def using assms by (intro decode_claims_payload) (simp_all add: aud_def)
  ultimately show ?thesis
    using other by (simp add: validateAccessToken_def b64_decode_encode p_def)
qed

text \<open>A driver fault on the service lookup makes the handler dereference a nil service.\<close>

lemma proxy_store_fault:
  assumes "splitPath (rq_path r) = (t, n, rest)" and "t \<noteq> []" "n \<noteq> []" "rq_content_length r \<le> maxRequestBody"
    and "c_faults c = Stmt_fault m # fs"
  shows "fst (proxy_serve sqlite_api C U pem ns now r (orv, c)) = aborted"
  using assms
  by (simp add: proxy_serve_def proxy_decide_def sqlite_api_def sqlite_GetService_def query_row_fault)

section \<open>The server\<close>

text \<open>
  \<open>NewHandler\<close>: which part of tunneld serves a path (\<open>http.ServeMux\<close> takes the most specific
  pattern and redirects a subtree's root without its slash; paths are clean).
\<close>

datatype component = C_gateway | C_control_plane | C_proxy | C_well_known | C_oauth | C_healthz | C_robots
  | C_redirect | C_method | C_none

definition server_route :: "string \<Rightarrow> string \<Rightarrow> component" where
  "server_route m p =
     (let get = (m = ''GET'' \<or> m = ''HEAD'') in
      if p = ConnectPath then C_gateway
      else if p \<in> {''/t'', ''/api/v1'', ''/.well-known''} then C_redirect
      else if has_prefix p ''/api/v1/'' then C_control_plane
      else if has_prefix p ''/t/'' then
        (case cut_byte (drop 3 p) (CHR ''/'') of
           (t, Some q) \<Rightarrow> if t \<noteq> [] \<and> has_prefix q ''s/'' then C_proxy
                          else if t \<noteq> [] \<and> q = ''s'' then C_redirect else C_oauth
         | (t, None) \<Rightarrow> C_oauth)
      else if has_prefix p ''/.well-known/'' then C_well_known
      else if p = ''/healthz'' then (if get then C_healthz else C_method)
      else if p = ''/robots.txt'' then (if get then C_robots else C_method)
      else C_none)"

definition robotsTxt :: response where
  "robotsTxt = \<lparr>rp_status = 200, rp_headers = [(''Content-Type'', ''text/plain; charset=utf-8'')],
     rp_body = ''User-agent: *'' @ [CHR 0x0A] @ ''Disallow: /'' @ [CHR 0x0A]\<rparr>"

text \<open>The control plane's own mux.\<close>

datatype cp_endpoint = Cp_quick | Cp_delete string | Cp_method | Cp_none

definition cp_route :: "string \<Rightarrow> string \<Rightarrow> cp_endpoint" where
  "cp_route m p =
     (if p = ''/api/v1/quick'' then (if m = ''POST'' then Cp_quick else Cp_method)
      else (case cut_prefix p ''/api/v1/quick/'' of
          None \<Rightarrow> Cp_none
        | Some t \<Rightarrow> if t = [] \<or> CHR ''/'' \<in> set t then Cp_none
                     else if m = ''DELETE'' then Cp_delete t else Cp_method))"

text \<open>Every path \<open>splitPath\<close> accepts with a tenant and a service goes to the proxy, and only those with a tenant do.\<close>

lemma proxy_paths:
  assumes "splitPath p = (t, n, rest)" and "t \<noteq> []"
  shows "server_route m p = C_proxy"
proof -
  from splitPath_inverse [OF assms(1)] assms(2) obtain q where q: "p = ''/t/'' @ t @ ''/s/'' @ q"
    and t: "CHR ''/'' \<notin> set t" by (metis append.assoc)
  have "cut_byte (drop 3 p) (CHR ''/'') = (t, Some (''s/'' @ q))"
    using cut_byte_append [OF t, of "''s/'' @ q"] by (simp add: q)
  then show ?thesis using assms(2)
    by (simp add: server_route_def Let_def q has_prefix_def ConnectPath_def)
qed

end
