(* ===== verification/Daemon.thy ===== *)
theory Daemon
  imports Commands Proxy
begin

text \<open>
  What spans the daemon and its clients: \<open>internal/server/cloudflare.go\<close>, the janitor and the kill
  switch of \<open>cmd/tunneld/main.go\<close>, and the life of a quick tunnel from \<open>mcptunnel expose\<close> to its end.
\<close>

section \<open>The client's address behind Cloudflare\<close>

text \<open>\<open>net.IP.String\<close>: dotted decimals, or groups with the longest run of at least two zeros left out.\<close>

fun join_with :: "string \<Rightarrow> string list \<Rightarrow> string" where
  "join_with sep [] = []"
| "join_with sep [s] = s"
| "join_with sep (s # t # ts) = s @ sep @ join_with sep (t # ts)"

fun hex_nat :: "nat \<Rightarrow> string" where
  "hex_nat n = (if n < 16 then [hex_digit n] else hex_nat (n div 16) @ [hex_digit (n mod 16)])"

declare hex_nat.simps [simp del]

definition zero_run :: "nat list \<Rightarrow> nat \<Rightarrow> nat" where
  "zero_run g i = length (takeWhile (\<lambda>x. x = 0) (drop i g))"

text \<open>Start and length of the first longest run; length \<open>0\<close> when there is none.\<close>

definition longest_run :: "nat list \<Rightarrow> nat \<times> nat" where
  "longest_run g = fold (\<lambda>i (s, l). if 2 \<le> zero_run g i \<and> l < zero_run g i then (i, zero_run g i) else (s, l)) [0..<8] (0, 0)"

definition v6_text :: "nat list \<Rightarrow> string" where
  "v6_text g = (case longest_run g of (s, l) \<Rightarrow>
     if l = 0 then join_with '':'' (map hex_nat g)
     else join_with '':'' (map hex_nat (take s g)) @ ''::'' @ join_with '':'' (map hex_nat (drop (s + l) g)))"

definition v4_text :: "nat list \<Rightarrow> string" where
  "v4_text bs = join_with ''.'' (map itoa_nat bs)"

fun ip_text :: "ip_addr \<Rightarrow> string" where
  "ip_text (V4 bs) = v4_text bs"
| "ip_text (V6 g) =
     (if take 6 g = [0, 0, 0, 0, 0, 0xFFFF]
      then v4_text [g ! 6 div 256, g ! 6 mod 256, g ! 7 div 256, g ! 7 mod 256] else v6_text g)"

definition JoinHostPort :: "string \<Rightarrow> string \<Rightarrow> string" where
  "JoinHostPort host port = (if CHR '':'' \<in> set host then ''['' @ host @ '']:'' @ port else host @ '':'' @ port)"

definition CloudflareClientIP :: "request \<Rightarrow> request" where
  "CloudflareClientIP r =
     (case ParseIP (trim_space (header r ''CF-Connecting-IP'')) of
        None \<Rightarrow> r
      | Some ip \<Rightarrow> r\<lparr>rq_remote := JoinHostPort (ip_text ip) ''0''\<rparr>)"

text \<open>The address is read back as it was joined, when it has no brackets.\<close>

lemma last_index_byte_append: "c \<notin> set b \<Longrightarrow> last_index_byte (a @ c # b) c = Some (length a)"
  by (simp add: last_index_byte_def)

lemma split_join:
  assumes "CHR ''['' \<notin> set host" "CHR '']'' \<notin> set host" and "set port \<inter> {CHR '':'', CHR ''['', CHR '']''} = {}"
  shows "split_host_port (JoinHostPort host port) = Some (host, port)"
proof (cases "CHR '':'' \<in> set host")
  case True
  let ?hp = "CHR ''['' # host @ CHR '']'' # CHR '':'' # port"
  have l: "last_index_byte ?hp (CHR '':'') = Some (length host + 2)"
    using last_index_byte_append [of "CHR '':''" port "''['' @ host @ '']''"] assms(3) by simp
  have e: "index_byte ?hp (CHR '']'') = Some (Suc (length host))"
    using index_byte_append [of "CHR '']''" "''['' @ host" "CHR '':'' # port"] assms(2) by simp
  have hp: "JoinHostPort host port = ?hp" "has_prefix ?hp ''[''" using True by (simp_all add: JoinHostPort_def has_prefix_def)
  show ?thesis using assms unfolding hp(1) split_host_port_def l e by (simp add: hp(2) Let_def)
next
  case False
  have l: "last_index_byte (host @ CHR '':'' # port) (CHR '':'') = Some (length host)"
    using assms(3) by (intro last_index_byte_append) auto
  have "\<not> has_prefix (host @ CHR '':'' # port) ''[''"
    using assms(1) by (cases host) (auto simp: has_prefix_def)
  then show ?thesis
    using assms False by (simp add: JoinHostPort_def split_host_port_def l Let_def)
qed

lemma hex_nat_chars: "set (hex_nat n) \<subseteq> hex_alphabet"
proof (induction n rule: hex_nat.induct)
  case (1 n)
  then show ?case using hex_digit_alphabet [of n] hex_digit_alphabet [of "n mod 16"]
    by (subst hex_nat.simps) auto
qed

lemma itoa_nat_no: "digit_val c = None \<Longrightarrow> c \<notin> set (itoa_nat n)"
  using itoa_nat_digits by blast

lemma join_chars: "c \<notin> set sep \<Longrightarrow> \<forall>s \<in> set ss. c \<notin> set s \<Longrightarrow> c \<notin> set (join_with sep ss)"
  by (induction sep ss rule: join_with.induct) auto

lemma v4_text_chars: "digit_val c = None \<Longrightarrow> c \<noteq> CHR ''.'' \<Longrightarrow> c \<notin> set (v4_text bs)"
  unfolding v4_text_def by (rule join_chars) (auto simp: itoa_nat_no)

lemma v6_text_chars: "c \<notin> hex_alphabet \<Longrightarrow> c \<noteq> CHR '':'' \<Longrightarrow> c \<notin> set (v6_text g)"
proof -
  assume c: "c \<notin> hex_alphabet" "c \<noteq> CHR '':''"
  have "c \<notin> set (join_with '':'' (map hex_nat xs))" for xs
    using c hex_nat_chars by (intro join_chars) auto
  with c show ?thesis by (auto simp: v6_text_def split: prod.split)
qed

lemma ip_text_no_brackets: "CHR ''['' \<notin> set (ip_text ip)" "CHR '']'' \<notin> set (ip_text ip)"
  by (cases ip; simp add: v4_text_chars v6_text_chars digit_val_def hex_alphabet_def)+

text \<open>
  With a valid \<open>CF-Connecting-IP\<close> the quick-tunnel limit counts under that address in its canonical
  text; without one, under the peer's.
\<close>

lemma CloudflareClientIP_rate:
  "rate_ip (CloudflareClientIP r) =
     (case ParseIP (trim_space (header r ''CF-Connecting-IP'')) of None \<Rightarrow> rate_ip r | Some ip \<Rightarrow> ip_text ip)"
  by (auto simp: CloudflareClientIP_def rate_ip_def split_join ip_text_no_brackets split: option.split)

section \<open>Janitor and kill switch\<close>

text \<open>A run of the janitor: one sweep for every tick, at the clock's reading; errors are only logged.\<close>

fun janitor :: "'s store_api \<Rightarrow> time list \<Rightarrow> 's \<Rightarrow> string list \<times> 's" where
  "janitor A [] s = ([], s)"
| "janitor A (now # ticks) s =
     (case DeleteExpiredTenants A now s of ((slugs, err), s) \<Rightarrow>
      (case janitor A ticks s of (rest, s) \<Rightarrow> ((if err = None then slugs else []) @ rest, s)))"

datatype kill_end = Kill_failed store_error | Kill_not_found | Killed

definition kill_tenant :: "'s store_api \<Rightarrow> string \<Rightarrow> 's \<Rightarrow> kill_end \<times> 's" where
  "kill_tenant A slug s =
     (case DeleteTenant A slug s of
        (Inl e, s) \<Rightarrow> (Kill_failed e, s)
      | (Inr found, s) \<Rightarrow> (if found then Killed else Kill_not_found, s))"

definition gone :: "string \<Rightarrow> registry \<Rightarrow> bool" where
  "gone t R \<longleftrightarrow> rg_tenants R t = None \<and> (\<forall>n. rg_services R (t, n) = None) \<and> rg_keys R t = None
     \<and> (\<forall>c. rg_clients R (t, c) = None) \<and> (\<forall>h i. rg_codes R h = Some i \<longrightarrow> ci_tenant i \<noteq> t)"

lemma drop_tenants_gone: "t \<in> S \<Longrightarrow> gone t (drop_tenants S R)"
  by (auto simp: gone_def drop_tenants_def split: option.splits if_splits)

lemma gone_drop: "gone t R \<Longrightarrow> gone t (drop_tenants S R)"
  by (auto simp: gone_def drop_tenants_def restrict_map_def split: option.splits if_splits)

context store_contract
begin

lemma janitor_keeps_gone: "ok s \<Longrightarrow> janitor api ticks s = (slugs, s') \<Longrightarrow> ok s' \<and> (gone t (view s) \<longrightarrow> gone t (view s'))"
proof (induction ticks arbitrary: s slugs)
  case (Cons now ticks)
  obtain sl err s1 where d: "DeleteExpiredTenants api now s = ((sl, err), s1)" by (metis prod.exhaust)
  obtain rest where "janitor api ticks s1 = (rest, s')" using Cons.prems(2) d by (auto split: prod.splits)
  with Cons.IH [of s1 rest] delete_expired [OF Cons.prems(1) d] show ?case by (auto simp: gone_drop)
qed simp

text \<open>After a sweep at or past its expiry a tenant is gone with everything under it, and stays gone.\<close>

lemma janitor_expires:
  assumes "ok s" and "janitor api (now # ticks) s = (slugs, s')" and "t \<in> expired_tenants now (view s)"
  shows "ok s' \<and> gone t (view s') \<and> t \<in> set slugs"
proof -
  obtain sl err s1 where d: "DeleteExpiredTenants api now s = ((sl, err), s1)" by (metis prod.exhaust)
  obtain rest where r: "janitor api ticks s1 = (rest, s')" "slugs = (if err = None then sl else []) @ rest"
    using assms(2) d by (auto split: prod.splits)
  note del = delete_expired [OF assms(1) d]
  with assms(3) have "gone t (view s1)" by (simp add: drop_tenants_gone)
  with janitor_keeps_gone [OF _ r(1), of t] del r(2) assms(3) show ?thesis by auto
qed

text \<open>A tenant that is gone serves nothing: the proxy answers 404, its agents are refused with 401.\<close>

lemma gone_unreachable:
  assumes "ok s" and "gone t (view s)"
  shows "splitPath (rq_path r) = (t, n, rest) \<Longrightarrow> t \<noteq> [] \<Longrightarrow> n \<noteq> [] \<Longrightarrow> rq_content_length r \<le> maxRequestBody \<Longrightarrow>
      fst (proxy_decide api C pem ns now r (orv, s)) = Refuse not_found"
    and "header r HeaderTenant = t \<Longrightarrow> \<exists>resp. fst (gateway_admit api B r s) = Inl resp \<and> rp_status resp = 401"
proof -
  have none: "rg_services (view s) (t, n) = None" for n using assms(2) by (simp add: gone_def)
  show "fst (proxy_decide api C pem ns now r (orv, s)) = Refuse not_found"
    if "splitPath (rq_path r) = (t, n, rest)" "t \<noteq> []" "n \<noteq> []" "rq_content_length r \<le> maxRequestBody"
  proof -
    obtain x s1 where g: "GetService api t n s = (x, s1)" by fastforce
    have "erase x = Inl ErrNotFound" using implementsD(2) [OF get_service assms(1) g] none by (simp add: spec_lookup_def)
    then have "x = Inl ErrNotFound" by (cases x) (auto elim: erase_error.elims)
    with that g show ?thesis by (simp add: proxy_decide_def)
  qed
  show "\<exists>resp. fst (gateway_admit api B r s) = Inl resp \<and> rp_status resp = 401" if "header r HeaderTenant = t"
  proof -
    obtain x s1 where a: "gateway_admit api B r s = (x, s1)" by fastforce
    from gateway_admit_spec [OF assms(1) a] none that a show ?thesis by (cases x) (auto simp: Let_def)
  qed
qed

lemma kill_tenant_gone:
  assumes "ok s" and "kill_tenant api t s = (e, s')"
  shows "ok s' \<and> gone t (view s') \<and> e = (if t \<in> dom (rg_tenants (view s)) then Killed else Kill_not_found)"
proof -
  obtain x s1 where d: "DeleteTenant api t s = (x, s1)" by fastforce
  have v: "x = Inr (t \<in> dom (rg_tenants (view s)))" "view s1 = drop_tenants {t} (view s)" "ok s1"
    using implementsD [OF delete_tenant assms(1) d] by (simp_all add: spec_delete_tenant_def)
  have "gone t (view s1)" unfolding v(2) by (rule drop_tenants_gone) simp
  with v(1,3) assms(2) d show ?thesis by (simp add: kill_tenant_def)
qed

end

section \<open>The life of a quick tunnel\<close>

text \<open>The request \<open>deleteTunnel\<close> sends, as the control plane sees it.\<close>

definition delete_seen :: "quick_reply \<Rightarrow> request" where
  "delete_seen q = \<lparr>rq_method = ''DELETE'', rq_path = ''/api/v1/quick/'' @ qr_tenant q,
     rq_headers = [(''Authorization'', ''Bearer '' @ qr_key q), (''X-Service-Name'', qr_service q)],
     rq_form = [], rq_post_form = None, rq_body = [], rq_content_length = 0, rq_remote = []\<rparr>"

lemma delete_seen_headers:
  "header (delete_seen q) ''X-Service-Name'' = qr_service q" "bearer_key (delete_seen q) = trim_space (qr_key q)"
proof -
  have "trim_prefix (''Bearer '' @ k) ''Bearer '' = k" for k by (rule trim_prefix_append)
  then show "bearer_key (delete_seen q) = trim_space (qr_key q)"
    by (simp add: delete_seen_def bearer_key_def header_def first_value_def)
qed (simp add: delete_seen_def header_def first_value_def)

text \<open>It is the request \<open>deleteTunnel\<close> makes, and the path and headers are the ones its route and handler read.\<close>

definition same_delete :: "string \<Rightarrow> api_request \<Rightarrow> request \<Rightarrow> bool" where
  "same_delete base w r \<longleftrightarrow> aq_method w = rq_method r \<and> aq_url w = trim_right base ''/'' @ rq_path r
     \<and> hdr_get (aq_headers w) ''X-Service-Name'' = header r ''X-Service-Name''
     \<and> hdr_get (aq_headers w) ''Authorization'' = header r ''Authorization''"

lemma delete_seen_sent: "deleteTunnel base q = Some w \<Longrightarrow> same_delete base w (delete_seen q)"
proof -
  have c: "canonical ''X-Service-Name'' = ''X-Service-Name''" "canonical ''Authorization'' = ''Authorization''" by code_simp+
  then show "deleteTunnel base q = Some w \<Longrightarrow> same_delete base w (delete_seen q)"
    by (auto simp: deleteTunnel_def same_delete_def delete_seen_def header_def first_value_def hdr_get_def hdr_set_def Let_def split: if_splits)
qed

lemma quick_slug_ascii: "is_quick_slug slug \<Longrightarrow> ascii slug \<and> slug \<noteq> []"
proof -
  assume "is_quick_slug slug"
  then obtain b where b: "slug = ''q-'' @ map (\<lambda>c. quickSlugAlphabet ! (of_char c mod 36)) b"
    by (auto simp: is_quick_slug_def quick_slug_def)
  have "\<forall>c \<in> set quickSlugAlphabet. (of_char c :: nat) < 128" by code_simp
  moreover have "quickSlugAlphabet ! (of_char c mod 36) \<in> set quickSlugAlphabet" for c
    by (rule nth_mem) (simp add: quickSlugAlphabet_def)
  ultimately show ?thesis by (simp add: b ascii_def list_all_iff)
qed

text \<open>
  The client of a created tunnel reads tenant, service and key off the answer. The agent it configures
  with them is admitted under that tenant and service, and the request it deletes the tunnel with
  takes away everything that was created and nothing else.
\<close>

definition clean_key :: "string \<Rightarrow> bool" where
  "clean_key k \<longleftrightarrow> trim_space k = k \<and> ascii k"

context store_contract
begin

lemma tunnel_life:
  assumes ok: "ok s" and B: "bcrypt_ok B" and rnd: "length (qe_key_rnd env) = 24"
    and run: "handleQuick api B env r s = (resp, s')" and created: "rp_status resp = 201"
    and key: "clean_key (agent_key (qe_key_rnd env))"
    and time: "0 \<le> qe_expiry_now env" "unix (qe_expiry_now env) < 2 ^ 62"
  shows "\<exists>q. Option.bind (unmarshal (rp_body resp)) decode_quick = Some q \<and> qr_tenant q \<in> dom (rg_tenants (view s'))
    \<and> qr_expires q = unix (qe_expiry_now env) + 86400
    \<and> (\<forall>base up hs a. agent_New (expose_config base q up hs) = Inr a \<longrightarrow>
         fst (gateway_admit api B (agent_connect a) s') = Inr (sessionKey (qr_tenant q) (qr_service q)))
    \<and> rp_status (fst (handleDelete api B (qr_tenant q) (delete_seen q) s')) = 204
    \<and> rg_tenants (view (snd (handleDelete api B (qr_tenant q) (delete_seen q) s'))) = rg_tenants (view s)
    \<and> rg_services (view (snd (handleDelete api B (qr_tenant q) (delete_seen q) s'))) = rg_services (view s)"
proof -
  let ?k = "agent_key (qe_key_rnd env)"
  from handleQuick_created [OF ok B rnd run created] obtain auth password slug now svc where ok': "ok s'"
    and new: "slug \<notin> dom (rg_tenants (view s))" "is_quick_slug slug"
    and resp: "resp = quick_created slug ?k (qe_expiry_now env + QuickTTL)" and svc: "quick_service_ok B auth password ?k svc"
    and v: "rg_tenants (view s') = (rg_tenants (view s))(slug \<mapsto> quick_tenant slug now (qe_expiry_now env + QuickTTL))"
      "rg_services (view s') = (rg_services (view s))((slug, ''mcp'') \<mapsto> svc)"
    by (elim conjE exE) rule
  note slug = quick_slug_ascii [OF new(2)]
  define q where "q = \<lparr>qr_tenant = slug, qr_service = ''mcp'', qr_key = ?k, qr_expires = unix (qe_expiry_now env + QuickTTL)\<rparr>"
  have e: "unix (qe_expiry_now env + QuickTTL) = unix (qe_expiry_now env) + 86400" by (simp add: QuickTTL_def)
  have "0 \<le> unix (qe_expiry_now env)" using time(1) unix_mono [of 0 "qe_expiry_now env"] by (simp add: unix_def)
  then have read: "Option.bind (unmarshal (rp_body resp)) decode_quick = Some q"
    using quick_reply_read [of slug ?k "qe_expiry_now env + QuickTTL"] slug key time(2)
    by (simp add: resp q_def e clean_key_def)
  have check: "rg_services (view s') (slug, ''mcp'') = Some svc" "CheckSecret B (AgentKeyHash svc) ?k" "?k \<noteq> []"
    using svc agent_key_nonempty by (simp_all add: v quick_service_ok_def)
  have admit: "fst (gateway_admit api B (agent_connect a) s') = Inr (sessionKey slug ''mcp'')"
    if a: "agent_New (expose_config base q up hs) = Inr a" for base up hs a
  proof -
    have f: "ag_tenant a = slug" "ag_service a = ''mcp''" "ag_key a = ?k"
      using a by (auto simp: agent_New_def expose_config_def q_def split: option.splits if_splits)
    have h: "header (agent_connect a) HeaderTenant = slug" "header (agent_connect a) HeaderServiceName = ''mcp''"
      "bearer_key (agent_connect a) = ?k" using f key by (simp_all add: agent_connect_headers clean_key_def)
    obtain x s2 where g: "gateway_admit api B (agent_connect a) s' = (x, s2)" by fastforce
    show ?thesis
    proof (cases x)
      case (Inl y)
      with gateway_admit_spec [OF ok' g] check slug show ?thesis by (simp add: h Let_def)
    next
      case (Inr y)
      with gateway_admit_spec [OF ok' g] g show ?thesis by (simp add: h Let_def)
    qed
  qed
  obtain dresp s2 where d: "handleDelete api B slug (delete_seen q) s' = (dresp, s2)" by fastforce
  have hd: "header (delete_seen q) ''X-Service-Name'' = ''mcp''" "bearer_key (delete_seen q) = ?k"
    using key by (simp_all only: delete_seen_headers) (simp_all add: q_def clean_key_def)
  have del: "rp_status dresp = 204" "view s2 = drop_tenants {slug} (view s')"
    using handleDelete_spec [OF ok' d] check by (simp_all add: hd Let_def)
  have "rg_services (view s) (slug, n) = None" for n using fresh_slug(1) [OF ok new(1)] .
  then have "rg_services (view s2) = rg_services (view s)" by (auto simp: del(2) drop_tenants_def v fun_eq_iff)
  moreover have "rg_tenants (view s2) = rg_tenants (view s)"
    using new(1) by (auto simp: del(2) drop_tenants_def v restrict_map_def fun_eq_iff domIff)
  ultimately have "rp_status (fst (handleDelete api B slug (delete_seen q) s')) = 204
      \<and> rg_tenants (view (snd (handleDelete api B slug (delete_seen q) s'))) = rg_tenants (view s)
      \<and> rg_services (view (snd (handleDelete api B slug (delete_seen q) s'))) = rg_services (view s)"
    using d del by simp
  then show ?thesis
    using read admit e v(1) by (intro exI [of _ q]) (simp add: q_def)
qed

end

text \<open>The keys of both backends are clean.\<close>

lemma clean_keys: "clean_key (sqlite_agent_key rnd)" "clean_key (d1_agent_key rnd)"
proof -
  have p: "set (sqlite_agentKeyPrefix @ ''_'') \<subseteq> set (CHR ''.'' # b64_alphabet)" "set (d1_agentKeyPrefix @ ''_'') \<subseteq> set (CHR ''.'' # b64_alphabet)"
    "hex_alphabet \<subseteq> set (CHR ''.'' # b64_alphabet)" by code_simp+
  have a: "\<forall>c \<in> set (CHR ''.'' # b64_alphabet). (of_char c :: nat) < 128" by code_simp
  have c: "clean_key k" if "set k \<subseteq> set (CHR ''.'' # b64_alphabet)" for k
    using trim_space_clean [OF that] that a by (auto simp: clean_key_def ascii_def list_all_iff)
  show "clean_key (sqlite_agent_key rnd)" "clean_key (d1_agent_key rnd)"
    using p hex_encode_alphabet [of rnd] by (intro c; auto simp: sqlite_agent_key_def d1_agent_key_def)+
qed

end
