(* ===== verification/Config.thy ===== *)
theory Config
  imports Sqlite_Store D1_Store Go_Url
begin

text \<open>
  \<open>internal/config/config.go\<close>, the start of \<open>cmd/tunneld/main.go\<close> and \<open>Open\<close> of
  \<open>internal/store/store.go\<close>: validation of the daemon's configuration, the choice of the backend, and
  the migrations of the SQLite file. The YAML decoder is an argument: the decoded document over the
  defaults, or its error; so are the environment variables.
\<close>

section \<open>The configuration\<close>

record daemon_config =
  dc_listen :: string
  dc_base :: string
  dc_cloudflare :: bool
  dc_tls :: string
  dc_cache :: string
  dc_email :: string
  dc_cert :: string
  dc_key :: string
  dc_path :: string
  dc_driver :: string
  dc_account :: string
  dc_database :: string
  dc_token_env :: string

definition default_config :: daemon_config where
  "default_config = \<lparr>dc_listen = '':443'', dc_base = [], dc_cloudflare = False, dc_tls = ''acme'', dc_cache = [],
     dc_email = [], dc_cert = [], dc_key = [], dc_path = [], dc_driver = [], dc_account = [], dc_database = [], dc_token_env = []\<rparr>"

datatype config_error = Unreadable string | No_base_url | D1_incomplete | Unknown_driver string | No_certificate | Unknown_tls string

definition check_database :: "daemon_config \<Rightarrow> config_error + daemon_config" where
  "check_database c =
     (if dc_driver c = [] \<or> dc_driver c = ''sqlite'' then Inr (c\<lparr>dc_driver := ''sqlite''\<rparr>)
      else if dc_driver c = ''d1''
      then (if dc_account c = [] \<or> dc_database c = [] \<or> dc_token_env c = [] then Inl D1_incomplete else Inr c)
      else Inl (Unknown_driver (dc_driver c)))"

definition check_tls :: "daemon_config \<Rightarrow> config_error + daemon_config" where
  "check_tls c =
     (if dc_tls c = ''acme'' then Inr (if dc_cache c = [] then c\<lparr>dc_cache := ''./acme-cache''\<rparr> else c)
      else if dc_tls c = ''manual'' then (if dc_cert c = [] \<or> dc_key c = [] then Inl No_certificate else Inr c)
      else if dc_tls c = ''disabled'' then Inr c
      else Inl (Unknown_tls (dc_tls c)))"

definition bind_config :: "config_error + daemon_config \<Rightarrow> (daemon_config \<Rightarrow> config_error + daemon_config) \<Rightarrow> config_error + daemon_config" where
  "bind_config r f = (case r of Inl e \<Rightarrow> Inl e | Inr c \<Rightarrow> f c)"

text \<open>\<open>decode\<close> is what the decoder makes of the file over the defaults, \<open>env\<close> the variable \<open>DATABASE_PATH\<close>.\<close>

definition LoadDaemon :: "(daemon_config \<Rightarrow> string + daemon_config) \<Rightarrow> string \<Rightarrow> config_error + daemon_config" where
  "LoadDaemon decode env =
     (case decode default_config of
        Inl e \<Rightarrow> Inl (Unreadable e)
      | Inr c \<Rightarrow>
          (let c = (if dc_path c = [] then c\<lparr>dc_path := env\<rparr> else c);
               c = (if dc_path c = [] then c\<lparr>dc_path := ''./data/tunneld.db''\<rparr> else c)
           in if dc_base c = [] then Inl No_base_url else bind_config (check_database c) check_tls))"

definition ServerFromConfig :: "(daemon_config \<Rightarrow> string + daemon_config) \<Rightarrow> string \<Rightarrow> config_error + string" where
  "ServerFromConfig decode env = (case LoadDaemon decode env of Inl e \<Rightarrow> Inl e | Inr c \<Rightarrow> Inr (trim_right (dc_base c) ''/''))"

text \<open>What every accepted configuration satisfies.\<close>

definition config_ok :: "daemon_config \<Rightarrow> bool" where
  "config_ok c \<longleftrightarrow> dc_base c \<noteq> [] \<and> dc_path c \<noteq> []
     \<and> (dc_driver c = ''sqlite'' \<or> dc_driver c = ''d1'' \<and> dc_account c \<noteq> [] \<and> dc_database c \<noteq> [] \<and> dc_token_env c \<noteq> [])
     \<and> (dc_tls c = ''acme'' \<and> dc_cache c \<noteq> [] \<or> dc_tls c = ''manual'' \<and> dc_cert c \<noteq> [] \<and> dc_key c \<noteq> [] \<or> dc_tls c = ''disabled'')"

lemma check_database_Inr:
  "check_database c = Inr d \<longleftrightarrow>
     (dc_driver c = [] \<or> dc_driver c = ''sqlite'') \<and> d = c\<lparr>dc_driver := ''sqlite''\<rparr>
     \<or> dc_driver c = ''d1'' \<and> dc_account c \<noteq> [] \<and> dc_database c \<noteq> [] \<and> dc_token_env c \<noteq> [] \<and> d = c"
  by (auto simp: check_database_def)

lemma check_tls_Inr:
  "check_tls c = Inr d \<longleftrightarrow>
     dc_tls c = ''acme'' \<and> d = c\<lparr>dc_cache := (if dc_cache c = [] then ''./acme-cache'' else dc_cache c)\<rparr>
     \<or> dc_tls c = ''manual'' \<and> dc_cert c \<noteq> [] \<and> dc_key c \<noteq> [] \<and> d = c \<or> dc_tls c = ''disabled'' \<and> d = c"
  by (auto simp: check_tls_def)

definition filled_path :: "string \<Rightarrow> daemon_config \<Rightarrow> daemon_config" where
  "filled_path env c = c\<lparr>dc_path := (if dc_path c \<noteq> [] then dc_path c else if env \<noteq> [] then env else ''./data/tunneld.db'')\<rparr>"

lemma LoadDaemon_Inr:
  "LoadDaemon decode env = Inr c \<longleftrightarrow>
     (\<exists>d e. decode default_config = Inr d \<and> dc_base d \<noteq> [] \<and> check_database (filled_path env d) = Inr e \<and> check_tls e = Inr c)"
proof -
  have "(let c = (if dc_path d = [] then d\<lparr>dc_path := env\<rparr> else d) in if dc_path c = [] then c\<lparr>dc_path := ''./data/tunneld.db''\<rparr> else c)
      = filled_path env d" for d by (simp add: filled_path_def Let_def)
  then have "LoadDaemon decode env = (case decode default_config of Inl e \<Rightarrow> Inl (Unreadable e)
      | Inr d \<Rightarrow> if dc_base d = [] then Inl No_base_url else bind_config (check_database (filled_path env d)) check_tls)"
    by (auto simp: LoadDaemon_def Let_def filled_path_def split: sum.split)
  then show ?thesis by (auto simp: bind_config_def split: sum.splits)
qed

lemma LoadDaemon_ok:
  assumes "LoadDaemon decode env = Inr c"
  shows "config_ok c"
proof -
  from assms obtain d e where d: "dc_base d \<noteq> []" and db: "check_database (filled_path env d) = Inr e" and tls: "check_tls e = Inr c"
    by (auto simp: LoadDaemon_Inr)
  have p: "dc_path (filled_path env d) \<noteq> []" "dc_base (filled_path env d) \<noteq> []" using d by (simp_all add: filled_path_def)
  from db have e: "dc_path e \<noteq> []" "dc_base e \<noteq> []"
    "dc_driver e = ''sqlite'' \<or> dc_driver e = ''d1'' \<and> dc_account e \<noteq> [] \<and> dc_database e \<noteq> [] \<and> dc_token_env e \<noteq> []"
    unfolding check_database_Inr using p by auto
  from tls e show ?thesis unfolding check_tls_Inr config_ok_def by (auto split: if_splits)
qed

text \<open>An accepted configuration, written out and loaded again, is the same.\<close>

lemma LoadDaemon_again:
  assumes "LoadDaemon decode env = Inr c"
  shows "LoadDaemon (\<lambda>_. Inr c) env' = Inr c"
proof -
  note ok = LoadDaemon_ok [OF assms, unfolded config_ok_def]
  have f: "filled_path env' c = c" using ok by (simp add: filled_path_def)
  have same: "c\<lparr>dc_cache := dc_cache c\<rparr> = c" by simp
  have "c\<lparr>dc_driver := ''sqlite''\<rparr> = c" if "dc_driver c = ''sqlite''" using that by (cases c) simp
  then have "check_database c = Inr c" unfolding check_database_Inr using ok by auto
  moreover have "check_tls c = Inr c" unfolding check_tls_Inr using ok same by auto
  ultimately show ?thesis unfolding LoadDaemon_Inr using ok f by auto
qed

section \<open>The store\<close>

datatype backend = Use_sqlite string | Use_d1 d1_config

definition openStore :: "(string \<Rightarrow> string) \<Rightarrow> daemon_config \<Rightarrow> string + backend" where
  "openStore getenv c =
     (if dc_driver c = ''d1''
      then (if getenv (dc_token_env c) = [] then Inl ''environment variable is unset or empty''
            else Inr (Use_d1 \<lparr>AccountID = dc_account c, DatabaseID = dc_database c, APIToken = getenv (dc_token_env c)\<rparr>))
      else Inr (Use_sqlite (dc_path c)))"

definition publicHost :: "string \<Rightarrow> string option" where
  "publicHost base = (case Parse base of None \<Rightarrow> None | Some u \<Rightarrow> if Hostname u = [] then None else Some (Hostname u))"

text \<open>With an accepted configuration none of \<open>New\<close>'s own checks fails.\<close>

lemma openStore_complete:
  assumes "LoadDaemon decode env = Inr c" and "openStore getenv c = Inr b"
  shows "case b of Use_sqlite path \<Rightarrow> path \<noteq> []
    | Use_d1 cfg \<Rightarrow> AccountID cfg \<noteq> [] \<and> DatabaseID cfg \<noteq> [] \<and> APIToken cfg \<noteq> []"
proof (cases "dc_driver c = ''d1''")
  case True
  then have "dc_driver c \<noteq> ''sqlite''" by simp
  with True LoadDaemon_ok [OF assms(1)] assms(2) show ?thesis by (auto simp: config_ok_def openStore_def split: if_splits)
next
  case False
  with LoadDaemon_ok [OF assms(1)] assms(2) show ?thesis by (auto simp: config_ok_def openStore_def)
qed

section \<open>The SQLite schema\<close>

text \<open>
  A schema is the columns of each table. \<open>CREATE TABLE IF NOT EXISTS\<close> leaves an existing table alone;
  \<open>ALTER TABLE ADD COLUMN\<close> fails when the column exists or the table does not.
\<close>

type_synonym schema = "string \<rightharpoonup> string list"

definition schema_tables :: "(string \<times> string list) list" where
  "schema_tables = [
     (''tenants'', [''slug'', ''display_name'', ''created_at'', ''expires_at'']),
     (''services'', [''tenant_slug'', ''name'', ''agent_key_hash'', ''created_at'']),
     (''quick_rate'', [''ip'', ''window_start'', ''count'']),
     (''signing_keys'', [''tenant_slug'', ''private_key_pem'', ''created_at'']),
     (''oauth_clients'', [''tenant_slug'', ''client_id'', ''redirect_uris'', ''created_at'']),
     (''auth_codes'', [''code_hash'', ''tenant_slug'', ''client_id'', ''redirect_uri'', ''code_challenge'', ''expires_at'', ''used_at''])]"

definition create_table :: "string \<times> string list \<Rightarrow> schema \<Rightarrow> schema" where
  "create_table t s = (if s (fst t) = None then s(fst t \<mapsto> snd t) else s)"

definition add_column :: "string \<Rightarrow> string \<Rightarrow> schema \<Rightarrow> string + schema" where
  "add_column t cn s =
     (case s t of
        None \<Rightarrow> Inl (''no such table: '' @ t)
      | Some cols \<Rightarrow> if cn \<in> set cols then Inl (''duplicate column name: '' @ cn) else Inr (s(t \<mapsto> cols @ [cn])))"

definition isDuplicateColumn :: "string \<Rightarrow> bool" where
  "isDuplicateColumn err = contains err ''duplicate column name''"

datatype open_error = No_path | No_directory | No_connection string | Migrate string string

text \<open>One migration; \<open>fault\<close> is an error of the driver instead of the statement.\<close>

definition migration :: "string \<Rightarrow> string \<Rightarrow> string option \<Rightarrow> schema \<Rightarrow> open_error + schema" where
  "migration t cn fault s =
     (case (case fault of Some e \<Rightarrow> Inl e | None \<Rightarrow> add_column t cn s) of
        Inr s \<Rightarrow> Inr s
      | Inl e \<Rightarrow> if isDuplicateColumn e then Inr s else Inl (Migrate t e))"

definition bind_open :: "open_error + schema \<Rightarrow> (schema \<Rightarrow> open_error + schema) \<Rightarrow> open_error + schema" where
  "bind_open r f = (case r of Inl e \<Rightarrow> Inl e | Inr s \<Rightarrow> f s)"

text \<open>
  \<open>Open\<close>: \<open>dir\<close> says whether the directory can be made, \<open>ping\<close> is the error of the connection, and
  \<open>faults i\<close> the driver's error at the \<open>i\<close>-th statement, if any.
\<close>

definition store_Open :: "string \<Rightarrow> bool \<Rightarrow> string option \<Rightarrow> (nat \<Rightarrow> string option) \<Rightarrow> schema \<Rightarrow> open_error + schema" where
  "store_Open path dir ping faults s =
     (if path = [] then Inl No_path
      else if path \<noteq> '':memory:'' \<and> \<not> dir then Inl No_directory
      else (case ping of
          Some e \<Rightarrow> Inl (No_connection e)
        | None \<Rightarrow>
            (case faults 0 of
               Some e \<Rightarrow> Inl (Migrate ''schema'' e)
             | None \<Rightarrow>
                 bind_open (migration ''tenants'' ''expires_at'' (faults 1) (fold create_table schema_tables s)) (\<lambda>s.
                 bind_open (migration ''services'' ''auth_mode'' (faults 2) s) (\<lambda>s.
                 migration ''services'' ''password_hash'' (faults 3) s)))))"

text \<open>The columns the statements of the store name, and those every release had.\<close>

definition needed_columns :: "(string \<times> string list) list" where
  "needed_columns = [
     (''tenants'', [''slug'', ''display_name'', ''created_at'', ''expires_at'']),
     (''services'', [''tenant_slug'', ''name'', ''agent_key_hash'', ''created_at'', ''auth_mode'', ''password_hash'']),
     (''quick_rate'', [''ip'', ''window_start'', ''count'']),
     (''signing_keys'', [''tenant_slug'', ''private_key_pem'', ''created_at'']),
     (''oauth_clients'', [''tenant_slug'', ''client_id'', ''redirect_uris'', ''created_at'']),
     (''auth_codes'', [''code_hash'', ''tenant_slug'', ''client_id'', ''redirect_uri'', ''code_challenge'', ''expires_at'', ''used_at''])]"

definition base_columns :: "string \<Rightarrow> string list \<Rightarrow> string list" where
  "base_columns t cols = filter (\<lambda>c. \<not> (t = ''tenants'' \<and> c = ''expires_at'' \<or> t = ''services'' \<and> c \<in> {''auth_mode'', ''password_hash''})) cols"

definition has_columns :: "(string \<times> string list) list \<Rightarrow> schema \<Rightarrow> bool" where
  "has_columns ts s \<longleftrightarrow> list_all (\<lambda>(t, cols). case s t of None \<Rightarrow> False | Some cs \<Rightarrow> set cols \<subseteq> set cs) ts"

text \<open>A file an older release has written: every table it has, has the columns that release knew.\<close>

definition older_schema :: "schema \<Rightarrow> bool" where
  "older_schema s \<longleftrightarrow> list_all (\<lambda>(t, cols). case s t of None \<Rightarrow> True | Some cs \<Rightarrow> set (base_columns t cols) \<subseteq> set cs) needed_columns"

definition keeps_columns :: "schema \<Rightarrow> schema \<Rightarrow> bool" where
  "keeps_columns s s' \<longleftrightarrow> (\<forall>t cols. s t = Some cols \<longrightarrow> (\<exists>new. s' t = Some (cols @ new)))"

lemma keeps_columns_trans: "keeps_columns s s1 \<Longrightarrow> keeps_columns s1 s2 \<Longrightarrow> keeps_columns s s2"
  unfolding keeps_columns_def by (metis append.assoc)

lemma duplicate_found: "isDuplicateColumn (''duplicate column name: '' @ cn)"
  using contains_append [of "[]" "''duplicate column name''" "'': '' @ cn"] by (simp add: isDuplicateColumn_def)

lemma create_tables_get:
  "fold create_table ts s t = (case s t of Some cols \<Rightarrow> Some cols | None \<Rightarrow> map_of ts t)"
  by (induction ts arbitrary: s) (auto simp: create_table_def split: option.split)

lemma create_tables_keeps: "keeps_columns s (fold create_table ts s)"
  by (simp add: keeps_columns_def create_tables_get)

text \<open>A migration of a table that exists adds the column if it is missing, and touches nothing else.\<close>

lemma migration_run:
  assumes "s t = Some cols"
  shows "migration t cn None s = Inr (if cn \<in> set cols then s else s(t \<mapsto> cols @ [cn]))"
proof -
  have "isDuplicateColumn (''duplicate column name: '' @ cn)" by (rule duplicate_found)
  with assms show ?thesis by (simp add: migration_def add_column_def)
qed

lemma migration_keeps:
  "migration t cn None s = Inr s' \<Longrightarrow> s t = Some cols \<Longrightarrow> keeps_columns s s'"
  by (auto simp: migration_run keeps_columns_def split: if_splits)

definition add_to :: "string \<Rightarrow> string \<Rightarrow> schema \<Rightarrow> schema" where
  "add_to t cn s = (case s t of None \<Rightarrow> s | Some cols \<Rightarrow> if cn \<in> set cols then s else s(t \<mapsto> cols @ [cn]))"

lemma created_tables:
  "\<exists>cols. fold create_table schema_tables s ''tenants'' = Some cols"
  "\<exists>cols. fold create_table schema_tables s ''services'' = Some cols"
proof -
  have "map_of schema_tables ''tenants'' \<noteq> None" "map_of schema_tables ''services'' \<noteq> None" by (simp_all add: schema_tables_def)
  then show "\<exists>cols. fold create_table schema_tables s ''tenants'' = Some cols"
    "\<exists>cols. fold create_table schema_tables s ''services'' = Some cols"
    by (auto simp: create_tables_get split: option.split)
qed

lemma store_Open_run:
  assumes "path \<noteq> []" and "path = '':memory:'' \<or> dir"
  shows "store_Open path dir None (\<lambda>_. None) s =
    Inr (add_to ''services'' ''password_hash'' (add_to ''services'' ''auth_mode'' (add_to ''tenants'' ''expires_at''
      (fold create_table schema_tables s))))"
proof -
  let ?s = "fold create_table schema_tables s"
  obtain a where a: "?s ''tenants'' = Some a" using created_tables(1) by blast
  obtain b where b: "?s ''services'' = Some b" using created_tables(2) by blast
  show ?thesis
    using assms a b by (simp add: store_Open_def bind_open_def migration_run add_to_def)
qed

lemma add_to_keeps: "keeps_columns s (add_to t cn s)"
  by (auto simp: add_to_def keeps_columns_def split: option.split)

lemma add_to_get: "set (the (add_to t cn s t')) = (if t' = t \<and> s t \<noteq> None then insert cn (set (the (s t'))) else set (the (s t')))"
  "add_to t cn s t' = None \<longleftrightarrow> s t' = None"
  by (auto simp: add_to_def split: option.split)

lemma add_to_mem: "c \<in> set (the (add_to t cn s t')) \<longleftrightarrow> t' = t \<and> s t \<noteq> None \<and> c = cn \<or> c \<in> set (the (s t'))"
  by (auto simp: add_to_get split: if_splits)

lemma has_columns_iff: "has_columns ts s \<longleftrightarrow> (\<forall>t cols. (t, cols) \<in> set ts \<longrightarrow> s t \<noteq> None \<and> set cols \<subseteq> set (the (s t)))"
  unfolding has_columns_def list_all_iff by (fastforce split: option.splits)

lemma older_schema_iff:
  "older_schema s \<longleftrightarrow> (\<forall>t cols. (t, cols) \<in> set needed_columns \<longrightarrow> s t = None \<or> set (base_columns t cols) \<subseteq> set (the (s t)))"
  unfolding older_schema_def list_all_iff by (fastforce split: option.splits)

text \<open>
  \<open>Open\<close> brings every older file to the columns the store needs and loses none; opening the result
  again changes nothing.
\<close>

lemma store_Open_upgrades:
  assumes "path \<noteq> []" and "path = '':memory:'' \<or> dir" and "older_schema s"
  shows "\<exists>s'. store_Open path dir None (\<lambda>_. None) s = Inr s' \<and> has_columns needed_columns s' \<and> keeps_columns s s'
    \<and> store_Open path dir None (\<lambda>_. None) s' = Inr s'"
proof -
  let ?s0 = "fold create_table schema_tables s"
  let ?s' = "add_to ''services'' ''password_hash'' (add_to ''services'' ''auth_mode'' (add_to ''tenants'' ''expires_at'' ?s0))"
  have tabs: "?s0 t \<noteq> None \<and> set (base_columns t cols) \<subseteq> set (the (?s0 t))" if "(t, cols) \<in> set needed_columns" for t cols
  proof (cases "s t")
    case None
    have "list_all (\<lambda>(t, cols). case map_of schema_tables t of None \<Rightarrow> False
        | Some cs \<Rightarrow> list_all (\<lambda>c. c \<in> set cs) (base_columns t cols)) needed_columns" by code_simp
    with that obtain cs where "map_of schema_tables t = Some cs" "set (base_columns t cols) \<subseteq> set cs"
      by (fastforce simp: list_all_iff split: option.splits)
    then show ?thesis by (simp add: create_tables_get None)
  next
    case (Some cs)
    from assms(3) that have "s t = None \<or> set (base_columns t cols) \<subseteq> set (the (s t))" unfolding older_schema_iff by blast
    with Some show ?thesis by (simp add: create_tables_get)
  qed
  have has: "has_columns needed_columns ?s'"
  proof -
    have "?s' t \<noteq> None \<and> set cols \<subseteq> set (the (?s' t))" if m: "(t, cols) \<in> set needed_columns" for t cols
    proof
      show "?s' t \<noteq> None" using tabs [OF m] by (simp add: add_to_get(2))
      have x: "?s0 ''tenants'' \<noteq> None" "?s0 ''services'' \<noteq> None"
        using created_tables [of s] by auto
      show "set cols \<subseteq> set (the (?s' t))"
      proof
        fix c
        assume c: "c \<in> set cols"
        show "c \<in> set (the (?s' t))"
        proof (cases "c \<in> set (base_columns t cols)")
          case True
          then have "c \<in> set (the (?s0 t))" using tabs [OF m] by (simp only: subset_iff)
          then show ?thesis by (simp only: add_to_mem simp_thms)
        next
          case False
          with c have "t = ''tenants'' \<and> c = ''expires_at'' \<or> t = ''services'' \<and> (c = ''auth_mode'' \<or> c = ''password_hash'')"
            by (auto simp: base_columns_def)
          then show ?thesis
            by (elim disjE conjE) (simp_all only: add_to_mem add_to_get(2) x simp_thms)
        qed
      qed
    qed
    then show ?thesis by (auto simp: has_columns_iff)
  qed
  have keeps: "keeps_columns s ?s'"
    by (rule keeps_columns_trans [OF _ add_to_keeps])+ (rule create_tables_keeps)
  have same: "add_to t cn s1 = s1" if "s1 t \<noteq> None" "cn \<in> set (the (s1 t))" for t cn s1
    using that by (auto simp: add_to_def)
  have full: "fold create_table schema_tables ?s' = ?s'"
  proof
    fix t
    show "fold create_table schema_tables ?s' t = ?s' t"
    proof (cases "?s' t")
      case None
      then have "s t = None" "map_of schema_tables t = None" by (simp_all add: add_to_get(2) create_tables_get split: option.splits)
      with None show ?thesis by (simp add: create_tables_get)
    qed (simp add: create_tables_get)
  qed
  have cols: "?s' ''tenants'' \<noteq> None" "''expires_at'' \<in> set (the (?s' ''tenants''))" "?s' ''services'' \<noteq> None"
    "''auth_mode'' \<in> set (the (?s' ''services''))" "''password_hash'' \<in> set (the (?s' ''services''))"
    using has by (simp_all add: has_columns_iff needed_columns_def)
  have "store_Open path dir None (\<lambda>_. None) ?s' = Inr ?s'"
    using same [of ?s' "''tenants''" "''expires_at''"] same [of ?s' "''services''" "''auth_mode''"]
      same [of ?s' "''services''" "''password_hash''"] cols
    by (simp only: store_Open_run [OF assms(1,2)] full simp_thms)
  with store_Open_run [OF assms(1,2)] has keeps show ?thesis by (intro exI [of _ ?s'] conjI)
qed

end
