(* ===== verification/Tunneld.thy ===== *)
theory Tunneld
  imports Daemon OAuth_Flow Config
begin

text \<open>
  The daemon as one machine: the handler that \<open>NewHandler\<close> of \<open>internal/server/server.go\<close> composes of
  gateway, control plane, OAuth servers and proxy over one store, with the janitor and the session
  registry, and \<open>main\<close> of \<open>cmd/tunneld\<close>. A request is one step on the state (the session registry,
  whose locked sections interleave with requests, has steps of its own); a run is a list of events.
\<close>

section \<open>One request\<close>

record ('s, 'k) daemon =
  dm_oauth :: "'s oauth_state"
  dm_resolver :: "'k resolver"
  dm_gateway :: gateway

text \<open>
  What a request draws from the clock, from randomness and from the network: the session the agent's
  connection becomes (\<open>None\<close>: the upgrade fails), and how a session answers a request.
\<close>

record visit =
  vs_quick :: quick_env
  vs_oauth :: oauth_env
  vs_pem :: "string option"
  vs_now_server :: time
  vs_now :: time
  vs_session :: "nat option"
  vs_forward :: "nat \<Rightarrow> string \<Rightarrow> request \<Rightarrow> Http.response option"

datatype daemon_reply = Reply Http.response | Moved string | Connected nat | No_upgrade

definition daemon_new :: "string \<Rightarrow> ip_rate \<Rightarrow> ip_rate \<Rightarrow> 's \<Rightarrow> ('s, 'k) daemon" where
  "daemon_new base reg tok s = \<lparr>dm_oauth = \<lparr>oa_store = s, oa_register = reg, oa_token = tok\<rparr>,
     dm_resolver = NewResolver base, dm_gateway = gw_new\<rparr>"

definition dm_store :: "('s, 'k) daemon \<Rightarrow> 's" where
  "dm_store d = oa_store (dm_oauth d)"

definition with_store :: "'s \<Rightarrow> ('s, 'k) daemon \<Rightarrow> ('s, 'k) daemon" where
  "with_store s d = d\<lparr>dm_oauth := (dm_oauth d)\<lparr>oa_store := s\<rparr>\<rparr>"

definition gateway_upstream :: "visit \<Rightarrow> gateway \<Rightarrow> nat upstream" where
  "gateway_upstream v g = \<lparr>up_dial = (\<lambda>t n. gw_Dial t n g), up_forward = vs_forward v\<rparr>"

definition control_plane :: "'s store_api \<Rightarrow> bcrypt \<Rightarrow> visit \<Rightarrow> request \<Rightarrow> 's \<Rightarrow> Http.response \<times> 's" where
  "control_plane A B v r s =
     (case cp_route (rq_method r) (rq_path r) of
        Cp_quick \<Rightarrow> handleQuick A B (vs_quick v) r s
      | Cp_delete t \<Rightarrow> handleDelete A B t r s
      | Cp_method \<Rightarrow> (http_error ''Method Not Allowed'' 405, s)
      | Cp_none \<Rightarrow> (not_found, s))"

text \<open>The gateway's \<open>ServeHTTP\<close> up to the locked part of \<open>register\<close>; session numbers are not used twice.\<close>

definition gateway_connect :: "'s store_api \<Rightarrow> bcrypt \<Rightarrow> visit \<Rightarrow> request \<Rightarrow> ('s, 'k) daemon \<Rightarrow> daemon_reply \<times> ('s, 'k) daemon" where
  "gateway_connect A B v r d =
     (case gateway_admit A B r (dm_store d) of
        (Inl resp, s) \<Rightarrow> (Reply resp, with_store s d)
      | (Inr key, s) \<Rightarrow>
          (case vs_session v of
             None \<Rightarrow> (No_upgrade, with_store s d)
           | Some i \<Rightarrow>
               if gw_handlers (dm_gateway d) i \<noteq> None then (No_upgrade, with_store s d)
               else (Connected i, (with_store s d)\<lparr>dm_gateway := gw_swap key i (dm_gateway d)\<rparr>)))"

definition daemon_handle ::
  "'s store_api \<Rightarrow> bcrypt \<Rightarrow> ('k, 'p) crypto \<Rightarrow> visit \<Rightarrow> request \<Rightarrow> ('s, 'k) daemon \<Rightarrow> daemon_reply \<times> ('s, 'k) daemon" where
  "daemon_handle A B C v r d =
     (case server_route (rq_method r) (rq_path r) of
        C_gateway \<Rightarrow> gateway_connect A B v r d
      | C_control_plane \<Rightarrow> (case control_plane A B v r (dm_store d) of (resp, s) \<Rightarrow> (Reply resp, with_store s d))
      | C_proxy \<Rightarrow>
          (case proxy_serve A C (gateway_upstream v (dm_gateway d)) (vs_pem v) (vs_now_server v) (vs_now v) r
                  (Some (dm_resolver d), dm_store d) of
             (resp, orv, s) \<Rightarrow> (Reply resp, (with_store s d)\<lparr>dm_resolver := (case orv of None \<Rightarrow> dm_resolver d | Some rv \<Rightarrow> rv)\<rparr>))
      | C_well_known \<Rightarrow>
          (case well_known_handle A C (vs_pem v) (vs_now_server v) r (dm_resolver d, dm_oauth d) of
             (resp, rv, st) \<Rightarrow> (Reply resp, d\<lparr>dm_resolver := rv, dm_oauth := st\<rparr>))
      | C_oauth \<Rightarrow>
          (case resolver_handle A B C (vs_pem v) (vs_now_server v) (vs_oauth v) r (dm_resolver d, dm_oauth d) of
             (resp, rv, st) \<Rightarrow> (Reply resp, d\<lparr>dm_resolver := rv, dm_oauth := st\<rparr>))
      | C_healthz \<Rightarrow> (Reply Healthz, d)
      | C_robots \<Rightarrow> (Reply robotsTxt, d)
      | C_redirect \<Rightarrow> (Moved (rq_path r @ ''/''), d)
      | C_method \<Rightarrow> (Reply (http_error ''Method Not Allowed'' 405), d)
      | C_none \<Rightarrow> (Reply not_found, d))"

text \<open>The handler \<open>main\<close> serves.\<close>

definition daemon_serve ::
  "'s store_api \<Rightarrow> bcrypt \<Rightarrow> ('k, 'p) crypto \<Rightarrow> daemon_config \<Rightarrow> visit \<Rightarrow> request \<Rightarrow> ('s, 'k) daemon \<Rightarrow> daemon_reply \<times> ('s, 'k) daemon" where
  "daemon_serve A B C c v r d = daemon_handle A B C v (if dc_cloudflare c then CloudflareClientIP r else r) d"

section \<open>Runs\<close>

datatype daemon_event = Visit visit request | Close_old nat | Die nat | Return nat | Tick time

fun daemon_step ::
  "'s store_api \<Rightarrow> bcrypt \<Rightarrow> ('k, 'p) crypto \<Rightarrow> daemon_config \<Rightarrow> daemon_event \<Rightarrow> ('s, 'k) daemon \<Rightarrow> ('s, 'k) daemon option" where
  "daemon_step A B C c (Visit v r) d = Some (snd (daemon_serve A B C c v r d))"
| "daemon_step A B C c (Close_old i) d =
     (case gw_handlers (dm_gateway d) i of
        Some (key, Closing old) \<Rightarrow> Some (d\<lparr>dm_gateway := gw_close_old i (dm_gateway d)\<rparr>)
      | _ \<Rightarrow> None)"
| "daemon_step A B C c (Die i) d = Some (d\<lparr>dm_gateway := gw_die i (dm_gateway d)\<rparr>)"
| "daemon_step A B C c (Return i) d =
     (case gw_handlers (dm_gateway d) i of
        Some (key, Serving) \<Rightarrow>
          if i \<in> gw_closed (dm_gateway d) then Some (d\<lparr>dm_gateway := gw_return key i (dm_gateway d)\<rparr>) else None
      | _ \<Rightarrow> None)"
| "daemon_step A B C c (Tick now) d = Some (with_store (snd (DeleteExpiredTenants A now (dm_store d))) d)"

fun daemon_run ::
  "'s store_api \<Rightarrow> bcrypt \<Rightarrow> ('k, 'p) crypto \<Rightarrow> daemon_config \<Rightarrow> daemon_event list \<Rightarrow> ('s, 'k) daemon \<Rightarrow> ('s, 'k) daemon option" where
  "daemon_run A B C c [] d = Some d"
| "daemon_run A B C c (e # es) d = Option.bind (daemon_step A B C c e d) (daemon_run A B C c es)"

lemma daemon_run_append: "daemon_run A B C c (es @ es') d = Option.bind (daemon_run A B C c es d) (daemon_run A B C c es')"
proof (induction es arbitrary: d)
  case (Cons e es)
  then show ?case by (cases "daemon_step A B C c e d") simp_all
qed simp

lemma cloudflare_sel [simp]:
  "rq_method (CloudflareClientIP r) = rq_method r" "rq_path (CloudflareClientIP r) = rq_path r"
  "header (CloudflareClientIP r) h = header r h" "bearer_key (CloudflareClientIP r) = bearer_key r"
  by (simp_all add: CloudflareClientIP_def header_def bearer_key_def split: option.split)

section \<open>Who can take a tunnel down\<close>

text \<open>A request with the key of a service of the tenant, and the events that remove the tenant.\<close>

definition carries_key :: "bcrypt \<Rightarrow> string \<Rightarrow> request \<Rightarrow> registry \<Rightarrow> bool" where
  "carries_key B t r R \<longleftrightarrow> header r ''X-Service-Name'' \<noteq> [] \<and> bearer_key r \<noteq> []
     \<and> (case rg_services R (t, header r ''X-Service-Name'') of None \<Rightarrow> False | Some svc \<Rightarrow> CheckSecret B (AgentKeyHash svc) (bearer_key r))"

definition takes_down :: "bcrypt \<Rightarrow> string \<Rightarrow> daemon_event \<Rightarrow> registry \<Rightarrow> bool" where
  "takes_down B t e R = (case e of
     Visit v r \<Rightarrow> server_route (rq_method r) (rq_path r) = C_control_plane \<and> cp_route (rq_method r) (rq_path r) = Cp_delete t
       \<and> carries_key B t r R
   | Tick now \<Rightarrow> (case rg_tenants R t of None \<Rightarrow> False | Some tn \<Rightarrow> tenant_expired now tn)
   | _ \<Rightarrow> False)"

lemma store_sel [simp]: "dm_store (with_store s d) = s" "dm_resolver (with_store s d) = dm_resolver d"
  "dm_gateway (with_store s d) = dm_gateway d" "dm_store (d\<lparr>dm_gateway := g\<rparr>) = dm_store d" "dm_store (d\<lparr>dm_resolver := rv\<rparr>) = dm_store d"
  "dm_store (d\<lparr>dm_oauth := st\<rparr>) = oa_store st" "oa_store (dm_oauth d) = dm_store d"
  by (simp_all add: dm_store_def with_store_def)

text \<open>Nothing of an existing tenant changes; new ones may come.\<close>

definition keeps_tenants :: "registry \<Rightarrow> registry \<Rightarrow> bool" where
  "keeps_tenants R R' \<longleftrightarrow> (\<forall>t \<in> dom (rg_tenants R). rg_tenants R' t = rg_tenants R t \<and> (\<forall>n. rg_services R' (t, n) = rg_services R (t, n)))"

lemma keeps_same: "rg_tenants R' = rg_tenants R \<Longrightarrow> rg_services R' = rg_services R \<Longrightarrow> keeps_tenants R R'"
  by (simp add: keeps_tenants_def)

lemma keeps_trans: "keeps_tenants R R' \<Longrightarrow> keeps_tenants R' R'' \<Longrightarrow> keeps_tenants R R''"
  by (auto simp: keeps_tenants_def domIff)

lemma keeps_refl [simp]: "keeps_tenants R R"
  by (simp add: keeps_same)

definition moves_on :: "('s \<Rightarrow> bool) \<Rightarrow> ('s \<Rightarrow> registry) \<Rightarrow> 's \<Rightarrow> 's \<Rightarrow> bool" where
  "moves_on ok view s s' \<longleftrightarrow> (ok s \<longrightarrow> ok s' \<and> keeps_tenants (view s) (view s'))"

text \<open>The events, when bcrypt is given keys of the length the stores draw.\<close>

definition drawn_ok :: "daemon_event \<Rightarrow> bool" where
  "drawn_ok e = (case e of Visit v r \<Rightarrow> length (qe_key_rnd (vs_quick v)) = 24 | _ \<Rightarrow> True)"

text \<open>One event removes a tenant with everything under it, or leaves it as it is.\<close>

definition tenant_step :: "('s \<Rightarrow> bool) \<Rightarrow> ('s \<Rightarrow> registry) \<Rightarrow> bcrypt \<Rightarrow> daemon_event \<Rightarrow> 's \<Rightarrow> 's \<Rightarrow> bool" where
  "tenant_step ok view B e s s' \<longleftrightarrow> ok s' \<and> (\<forall>t \<in> dom (rg_tenants (view s)).
     if takes_down B t e (view s) then gone t (view s')
     else rg_tenants (view s') t = rg_tenants (view s) t \<and> (\<forall>n. rg_services (view s') (t, n) = rg_services (view s) (t, n)))"

context store_contract
begin

lemma moves_refl [simp]: "moves_on ok view s s"
  by (simp add: moves_on_def)

lemma moves_trans: "moves_on ok view s s' \<Longrightarrow> moves_on ok view s' s'' \<Longrightarrow> moves_on ok view s s''"
  using keeps_trans by (auto simp: moves_on_def)

lemma moves_op: "implements ok view f g \<Longrightarrow> (\<And>R. keeps_tenants R (snd (g R))) \<Longrightarrow> moves_on ok view s (snd (f s))"
  unfolding moves_on_def implements_def by (metis snd_conv)

lemma moves_reads:
  "moves_on ok view s (snd (GetTenant api t s))" "moves_on ok view s (snd (GetService api t n s))" "moves_on ok view s (snd (GetSigningKey api t s))"
  "moves_on ok view s (snd (GetOAuthClient api t c s))" "moves_on ok view s (snd (ValidatePassword api B t n pw s))" "moves_on ok view s (snd (ValidateAgentKey api B t n k s))"
  by (rule moves_op [OF get_tenant] moves_op [OF get_service] moves_op [OF get_key] moves_op [OF get_client]
      moves_op [OF validate_password] moves_op [OF validate_agent_key]; simp)+

lemma moves_writes:
  "moves_on ok view s (snd (CreateSigningKey api t pem now s))" "moves_on ok view s (snd (CreateOAuthClient api t cid uris now s))"
  "moves_on ok view s (snd (CreateAuthCode api h t cid uri ch e s))" "moves_on ok view s (snd (ConsumeAuthCode api h now s))"
  by (rule moves_op [OF create_key] moves_op [OF create_client] moves_op [OF create_code] moves_op [OF consume_code];
      auto simp: spec_create_key_def spec_create_client_def spec_create_code_def spec_consume_code_def intro!: keeps_same split: option.split)+

lemma moves_eq: "moves_on ok view s (snd p) \<Longrightarrow> p = (x, s') \<Longrightarrow> moves_on ok view s s'"
  by simp

lemmas moves_intros = moves_reads [THEN moves_eq] moves_writes [THEN moves_eq]

lemma moves_NewServer: "NewServer api C base t e pem now s = (x, s') \<Longrightarrow> moves_on ok view s s'"
  unfolding NewServer_def Let_def
  by (auto split: sum.splits prod.splits option.splits intro: moves_trans moves_intros)

lemma moves_resolver: "resolver_server api C pem now t rv s = (x, rv', s') \<Longrightarrow> moves_on ok view s s'"
  unfolding resolver_server_def Let_def
  by (auto split: sum.splits prod.splits option.splits intro: moves_trans moves_intros moves_NewServer)

lemma moves_proxy_decide: "proxy_decide api C pem ns now r (orv, s) = (x, orv', s') \<Longrightarrow> moves_on ok view s s'"
  unfolding proxy_decide_def proxy_authorize_def Let_def
  by (auto split: sum.splits prod.splits option.splits if_splits intro: moves_trans moves_intros moves_resolver)

lemma moves_proxy: "proxy_serve api C U pem ns now r (orv, s) = (x, orv', s') \<Longrightarrow> moves_on ok view s s'"
  by (auto simp: proxy_serve_def split: prod.splits verdict.splits dest: moves_proxy_decide)

lemma moves_register: "handleRegister api srv env r st = (x, st') \<Longrightarrow> moves_on ok view (oa_store st) (oa_store st')"
  unfolding handleRegister_def Let_def
  by (auto split: sum.splits prod.splits option.splits if_splits intro: moves_intros)

lemma moves_authorize:
  assumes "handleAuthorize api B C srv env r s = (x, s')"
  shows "moves_on ok view s s'"
  unfolding moves_on_def
proof
  assume "ok s"
  note a = authorize_spec [OF this assms]
  then have "\<exists>codes. view s' = (view s)\<lparr>rg_codes := codes\<rparr>" by (metis (full_types) registry.surjective registry.update_convs(6))
  with a show "ok s' \<and> keeps_tenants (view s) (view s')" by (auto intro: keeps_same)
qed

lemma moves_token: "handleToken api C srv env r st = (x, st') \<Longrightarrow> moves_on ok view (oa_store st) (oa_store st')"
  unfolding handleToken_def Let_def
  by (auto split: sum.splits prod.splits option.splits if_splits intro: moves_intros)

lemma moves_oauth: "oauth_serve api B C srv env r p st = (x, st') \<Longrightarrow> moves_on ok view (oa_store st) (oa_store st')"
  unfolding oauth_serve_def
  by (auto split: prod.splits endpoint.splits dest: moves_register moves_authorize moves_token)

lemma moves_resolver_handle:
  "resolver_handle api B C pem now env r (rv, st) = (x, rv', st') \<Longrightarrow> moves_on ok view (oa_store st) (oa_store st')"
  unfolding resolver_handle_def
  by (auto split: prod.splits option.splits dest!: moves_oauth intro: moves_trans moves_resolver)

lemma moves_well_known:
  "well_known_handle api C pem now r (rv, st) = (x, rv', st') \<Longrightarrow> moves_on ok view (oa_store st) (oa_store st')"
  unfolding well_known_handle_def
  by (auto split: prod.splits option.splits intro: moves_resolver)

text \<open>Only the creating half of \<open>handleQuick\<close> adds, under a new name.\<close>

lemma moves_create:
  assumes B: "bcrypt_ok B" and rnd: "length (qe_key_rnd env) = 24"
    and run: "quick_create api B env auth password s = (resp, s')"
  shows "moves_on ok view s s'"
  unfolding moves_on_def
proof
  assume ok: "ok s"
  define e where "e = qe_expiry_now env + QuickTTL"
  obtain x s1 where c: "createQuickTenant api e (qe_draws env) s = (x, s1)" by fastforce
  note c1 = create_quick_loop_spec [OF ok c [unfolded createQuickTenant_def]]
  have o1: "ok s1" and k1: "keeps_tenants (view s) (view s1)"
    using c1 by (auto simp: keeps_tenants_def split: sum.splits)
  define hr where "hr = (if auth \<and> password \<noteq> [] then HashSecret B (qe_password_salt env) password else Inr [])"
  show "ok s' \<and> keeps_tenants (view s) (view s')"
  proof (cases "\<exists>slug hash. x = Inr slug \<and> hr = Inr hash")
    case False
    then show ?thesis using run o1 k1 unfolding quick_create_def Let_def
      by (cases x; cases hr) (auto simp: e_def [symmetric] c hr_def [symmetric])
  next
    case True
    then obtain slug hash where x: "x = Inr slug" and h: "hr = Inr hash" by blast
    then have new: "slug \<notin> dom (rg_tenants (view s))" using c1 by auto
    define svc0 where "svc0 = \<lparr>Name = ''mcp'', AgentKeyHash = [], AuthMode = (if auth then ''oauth'' else ''open''),
                  PasswordHash = hash, SvcCreatedAt = 0\<rparr>"
    obtain y s2 where cs: "CreateService api B (qe_key_salt env) (qe_key_rnd env) (qe_service_now env) slug svc0 s1 = (y, s2)"
      by fastforce
    note sspec = implementsD [OF create_service [OF hash_total [OF B rnd]] o1 cs]
    have "view s2 = snd (spec_create_service (agent_key (qe_key_rnd env)) (hash_of B (qe_key_salt env) (agent_key (qe_key_rnd env)))
        (qe_service_now env) slug svc0 (view s1))" using sspec(2) by (metis snd_conv)
    then have v2: "rg_tenants (view s2) = rg_tenants (view s1)"
      "t \<noteq> slug \<Longrightarrow> rg_services (view s2) (t, n) = rg_services (view s1) (t, n)" for t n
      by (simp_all add: spec_create_service_def)
    have "t \<noteq> slug" if "t \<in> dom (rg_tenants (view s))" for t using that new by blast
    with v2 have "keeps_tenants (view s) (view s2)" using k1 by (simp add: keeps_tenants_def)
    moreover have "ok s3 \<and> keeps_tenants (view s2) (view s3)" if "CreateSigningKey api slug pem now s2 = (z, s3)" for pem now z s3
      using moves_intros(7) [OF that] sspec(1) by (simp add: moves_on_def)
    ultimately show ?thesis
      using run [unfolded quick_create_def Let_def, folded e_def, unfolded c x sum.case prod.case,
      folded hr_def, unfolded h sum.case, folded svc0_def, unfolded cs prod.case] sspec(1)
      by (auto split: sum.splits if_splits option.splits prod.splits intro: keeps_trans)
  qed
qed

lemma moves_quick:
  assumes "bcrypt_ok B" and "length (qe_key_rnd env) = 24" and "handleQuick api B env r s = (resp, s')"
  shows "moves_on ok view s s'"
proof -
  obtain x s1 where a: "quick_admit api env r s = (x, s1)" by fastforce
  have "moves_on ok view s s1" unfolding moves_on_def using admit_spec [OF _ a] by (auto intro: keeps_same)
  with assms(3) a show ?thesis
    by (cases x) (auto simp: handleQuick_def split: prod.splits intro: moves_trans moves_create [OF assms(1,2)])
qed

lemma delete_step:
  assumes "ok s" and "handleDelete api B t r s = (resp, s')"
  shows "ok s' \<and> view s' = (if carries_key B t r (view s) then drop_tenants {t} (view s) else view s)"
proof -
  have "carries_key B t r (view s) \<longleftrightarrow> header r ''X-Service-Name'' \<noteq> [] \<and> bearer_key r \<noteq> []
      \<and> (\<exists>svc. rg_services (view s) (t, header r ''X-Service-Name'') = Some svc \<and> CheckSecret B (AgentKeyHash svc) (bearer_key r))"
    by (auto simp: carries_key_def split: option.split)
  with handleDelete_spec [OF assms] show ?thesis by (auto simp: Let_def split: if_splits)
qed

lemma tenant_step_moves:
  assumes "ok s" and "moves_on ok view s s'" and "\<And>t. \<not> takes_down B t e (view s)"
  shows "tenant_step ok view B e s s'"
  using assms by (simp add: tenant_step_def moves_on_def keeps_tenants_def)

lemma control_plane_step:
  assumes ok: "ok s" and B: "bcrypt_ok B" and v: "length (qe_key_rnd (vs_quick v)) = 24"
    and route: "server_route (rq_method r) (rq_path r) = C_control_plane"
    and run: "control_plane api B v r s = (resp, s')"
  shows "tenant_step ok view B (Visit v r) s s'"
proof (cases "cp_route (rq_method r) (rq_path r)")
  case (Cp_delete t)
  with run have "handleDelete api B t r s = (resp, s')" by (simp add: control_plane_def)
  note d = delete_step [OF ok this]
  have "takes_down B x (Visit v r) (view s) \<longleftrightarrow> x = t \<and> carries_key B t r (view s)" for x
    using Cp_delete route by (auto simp: takes_down_def)
  with d drop_tenants_gone [of t "{t}" "view s"] show ?thesis by (auto simp: tenant_step_def drop_tenants_def)
next
  case Cp_quick
  with run moves_quick [OF B v] have "moves_on ok view s s'" by (simp add: control_plane_def)
  with ok Cp_quick show ?thesis by (intro tenant_step_moves) (simp_all add: takes_down_def)
qed (use ok run in \<open>intro tenant_step_moves; auto simp: control_plane_def takes_down_def\<close>)+

lemma handle_step:
  assumes ok: "ok (dm_store d)" and B: "bcrypt_ok B" and v: "length (qe_key_rnd (vs_quick v)) = 24"
    and run: "daemon_handle api B C v r d = (reply, d')"
  shows "tenant_step ok view B (Visit v r) (dm_store d) (dm_store d')"
proof (cases "server_route (rq_method r) (rq_path r) = C_control_plane")
  case True
  obtain resp s' where c: "control_plane api B v r (dm_store d) = (resp, s')" by fastforce
  from control_plane_step [OF ok B v True c] run True c show ?thesis by (auto simp: daemon_handle_def)
next
  case False
  have "moves_on ok view (dm_store d) (dm_store d')"
  proof (cases "server_route (rq_method r) (rq_path r)")
    case C_gateway
    obtain x s' where g: "gateway_admit api B r (dm_store d) = (x, s')" by fastforce
    with gateway_admit_spec [OF ok g] run C_gateway have "dm_store d' = s'" "ok s'" "view s' = view (dm_store d)"
      by (auto simp: daemon_handle_def gateway_connect_def split: sum.splits option.splits if_splits)
    then show ?thesis by (simp add: moves_on_def)
  next
    case C_proxy
    with run show ?thesis by (auto simp: daemon_handle_def split: prod.splits dest: moves_proxy)
  next
    case C_well_known
    with run show ?thesis by (auto simp: daemon_handle_def split: prod.splits dest: moves_well_known)
  next
    case C_oauth
    with run show ?thesis by (auto simp: daemon_handle_def split: prod.splits dest: moves_resolver_handle)
  qed (use False run in \<open>auto simp: daemon_handle_def\<close>)
  moreover have "\<not> takes_down B t (Visit v r) (view (dm_store d))" for t using False by (simp add: takes_down_def)
  ultimately show ?thesis using ok by (intro tenant_step_moves)
qed

lemma takes_down_cloudflare: "takes_down B t (Visit v (CloudflareClientIP r)) = takes_down B t (Visit v r)"
  by (simp add: takes_down_def carries_key_def fun_eq_iff cong: option.case_cong)

lemma step_tenants:
  assumes ok: "ok (dm_store d)" and B: "bcrypt_ok B" and e: "drawn_ok e" and run: "daemon_step api B C c e d = Some d'"
  shows "tenant_step ok view B e (dm_store d) (dm_store d')"
proof (cases e)
  case (Visit v r)
  define r' where "r' = (if dc_cloudflare c then CloudflareClientIP r else r)"
  obtain reply where "daemon_handle api B C v r' d = (reply, d')"
    using run Visit by (cases "daemon_handle api B C v r' d") (auto simp: daemon_serve_def r'_def)
  from handle_step [OF ok B _ this] e Visit have "tenant_step ok view B (Visit v r') (dm_store d) (dm_store d')" by (simp add: drawn_ok_def)
  then show ?thesis using Visit takes_down_cloudflare by (auto simp: tenant_step_def r'_def split: if_splits)
next
  case (Tick now)
  obtain slugs err s' where d: "DeleteExpiredTenants api now (dm_store d) = ((slugs, err), s')" by (metis prod.exhaust)
  have "t \<in> expired_tenants now (view (dm_store d)) \<longleftrightarrow> takes_down B t e (view (dm_store d))" for t
    by (auto simp: Tick takes_down_def expired_tenants_def split: option.split)
  with delete_expired [OF ok d] run Tick d show ?thesis
    by (auto simp: tenant_step_def drop_tenants_gone) (auto simp: drop_tenants_def)
qed (use ok run in \<open>intro tenant_step_moves; auto simp: takes_down_def split: option.splits prod.splits pc.splits if_splits\<close>)+

text \<open>A tenant nobody takes down is the same after any run, and the first event that takes it down removes it.\<close>

lemma takes_down_cong:
  "rg_tenants R' t = rg_tenants R t \<Longrightarrow> \<forall>n. rg_services R' (t, n) = rg_services R (t, n) \<Longrightarrow> takes_down B t e R' = takes_down B t e R"
  by (simp add: takes_down_def carries_key_def split: daemon_event.split)

lemma run_tenants:
  assumes "ok (dm_store d)" and B: "bcrypt_ok B" and "list_all drawn_ok es" and "daemon_run api B C c es d = Some d'"
    and "t \<in> dom (rg_tenants (view (dm_store d)))" and "list_all (\<lambda>e. \<not> takes_down B t e (view (dm_store d))) es"
  shows "ok (dm_store d') \<and> rg_tenants (view (dm_store d')) t = rg_tenants (view (dm_store d)) t
    \<and> (\<forall>n. rg_services (view (dm_store d')) (t, n) = rg_services (view (dm_store d)) (t, n))"
  using assms(1,3-)
proof (induction es arbitrary: d)
  case (Cons e es)
  then obtain d1 where d1: "daemon_step api B C c e d = Some d1" "daemon_run api B C c es d1 = Some d'" by (auto simp: bind_eq_Some_conv)
  from step_tenants [OF Cons.prems(1) B _ d1(1)] Cons.prems
  have s: "ok (dm_store d1)" "rg_tenants (view (dm_store d1)) t = rg_tenants (view (dm_store d)) t"
    "\<forall>n. rg_services (view (dm_store d1)) (t, n) = rg_services (view (dm_store d)) (t, n)" by (auto simp: tenant_step_def)
  from Cons.IH [OF s(1) _ d1(2)] Cons.prems s(2,3) takes_down_cong [OF s(2,3)] show ?case by (simp add: domIff)
qed simp

lemma run_ok:
  "ok (dm_store d) \<Longrightarrow> bcrypt_ok B \<Longrightarrow> list_all drawn_ok es \<Longrightarrow> daemon_run api B C c es d = Some d' \<Longrightarrow> ok (dm_store d')"
proof (induction es arbitrary: d)
  case (Cons e es)
  then obtain d1 where d1: "daemon_step api B C c e d = Some d1" "daemon_run api B C c es d1 = Some d'" by (auto simp: bind_eq_Some_conv)
  from step_tenants [OF Cons.prems(1,2) _ d1(1)] Cons.prems(3) have "ok (dm_store d1)" by (simp add: tenant_step_def)
  with Cons.IH [OF _ Cons.prems(2) _ d1(2)] Cons.prems(3) show ?case by simp
qed simp

lemma taken_down:
  assumes "ok (dm_store d)" and "bcrypt_ok B" and "drawn_ok e" and "daemon_step api B C c e d = Some d'"
    and "t \<in> dom (rg_tenants (view (dm_store d)))" and "takes_down B t e (view (dm_store d))"
  shows "gone t (view (dm_store d'))"
  using step_tenants [OF assms(1-4)] assms(5,6) by (auto simp: tenant_step_def)

end

section \<open>Sessions belong to key holders\<close>

text \<open>The event that made a handler of the gateway, with the key it was admitted by.\<close>

definition connects :: "'s store_api \<Rightarrow> bcrypt \<Rightarrow> nat \<Rightarrow> string \<Rightarrow> daemon_event \<Rightarrow> ('s, 'k) daemon \<Rightarrow> bool" where
  "connects A B i key e d = (case e of
     Visit v r \<Rightarrow> vs_session v = Some i \<and> fst (gateway_admit A B r (dm_store d)) = Inr key
   | _ \<Rightarrow> False)"

lemma admit_cloudflare: "gateway_admit A B (CloudflareClientIP r) s = gateway_admit A B r s"
  by (simp add: gateway_admit_def)

lemma handle_gateway:
  assumes "daemon_handle A B C v r d = (reply, d')" and "gw_handlers (dm_gateway d') i = Some (key, p)"
  shows "(\<exists>p. gw_handlers (dm_gateway d) i = Some (key, p)) \<or> vs_session v = Some i \<and> fst (gateway_admit A B r (dm_store d)) = Inr key"
proof (cases "server_route (rq_method r) (rq_path r) = C_gateway")
  case True
  with assms show ?thesis
    by (auto simp: daemon_handle_def gateway_connect_def gw_swap_def split: prod.splits sum.splits option.splits if_splits)
next
  case False
  with assms(1) have "dm_gateway d' = dm_gateway d" by (auto simp: daemon_handle_def split: component.splits prod.splits)
  with assms(2) show ?thesis by auto
qed

lemma step_handlers:
  assumes "daemon_step A B C c e d = Some d'" and "gw_handlers (dm_gateway d') i = Some (key, p)"
  shows "(\<exists>p. gw_handlers (dm_gateway d) i = Some (key, p)) \<or> connects A B i key e d"
proof (cases e)
  case (Visit v r)
  define r' where "r' = (if dc_cloudflare c then CloudflareClientIP r else r)"
  obtain reply where "daemon_handle A B C v r' d = (reply, d')"
    using assms(1) Visit by (cases "daemon_handle A B C v r' d") (auto simp: daemon_serve_def r'_def)
  from handle_gateway [OF this assms(2)] Visit show ?thesis by (auto simp: connects_def r'_def admit_cloudflare split: if_splits)
qed (use assms in \<open>auto simp: gw_close_old_def gw_die_def gw_return_def gw_unregister_def Let_def split: option.splits prod.splits pc.splits if_splits\<close>)

lemma reach_accept: "gw_reachable g \<Longrightarrow> \<forall>x y. gw_handlers g i \<noteq> Some (x, y) \<Longrightarrow> gw_reachable (gw_swap key i g)"
  by (cases "gw_handlers g i") (auto intro: gw_reachable.step gw_step.accept)

lemmas reach_intros = reach_accept gw_reachable.step [OF _ gw_step.close_old]
  gw_reachable.step [OF _ gw_step.die] gw_reachable.step [OF _ gw_step.return]

lemma handle_reachable:
  assumes "daemon_handle A B C v r d = (reply, d')" and "gw_reachable (dm_gateway d)"
  shows "gw_reachable (dm_gateway d')"
proof (cases "server_route (rq_method r) (rq_path r) = C_gateway")
  case True
  with assms show ?thesis
    by (auto simp: daemon_handle_def gateway_connect_def split: prod.splits sum.splits option.splits if_splits intro!: reach_intros(1))
next
  case False
  with assms(1) have "dm_gateway d' = dm_gateway d" by (auto simp: daemon_handle_def split: component.splits prod.splits)
  with assms(2) show ?thesis by simp
qed

lemma step_reachable:
  assumes "daemon_step A B C c e d = Some d'" and "gw_reachable (dm_gateway d)"
  shows "gw_reachable (dm_gateway d')"
proof (cases e)
  case (Visit v r)
  then obtain reply where "daemon_handle A B C v (if dc_cloudflare c then CloudflareClientIP r else r) d = (reply, d')"
    using assms(1) by (metis daemon_serve_def daemon_step.simps(1) option.inject prod.collapse)
  then show ?thesis using handle_reachable assms(2) by blast
next
  case (Close_old i)
  with assms show ?thesis by (auto split: option.splits prod.splits pc.splits intro: reach_intros(2))
next
  case (Die i)
  with assms show ?thesis by (auto intro: reach_intros(3))
next
  case (Return i)
  with assms show ?thesis by (auto split: option.splits prod.splits pc.splits if_splits intro: reach_intros(4))
qed (use assms in auto)

lemma run_handlers:
  assumes "daemon_run A B C c es d = Some d'" and "gw_handlers (dm_gateway d) = Map.empty" and "gw_handlers (dm_gateway d') i = Some (key, p)"
  shows "\<exists>es1 e es2 d1. es = es1 @ e # es2 \<and> daemon_run A B C c es1 d = Some d1 \<and> connects A B i key e d1"
  using assms(1,3)
proof (induction es arbitrary: d' p rule: rev_induct)
  case Nil
  with assms(2) show ?case by simp
next
  case (snoc e es)
  then obtain d1 where d1: "daemon_run A B C c es d = Some d1" "daemon_step A B C c e d1 = Some d'"
    by (auto simp: daemon_run_append bind_eq_Some_conv)
  from step_handlers [OF d1(2) snoc.prems(2)] show ?case
  proof
    assume "\<exists>p. gw_handlers (dm_gateway d1) i = Some (key, p)"
    with snoc.IH [OF d1(1)] obtain es1 e' es2 d2 where
      "es = es1 @ e' # es2" "daemon_run A B C c es1 d = Some d2" "connects A B i key e' d2" by blast
    then show ?thesis by (intro exI [of _ es1] exI [of _ e'] exI [of _ "es2 @ [e]"] exI [of _ d2]) simp
  next
    assume "connects A B i key e d1"
    with d1(1) show ?thesis by (intro exI [of _ es] exI [of _ e] exI [of _ "[]"] exI [of _ d1]) simp
  qed
qed

lemma run_reachable: "daemon_run A B C c es d = Some d' \<Longrightarrow> gw_reachable (dm_gateway d) \<Longrightarrow> gw_reachable (dm_gateway d')"
proof (induction es arbitrary: d)
  case (Cons e es)
  then obtain d1 where "daemon_step A B C c e d = Some d1" "daemon_run A B C c es d1 = Some d'" by (auto simp: bind_eq_Some_conv)
  with Cons step_reachable show ?case by blast
qed simp

lemma new_sel [simp]: "dm_gateway (daemon_new base reg tok s) = gw_new" "dm_store (daemon_new base reg tok s) = s"
  by (simp_all add: daemon_new_def dm_store_def)

context store_contract
begin

text \<open>
  Whoever serves a tunnel's requests showed its key: the session \<open>Dial\<close> finds was registered by an
  event that presented the agent key of a service whose session key is the same.
\<close>

lemma dialled_session:
  assumes "ok s" and B: "bcrypt_ok B" and "list_all drawn_ok es" and run: "daemon_run api B C c es (daemon_new base reg tok s) = Some d"
    and dial: "gw_Dial t n (dm_gateway d) = Some i"
  shows "\<exists>es1 v r es2 d1 svc. es = es1 @ Visit v r # es2 \<and> daemon_run api B C c es1 (daemon_new base reg tok s) = Some d1
    \<and> vs_session v = Some i \<and> sessionKey (header r HeaderTenant) (header r HeaderServiceName) = sessionKey t n
    \<and> rg_services (view (dm_store d1)) (header r HeaderTenant, header r HeaderServiceName) = Some svc
    \<and> bearer_key r \<noteq> [] \<and> CheckSecret B (AgentKeyHash svc) (bearer_key r)"
proof -
  from dial have g: "gw_sessions (dm_gateway d) (sessionKey t n) = Some i" by (auto simp: gw_Dial_def split: option.splits if_splits)
  have "gw_reachable (dm_gateway d)" using run_reachable [OF run] gw_reachable.start by simp
  then have "gw_inv (dm_gateway d)" by (rule gw_inv_reachable)
  with g obtain p where "gw_handlers (dm_gateway d) i = Some (sessionKey t n, p)" by (auto simp: gw_inv_def gw_owned_def)
  from run_handlers [OF run _ this] obtain es1 e es2 d1 where e: "es = es1 @ e # es2"
    "daemon_run api B C c es1 (daemon_new base reg tok s) = Some d1" "connects api B i (sessionKey t n) e d1"
    by (auto simp: gw_new_def)
  then obtain v r where v: "e = Visit v r" "vs_session v = Some i" "fst (gateway_admit api B r (dm_store d1)) = Inr (sessionKey t n)"
    by (auto simp: connects_def split: daemon_event.splits)
  have "ok (dm_store d1)" using run_ok [OF _ B _ e(2)] assms(1,3) e(1) by simp
  moreover obtain s1 where "gateway_admit api B r (dm_store d1) = (Inr (sessionKey t n), s1)" using v(3) by (metis prod.collapse)
  ultimately obtain svc where
    "sessionKey t n = sessionKey (header r HeaderTenant) (header r HeaderServiceName)" "bearer_key r \<noteq> []"
    "rg_services (view (dm_store d1)) (header r HeaderTenant, header r HeaderServiceName) = Some svc"
    "CheckSecret B (AgentKeyHash svc) (bearer_key r)" using gateway_admit_spec by (fastforce simp: Let_def)
  with e(1,2) v(1,2) show ?thesis
    by (intro exI [of _ es1] exI [of _ v] exI [of _ r] exI [of _ es2] exI [of _ d1] exI [of _ svc]) simp
qed

end

section \<open>The command\<close>

text \<open>
  \<open>main\<close> of \<open>cmd/tunneld\<close>. Flags, configuration and store come first; the kill switch ends the command
  without serving. What it listens on is data: an address, with the certificates ACME keeps for the
  host of the base URL, with a certificate and key file, or plain. The listener ends with an error,
  or a signal stops the server (whether the graceful shutdown fails makes no difference to the exit).
\<close>

datatype listener = Plain_http string | Manual_tls string string string | Acme_tls string string string string

definition listener_of :: "daemon_config \<Rightarrow> listener option" where
  "listener_of c =
     (if dc_tls c = ''acme''
      then map_option (\<lambda>host. Acme_tls (dc_listen c) host (dc_cache c) (dc_email c)) (publicHost (dc_base c))
      else Some (if dc_tls c = ''manual'' then Manual_tls (dc_listen c) (dc_cert c) (dc_key c) else Plain_http (dc_listen c)))"

datatype serve_stop = Listen_error string | Server_closed | Signalled

record 's daemon_world =
  dw_decode :: "string \<Rightarrow> daemon_config \<Rightarrow> string + daemon_config"
  dw_getenv :: "string \<Rightarrow> string"
  dw_open :: "backend \<Rightarrow> string + 's store_api \<times> 's"
  dw_limits :: "ip_rate \<times> ip_rate"
  dw_stop :: "listener \<Rightarrow> serve_stop"

datatype ('s, 'k) daemon_end = Bad_flags flag_error | Config_failed config_error | Store_failed string
  | Kill_switch kill_end 's | Bad_base_url | Served listener serve_stop "('s, 'k) daemon"

definition tunneld_flags :: flag_set where
  "tunneld_flags = [(''config'', String_flag), (''kill-tenant'', String_flag)]"

text \<open>\<open>None\<close> when the events are no run: \<open>es\<close> is what happens until the listener ends.\<close>

definition tunneld_main ::
  "'s daemon_world \<Rightarrow> bcrypt \<Rightarrow> ('k, 'p) crypto \<Rightarrow> string list \<Rightarrow> daemon_event list \<Rightarrow> ('s, 'k) daemon_end option" where
  "tunneld_main W B C args es =
     (case flag_parse tunneld_flags args of
        Inl e \<Rightarrow> Some (Bad_flags e)
      | Inr (kvs, rest) \<Rightarrow>
     (case LoadDaemon (dw_decode W (flag_value ''config'' ''./tunneld.yaml'' kvs)) (dw_getenv W ''DATABASE_PATH'') of
        Inl e \<Rightarrow> Some (Config_failed e)
      | Inr c \<Rightarrow>
     (case openStore (dw_getenv W) c of
        Inl e \<Rightarrow> Some (Store_failed e)
      | Inr b \<Rightarrow>
     (case dw_open W b of
        Inl e \<Rightarrow> Some (Store_failed e)
      | Inr (A, s) \<Rightarrow>
          (let kill = flag_value ''kill-tenant'' [] kvs in
           if kill \<noteq> [] then (case kill_tenant A kill s of (e, s) \<Rightarrow> Some (Kill_switch e s))
           else (case listener_of c of
               None \<Rightarrow> Some Bad_base_url
             | Some l \<Rightarrow>
                 (case dw_limits W of (reg, tok) \<Rightarrow>
                  map_option (Served l (dw_stop W l)) (daemon_run A B C c es (daemon_new (dc_base c) reg tok s)))))))))"

text \<open>The exit status; \<open>flag\<close> exits with 2, or with 0 when help was asked for.\<close>

fun tunneld_exit :: "('s, 'k) daemon_end \<Rightarrow> nat" where
  "tunneld_exit (Bad_flags e) = (if e = Help then 0 else 2)"
| "tunneld_exit (Kill_switch k s) = (if k = Killed then 0 else 1)"
| "tunneld_exit (Served l r d) = (case r of Listen_error e \<Rightarrow> 1 | _ \<Rightarrow> 0)"
| "tunneld_exit _ = 1"

text \<open>Whatever is served, TLS has what it needs; and only a daemon without the kill switch serves.\<close>

lemma tunneld_serves:
  assumes "tunneld_main W B C args es = Some (Served l r d)"
  shows "\<exists>kvs rest c b A s reg tok. flag_parse tunneld_flags args = Inr (kvs, rest) \<and> flag_value ''kill-tenant'' [] kvs = []
    \<and> config_ok c \<and> openStore (dw_getenv W) c = Inr b \<and> dw_open W b = Inr (A, s) \<and> listener_of c = Some l
    \<and> dw_limits W = (reg, tok) \<and> daemon_run A B C c es (daemon_new (dc_base c) reg tok s) = Some d
    \<and> (case l of Plain_http a \<Rightarrow> dc_tls c = ''disabled'' | Manual_tls a cert key \<Rightarrow> cert \<noteq> [] \<and> key \<noteq> []
        | Acme_tls a host cache email \<Rightarrow> host \<noteq> [] \<and> cache \<noteq> [])"
proof -
  from assms obtain kvs rest c b A s reg tok where
    p: "flag_parse tunneld_flags args = Inr (kvs, rest)" "flag_value ''kill-tenant'' [] kvs = []"
      "openStore (dw_getenv W) c = Inr b" "dw_open W b = Inr (A, s)" "listener_of c = Some l" "dw_limits W = (reg, tok)"
      "daemon_run A B C c es (daemon_new (dc_base c) reg tok s) = Some d"
    and c: "LoadDaemon (dw_decode W (flag_value ''config'' ''./tunneld.yaml'' kvs)) (dw_getenv W ''DATABASE_PATH'') = Inr c"
    by (auto simp: tunneld_main_def Let_def split: sum.splits prod.splits option.splits if_splits)
  note ok = LoadDaemon_ok [OF c]
  have "case l of Plain_http a \<Rightarrow> dc_tls c = ''disabled'' | Manual_tls a cert key \<Rightarrow> cert \<noteq> [] \<and> key \<noteq> []
        | Acme_tls a host cache email \<Rightarrow> host \<noteq> [] \<and> cache \<noteq> []"
    using p(5) ok by (auto simp: listener_of_def config_ok_def publicHost_def split: if_splits option.splits)
  with p ok show ?thesis by blast
qed

context store_contract
begin

text \<open>The kill switch exits with 0 exactly when the tenant existed, and then nothing of it is left.\<close>

lemma kill_switch:
  assumes "flag_parse tunneld_flags args = Inr (kvs, rest)" and "flag_value ''kill-tenant'' [] kvs = t" and "t \<noteq> []"
    and "LoadDaemon (dw_decode W (flag_value ''config'' ''./tunneld.yaml'' kvs)) (dw_getenv W ''DATABASE_PATH'') = Inr c"
    and "openStore (dw_getenv W) c = Inr b" and "dw_open W b = Inr (api, s)" and "ok s"
  shows "\<exists>k s'. tunneld_main W B C args es = Some (Kill_switch k s') \<and> ok s' \<and> gone t (view s')
    \<and> (tunneld_exit (Kill_switch k s' :: ('s, 'k) daemon_end) = 0 \<longleftrightarrow> t \<in> dom (rg_tenants (view s)))"
proof -
  obtain k s' where k: "kill_tenant api t s = (k, s')" by fastforce
  have "tunneld_main W B C args es = Some (Kill_switch k s')"
    using assms k by (simp add: tunneld_main_def Let_def)
  with kill_tenant_gone [OF assms(7) k] show ?thesis by auto
qed

end

end
