(* ===== verification/Programs.thy ===== *)
theory Programs
  imports Prelude
begin

text \<open>
  Programs that run against shared state: a program is done, or makes a call and goes on with its
  answer. \<open>exec\<close> runs one program alone; a pool holds the programs of concurrent requests, and a
  schedule says which of them makes its next call. A call may block. The lemmas take a run of a pool
  apart: a trace of every program, and one history of all calls on the shared state.
\<close>

section \<open>One program\<close>

datatype ('x, 'y, 'a) prog = Ret 'a | Call 'x "'y \<Rightarrow> ('x, 'y, 'a) prog"

primrec prog_bind :: "('x, 'y, 'a) prog \<Rightarrow> ('a \<Rightarrow> ('x, 'y, 'b) prog) \<Rightarrow> ('x, 'y, 'b) prog" where
  "prog_bind (Ret a) g = g a"
| "prog_bind (Call x k) g = Call x (\<lambda>y. prog_bind (k y) g)"

text \<open>What a call does to the shared state; \<open>None\<close> when it has to wait.\<close>

type_synonym ('x, 'y, 'd) world = "'x \<Rightarrow> 'd \<Rightarrow> ('y \<times> 'd) option"

primrec exec :: "('x, 'y, 'd) world \<Rightarrow> ('x, 'y, 'a) prog \<Rightarrow> 'd \<Rightarrow> ('a \<times> 'd) option" where
  "exec f (Ret a) d = Some (a, d)"
| "exec f (Call x k) d = (case f x d of None \<Rightarrow> None | Some (y, d) \<Rightarrow> exec f (k y) d)"

lemma exec_bind:
  "exec f (prog_bind p g) d = (case exec f p d of None \<Rightarrow> None | Some (a, d) \<Rightarrow> exec f (g a) d)"
  by (induction p arbitrary: d) (auto split: option.splits)

lemma exec_bindI: "exec f p d = Some (a, d') \<Longrightarrow> exec f (prog_bind p g) d = exec f (g a) d'"
  by (simp add: exec_bind)

text \<open>What is left of a program after a trace of calls and answers.\<close>

fun after :: "('x, 'y, 'a) prog \<Rightarrow> ('x \<times> 'y) list \<Rightarrow> ('x, 'y, 'a) prog option" where
  "after p [] = Some p"
| "after (Call x k) ((x', y) # tr) = (if x' = x then after (k y) tr else None)"
| "after (Ret a) ((x', y) # tr) = None"

lemma after_append: "after p (tr @ tr') = Option.bind (after p tr) (\<lambda>q. after q tr')"
  by (induction p tr rule: after.induct) simp_all

lemma after_Ret [simp]: "after (Ret a) tr = Some q \<longleftrightarrow> tr = [] \<and> q = Ret a"
  by (cases tr) auto

lemma after_Call: "after (Call x k) tr = Some q \<longleftrightarrow>
    tr = [] \<and> q = Call x k \<or> (\<exists>y tr'. tr = (x, y) # tr' \<and> after (k y) tr' = Some q)"
  by (cases tr) (auto split: if_splits)

lemma after_CallE:
  assumes "after (Call x k) tr = Some (Ret a)"
  obtains y tr' where "tr = (x, y) # tr'" and "after (k y) tr' = Some (Ret a)"
  using assms by (auto simp: after_Call)

text \<open>A trace of \<open>prog_bind p g\<close> stays within \<open>p\<close>, or finishes it and goes on with \<open>g\<close>.\<close>

lemma after_bind:
  assumes "after (prog_bind p g) tr = Some q"
  shows "(\<exists>p'. after p tr = Some p' \<and> q = prog_bind p' g) \<or>
    (\<exists>tr1 tr2 a. tr = tr1 @ tr2 \<and> after p tr1 = Some (Ret a) \<and> after (g a) tr2 = Some q)"
  using assms
proof (induction p arbitrary: tr)
  case (Ret a)
  then show ?case by (intro disjI2 exI [of _ "[]"] exI [of _ tr]) simp
next
  case (Call x k)
  show ?case
  proof (cases tr)
    case Nil
    with Call.prems show ?thesis by (intro disjI1 exI [of _ "Call x k"]) simp
  next
    case (Cons xy tr')
    then obtain y where tr: "tr = (x, y) # tr'" and k: "after (prog_bind (k y) g) tr' = Some q"
      using Call.prems by (cases xy) (auto split: if_splits)
    from Call.IH [OF rangeI k] show ?thesis
    proof (elim disjE exE conjE)
      fix p' assume "after (k y) tr' = Some p'" "q = prog_bind p' g"
      then show ?thesis by (intro disjI1 exI [of _ p']) (simp add: tr)
    next
      fix tr1 tr2 a
      assume "tr' = tr1 @ tr2" "after (k y) tr1 = Some (Ret a)" "after (g a) tr2 = Some q"
      then show ?thesis
        by (intro disjI2 exI [of _ "(x, y) # tr1"] exI [of _ tr2] exI [of _ a]) (simp add: tr)
    qed
  qed
qed

lemma bind_RetE:
  assumes "after (prog_bind p g) tr = Some (Ret b)"
  obtains tr1 tr2 a where "tr = tr1 @ tr2" "after p tr1 = Some (Ret a)" "after (g a) tr2 = Some (Ret b)"
  using after_bind [OF assms]
proof (elim disjE exE conjE)
  fix p' assume p: "after p tr = Some p'" and q: "Ret b = prog_bind p' g"
  then obtain a where "p' = Ret a" "g a = Ret b" by (cases p') auto
  with p that [of tr "[]" a] show thesis by simp
qed (use that in blast)

section \<open>Calls a program may make\<close>

primrec calls_in :: "('x \<Rightarrow> bool) \<Rightarrow> ('x, 'y, 'a) prog \<Rightarrow> bool" where
  "calls_in Q (Ret a) \<longleftrightarrow> True"
| "calls_in Q (Call x k) \<longleftrightarrow> Q x \<and> (\<forall>y. calls_in Q (k y))"

lemma calls_in_bind [intro]: "calls_in Q p \<Longrightarrow> (\<And>a. calls_in Q (g a)) \<Longrightarrow> calls_in Q (prog_bind p g)"
  by (induction p) simp_all

lemma calls_in_mono: "calls_in Q p \<Longrightarrow> (\<And>x. Q x \<Longrightarrow> Q' x) \<Longrightarrow> calls_in Q' p"
  by (induction p) simp_all

lemma calls_in_after:
  "after p tr = Some q \<Longrightarrow> calls_in Q p \<Longrightarrow> list_all (\<lambda>xy. Q (fst xy)) tr \<and> calls_in Q q"
  by (induction p tr rule: after.induct) (auto split: if_splits)

section \<open>Histories of calls\<close>

text \<open>The calls and answers of a history, one after the other on the shared state.\<close>

fun replay :: "('x, 'y, 'd) world \<Rightarrow> ('x \<times> 'y) list \<Rightarrow> 'd \<Rightarrow> 'd option" where
  "replay f [] d = Some d"
| "replay f ((x, y) # tr) d =
     (case f x d of None \<Rightarrow> None | Some (y', d') \<Rightarrow> if y' = y then replay f tr d' else None)"

lemma replay_append: "replay f (tr @ tr') d = Option.bind (replay f tr d) (replay f tr')"
  by (induction f tr d rule: replay.induct) (auto split: option.splits)

lemma replay_snocE:
  assumes "replay f (tr @ [(x, y)]) d = Some d'"
  obtains d1 where "replay f tr d = Some d1" and "f x d1 = Some (y, d')"
  using assms by (auto simp: replay_append bind_eq_Some_conv split: option.splits if_splits)

lemma replay_splitE:
  assumes "replay f (tr @ (x, y) # tr') d = Some d'"
  obtains d1 d2 where "replay f tr d = Some d1" and "f x d1 = Some (y, d2)" and "replay f tr' d2 = Some d'"
  using assms by (auto simp: replay_append bind_eq_Some_conv split: option.splits if_splits)

lemma replay_invariant:
  assumes "replay f tr d = Some d'" and "I d" and "\<And>x y d d'. I d \<Longrightarrow> f x d = Some (y, d') \<Longrightarrow> I d'"
  shows "I d'"
  using assms(1,2)
proof (induction tr arbitrary: d)
  case (Cons xy tr)
  obtain x y where xy: "xy = (x, y)" by fastforce
  with Cons.prems obtain d1 where "f x d = Some (y, d1)" "replay f tr d1 = Some d'"
    by (auto split: option.splits if_splits)
  with Cons.IH assms(3) Cons.prems(2) show ?case by blast
qed simp

lemma exec_trace:
  assumes "exec f p d = Some (a, d')"
  shows "\<exists>tr. after p tr = Some (Ret a) \<and> replay f tr d = Some d'"
  using assms
proof (induction p arbitrary: d)
  case (Ret b)
  then show ?case by (intro exI [of _ "[]"]) simp
next
  case (Call x k)
  then obtain y d1 where x: "f x d = Some (y, d1)" and k: "exec f (k y) d1 = Some (a, d')"
    by (auto split: option.splits)
  from Call.IH [OF rangeI k] obtain tr where "after (k y) tr = Some (Ret a)" "replay f tr d1 = Some d'" by auto
  with x show ?case by (intro exI [of _ "(x, y) # tr"]) simp
qed

section \<open>Pools of programs\<close>

record ('x, 'y, 'a, 'd) pool =
  pl_shared :: 'd
  pl_threads :: "('x, 'y, 'a) prog list"
  pl_log :: "(nat \<times> 'x \<times> 'y) list"

definition pool_start :: "('x, 'y, 'a) prog list \<Rightarrow> 'd \<Rightarrow> ('x, 'y, 'a, 'd) pool" where
  "pool_start ps d = \<lparr>pl_shared = d, pl_threads = ps, pl_log = []\<rparr>"

definition pool_step :: "('x, 'y, 'd) world \<Rightarrow> nat \<Rightarrow> ('x, 'y, 'a, 'd) pool \<Rightarrow> ('x, 'y, 'a, 'd) pool option" where
  "pool_step f i P =
     (if length (pl_threads P) \<le> i then None
      else (case pl_threads P ! i of
          Ret a \<Rightarrow> None
        | Call x k \<Rightarrow>
            (case f x (pl_shared P) of
               None \<Rightarrow> None
             | Some (y, d) \<Rightarrow> Some \<lparr>pl_shared = d, pl_threads = (pl_threads P)[i := k y],
                                   pl_log = pl_log P @ [(i, x, y)]\<rparr>)))"

fun pool_run :: "('x, 'y, 'd) world \<Rightarrow> nat list \<Rightarrow> ('x, 'y, 'a, 'd) pool \<Rightarrow> ('x, 'y, 'a, 'd) pool option" where
  "pool_run f [] P = Some P"
| "pool_run f (i # sched) P = Option.bind (pool_step f i P) (pool_run f sched)"

definition thread_log :: "nat \<Rightarrow> (nat \<times> 'x \<times> 'y) list \<Rightarrow> ('x \<times> 'y) list" where
  "thread_log i h = map snd (filter (\<lambda>e. fst e = i) h)"

lemma thread_log_simps [simp]:
  "thread_log i [] = []" "thread_log i (h @ h') = thread_log i h @ thread_log i h'"
  "thread_log i ((j, xy) # h) = (if j = i then xy # thread_log i h else thread_log i h)"
  by (simp_all add: thread_log_def)

lemma pool_stepE:
  assumes "pool_step f i P = Some P'"
  obtains x k y where "i < length (pl_threads P)" and "pl_threads P ! i = Call x k"
    and "f x (pl_shared P) = Some (y, pl_shared P')" and "pl_threads P' = (pl_threads P)[i := k y]"
    and "pl_log P' = pl_log P @ [(i, x, y)]"
proof -
  obtain x k where i: "i < length (pl_threads P)" and call: "pl_threads P ! i = Call x k"
    using assms by (cases "pl_threads P ! i") (auto simp: pool_step_def split: if_splits)
  then obtain y d where "f x (pl_shared P) = Some (y, d)"
    using assms by (cases "f x (pl_shared P)") (auto simp: pool_step_def)
  with assms i call that [of x k y] show thesis by (auto simp: pool_step_def)
qed

lemma pool_run_append: "pool_run f (s1 @ s2) P = Option.bind (pool_run f s1 P) (pool_run f s2)"
  by (induction s1 arbitrary: P) (auto intro!: Option.bind_cong)

text \<open>Every run is one history of calls, in which every thread sees a trace of its own program.\<close>

definition pool_ok :: "('x, 'y, 'd) world \<Rightarrow> ('x, 'y, 'a) prog list \<Rightarrow> 'd \<Rightarrow> ('x, 'y, 'a, 'd) pool \<Rightarrow> bool" where
  "pool_ok f ps d P \<longleftrightarrow> length (pl_threads P) = length ps
     \<and> (\<forall>i < length ps. after (ps ! i) (thread_log i (pl_log P)) = Some (pl_threads P ! i))
     \<and> replay f (map snd (pl_log P)) d = Some (pl_shared P)
     \<and> (\<forall>e \<in> set (pl_log P). fst e < length ps)"

lemma pool_ok_step:
  assumes ok: "pool_ok f ps d P" and step: "pool_step f i P = Some P'"
  shows "pool_ok f ps d P'"
proof -
  obtain x k y where i: "i < length (pl_threads P)" and call: "pl_threads P ! i = Call x k"
    and f: "f x (pl_shared P) = Some (y, pl_shared P')" and t: "pl_threads P' = (pl_threads P)[i := k y]"
    and l: "pl_log P' = pl_log P @ [(i, x, y)]"
    using pool_stepE [OF step] .
  have "after (ps ! j) (thread_log j (pl_log P')) = Some (pl_threads P' ! j)" if "j < length ps" for j
    using ok that i call by (cases "j = i") (auto simp: pool_ok_def l t after_append)
  moreover have "replay f (map snd (pl_log P')) d = Some (pl_shared P')"
    using ok f by (simp add: pool_ok_def l replay_append)
  ultimately show ?thesis using ok i by (auto simp: pool_ok_def t l)
qed

lemma pool_ok_run:
  "pool_ok f ps d P \<Longrightarrow> pool_run f sched P = Some P' \<Longrightarrow> pool_ok f ps d P'"
  by (induction sched arbitrary: P) (auto simp: bind_eq_Some_conv dest: pool_ok_step)

lemma pool_ok_start: "pool_ok f ps d (pool_start ps d)"
  by (simp add: pool_ok_def pool_start_def)

lemmas pool_run_ok = pool_ok_run [OF pool_ok_start]

lemma thread_trace:
  assumes "pool_run f sched (pool_start ps d) = Some P" and "i < length ps"
  shows "after (ps ! i) (thread_log i (pl_log P)) = Some (pl_threads P ! i)"
  using pool_run_ok [OF assms(1)] assms(2) by (simp add: pool_ok_def)

lemma pool_history:
  assumes "pool_run f sched (pool_start ps d) = Some P"
  shows "replay f (map snd (pl_log P)) d = Some (pl_shared P)"
  using pool_run_ok [OF assms] by (simp add: pool_ok_def)

lemma thread_log_in: "xy \<in> set (thread_log i h) \<longleftrightarrow> (i, xy) \<in> set h"
  by (force simp: thread_log_def)

text \<open>A call in the history, seen from its thread: what the thread did before comes before it.\<close>

lemma thread_log_split:
  "thread_log i h = tr1 @ xy # tr2 \<Longrightarrow>
   \<exists>h1 h2. h = h1 @ (i, xy) # h2 \<and> thread_log i h1 = tr1 \<and> thread_log i h2 = tr2"
proof (induction h arbitrary: tr1)
  case (Cons e h)
  obtain j xy' where e: "e = (j, xy')" by (cases e)
  show ?case
  proof (cases "j = i \<and> tr1 = []")
    case True
    with Cons.prems e show ?thesis by (intro exI [of _ "[]"] exI [of _ h]) simp
  next
    case False
    obtain tr1' where tr: "thread_log i h = tr1' @ xy # tr2" "tr1 = (if j = i then xy' # tr1' else tr1')"
      using Cons.prems False e by (cases tr1) (auto split: if_splits)
    with Cons.IH obtain h1 h2 where "h = h1 @ (i, xy) # h2" "thread_log i h1 = tr1'" "thread_log i h2 = tr2" by blast
    with e tr(2) show ?thesis by (intro exI [of _ "e # h1"] exI [of _ h2]) simp
  qed
qed simp

text \<open>Alone for a while: a thread runs the first part of its program as \<open>exec\<close> does.\<close>

lemma pool_run_exec:
  assumes "exec f p (pl_shared P) = Some (a, d)" and "i < length (pl_threads P)"
    and "pl_threads P ! i = prog_bind p g"
  shows "\<exists>n P'. pool_run f (replicate n i) P = Some P' \<and> pl_shared P' = d
    \<and> pl_threads P' = (pl_threads P)[i := g a]"
  using assms
proof (induction p arbitrary: P)
  case (Ret b)
  then have "(pl_threads P)[i := g a] = pl_threads P" by (auto intro: list_update_same_conv [THEN iffD2])
  with Ret show ?case by (intro exI [of _ 0] exI [of _ P]) simp
next
  case (Call x k)
  then obtain y d1 where x: "f x (pl_shared P) = Some (y, d1)" and k: "exec f (k y) d1 = Some (a, d)"
    by (auto split: option.splits)
  define P1 where "P1 = \<lparr>pl_shared = d1, pl_threads = (pl_threads P)[i := prog_bind (k y) g],
                         pl_log = pl_log P @ [(i, x, y)]\<rparr>"
  have step: "pool_step f i P = Some P1" using Call.prems x by (simp add: pool_step_def P1_def)
  from Call.IH [of "k y" P1] k Call.prems obtain n P' where "pool_run f (replicate n i) P1 = Some P'"
      "pl_shared P' = d" "pl_threads P' = (pl_threads P)[i := g a]"
    by (auto simp: P1_def)
  then show ?case using step by (intro exI [of _ "Suc n"] exI [of _ P']) simp
qed

end
