(* ===== verification/Store_Programs.thy ===== *)
theory Store_Programs
  imports Sqlite_Store Store_History Programs
begin

text \<open>
  The methods of \<open>store.API\<close> as programs, so that concurrent requests may interleave within them. A
  backend is a record of programs over its own calls; \<open>runs_as\<close> says that each method, run alone, is
  the method of a \<open>store_api\<close>. The SQLite store calls the driver once per statement: its
  programs follow \<open>internal/store/store.go\<close> statement by statement, faults included.
\<close>

section \<open>A backend of programs\<close>

record ('x, 'y) store_code =
  p_CreateTenantExpiry :: "string \<Rightarrow> string \<Rightarrow> time option \<Rightarrow> time \<Rightarrow> ('x, 'y, store_error + unit) prog"
  p_GetTenant :: "string \<Rightarrow> ('x, 'y, store_error + tenant) prog"
  p_DeleteTenant :: "string \<Rightarrow> ('x, 'y, store_error + bool) prog"
  p_DeleteExpiredTenants :: "time \<Rightarrow> ('x, 'y, string list \<times> store_error option) prog"
  p_CountLiveTenants :: "time \<Rightarrow> ('x, 'y, store_error + int) prog"
  p_QuickRateHit :: "string \<Rightarrow> time \<Rightarrow> ('x, 'y, store_error + int) prog"
  p_CreateService :: "bcrypt \<Rightarrow> string \<Rightarrow> string \<Rightarrow> time \<Rightarrow> string \<Rightarrow> service \<Rightarrow> ('x, 'y, store_error + string) prog"
  p_GetService :: "string \<Rightarrow> string \<Rightarrow> ('x, 'y, store_error + service) prog"
  p_ValidatePassword :: "bcrypt \<Rightarrow> string \<Rightarrow> string \<Rightarrow> string \<Rightarrow> ('x, 'y, store_error + bool) prog"
  p_ValidateAgentKey :: "bcrypt \<Rightarrow> string \<Rightarrow> string \<Rightarrow> string \<Rightarrow> ('x, 'y, store_error + service) prog"
  p_CreateSigningKey :: "string \<Rightarrow> string \<Rightarrow> time \<Rightarrow> ('x, 'y, store_error + unit) prog"
  p_GetSigningKey :: "string \<Rightarrow> ('x, 'y, store_error + string) prog"
  p_CreateOAuthClient :: "string \<Rightarrow> string \<Rightarrow> string \<Rightarrow> time \<Rightarrow> ('x, 'y, store_error + unit) prog"
  p_GetOAuthClient :: "string \<Rightarrow> string \<Rightarrow> ('x, 'y, store_error + string) prog"
  p_CreateAuthCode :: "string \<Rightarrow> string \<Rightarrow> string \<Rightarrow> string \<Rightarrow> string \<Rightarrow> time \<Rightarrow> ('x, 'y, store_error + unit) prog"
  p_ConsumeAuthCode :: "string \<Rightarrow> time \<Rightarrow> ('x, 'y, store_error + string \<times> string \<times> string \<times> string) prog"

locale runs_as =
  fixes f :: "('x, 'y, 's) world" and api :: "'s store_api" and P :: "('x, 'y) store_code"
  assumes run_create_tenant: "exec f (p_CreateTenantExpiry P slug name e now) s = Some (CreateTenantExpiry api slug name e now s)"
    and run_get_tenant: "exec f (p_GetTenant P slug) s = Some (GetTenant api slug s)"
    and run_delete_tenant: "exec f (p_DeleteTenant P slug) s = Some (DeleteTenant api slug s)"
    and run_delete_expired: "exec f (p_DeleteExpiredTenants P now) s = Some (DeleteExpiredTenants api now s)"
    and run_count_live: "exec f (p_CountLiveTenants P now) s = Some (CountLiveTenants api now s)"
    and run_rate_hit: "exec f (p_QuickRateHit P ip now) s = Some (QuickRateHit api ip now s)"
    and run_create_service: "exec f (p_CreateService P B salt rnd now slug svc) s = Some (CreateService api B salt rnd now slug svc s)"
    and run_get_service: "exec f (p_GetService P slug n) s = Some (GetService api slug n s)"
    and run_validate_password: "exec f (p_ValidatePassword P B slug n pw) s = Some (ValidatePassword api B slug n pw s)"
    and run_validate_agent_key: "exec f (p_ValidateAgentKey P B slug n key) s = Some (ValidateAgentKey api B slug n key s)"
    and run_create_key: "exec f (p_CreateSigningKey P slug pem now) s = Some (CreateSigningKey api slug pem now s)"
    and run_get_key: "exec f (p_GetSigningKey P slug) s = Some (GetSigningKey api slug s)"
    and run_create_client: "exec f (p_CreateOAuthClient P slug cid uris now) s = Some (CreateOAuthClient api slug cid uris now s)"
    and run_get_client: "exec f (p_GetOAuthClient P slug cid) s = Some (GetOAuthClient api slug cid s)"
    and run_create_code: "exec f (p_CreateAuthCode P h slug cid uri ch until) s = Some (CreateAuthCode api h slug cid uri ch until s)"
    and run_consume_code: "exec f (p_ConsumeAuthCode P h now) s = Some (ConsumeAuthCode api h now s)"
begin

lemmas store_runs = run_create_tenant run_get_tenant run_delete_tenant run_delete_expired run_count_live run_rate_hit
  run_create_service run_get_service run_validate_password run_validate_agent_key run_create_key run_get_key
  run_create_client run_get_client run_create_code run_consume_code

end

section \<open>Calls of the SQL driver\<close>

datatype db_call = Do_exec statement | Do_query statement

datatype db_answer = Db_failed string | Changed nat | Rows "sql_row list" "string option"

fun sql_world :: "(db_call, db_answer, conn) world" where
  "sql_world (Do_exec st) c =
     (case db_exec st c of (Inl m, c) \<Rightarrow> Some (Db_failed m, c) | (Inr n, c) \<Rightarrow> Some (Changed n, c))"
| "sql_world (Do_query st) c =
     (case db_query st c of (Inl m, c) \<Rightarrow> Some (Db_failed m, c) | (Inr (rows, e), c) \<Rightarrow> Some (Rows rows e, c))"

definition exec_prog :: "statement \<Rightarrow> (db_call, db_answer, string + nat) prog" where
  "exec_prog st = Call (Do_exec st) (\<lambda>y. Ret (case y of Changed n \<Rightarrow> Inr n | Db_failed m \<Rightarrow> Inl m | Rows rs e \<Rightarrow> Inl []))"

definition query_prog :: "statement \<Rightarrow> (db_call, db_answer, string + sql_row list \<times> string option) prog" where
  "query_prog st = Call (Do_query st) (\<lambda>y. Ret (case y of Rows rs e \<Rightarrow> Inr (rs, e) | Db_failed m \<Rightarrow> Inl m | Changed n \<Rightarrow> Inl []))"

definition scanned_row :: "string + sql_row list \<times> string option \<Rightarrow> scan_error + sql_row" where
  "scanned_row q =
     (case q of
        Inl m \<Rightarrow> Inl (Scan_error m)
      | Inr (r # rs, e) \<Rightarrow> Inr r
      | Inr ([], Some m) \<Rightarrow> Inl (Scan_error m)
      | Inr ([], None) \<Rightarrow> Inl No_rows)"

definition row_prog :: "statement \<Rightarrow> (db_call, db_answer, scan_error + sql_row) prog" where
  "row_prog st = prog_bind (query_prog st) (\<lambda>q. Ret (scanned_row q))"

lemma exec_exec_prog [simp]: "exec sql_world (exec_prog st) c = Some (db_exec st c)"
  by (simp add: exec_prog_def split: prod.split sum.split)

lemma exec_query_prog [simp]: "exec sql_world (query_prog st) c = Some (db_query st c)"
  by (simp add: query_prog_def split: prod.split sum.split)

lemma exec_row_prog [simp]: "exec sql_world (row_prog st) c = Some (query_row st c)"
  by (simp add: row_prog_def exec_bind query_row_def scanned_row_def split: prod.split sum.split list.split option.split)

section \<open>The methods of the SQLite store\<close>

text \<open>A statement without rows, and what its error means; a scanned row, likewise.\<close>

definition sp_exec :: "(string \<Rightarrow> store_error) \<Rightarrow> (nat \<Rightarrow> 'a) \<Rightarrow> statement \<Rightarrow> (db_call, db_answer, store_error + 'a) prog" where
  "sp_exec err g st = prog_bind (exec_prog st) (\<lambda>r. Ret (map_sum err g r))"

definition sp_row :: "(scan_error \<Rightarrow> store_error) \<Rightarrow> (sql_row \<Rightarrow> scan_error + 'a) \<Rightarrow> statement \<Rightarrow> (db_call, db_answer, store_error + 'a) prog" where
  "sp_row err scan st = prog_bind (row_prog st) (\<lambda>r. Ret (map_sum err id (bind_sum r scan)))"

definition prog_and_then :: "('x, 'y, 'e + 'a) prog \<Rightarrow> ('a \<Rightarrow> ('x, 'y, 'e + 'b) prog) \<Rightarrow> ('x, 'y, 'e + 'b) prog" where
  "prog_and_then p g = prog_bind p (\<lambda>r. case r of Inl e \<Rightarrow> Ret (Inl e) | Inr a \<Rightarrow> g a)"

definition sp_CreateTenantExpiry :: "string \<Rightarrow> string \<Rightarrow> time option \<Rightarrow> time \<Rightarrow> (db_call, db_answer, store_error + unit) prog" where
  "sp_CreateTenantExpiry slug displayName expiresAt now =
     sp_exec insert_error (\<lambda>_. ()) (Insert_tenant slug displayName (unix now) (map_option unix expiresAt))"

definition sp_GetTenant :: "string \<Rightarrow> (db_call, db_answer, store_error + tenant) prog" where
  "sp_GetTenant slug = sp_row scan_store_error scan_tenant (Select_tenant slug)"

definition sp_DeleteTenant :: "string \<Rightarrow> (db_call, db_answer, store_error + bool) prog" where
  "sp_DeleteTenant slug = sp_exec Driver (\<lambda>n. n = 1) (Delete_tenant slug)"

fun sp_delete_all :: "string list \<Rightarrow> (db_call, db_answer, store_error option) prog" where
  "sp_delete_all [] = Ret None"
| "sp_delete_all (s # ss) = prog_bind (sp_DeleteTenant s) (\<lambda>r. case r of Inl e \<Rightarrow> Ret (Some e) | Inr _ \<Rightarrow> sp_delete_all ss)"

definition sp_DeleteExpiredTenants :: "time \<Rightarrow> (db_call, db_answer, string list \<times> store_error option) prog" where
  "sp_DeleteExpiredTenants now =
     prog_bind (query_prog (Select_expired (unix now))) (\<lambda>q.
       case q of
         Inl m \<Rightarrow> Ret ([], Some (Driver m))
       | Inr (rows, err) \<Rightarrow>
           (case scan_slugs rows of
              Inl e \<Rightarrow> Ret ([], Some (scan_driver_error e))
            | Inr slugs \<Rightarrow>
                (case err of
                   Some m \<Rightarrow> Ret ([], Some (Driver m))
                 | None \<Rightarrow> prog_bind (sp_delete_all slugs) (\<lambda>e. Ret (slugs, e)))))"

definition sp_CountLiveTenants :: "time \<Rightarrow> (db_call, db_answer, store_error + int) prog" where
  "sp_CountLiveTenants now = sp_row scan_driver_error (\<lambda>row. scan_int (map_of row ''n'')) (Count_live (unix now))"

definition sp_QuickRateHit :: "string \<Rightarrow> time \<Rightarrow> (db_call, db_answer, store_error + int) prog" where
  "sp_QuickRateHit ip now =
     (let window = go_quot (unix now) 3600 in
      prog_and_then (sp_exec Driver id (Prune_rate (window - 2))) (\<lambda>_.
      prog_and_then (sp_exec Driver id (Upsert_rate ip window)) (\<lambda>_.
      sp_row scan_driver_error (\<lambda>row. scan_int (map_of row ''count'')) (Select_rate ip window))))"

definition sp_CreateService :: "bcrypt \<Rightarrow> string \<Rightarrow> string \<Rightarrow> time \<Rightarrow> string \<Rightarrow> service \<Rightarrow> (db_call, db_answer, store_error + string) prog" where
  "sp_CreateService B salt rnd now tenantSlug svc =
     prog_and_then (sp_GetTenant tenantSlug) (\<lambda>_.
     prog_and_then (Ret (sqlite_newAgentKey B salt rnd)) (\<lambda>(plaintext, hash).
       let svc = svc\<lparr>AgentKeyHash := hash, SvcCreatedAt := now, AuthMode := default_auth_mode (AuthMode svc)\<rparr> in
       sp_exec insert_error (\<lambda>_. plaintext) (Insert_service tenantSlug (Name svc) (AgentKeyHash svc) (AuthMode svc)
              (PasswordHash svc) (unix (SvcCreatedAt svc)))))"

definition sp_GetService :: "string \<Rightarrow> string \<Rightarrow> (db_call, db_answer, store_error + service) prog" where
  "sp_GetService tenantSlug name = sp_row scan_store_error scan_service (Select_service tenantSlug name)"

definition sp_ValidatePassword :: "bcrypt \<Rightarrow> string \<Rightarrow> string \<Rightarrow> string \<Rightarrow> (db_call, db_answer, store_error + bool) prog" where
  "sp_ValidatePassword B tenantSlug name password =
     prog_and_then (sp_GetService tenantSlug name) (\<lambda>svc.
       if PasswordHash svc = [] then Ret (Inr True)
       else Ret (Inr (CheckSecret B (PasswordHash svc) password)))"

definition sp_ValidateAgentKey :: "bcrypt \<Rightarrow> string \<Rightarrow> string \<Rightarrow> string \<Rightarrow> (db_call, db_answer, store_error + service) prog" where
  "sp_ValidateAgentKey B tenantSlug name key =
     prog_and_then (sp_GetService tenantSlug name) (\<lambda>svc.
       if key = [] \<or> \<not> CheckSecret B (AgentKeyHash svc) key then Ret (Inl ErrInvalidAgentKey)
       else Ret (Inr svc))"

definition sp_CreateSigningKey :: "string \<Rightarrow> string \<Rightarrow> time \<Rightarrow> (db_call, db_answer, store_error + unit) prog" where
  "sp_CreateSigningKey tenantSlug privateKeyPEM now =
     sp_exec Driver (\<lambda>_. ()) (Insert_key_or_ignore tenantSlug privateKeyPEM (unix now))"

definition sp_GetSigningKey :: "string \<Rightarrow> (db_call, db_answer, store_error + string) prog" where
  "sp_GetSigningKey tenantSlug =
     sp_row scan_store_error (\<lambda>row. scan_text (map_of row ''private_key_pem'')) (Select_key tenantSlug)"

definition sp_CreateOAuthClient :: "string \<Rightarrow> string \<Rightarrow> string \<Rightarrow> time \<Rightarrow> (db_call, db_answer, store_error + unit) prog" where
  "sp_CreateOAuthClient tenantSlug clientID redirectURIs now =
     sp_exec insert_error (\<lambda>_. ()) (Insert_client tenantSlug clientID redirectURIs (unix now))"

definition sp_GetOAuthClient :: "string \<Rightarrow> string \<Rightarrow> (db_call, db_answer, store_error + string) prog" where
  "sp_GetOAuthClient tenantSlug clientID =
     sp_row scan_store_error (\<lambda>row. scan_text (map_of row ''redirect_uris'')) (Select_client tenantSlug clientID)"

definition sp_CreateAuthCode :: "string \<Rightarrow> string \<Rightarrow> string \<Rightarrow> string \<Rightarrow> string \<Rightarrow> time \<Rightarrow> (db_call, db_answer, store_error + unit) prog" where
  "sp_CreateAuthCode codeHash tenantSlug clientID redirectURI codeChallenge expiresAt =
     sp_exec Driver (\<lambda>_. ()) (Insert_code codeHash tenantSlug clientID redirectURI codeChallenge (unix expiresAt))"

definition sp_ConsumeAuthCode :: "string \<Rightarrow> time \<Rightarrow> (db_call, db_answer, store_error + string \<times> string \<times> string \<times> string) prog" where
  "sp_ConsumeAuthCode codeHash now =
     prog_and_then (sp_exec Driver id (Claim_code (unix now) codeHash)) (\<lambda>n.
       if n = 0 then Ret (Inl ErrNotFound)
       else sp_row scan_driver_error scan_code (Select_code codeHash))"

definition sqlite_code :: "(db_call, db_answer) store_code" where
  "sqlite_code = \<lparr>
     p_CreateTenantExpiry = sp_CreateTenantExpiry, p_GetTenant = sp_GetTenant,
     p_DeleteTenant = sp_DeleteTenant, p_DeleteExpiredTenants = sp_DeleteExpiredTenants,
     p_CountLiveTenants = sp_CountLiveTenants, p_QuickRateHit = sp_QuickRateHit,
     p_CreateService = sp_CreateService, p_GetService = sp_GetService,
     p_ValidatePassword = sp_ValidatePassword, p_ValidateAgentKey = sp_ValidateAgentKey,
     p_CreateSigningKey = sp_CreateSigningKey, p_GetSigningKey = sp_GetSigningKey,
     p_CreateOAuthClient = sp_CreateOAuthClient, p_GetOAuthClient = sp_GetOAuthClient,
     p_CreateAuthCode = sp_CreateAuthCode, p_ConsumeAuthCode = sp_ConsumeAuthCode\<rparr>"

section \<open>Run alone, they are the methods\<close>

lemma exec_sp_exec [simp]:
  "exec sql_world (sp_exec err g st) c = Some (case db_exec st c of (r, c) \<Rightarrow> (map_sum err g r, c))"
  by (simp add: sp_exec_def exec_bind split: prod.split)

lemma exec_sp_row [simp]:
  "exec sql_world (sp_row err scan st) c = Some (case query_row st c of (r, c) \<Rightarrow> (map_sum err id (bind_sum r scan), c))"
  by (simp add: sp_row_def exec_bind split: prod.split)

lemma exec_and_then:
  "exec f p c = Some r \<Longrightarrow> exec f (prog_and_then p g) c =
    (case r of (Inl e, c) \<Rightarrow> Some (Inl e, c) | (Inr a, c) \<Rightarrow> exec f (g a) c)"
  by (simp add: prog_and_then_def exec_bind split: prod.split sum.split)

lemma exec_GetTenant [simp]: "exec sql_world (sp_GetTenant slug) c = Some (sqlite_GetTenant slug c)"
  by (simp add: sp_GetTenant_def sqlite_GetTenant_def)

lemma exec_DeleteTenant [simp]: "exec sql_world (sp_DeleteTenant slug) c = Some (sqlite_DeleteTenant slug c)"
  by (simp add: sp_DeleteTenant_def sqlite_DeleteTenant_def split: prod.split sum.split)

lemma exec_delete_all [simp]: "exec sql_world (sp_delete_all slugs) c = Some (sqlite_delete_all slugs c)"
  by (induction slugs arbitrary: c) (simp_all add: exec_bind split: prod.split sum.split)

lemma exec_GetService [simp]: "exec sql_world (sp_GetService slug n) c = Some (sqlite_GetService slug n c)"
  by (simp add: sp_GetService_def sqlite_GetService_def)

lemma exec_CreateService:
  "exec sql_world (sp_CreateService B salt rnd now slug svc) c = Some (sqlite_CreateService B salt rnd now slug svc c)"
  by (auto simp: sp_CreateService_def sqlite_CreateService_def exec_and_then and_then_def Let_def split: prod.split sum.split)

lemma exec_QuickRateHit: "exec sql_world (sp_QuickRateHit ip now) c = Some (sqlite_QuickRateHit ip now c)"
  by (auto simp: sp_QuickRateHit_def sqlite_QuickRateHit_def exec_and_then Let_def split: prod.split sum.split)

lemma exec_ConsumeAuthCode: "exec sql_world (sp_ConsumeAuthCode h now) c = Some (sqlite_ConsumeAuthCode h now c)"
  by (auto simp: sp_ConsumeAuthCode_def sqlite_ConsumeAuthCode_def exec_and_then split: prod.split sum.split)

lemma exec_DeleteExpired: "exec sql_world (sp_DeleteExpiredTenants now) c = Some (sqlite_DeleteExpiredTenants now c)"
  by (simp add: sp_DeleteExpiredTenants_def sqlite_DeleteExpiredTenants_def exec_bind split: prod.split sum.split option.split)

lemma exec_inserts:
  "exec sql_world (sp_CreateTenantExpiry slug name e now) c = Some (sqlite_CreateTenantExpiry slug name e now c)"
  "exec sql_world (sp_CreateSigningKey slug pem now) c = Some (sqlite_CreateSigningKey slug pem now c)"
  "exec sql_world (sp_CreateOAuthClient slug cid uris now) c = Some (sqlite_CreateOAuthClient slug cid uris now c)"
  "exec sql_world (sp_CreateAuthCode h slug cid uri ch x) c = Some (sqlite_CreateAuthCode h slug cid uri ch x c)"
  by (simp_all add: sp_CreateTenantExpiry_def sqlite_CreateTenantExpiry_def sp_CreateSigningKey_def sqlite_CreateSigningKey_def
      sp_CreateOAuthClient_def sqlite_CreateOAuthClient_def sp_CreateAuthCode_def sqlite_CreateAuthCode_def split: prod.split sum.split)

lemma exec_reads:
  "exec sql_world (sp_CountLiveTenants now) c = Some (sqlite_CountLiveTenants now c)"
  "exec sql_world (sp_GetSigningKey slug) c = Some (sqlite_GetSigningKey slug c)"
  "exec sql_world (sp_GetOAuthClient slug cid) c = Some (sqlite_GetOAuthClient slug cid c)"
  by (simp_all add: sp_CountLiveTenants_def sqlite_CountLiveTenants_def sp_GetSigningKey_def sqlite_GetSigningKey_def
      sp_GetOAuthClient_def sqlite_GetOAuthClient_def)

lemma exec_validates:
  "exec sql_world (sp_ValidatePassword B slug n pw) c = Some (sqlite_ValidatePassword B slug n pw c)"
  "exec sql_world (sp_ValidateAgentKey B slug n key) c = Some (sqlite_ValidateAgentKey B slug n key c)"
  by (auto simp: sp_ValidatePassword_def sqlite_ValidatePassword_def sp_ValidateAgentKey_def sqlite_ValidateAgentKey_def
      exec_and_then and_then_def split: prod.split sum.split)

interpretation sqlite_runs: runs_as sql_world sqlite_api sqlite_code
  by unfold_locales (simp_all add: sqlite_code_def sqlite_api_def exec_CreateService exec_QuickRateHit exec_ConsumeAuthCode
      exec_DeleteExpired exec_inserts exec_reads exec_validates)

end
