(* ===== verification/Handler_Programs.thy ===== *)
theory Handler_Programs
  imports Tunneld Store_Programs
begin

text \<open>
  The daemon's handlers as programs. A call is a call of the storage backend, or one of the sections
  the daemon guards by a mutex: the address counters of the OAuth servers, the resolver's map of
  servers (whose mutex is held across store calls, hence lock and unlock), the session registry.
  Run alone, a request's program is \<open>daemon_handle\<close>.
\<close>

section \<open>Calls\<close>

datatype ('x, 'k) call =
    Db 'x
  | Count_register string time
  | Count_token string time
  | Lock_servers
  | Get_server string
  | Put_server string "'k oauth_server"
  | Unlock_servers
  | Dial_session string string
  | Swap_session string nat
  | Close_displaced nat
  | Await_close nat
  | Kill_session nat

datatype ('y, 'k) answer =
    Db_answer (un_Db: 'y)
  | Allowed (un_Allowed: bool)
  | Known (un_Known: "'k oauth_server option")
  | Dialed (un_Dialed: "nat option")
  | Swapped (un_Swapped: bool)
  | Went

record ('s, 'k) shared =
  sh_daemon :: "('s, 'k) daemon"
  sh_locked :: bool

definition on_store :: "('s \<Rightarrow> 's) \<Rightarrow> ('s, 'k) shared \<Rightarrow> ('s, 'k) shared" where
  "on_store f sh = sh\<lparr>sh_daemon := with_store (f (dm_store (sh_daemon sh))) (sh_daemon sh)\<rparr>"

definition on_gateway :: "(gateway \<Rightarrow> gateway) \<Rightarrow> ('s, 'k) shared \<Rightarrow> ('s, 'k) shared" where
  "on_gateway f sh = sh\<lparr>sh_daemon := (sh_daemon sh)\<lparr>dm_gateway := f (dm_gateway (sh_daemon sh))\<rparr>\<rparr>"

text \<open>What a call does; the steps of the session registry are those of \<open>daemon_step\<close>.\<close>

fun call_world :: "('x, 'y, 's) world \<Rightarrow> (('x, 'k) call, ('y, 'k) answer, ('s, 'k) shared) world" where
  "call_world f (Db x) sh =
     (case f x (dm_store (sh_daemon sh)) of None \<Rightarrow> None | Some (y, s) \<Rightarrow> Some (Db_answer y, on_store (\<lambda>_. s) sh))"
| "call_world f (Count_register ip now) sh =
     (let d = sh_daemon sh in case allow ip registerRateLimit now (oa_register (dm_oauth d)) of
        (b, rate) \<Rightarrow> Some (Allowed b, sh\<lparr>sh_daemon := d\<lparr>dm_oauth := (dm_oauth d)\<lparr>oa_register := rate\<rparr>\<rparr>\<rparr>))"
| "call_world f (Count_token ip now) sh =
     (let d = sh_daemon sh in case allow ip tokenRateLimit now (oa_token (dm_oauth d)) of
        (b, rate) \<Rightarrow> Some (Allowed b, sh\<lparr>sh_daemon := d\<lparr>dm_oauth := (dm_oauth d)\<lparr>oa_token := rate\<rparr>\<rparr>\<rparr>))"
| "call_world f Lock_servers sh = (if sh_locked sh then None else Some (Went, sh\<lparr>sh_locked := True\<rparr>))"
| "call_world f (Get_server t) sh = Some (Known (rv_servers (dm_resolver (sh_daemon sh)) t), sh)"
| "call_world f (Put_server t srv) sh =
     (let d = sh_daemon sh in Some (Went, sh\<lparr>sh_daemon := d\<lparr>dm_resolver := (dm_resolver d)
        \<lparr>rv_servers := (rv_servers (dm_resolver d))(t \<mapsto> srv)\<rparr>\<rparr>\<rparr>))"
| "call_world f Unlock_servers sh = Some (Went, sh\<lparr>sh_locked := False\<rparr>)"
| "call_world f (Dial_session t n) sh = Some (Dialed (gw_Dial t n (dm_gateway (sh_daemon sh))), sh)"
| "call_world f (Swap_session key i) sh =
     (if gw_handlers (dm_gateway (sh_daemon sh)) i \<noteq> None then Some (Swapped False, sh)
      else Some (Swapped True, on_gateway (gw_swap key i) sh))"
| "call_world f (Close_displaced i) sh =
     (case gw_handlers (dm_gateway (sh_daemon sh)) i of
        Some (key, Closing old) \<Rightarrow> Some (Went, on_gateway (gw_close_old i) sh)
      | _ \<Rightarrow> None)"
| "call_world f (Await_close i) sh =
     (case gw_handlers (dm_gateway (sh_daemon sh)) i of
        Some (key, Serving) \<Rightarrow>
          if i \<in> gw_closed (dm_gateway (sh_daemon sh)) then Some (Went, on_gateway (gw_return key i) sh) else None
      | _ \<Rightarrow> None)"
| "call_world f (Kill_session i) sh = Some (Went, on_gateway (gw_die i) sh)"

text \<open>A store's program inside a handler's.\<close>

primrec on_db :: "('x, 'y, 'a) prog \<Rightarrow> (('x, 'k) call, ('y, 'k) answer, 'a) prog" where
  "on_db (Ret a) = Ret a"
| "on_db (Call x k) = Call (Db x) (\<lambda>y. on_db (k (un_Db y)))"

lemma on_store_simps [simp]:
  "dm_store (sh_daemon (on_store f sh)) = f (dm_store (sh_daemon sh))" "sh_locked (on_store f sh) = sh_locked sh"
  "dm_resolver (sh_daemon (on_store f sh)) = dm_resolver (sh_daemon sh)"
  "dm_gateway (sh_daemon (on_store f sh)) = dm_gateway (sh_daemon sh)"
  "on_store f (on_store g sh) = on_store (f \<circ> g) sh"
  by (simp_all add: on_store_def with_store_def)

lemma with_store_same [simp]: "with_store (dm_store d) d = d"
  by (simp add: with_store_def dm_store_def del: store_sel)

lemma on_store_same: "on_store (\<lambda>_. dm_store (sh_daemon sh)) sh = sh"
  by (simp add: on_store_def)

lemma exec_db: "exec (call_world f) (on_db p) sh =
    (case exec f p (dm_store (sh_daemon sh)) of None \<Rightarrow> None | Some (a, s) \<Rightarrow> Some (a, on_store (\<lambda>_. s) sh))"
proof (induction p arbitrary: sh)
  case (Ret a)
  show ?case by (simp add: on_store_same)
next
  case (Call x k)
  show ?case
  proof (cases "f x (dm_store (sh_daemon sh))")
    case (Some ys)
    then show ?thesis using Call.IH [OF rangeI, of "fst ys"]
      by (cases ys) (simp add: comp_def split: option.split)
  qed simp
qed

type_synonym ('x, 'y, 'k, 'a) handler = "(('x, 'k) call, ('y, 'k) answer, 'a) prog"

section \<open>The control plane\<close>

definition hp_allowQuick :: "('x, 'y) store_code \<Rightarrow> string \<Rightarrow> time \<Rightarrow> ('x, 'y, bool) prog" where
  "hp_allowQuick P remoteAddr now =
     (let ip = (case split_host_port remoteAddr of None \<Rightarrow> remoteAddr | Some (host, port) \<Rightarrow> host) in
      prog_bind (p_QuickRateHit P ip now) (\<lambda>x.
        case x of Inl e \<Rightarrow> Ret True | Inr count \<Rightarrow> Ret (count \<le> quickRateLimit)))"

definition hp_quick_admit :: "('x, 'y) store_code \<Rightarrow> quick_env \<Rightarrow> request \<Rightarrow> ('x, 'y, Http.response + bool \<times> string) prog" where
  "hp_quick_admit P env r =
     prog_bind (hp_allowQuick P (rq_remote r) (qe_rate_now env)) (\<lambda>allowed.
      if \<not> allowed then Ret (Inl (cp_writeErr 429 ''quick tunnel rate limit exceeded; try again later''))
      else prog_bind (p_CountLiveTenants P (qe_count_now env)) (\<lambda>x. case x of
        Inl e \<Rightarrow> Ret (Inl (cp_writeErr 500 ''store error''))
      | Inr live \<Rightarrow>
          if live \<ge> maxLiveTunnels then Ret (Inl (cp_writeErr 503 ''service at capacity, try again later''))
          else (case quick_params r of
              None \<Rightarrow> Ret (Inl (cp_writeErr 400 ''invalid JSON body''))
            | Some (auth, password) \<Rightarrow>
                if auth \<and> password = []
                then Ret (Inl (cp_writeErr 400 ''password is required when auth is enabled''))
                else Ret (Inr (auth, password)))))"

fun hp_create_loop ::
  "('x, 'y) store_code \<Rightarrow> time \<Rightarrow> (nat \<Rightarrow> string option \<times> time) \<Rightarrow> nat \<Rightarrow> nat \<Rightarrow> ('x, 'y, store_error + string) prog" where
  "hp_create_loop P expiresAt draws 0 i = Ret (Inl ErrExists)"
| "hp_create_loop P expiresAt draws (Suc n) i =
     (case draws i of
        (None, now) \<Rightarrow> Ret (Inl (Driver ''rand''))
      | (Some b, now) \<Rightarrow>
          prog_bind (p_CreateTenantExpiry P (quick_slug b) ''quick tunnel'' (Some expiresAt) now) (\<lambda>x. case x of
             Inl e \<Rightarrow> if e = ErrExists then hp_create_loop P expiresAt draws n (Suc i) else Ret (Inl e)
           | Inr _ \<Rightarrow> Ret (Inr (quick_slug b))))"

definition hp_quick_create ::
  "('x, 'y) store_code \<Rightarrow> bcrypt \<Rightarrow> quick_env \<Rightarrow> bool \<Rightarrow> string \<Rightarrow> ('x, 'y, Http.response) prog" where
  "hp_quick_create P B env auth password =
     (let expiresAt = qe_expiry_now env + QuickTTL in
      prog_bind (hp_create_loop P expiresAt (qe_draws env) 10 0) (\<lambda>x. case x of
        Inl e \<Rightarrow> Ret (cp_writeErr 500 ''store error'')
      | Inr slug \<Rightarrow>
      (case (if auth \<and> password \<noteq> [] then HashSecret B (qe_password_salt env) password else Inr []) of
        Inl e \<Rightarrow> Ret (cp_writeErr 500 ''hash error'')
      | Inr hash \<Rightarrow>
      (let svc = \<lparr>Name = ''mcp'', AgentKeyHash = [], AuthMode = (if auth then ''oauth'' else ''open''),
                  PasswordHash = hash, SvcCreatedAt = 0\<rparr> in
       prog_bind (p_CreateService P B (qe_key_salt env) (qe_key_rnd env) (qe_service_now env) slug svc) (\<lambda>x. case x of
        Inl e \<Rightarrow> Ret (cp_writeErr 500 ''store error'')
      | Inr agentKey \<Rightarrow>
          if \<not> auth then Ret (quick_created slug agentKey expiresAt)
          else (case qe_pem env of
              None \<Rightarrow> Ret (cp_writeErr 500 ''key generation failed'')
            | Some pem \<Rightarrow>
                prog_bind (p_CreateSigningKey P slug pem (qe_pem_now env)) (\<lambda>x. case x of
                   Inl e \<Rightarrow> Ret (cp_writeErr 500 ''store error'')
                 | Inr _ \<Rightarrow> Ret (quick_created slug agentKey expiresAt))))))))"

definition hp_handleQuick :: "('x, 'y) store_code \<Rightarrow> bcrypt \<Rightarrow> quick_env \<Rightarrow> request \<Rightarrow> ('x, 'y, Http.response) prog" where
  "hp_handleQuick P B env r =
     prog_bind (hp_quick_admit P env r) (\<lambda>x. case x of
        Inl resp \<Rightarrow> Ret resp
      | Inr (auth, password) \<Rightarrow> hp_quick_create P B env auth password)"

definition hp_handleDelete :: "('x, 'y) store_code \<Rightarrow> bcrypt \<Rightarrow> string \<Rightarrow> request \<Rightarrow> ('x, 'y, Http.response) prog" where
  "hp_handleDelete P B tenant r =
     (let service = header r ''X-Service-Name''; key = bearer_key r in
      if service = [] \<or> key = []
      then Ret (cp_writeErr 401 ''X-Service-Name and Authorization: Bearer <agent_key> are required'')
      else prog_bind (p_ValidateAgentKey P B tenant service key) (\<lambda>x. case x of
          Inl e \<Rightarrow> Ret (cp_writeErr 401 ''invalid agent key'')
        | Inr _ \<Rightarrow>
            prog_bind (p_DeleteTenant P tenant) (\<lambda>x. case x of
               Inl e \<Rightarrow> Ret (cp_writeErr 500 ''store error'')
             | Inr found \<Rightarrow> if \<not> found then Ret (cp_writeErr 404 ''tenant not found'') else Ret no_content)))"

definition hp_control_plane :: "('x, 'y) store_code \<Rightarrow> bcrypt \<Rightarrow> visit \<Rightarrow> request \<Rightarrow> ('x, 'y, Http.response) prog" where
  "hp_control_plane P B v r =
     (case cp_route (rq_method r) (rq_path r) of
        Cp_quick \<Rightarrow> hp_handleQuick P B (vs_quick v) r
      | Cp_delete t \<Rightarrow> hp_handleDelete P B t r
      | Cp_method \<Rightarrow> Ret (http_error ''Method Not Allowed'' 405)
      | Cp_none \<Rightarrow> Ret not_found)"

section \<open>The OAuth servers\<close>

definition hp_NewServer ::
  "('x, 'y) store_code \<Rightarrow> ('k, 'p) crypto \<Rightarrow> string \<Rightarrow> string \<Rightarrow> time \<Rightarrow> string option \<Rightarrow> time
    \<Rightarrow> ('x, 'y, string + 'k oauth_server) prog" where
  "hp_NewServer P C baseURL tenant expiresAt pem now =
     (let finish = (\<lambda>pemStr. case parseKey C pemStr of
          Inl e \<Rightarrow> Ret (Inl e)
        | Inr key \<Rightarrow> Ret (Inr \<lparr>os_issuer = trim_right baseURL ''/'' @ ''/t/'' @ tenant,
              os_baseURL = trim_right baseURL ''/'', os_tenant = tenant, os_key = key,
              os_expiresAt = expiresAt\<rparr>))
      in prog_bind (p_GetSigningKey P tenant) (\<lambda>x. case x of
          Inr pemStr \<Rightarrow> finish pemStr
        | Inl e \<Rightarrow>
            (case pem of
               None \<Rightarrow> Ret (Inl ''key generation failed'')
             | Some pemStr \<Rightarrow>
                 prog_bind (p_CreateSigningKey P tenant pemStr now) (\<lambda>x. case x of
                    Inl e \<Rightarrow> Ret (Inl ''create signing key'')
                  | Inr _ \<Rightarrow> finish pemStr))))"

text \<open>The deferred \<open>Unlock\<close> of \<open>server\<close> is its last call on every way out.\<close>

definition unlocked :: "'a \<Rightarrow> ('x, 'y, 'k, 'a) handler" where
  "unlocked a = Call Unlock_servers (\<lambda>_. Ret a)"

definition hp_resolver_server ::
  "('x, 'y) store_code \<Rightarrow> ('k, 'p) crypto \<Rightarrow> string \<Rightarrow> string option \<Rightarrow> time \<Rightarrow> string
    \<Rightarrow> ('x, 'y, 'k, 'k oauth_server option) handler" where
  "hp_resolver_server P C base pem now tenant =
     Call Lock_servers (\<lambda>_. Call (Get_server tenant) (\<lambda>known. case un_Known known of
        Some srv \<Rightarrow> unlocked (Some srv)
      | None \<Rightarrow>
          prog_bind (on_db (p_GetTenant P tenant)) (\<lambda>x. case x of
             Inl e \<Rightarrow> unlocked None
           | Inr tn \<Rightarrow>
               (let expiresAt = (case ExpiresAt tn of None \<Rightarrow> now + secs (24 * 3600) | Some e \<Rightarrow> e) in
                prog_bind (on_db (hp_NewServer P C base tenant expiresAt pem now)) (\<lambda>x. case x of
                  Inl e \<Rightarrow> unlocked None
                | Inr srv \<Rightarrow> Call (Put_server tenant srv) (\<lambda>_. unlocked (Some srv)))))))"

definition hp_handleRegister ::
  "('x, 'y) store_code \<Rightarrow> 'k oauth_server \<Rightarrow> register_env \<Rightarrow> request \<Rightarrow> ('x, 'y, 'k, Http.response) handler" where
  "hp_handleRegister P srv env r =
     Call (Count_register (clientIP r) (re_now_rate env)) (\<lambda>y.
      if \<not> un_Allowed y then Ret (oauth_writeErr 429 ''rate_limited'' ''too many registrations; try again later'')
      else (case register_params (rq_body r) of
          None \<Rightarrow> Ret (oauth_writeErr 400 ''invalid_client_metadata'' ''invalid JSON body'')
        | Some (uris, am, cn) \<Rightarrow>
            if am \<noteq> [] \<and> am \<noteq> ''none''
            then Ret (oauth_writeErr 400 ''invalid_client_metadata''
                    ''only public clients (token_endpoint_auth_method=none) are supported'')
            else if uris = [] then Ret (oauth_writeErr 400 ''invalid_client_metadata'' ''redirect_uris is required'')
            else if \<not> list_all validRedirectURI uris
            then Ret (oauth_writeErr 400 ''invalid_redirect_uri'' ''redirect_uri must be https or a loopback address'')
            else (let clientID = ''mcp_'' @ hex_encode (re_rnd env) in
              prog_bind (on_db (p_CreateOAuthClient P (os_tenant srv) clientID (json_enc (uris_json uris)) (re_now_store env)))
               (\<lambda>x. case x of
                  Inl e \<Rightarrow> Ret (oauth_writeErr 500 ''server_error'' ''failed to store client'')
                | Inr _ \<Rightarrow>
                    Ret (writeJSON 201 (J_obj [(''client_id'', J_str clientID), (''client_name'', J_str cn),
                      (''redirect_uris'', uris_json uris), (''token_endpoint_auth_method'', J_str ''none'')]))))))"

definition hp_hasPassword :: "('x, 'y) store_code \<Rightarrow> 'k oauth_server \<Rightarrow> ('x, 'y, bool) prog" where
  "hp_hasPassword P srv =
     prog_bind (p_GetService P (os_tenant srv) ''mcp'') (\<lambda>x. case x of
        Inl e \<Rightarrow> Ret False
      | Inr svc \<Rightarrow> Ret (PasswordHash svc \<noteq> []))"

definition hp_handleAuthorize ::
  "('x, 'y) store_code \<Rightarrow> bcrypt \<Rightarrow> ('k, 'p) crypto \<Rightarrow> 'k oauth_server \<Rightarrow> authorize_env \<Rightarrow> request \<Rightarrow> ('x, 'y, Http.response) prog" where
  "hp_handleAuthorize P B C srv env r =
     (let clientID = FormValue r ''client_id''; redirectURI = FormValue r ''redirect_uri'';
          codeChallenge = FormValue r ''code_challenge''; state = FormValue r ''state'';
          fail = authError redirectURI state
      in if FormValue r ''response_type'' \<noteq> ''code''
         then Ret (fail ''unsupported_response_type'' ''only response_type=code is supported'')
         else if codeChallenge = [] \<or> FormValue r ''code_challenge_method'' \<noteq> ''S256''
         then Ret (fail ''invalid_request'' ''PKCE S256 code_challenge is required'')
         else prog_bind (p_GetOAuthClient P (os_tenant srv) clientID) (\<lambda>x. case x of
            Inl e \<Rightarrow> Ret (fail ''invalid_client'' ''unknown client_id'')
          | Inr urisJSON \<Rightarrow>
          (case Option.bind (unmarshal urisJSON) (\<lambda>j. if j = J_null then Some [] else as_strings j) of
            None \<Rightarrow> Ret (fail ''server_error'' ''corrupt client registration'')
          | Some registeredURIs \<Rightarrow>
              if \<not> containsString registeredURIs redirectURI
              then Ret (fail ''invalid_request'' ''redirect_uri does not match registration'')
              else prog_bind (hp_hasPassword P srv) (\<lambda>protected.
                prog_bind (if protected then p_ValidatePassword P B (os_tenant srv) ''mcp'' (FormValue r ''password'')
                       else Ret (Inr True)) (\<lambda>verdict.
                 if verdict \<noteq> Inr True then Ret (renderPasswordForm r (FormValue r ''password'' \<noteq> []))
                 else (let code = hex_encode (ae_rnd env) in
                   prog_bind (p_CreateAuthCode P (sha256hex C code) (os_tenant srv) clientID redirectURI codeChallenge
                          (ae_now env + authCodeTTL)) (\<lambda>x. case x of
                     Inl e \<Rightarrow> Ret (fail ''server_error'' ''failed to create authorization code'')
                   | Inr _ \<Rightarrow>
                       Ret (case Parse redirectURI of
                          None \<Rightarrow> aborted
                        | Some u \<Rightarrow> redirect (url_string (with_query u ([(''code'', code)] @ opt_state state)))))))))))"

definition hp_handleToken ::
  "('x, 'y) store_code \<Rightarrow> ('k, 'p) crypto \<Rightarrow> 'k oauth_server \<Rightarrow> token_env \<Rightarrow> request \<Rightarrow> ('x, 'y, 'k, Http.response) handler" where
  "hp_handleToken P C srv env r =
     Call (Count_token (clientIP r) (te_now_rate env)) (\<lambda>y.
      if \<not> un_Allowed y then Ret (oauth_writeErr 429 ''rate_limited'' ''too many token requests; try again later'')
      else (case rq_post_form r of
          None \<Rightarrow> Ret (oauth_writeErr 400 ''invalid_request'' ''malformed form body'')
        | Some form \<Rightarrow>
          if first_value form ''grant_type'' \<noteq> ''authorization_code''
          then Ret (oauth_writeErr 400 ''unsupported_grant_type'' ''only authorization_code is supported'')
          else (let code = first_value form ''code''; clientID = first_value form ''client_id'';
                    redirectURI = first_value form ''redirect_uri''; codeVerifier = first_value form ''code_verifier'' in
            if code = [] \<or> clientID = [] \<or> codeVerifier = []
            then Ret (oauth_writeErr 400 ''invalid_request'' ''code, client_id, and code_verifier are required'')
            else prog_bind (on_db (p_ConsumeAuthCode P (sha256hex C code) (te_now_consume env))) (\<lambda>x. case x of
                Inl e \<Rightarrow> Ret (oauth_writeErr 400 ''invalid_grant''
                    ''authorization code is invalid, expired, or already used'')
              | Inr (storedTenant, storedClientID, storedRedirectURI, storedChallenge) \<Rightarrow>
                   if storedTenant \<noteq> os_tenant srv \<or> storedClientID \<noteq> clientID \<or> storedRedirectURI \<noteq> redirectURI
                   then Ret (oauth_writeErr 400 ''invalid_grant'' ''code does not match client or redirect_uri'')
                   else if \<not> verifyPKCE C codeVerifier storedChallenge
                   then Ret (oauth_writeErr 400 ''invalid_grant'' ''PKCE verification failed'')
                   else Ret (case signAccessToken C (os_key srv) (os_issuer srv) ''quick-tunnel'' clientID ''mcp'' []
                                (os_expiresAt srv) (te_now_iat env) (te_jti env) (te_sig_rnd env) of
                       None \<Rightarrow> oauth_writeErr 500 ''server_error'' ''failed to sign token''
                     | Some token \<Rightarrow> token_response token (go_quot (os_expiresAt srv - te_now_until env) nanos))))))"

definition hp_oauth_serve ::
  "('x, 'y) store_code \<Rightarrow> bcrypt \<Rightarrow> ('k, 'p) crypto \<Rightarrow> 'k oauth_server \<Rightarrow> oauth_env \<Rightarrow> request \<Rightarrow> string
    \<Rightarrow> ('x, 'y, 'k, Http.response) handler" where
  "hp_oauth_serve P B C srv env r path =
     prog_bind (case oauth_route (rq_method r) path of
          Ep_authorize \<Rightarrow> on_db (hp_handleAuthorize P B C srv (oe_authorize env) r)
        | Ep_token \<Rightarrow> hp_handleToken P C srv (oe_token env) r
        | Ep_register \<Rightarrow> hp_handleRegister P srv (oe_register env) r
        | Ep_jwks \<Rightarrow> Ret (writeJSON 200 (jwksHandler (oe_public_x env) (oe_public_y env)))
        | Ep_metadata \<Rightarrow> Ret (asMetadata srv)
        | Ep_method \<Rightarrow> Ret (http_error ''Method Not Allowed'' 405)
        | Ep_none \<Rightarrow> Ret not_found) (\<lambda>resp. Ret (add_headers security_headers resp))"

definition hp_resolver_handle ::
  "('x, 'y) store_code \<Rightarrow> bcrypt \<Rightarrow> ('k, 'p) crypto \<Rightarrow> string \<Rightarrow> string option \<Rightarrow> time \<Rightarrow> oauth_env \<Rightarrow> request
    \<Rightarrow> ('x, 'y, 'k, Http.response) handler" where
  "hp_resolver_handle P B C base pem now env r =
     (case resolver_path (rq_path r) of
        None \<Rightarrow> Ret not_found
      | Some (tenant, subPath) \<Rightarrow>
          prog_bind (hp_resolver_server P C base pem now tenant) (\<lambda>x. case x of
             None \<Rightarrow> Ret not_found
           | Some srv \<Rightarrow> hp_oauth_serve P B C srv env r subPath))"

definition hp_well_known_handle ::
  "('x, 'y) store_code \<Rightarrow> ('k, 'p) crypto \<Rightarrow> string \<Rightarrow> string option \<Rightarrow> time \<Rightarrow> request \<Rightarrow> ('x, 'y, 'k, Http.response) handler" where
  "hp_well_known_handle P C base pem now r =
     (case well_known_tenant (rq_path r) of
        None \<Rightarrow> Ret not_found
      | Some tenant \<Rightarrow>
          prog_bind (hp_resolver_server P C base pem now tenant) (\<lambda>x. Ret (case x of
             None \<Rightarrow> not_found
           | Some srv \<Rightarrow>
               if has_prefix (rq_path r) ''/.well-known/oauth-authorization-server'' then asMetadata srv
               else resourceMetadata srv (rq_path r))))"

section \<open>Gateway and proxy\<close>

definition hp_gateway_admit :: "('x, 'y) store_code \<Rightarrow> bcrypt \<Rightarrow> request \<Rightarrow> ('x, 'y, Http.response + string) prog" where
  "hp_gateway_admit P B r =
     (let tenant = header r HeaderTenant; service = header r HeaderServiceName; key = bearer_key r in
      if tenant = [] \<or> service = [] then Ret (Inl (http_error ''unauthorized'' 401))
      else prog_bind (p_ValidateAgentKey P B tenant service key) (\<lambda>x. case x of
          Inl e \<Rightarrow> Ret (Inl (http_error ''unauthorized'' 401))
        | Inr _ \<Rightarrow> Ret (Inr (sessionKey tenant service))))"

definition hp_gateway_connect :: "('x, 'y) store_code \<Rightarrow> bcrypt \<Rightarrow> visit \<Rightarrow> request \<Rightarrow> ('x, 'y, 'k, daemon_reply) handler" where
  "hp_gateway_connect P B v r =
     prog_bind (on_db (hp_gateway_admit P B r)) (\<lambda>x. case x of
        Inl resp \<Rightarrow> Ret (Reply resp)
      | Inr key \<Rightarrow>
          (case vs_session v of
             None \<Rightarrow> Ret No_upgrade
           | Some i \<Rightarrow> Call (Swap_session key i) (\<lambda>y. Ret (if un_Swapped y then Connected i else No_upgrade))))"

definition hp_proxy_authorize ::
  "('x, 'y) store_code \<Rightarrow> ('k, 'p) crypto \<Rightarrow> string \<Rightarrow> string option \<Rightarrow> time \<Rightarrow> time \<Rightarrow> string \<Rightarrow> request
    \<Rightarrow> ('x, 'y, 'k, string + access_claims) handler" where
  "hp_proxy_authorize P C base pem now_server now tenant r =
     (let token = bearer_key r in
      if token = [] then Ret (Inl ''missing bearer token'')
      else prog_bind (hp_resolver_server P C base pem now_server tenant) (\<lambda>x. Ret (case x of
          None \<Rightarrow> Inl ''no OAuth AS for tenant''
        | Some srv \<Rightarrow> ValidateAccessToken C srv token now)))"

definition hp_proxy_decide ::
  "('x, 'y) store_code \<Rightarrow> ('k, 'p) crypto \<Rightarrow> string \<Rightarrow> string option \<Rightarrow> time \<Rightarrow> time \<Rightarrow> request \<Rightarrow> ('x, 'y, 'k, verdict) handler" where
  "hp_proxy_decide P C base pem now_server now r =
     (case splitPath (rq_path r) of (tenant, service, rest) \<Rightarrow>
      if tenant = [] \<or> service = [] then Ret (Refuse not_found)
      else if rq_content_length r > maxRequestBody
      then Ret (Refuse (http_error (''request body too large'' @ [CHR 0x0A]) 413))
      else prog_bind (on_db (p_GetService P tenant service)) (\<lambda>x. case x of
          Inl e \<Rightarrow> Ret (Refuse (if e = ErrNotFound then not_found else aborted))
        | Inr svc \<Rightarrow>
            if AuthMode svc \<noteq> ''oauth'' then Ret (Forward tenant service rest)
            else prog_bind (hp_proxy_authorize P C base pem now_server now tenant r) (\<lambda>x. Ret (case x of
                Inl e \<Rightarrow>
                  Refuse (add_headers [(''WWW-Authenticate'', ''Bearer resource_metadata='' @ [CHR 0x22]
                            @ metadata_url base tenant service @ [CHR 0x22])]
                          (http_error (''unauthorized'' @ [CHR 0x0A]) 401))
              | Inr claims \<Rightarrow> Forward tenant service rest))))"

definition hp_proxy_serve ::
  "('x, 'y) store_code \<Rightarrow> ('k, 'p) crypto \<Rightarrow> string \<Rightarrow> (nat \<Rightarrow> string \<Rightarrow> request \<Rightarrow> Http.response option)
    \<Rightarrow> string option \<Rightarrow> time \<Rightarrow> time \<Rightarrow> request \<Rightarrow> ('x, 'y, 'k, Http.response) handler" where
  "hp_proxy_serve P C base fwd pem now_server now r =
     prog_bind (hp_proxy_decide P C base pem now_server now r) (\<lambda>verdict. case verdict of
        Refuse resp \<Rightarrow> Ret resp
      | Forward tenant service rest \<Rightarrow>
          Call (Dial_session tenant service) (\<lambda>y. Ret (case un_Dialed y of
             None \<Rightarrow> bad_gateway
           | Some c \<Rightarrow> (case fwd c rest r of None \<Rightarrow> bad_gateway | Some resp \<Rightarrow> resp))))"

section \<open>A request\<close>

definition hp_handle ::
  "('x, 'y) store_code \<Rightarrow> bcrypt \<Rightarrow> ('k, 'p) crypto \<Rightarrow> string \<Rightarrow> visit \<Rightarrow> request \<Rightarrow> ('x, 'y, 'k, daemon_reply) handler" where
  "hp_handle P B C base v r =
     (case server_route (rq_method r) (rq_path r) of
        C_gateway \<Rightarrow> hp_gateway_connect P B v r
      | C_control_plane \<Rightarrow> prog_bind (on_db (hp_control_plane P B v r)) (\<lambda>resp. Ret (Reply resp))
      | C_proxy \<Rightarrow>
          prog_bind (hp_proxy_serve P C base (vs_forward v) (vs_pem v) (vs_now_server v) (vs_now v) r) (\<lambda>resp. Ret (Reply resp))
      | C_well_known \<Rightarrow> prog_bind (hp_well_known_handle P C base (vs_pem v) (vs_now_server v) r) (\<lambda>resp. Ret (Reply resp))
      | C_oauth \<Rightarrow>
          prog_bind (hp_resolver_handle P B C base (vs_pem v) (vs_now_server v) (vs_oauth v) r) (\<lambda>resp. Ret (Reply resp))
      | C_healthz \<Rightarrow> Ret (Reply Healthz)
      | C_robots \<Rightarrow> Ret (Reply robotsTxt)
      | C_redirect \<Rightarrow> Ret (Moved (rq_path r @ ''/''))
      | C_method \<Rightarrow> Ret (Reply (http_error ''Method Not Allowed'' 405))
      | C_none \<Rightarrow> Ret (Reply not_found))"

definition hp_serve ::
  "('x, 'y) store_code \<Rightarrow> bcrypt \<Rightarrow> ('k, 'p) crypto \<Rightarrow> string \<Rightarrow> daemon_config \<Rightarrow> visit \<Rightarrow> request \<Rightarrow> ('x, 'y, 'k, daemon_reply) handler" where
  "hp_serve P B C base c v r = hp_handle P B C base v (if dc_cloudflare c then CloudflareClientIP r else r)"

end
