(* ===== verification/Handler_Runs.thy ===== *)
theory Handler_Runs
  imports Handler_Programs
begin

text \<open>
  Run alone, the programs of \<open>Handler_Programs\<close> are the handlers: over a backend whose programs run as
  the methods of a \<open>store_api\<close> (\<open>runs_as\<close>), a request's program ends in the reply and the state of
  \<open>daemon_handle\<close>, and never waits.
\<close>

section \<open>Run alone, they are the handlers\<close>

context runs_as
begin

lemma exec_allowQuick: "exec f (hp_allowQuick P addr now) s = Some (allowQuick api addr now s)"
  by (simp add: hp_allowQuick_def allowQuick_def Let_def exec_bind store_runs split: prod.split sum.split)

lemma exec_quick_admit: "exec f (hp_quick_admit P env r) s = Some (quick_admit api env r s)"
  by (auto simp: hp_quick_admit_def quick_admit_def exec_bind exec_allowQuick store_runs split: prod.split sum.split option.split)

lemma exec_create_loop: "exec f (hp_create_loop P e draws n i) s = Some (create_quick_loop api e draws n i s)"
  by (induction n arbitrary: i s) (auto simp: exec_bind store_runs split: prod.split sum.split option.split)

lemma exec_quick_create: "exec f (hp_quick_create P B env auth password) s = Some (quick_create api B env auth password s)"
  unfolding hp_quick_create_def quick_create_def createQuickTenant_def Let_def
  by (auto simp: exec_bind exec_create_loop store_runs split: prod.split sum.split option.split)

lemma exec_handleQuick: "exec f (hp_handleQuick P B env r) s = Some (handleQuick api B env r s)"
  by (auto simp: hp_handleQuick_def handleQuick_def exec_bind exec_quick_admit exec_quick_create split: prod.split sum.split)

lemma exec_handleDelete: "exec f (hp_handleDelete P B t r) s = Some (handleDelete api B t r s)"
  by (auto simp: hp_handleDelete_def handleDelete_def Let_def exec_bind store_runs split: prod.split sum.split)

lemma exec_control_plane: "exec f (hp_control_plane P B v r) s = Some (control_plane api B v r s)"
  by (simp add: hp_control_plane_def control_plane_def exec_handleQuick exec_handleDelete split: cp_endpoint.split)

lemma exec_NewServer: "exec f (hp_NewServer P C base t e pem now) s = Some (NewServer api C base t e pem now s)"
  unfolding hp_NewServer_def NewServer_def Let_def
  by (auto simp: exec_bind store_runs split: prod.split sum.split option.split)

lemma exec_hasPassword: "exec f (hp_hasPassword P srv) s = Some (hasPassword api srv s)"
  by (auto simp: hp_hasPassword_def hasPassword_def exec_bind store_runs split: prod.split sum.split)

lemma exec_handleAuthorize: "exec f (hp_handleAuthorize P B C srv env r) s = Some (handleAuthorize api B C srv env r s)"
  unfolding hp_handleAuthorize_def handleAuthorize_def Let_def
  by (auto simp: exec_bind exec_hasPassword store_runs split: prod.split sum.split option.split)

lemma exec_gateway_admit: "exec f (hp_gateway_admit P B r) s = Some (gateway_admit api B r s)"
  by (auto simp: hp_gateway_admit_def gateway_admit_def Let_def exec_bind store_runs split: prod.split sum.split)

end

definition shared_of :: "('s, 'k) daemon \<Rightarrow> ('s, 'k) shared" where
  "shared_of d = \<lparr>sh_daemon = d, sh_locked = False\<rparr>"

text \<open>The daemon after a handler that works on the resolver and the store, or on the OAuth state.\<close>

definition put_resolver :: "('s, 'k) daemon \<Rightarrow> 'a \<times> 'k resolver \<times> 's \<Rightarrow> 'a \<times> ('s, 'k) shared" where
  "put_resolver d x = (case x of (a, rv, s) \<Rightarrow> (a, shared_of ((with_store s d)\<lparr>dm_resolver := rv\<rparr>)))"

definition put_oauth :: "('s, 'k) daemon \<Rightarrow> 'a \<times> 's oauth_state \<Rightarrow> 'a \<times> ('s, 'k) shared" where
  "put_oauth d x = (case x of (a, st) \<Rightarrow> (a, shared_of (d\<lparr>dm_oauth := st\<rparr>)))"

lemma shared_of_sel [simp]: "sh_daemon (shared_of d) = d" "\<not> sh_locked (shared_of d)"
  "on_store (\<lambda>_. s) (shared_of d) = shared_of (with_store s d)"
  "shared_of d\<lparr>sh_locked := False\<rparr> = shared_of d"
  "shared_of d\<lparr>sh_daemon := d'\<rparr> = shared_of d'"
  "on_gateway g (shared_of d) = shared_of (d\<lparr>dm_gateway := g (dm_gateway d)\<rparr>)"
  by (simp_all add: shared_of_def on_store_def on_gateway_def)

text \<open>While the resolver's mutex is held.\<close>

definition locked_of :: "('s, 'k) daemon \<Rightarrow> ('s, 'k) shared" where
  "locked_of d = \<lparr>sh_daemon = d, sh_locked = True\<rparr>"

lemma locked_of_sel [simp]: "sh_daemon (locked_of d) = d" "shared_of d\<lparr>sh_locked := True\<rparr> = locked_of d"
  "locked_of d\<lparr>sh_locked := False\<rparr> = shared_of d" "on_store (\<lambda>_. s) (locked_of d) = locked_of (with_store s d)"
  "locked_of d\<lparr>sh_daemon := d'\<rparr> = locked_of d'"
  by (simp_all add: shared_of_def locked_of_def on_store_def)

lemma resolver_same [simp]: "d\<lparr>dm_resolver := dm_resolver d\<rparr> = d"
  by simp

lemma with_store_again [simp]: "with_store s (with_store s' d) = with_store s d"
  by (simp add: with_store_def)

lemma with_store_resolver: "with_store s d\<lparr>dm_resolver := dm_resolver d\<rparr> = with_store s d"
  by (simp add: with_store_def)

lemma exec_db_shared:
  "exec (call_world f) (on_db p) (shared_of d) =
    (case exec f p (dm_store d) of None \<Rightarrow> None | Some (a, s) \<Rightarrow> Some (a, shared_of (with_store s d)))"
  "exec (call_world f) (on_db p) (locked_of d) =
    (case exec f p (dm_store d) of None \<Rightarrow> None | Some (a, s) \<Rightarrow> Some (a, locked_of (with_store s d)))"
  by (simp_all add: exec_db split: option.split)

lemma exec_unlocked [simp]: "exec (call_world f) (unlocked a) (locked_of d) = Some (a, shared_of d)"
  by (simp add: unlocked_def)

context runs_as
begin

lemma exec_resolver_server:
  assumes "rv_baseURL (dm_resolver d) = base"
  shows "exec (call_world f) (hp_resolver_server P C base pem now t) (shared_of d) =
    Some (put_resolver d (resolver_server api C pem now t (dm_resolver d) (dm_store d)))"
proof (cases "rv_servers (dm_resolver d) t")
  case (Some srv)
  then show ?thesis by (simp add: hp_resolver_server_def resolver_server_def put_resolver_def)
next
  case None
  obtain x s1 where g: "GetTenant api t (dm_store d) = (x, s1)" by fastforce
  show ?thesis
  proof (cases x)
    case (Inl e)
    with None g show ?thesis
      by (simp add: hp_resolver_server_def resolver_server_def put_resolver_def exec_bind exec_db_shared store_runs with_store_resolver)
  next
    case (Inr tn)
    define e where "e = (case ExpiresAt tn of None \<Rightarrow> now + secs (24 * 3600) | Some e \<Rightarrow> e)"
    obtain y s2 where n: "NewServer api C base t e pem now s1 = (y, s2)" by fastforce
    from None g Inr n assms show ?thesis
      by (cases y) (simp_all add: hp_resolver_server_def resolver_server_def put_resolver_def exec_bind exec_db_shared store_runs
          exec_NewServer Let_def e_def [symmetric] with_store_resolver)
  qed
qed

lemma exec_handleRegister:
  "exec (call_world f) (hp_handleRegister P srv env r) (shared_of d) =
    Some (put_oauth d (handleRegister api srv env r (dm_oauth d)))"
proof -
  obtain b rate where "allow (clientIP r) registerRateLimit (re_now_rate env) (oa_register (dm_oauth d)) = (b, rate)" by fastforce
  then show ?thesis
    by (auto simp: hp_handleRegister_def handleRegister_def put_oauth_def Let_def exec_bind exec_db_shared store_runs with_store_def
        split: option.split prod.split sum.split)
qed

lemma exec_handleToken:
  "exec (call_world f) (hp_handleToken P C srv env r) (shared_of d) =
    Some (put_oauth d (handleToken api C srv env r (dm_oauth d)))"
proof -
  obtain b rate where "allow (clientIP r) tokenRateLimit (te_now_rate env) (oa_token (dm_oauth d)) = (b, rate)" by fastforce
  then show ?thesis
    by (auto simp: hp_handleToken_def handleToken_def put_oauth_def Let_def exec_bind exec_db_shared store_runs with_store_def
        split: option.split prod.split sum.split)
qed

end

lemma put_oauth_same [simp]: "put_oauth d (a, dm_oauth d) = (a, shared_of d)"
  by (simp add: put_oauth_def)

lemma put_resolver_simp: "put_resolver d (a, rv, s) = (a, shared_of (with_store s d\<lparr>dm_resolver := rv\<rparr>))"
  by (simp add: put_resolver_def)

context runs_as
begin

lemma exec_oauth_serve:
  "exec (call_world f) (hp_oauth_serve P B C srv env r path) (shared_of d) =
    Some (put_oauth d (oauth_serve api B C srv env r path (dm_oauth d)))"
  unfolding hp_oauth_serve_def oauth_serve_def
  by (cases "oauth_route (rq_method r) path")
    (simp_all add: exec_handleToken exec_handleRegister exec_bind exec_db_shared
      exec_handleAuthorize put_oauth_def with_store_def split: prod.split)

lemma exec_resolver_handle:
  assumes "rv_baseURL (dm_resolver d) = base"
  shows "exec (call_world f) (hp_resolver_handle P B C base pem now env r) (shared_of d) =
    Some (case resolver_handle api B C pem now env r (dm_resolver d, dm_oauth d) of (resp, rv, st) \<Rightarrow>
      (resp, shared_of (d\<lparr>dm_resolver := rv, dm_oauth := st\<rparr>)))"
proof (cases "resolver_path (rq_path r)")
  case None
  then show ?thesis by (simp add: hp_resolver_handle_def resolver_handle_def)
next
  case (Some ts)
  obtain t sub where ts: "ts = (t, sub)" by fastforce
  obtain x rv s where rs: "resolver_server api C pem now t (dm_resolver d) (dm_store d) = (x, rv, s)" by (metis prod_cases3)
  show ?thesis using Some ts rs
    by (cases x) (simp_all add: hp_resolver_handle_def resolver_handle_def exec_bind exec_resolver_server [OF assms]
        put_resolver_simp exec_oauth_serve put_oauth_def with_store_def split: prod.split)
qed

lemma exec_well_known:
  assumes "rv_baseURL (dm_resolver d) = base"
  shows "exec (call_world f) (hp_well_known_handle P C base pem now r) (shared_of d) =
    Some (case well_known_handle api C pem now r (dm_resolver d, dm_oauth d) of (resp, rv, st) \<Rightarrow>
      (resp, shared_of (d\<lparr>dm_resolver := rv, dm_oauth := st\<rparr>)))"
proof (cases "well_known_tenant (rq_path r)")
  case None
  then show ?thesis by (simp add: hp_well_known_handle_def well_known_handle_def)
next
  case (Some t)
  obtain x rv s where rs: "resolver_server api C pem now t (dm_resolver d) (dm_store d) = (x, rv, s)" by (metis prod_cases3)
  show ?thesis using Some rs
    by (cases x) (simp_all add: hp_well_known_handle_def well_known_handle_def exec_bind exec_resolver_server [OF assms]
        put_resolver_simp with_store_def)
qed

lemma exec_gateway_connect:
  "exec (call_world f) (hp_gateway_connect P B v r) (shared_of d) =
    Some (case gateway_connect api B v r d of (x, d') \<Rightarrow> (x, shared_of d'))"
proof -
  obtain x s where a: "gateway_admit api B r (dm_store d) = (x, s)" by fastforce
  show ?thesis using a
    by (cases x; cases "vs_session v")
      (simp_all add: hp_gateway_connect_def gateway_connect_def exec_bind exec_db_shared exec_gateway_admit)
qed

lemma exec_proxy_authorize:
  assumes "rv_baseURL (dm_resolver d) = base"
  shows "exec (call_world f) (hp_proxy_authorize P C base pem ns now t r) (shared_of d) =
    Some (put_resolver d (proxy_authorize api C pem ns now t r (dm_resolver d, dm_store d)))"
proof (cases "bearer_key r = []")
  case True
  then show ?thesis by (simp add: hp_proxy_authorize_def proxy_authorize_def put_resolver_simp with_store_resolver)
next
  case False
  obtain x rv s where rs: "resolver_server api C pem ns t (dm_resolver d) (dm_store d) = (x, rv, s)" by (metis prod_cases3)
  with False show ?thesis
    by (cases x) (simp_all add: hp_proxy_authorize_def proxy_authorize_def exec_bind exec_resolver_server [OF assms] put_resolver_simp)
qed

lemma exec_proxy_decide:
  assumes "rv_baseURL (dm_resolver d) = base"
  shows "exec (call_world f) (hp_proxy_decide P C base pem ns now r) (shared_of d) =
    Some (case proxy_decide api C pem ns now r (Some (dm_resolver d), dm_store d) of (x, orv, s) \<Rightarrow>
      (x, shared_of (with_store s d\<lparr>dm_resolver := (case orv of None \<Rightarrow> dm_resolver d | Some rv \<Rightarrow> rv)\<rparr>)))"
proof -
  obtain t n rest where p: "splitPath (rq_path r) = (t, n, rest)" by (metis prod_cases3)
  show ?thesis
  proof (cases "t = [] \<or> n = [] \<or> rq_content_length r > maxRequestBody")
    case True
    then show ?thesis by (auto simp: hp_proxy_decide_def proxy_decide_def p with_store_resolver)
  next
    case False
    obtain x s1 where g: "GetService api t n (dm_store d) = (x, s1)" by fastforce
    show ?thesis
    proof (cases x)
      case (Inl e)
      with False g show ?thesis
        by (simp add: hp_proxy_decide_def proxy_decide_def p exec_bind exec_db_shared store_runs with_store_resolver)
    next
      case (Inr svc)
      have base: "rv_baseURL (dm_resolver (with_store s1 d)) = base" using assms by simp
      obtain y rv s2 where a: "proxy_authorize api C pem ns now t r (dm_resolver d, s1) = (y, rv, s2)" by (metis prod_cases3)
      from False g Inr a show ?thesis
        by (cases y) (simp_all add: hp_proxy_decide_def proxy_decide_def p exec_bind exec_db_shared store_runs with_store_resolver
            exec_proxy_authorize [OF base] put_resolver_simp assms)
    qed
  qed
qed

lemma exec_proxy_serve:
  assumes "rv_baseURL (dm_resolver d) = base"
  shows "exec (call_world f) (hp_proxy_serve P C base (vs_forward v) pem ns now r) (shared_of d) =
    Some (case proxy_serve api C (gateway_upstream v (dm_gateway d)) pem ns now r (Some (dm_resolver d), dm_store d) of (x, orv, s) \<Rightarrow>
      (x, shared_of (with_store s d\<lparr>dm_resolver := (case orv of None \<Rightarrow> dm_resolver d | Some rv \<Rightarrow> rv)\<rparr>)))"
proof -
  obtain x orv s where p: "proxy_decide api C pem ns now r (Some (dm_resolver d), dm_store d) = (x, orv, s)" by (metis prod_cases3)
  then show ?thesis
    by (cases x) (simp_all add: hp_proxy_serve_def proxy_serve_def exec_bind exec_proxy_decide [OF assms] gateway_upstream_def
        proxy_forward_def cong: option.case_cong)
qed

lemma exec_handle:
  assumes "rv_baseURL (dm_resolver d) = base"
  shows "exec (call_world f) (hp_handle P B C base v r) (shared_of d) =
    Some (case daemon_handle api B C v r d of (x, d') \<Rightarrow> (x, shared_of d'))"
  by (cases "server_route (rq_method r) (rq_path r)")
    (simp_all add: hp_handle_def daemon_handle_def exec_gateway_connect exec_bind exec_db_shared exec_control_plane
      exec_proxy_serve [OF assms] exec_well_known [OF assms] exec_resolver_handle [OF assms] split: prod.split)

lemma exec_serve:
  assumes "rv_baseURL (dm_resolver d) = base"
  shows "exec (call_world f) (hp_serve P B C base c v r) (shared_of d) =
    Some (case daemon_serve api B C c v r d of (x, d') \<Rightarrow> (x, shared_of d'))"
  unfolding hp_serve_def daemon_serve_def by (rule exec_handle [OF assms])

end

end
