(* ===== verification/Store_Faults.thy ===== *)
theory Store_Faults
  imports Store_History
begin

text \<open>
  The backends when the database or the network misbehaves. Whatever fails, a call only ever takes
  the database along statements of its own, so the keys survive; and a code is claimed by one
  statement before it is read back, so it is handed out at most once. The contract of this theory
  says that much; SQLite keeps it under every schedule of driver faults, the D1 client over every
  service that runs the statements it acknowledges, requests and replies lost on the way included.
\<close>

section \<open>Runs of statements\<close>

inductive sql_run :: "(statement \<Rightarrow> bool) \<Rightarrow> database \<Rightarrow> database \<Rightarrow> bool" for S where
  stay: "sql_run S d d"
| step: "sql_run S d d' \<Longrightarrow> S st \<Longrightarrow> sql_exec st d' = Inr (q, d'') \<Longrightarrow> sql_run S d d''"

lemma sql_run_one: "S st \<Longrightarrow> sql_exec st d = Inr (q, d') \<Longrightarrow> sql_run S d d'"
  by (rule sql_run.step [OF sql_run.stay])

lemma sql_run_trans:
  assumes "sql_run S d d'" and "sql_run S d' d''"
  shows "sql_run S d d''"
  using assms(2,1) by (induction rule: sql_run.induct) (blast intro: sql_run.step)+

lemma sql_run_invariant:
  assumes run: "sql_run S d d'" and "P d"
    and keep: "\<And>st d q d'. S st \<Longrightarrow> P d \<Longrightarrow> sql_exec st d = Inr (q, d') \<Longrightarrow> P d'"
  shows "P d'"
  using run assms(2) by (induction rule: sql_run.induct) (blast intro: keep)+

lemma sql_run_ok: "sql_run S d d' \<Longrightarrow> db_ok d \<Longrightarrow> db_ok d'"
  by (erule sql_run_invariant) (assumption, rule sql_exec_ok)

text \<open>The statements a call may run: only \<open>CreateAuthCode\<close> inserts a code, and only its own.\<close>

definition stmt_of :: "store_op \<Rightarrow> statement \<Rightarrow> bool" where
  "stmt_of x st \<longleftrightarrow> (\<forall>h t cid uri ch e. st = Insert_code h t cid uri ch e \<longrightarrow> creates_code h x)"

lemma stmt_of_simps [simp]:
  "stmt_of x (Insert_tenant a b c f)" "stmt_of x (Select_tenant a)" "stmt_of x (Delete_tenant a)"
  "stmt_of x (Select_expired n)" "stmt_of x (Count_live n)" "stmt_of x (Prune_rate w)" "stmt_of x (Upsert_rate a w)"
  "stmt_of x (Select_rate a w)" "stmt_of x (Insert_service a b kh am ph n)" "stmt_of x (Insert_service_if a b kh am ph n)"
  "stmt_of x (Select_service a b)" "stmt_of x (Insert_key_or_ignore a b n)" "stmt_of x (Select_key a)"
  "stmt_of x (Insert_client a b us n)" "stmt_of x (Select_client a b)" "stmt_of x (Claim_code n h)"
  "stmt_of x (Select_code h)" "stmt_of x (Insert_code h a b uri ch n) \<longleftrightarrow> creates_code h x"
  by (auto simp: stmt_of_def)

text \<open>A code no row of which is still unused.\<close>

definition used_up :: "string \<Rightarrow> database \<Rightarrow> bool" where
  "used_up h d \<longleftrightarrow> (\<forall>r \<in> set (auth_codes d). ac_code_hash r = h \<longrightarrow> ac_used_at r \<noteq> None)"

lemma insert_service_row_codes: "insert_service_row r d = Inr (q, d') \<Longrightarrow> auth_codes d' = auth_codes d"
  by (auto simp: insert_service_row_def split: if_splits)

lemma used_up_exec:
  assumes "sql_exec st d = Inr (q, d')" and "\<not> creates_code h x" and "stmt_of x st" and "used_up h d"
  shows "used_up h d'"
proof (cases st)
  case (Insert_service a b c e f g)
  with assms insert_service_row_codes show ?thesis by (auto simp: used_up_def)
next
  case (Insert_service_if a b c e f g)
  with assms insert_service_row_codes show ?thesis by (auto simp: used_up_def split: if_splits)
qed (use assms in \<open>auto simp: used_up_def Let_def delete_tenant_rows_def mark_used_def split: if_splits\<close>)

lemma used_up_run:
  assumes "sql_run (stmt_of x) d d'" and "\<not> creates_code h x" and "used_up h d"
  shows "used_up h d'"
  using assms(1,3) by (rule sql_run_invariant) (use assms(2) used_up_exec in blast)

text \<open>What a claim that changed a row says of the code before and after.\<close>

lemma claim_effect:
  assumes "sql_exec (Claim_code now h) d = Inr (q, d')"
  shows "(rs_changes q \<noteq> 0 \<longrightarrow> \<not> used_up h d) \<and> (db_ok d \<longrightarrow> rs_changes q \<noteq> 0 \<longrightarrow> used_up h d')"
proof -
  from assms have q: "rs_changes q = length (filter (claimable now h) (auth_codes d))"
    and d': "auth_codes d' = map (mark_used now h) (auth_codes d)" by (auto simp: change_result_def)
  have "rs_changes q \<noteq> 0 \<longleftrightarrow> (\<exists>r \<in> set (auth_codes d). claimable now h r)"
    by (auto simp: q filter_empty_conv)
  moreover have "used_up h d'" if "db_ok d" "r \<in> set (auth_codes d)" "claimable now h r" for r
    unfolding used_up_def d'
  proof (intro ballI impI)
    fix x
    assume "x \<in> set (map (mark_used now h) (auth_codes d))" and xh: "ac_code_hash x = h"
    then obtain y where y: "y \<in> set (auth_codes d)" "x = mark_used now h y" by auto
    have "distinct (map ac_code_hash (auth_codes d))" using that(1) by (simp add: db_ok_def pk_ok_def)
    then have "y = r" using that y xh by (auto simp: claimable_def distinct_map inj_on_def)
    then show "ac_used_at x \<noteq> None" using y that(3) by (simp add: mark_used_def)
  qed
  ultimately show ?thesis by (auto simp: used_up_def claimable_def)
qed

section \<open>The contract under faults\<close>

definition redeems :: "string \<Rightarrow> store_op \<times> response \<Rightarrow> bool" where
  "redeems h xr = (case xr of (Op_ConsumeAuthCode h' now, R_code c) \<Rightarrow> h' = h | _ \<Rightarrow> False)"

lemma redeemsE:
  assumes "redeems h (x, r)"
  obtains now c where "x = Op_ConsumeAuthCode h now" and "r = R_code c"
  using assms by (auto simp: redeems_def split: store_op.splits response.splits)

locale fault_contract =
  fixes api :: "'s store_api" and db :: "'s \<Rightarrow> database"
  assumes runs: "sql_run (stmt_of x) (db s) (db (snd (api_step api B x s)))"
    and claim: "db_ok (db s) \<Longrightarrow> ConsumeAuthCode api h now s = (Inr c, s') \<Longrightarrow> \<not> used_up h (db s) \<and> used_up h (db s')"
begin

lemma keys_hold: "db_ok (db s) \<Longrightarrow> run_steps (api_step api B) xs s = (rs, s') \<Longrightarrow> db_ok (db s')"
proof (induction xs arbitrary: s rs)
  case (Cons x xs)
  obtain r s1 where x: "api_step api B x s = (r, s1)" by fastforce
  moreover obtain rs1 where "run_steps (api_step api B) xs s1 = (rs1, s')" using Cons.prems(2) x by (auto split: prod.splits)
  moreover have "db_ok (db s1)" using runs [of x s B] Cons.prems(1) x sql_run_ok by simp
  ultimately show ?case using Cons.IH by blast
qed simp

lemma used_up_stays:
  "used_up h (db s) \<Longrightarrow> db_ok (db s) \<Longrightarrow> list_all (\<lambda>x. \<not> creates_code h x) xs \<Longrightarrow>
   run_steps (api_step api B) xs s = (rs, s') \<Longrightarrow> filter (redeems h) (zip xs rs) = []"
proof (induction xs arbitrary: s rs)
  case (Cons x xs)
  obtain r s1 rs1 where x: "api_step api B x s = (r, s1)" and xs: "run_steps (api_step api B) xs s1 = (rs1, s')"
    and rs: "rs = r # rs1" using Cons.prems(4) by (auto split: prod.splits)
  have run: "sql_run (stmt_of x) (db s) (db s1)" using runs [of x s B] x by simp
  have "used_up h (db s1)" "db_ok (db s1)"
    using used_up_run [OF run _ Cons.prems(1)] sql_run_ok [OF run Cons.prems(2)] Cons.prems(3) by simp_all
  with Cons.IH Cons.prems(3) xs have "filter (redeems h) (zip xs rs1) = []" by simp
  moreover have "\<not> redeems h (x, r)"
  proof
    assume "redeems h (x, r)"
    then obtain now c where "x = Op_ConsumeAuthCode h now" "r = R_code c" by (rule redeemsE)
    with x have "ConsumeAuthCode api h now s = (Inr c, s1)"
      by (cases "ConsumeAuthCode api h now s"; cases "fst (ConsumeAuthCode api h now s)") auto
    with claim Cons.prems(1,2) show False by blast
  qed
  ultimately show ?case by (simp add: rs)
qed simp

lemma at_most_once:
  "db_ok (db s) \<Longrightarrow> list_all (\<lambda>x. \<not> creates_code h x) xs \<Longrightarrow>
   run_steps (api_step api B) xs s = (rs, s') \<Longrightarrow> length (filter (redeems h) (zip xs rs)) \<le> 1"
proof (induction xs arbitrary: s rs)
  case (Cons x xs)
  obtain r s1 rs1 where x: "api_step api B x s = (r, s1)" and xs: "run_steps (api_step api B) xs s1 = (rs1, s')"
    and rs: "rs = r # rs1" using Cons.prems(3) by (auto split: prod.splits)
  have ok: "db_ok (db s1)" using sql_run_ok [OF _ Cons.prems(1)] runs [of x s B] x by simp
  show ?case
  proof (cases "redeems h (x, r)")
    case True
    then obtain now c where "x = Op_ConsumeAuthCode h now" "r = R_code c" by (rule redeemsE)
    with x have "ConsumeAuthCode api h now s = (Inr c, s1)"
      by (cases "ConsumeAuthCode api h now s"; cases "fst (ConsumeAuthCode api h now s)") auto
    with claim Cons.prems(1) have "used_up h (db s1)" by blast
    with used_up_stays [OF _ ok _ xs] Cons.prems(2) show ?thesis by (simp add: rs)
  next
    case False
    with Cons.IH [OF ok _ xs] Cons.prems(2) show ?thesis by (simp add: rs)
  qed
qed simp

end

section \<open>SQLite under driver faults\<close>

lemma next_fault_db [simp]: "next_fault c = (f, c') \<Longrightarrow> c_db c' = c_db c"
  by (auto simp: next_fault_def split: list.splits)

lemma exec_run: "db_exec st c = (r, c') \<Longrightarrow> S st \<Longrightarrow> sql_run S (c_db c) (c_db c')"
  by (auto simp: db_exec_def sql_run.stay sql_run_one simp del: sql_exec.simps
      split: prod.splits fault.splits sum.splits)

lemma exec_effect:
  assumes "db_exec st c = (Inr n, c')"
  shows "\<exists>q. sql_exec st (c_db c) = Inr (q, c_db c') \<and> rs_changes q = n"
proof -
  obtain f c1 where f: "next_fault c = (f, c1)" by fastforce
  show ?thesis
  proof (cases f)
    case (Stmt_fault m)
    with assms f show ?thesis by (simp add: db_exec_def)
  qed (use assms f in \<open>auto simp: db_exec_def simp del: sql_exec.simps split: sum.splits\<close>)
qed

lemma query_run: "db_query st c = (r, c') \<Longrightarrow> S st \<Longrightarrow> sql_run S (c_db c) (c_db c')"
  by (auto simp: db_query_def sql_run.stay sql_run_one simp del: sql_exec.simps
      split: prod.splits fault.splits sum.splits)

lemma query_row_run:
  assumes "query_row st c = (r, c')" and "S st"
  shows "sql_run S (c_db c) (c_db c')"
proof -
  obtain x c1 where q: "db_query st c = (x, c1)" by fastforce
  with assms(1) have "c' = c1" by (auto simp: query_row_def split: sum.splits prod.splits list.splits option.splits)
  with query_run [OF q, of S] assms(2) show ?thesis by simp
qed

lemma delete_all_run: "sqlite_delete_all ss c = (e, c') \<Longrightarrow> sql_run (stmt_of x) (c_db c) (c_db c')"
proof (induction ss arbitrary: c)
  case (Cons s ss)
  then show ?case
    by (auto simp: sqlite_DeleteTenant_def split: prod.splits sum.splits dest!: exec_run [where S = "stmt_of x"])
      (blast intro: sql_run_trans)
qed (simp add: sql_run.stay)

lemma expired_run:
  assumes "sqlite_DeleteExpiredTenants now c = (r, c')"
  shows "sql_run (stmt_of x) (c_db c) (c_db c')"
  using assms
  by (auto simp: sqlite_DeleteExpiredTenants_def split: prod.splits sum.splits option.splits
      dest!: query_run [where S = "stmt_of x"] delete_all_run [where x = x] intro: sql_run_trans)

lemma rate_hit_run:
  assumes "sqlite_QuickRateHit ip now c = (r, c')"
  shows "sql_run (stmt_of x) (c_db c) (c_db c')"
  using assms
  by (auto simp: sqlite_QuickRateHit_def Let_def split: prod.splits sum.splits
      dest!: exec_run [where S = "stmt_of x"] query_row_run [where S = "stmt_of x"] intro: sql_run_trans)

lemma get_tenant_run: "sqlite_GetTenant t c = (r, c') \<Longrightarrow> sql_run (stmt_of x) (c_db c) (c_db c')"
  by (auto simp: sqlite_GetTenant_def split: prod.splits dest!: query_row_run [where S = "stmt_of x"])

lemma get_service_run: "sqlite_GetService t n c = (r, c') \<Longrightarrow> sql_run (stmt_of x) (c_db c) (c_db c')"
  by (auto simp: sqlite_GetService_def split: prod.splits dest!: query_row_run [where S = "stmt_of x"])

lemma create_service_run:
  assumes "sqlite_CreateService B salt rnd now t svc c = (r, c')"
  shows "sql_run (stmt_of x) (c_db c) (c_db c')"
  using assms
  by (auto simp: sqlite_CreateService_def and_then_def Let_def split: prod.splits sum.splits
      dest!: get_tenant_run [where x = x] exec_run [where S = "stmt_of x"] intro: sql_run_trans)

lemma consume_run:
  assumes "sqlite_ConsumeAuthCode h now c = (r, c')"
  shows "sql_run (stmt_of x) (c_db c) (c_db c')"
  using assms
  by (auto simp: sqlite_ConsumeAuthCode_def split: prod.splits sum.splits if_splits
      dest!: exec_run [where S = "stmt_of x"] query_row_run [where S = "stmt_of x"] intro: sql_run_trans)

lemma respond_snd [simp]: "snd (respond f r) = snd r"
  by (auto simp: respond_def split: prod.splits sum.splits)

lemma respond_slugs_snd [simp]: "snd (respond_slugs r) = snd r"
  by (auto simp: respond_slugs_def split: prod.splits option.splits)

lemma one_statement:
  "snd (sqlite_CreateTenantExpiry t n e now c) = snd (db_exec (Insert_tenant t n (unix now) (map_option unix e)) c)"
  "snd (sqlite_DeleteTenant t c) = snd (db_exec (Delete_tenant t) c)"
  "snd (sqlite_CreateSigningKey t pem now c) = snd (db_exec (Insert_key_or_ignore t pem (unix now)) c)"
  "snd (sqlite_CreateOAuthClient t cid us now c) = snd (db_exec (Insert_client t cid us (unix now)) c)"
  "snd (sqlite_CreateAuthCode h t cid uri ch ex c) = snd (db_exec (Insert_code h t cid uri ch (unix ex)) c)"
  by (simp_all add: sqlite_CreateTenantExpiry_def sqlite_DeleteTenant_def sqlite_CreateSigningKey_def
      sqlite_CreateOAuthClient_def sqlite_CreateAuthCode_def split: prod.split sum.split)

lemma one_query:
  "snd (sqlite_GetTenant t c) = snd (query_row (Select_tenant t) c)"
  "snd (sqlite_CountLiveTenants now c) = snd (query_row (Count_live (unix now)) c)"
  "snd (sqlite_GetService t n c) = snd (query_row (Select_service t n) c)"
  "snd (sqlite_GetSigningKey t c) = snd (query_row (Select_key t) c)"
  "snd (sqlite_GetOAuthClient t cid c) = snd (query_row (Select_client t cid) c)"
  by (simp_all add: sqlite_GetTenant_def sqlite_CountLiveTenants_def sqlite_GetService_def sqlite_GetSigningKey_def
      sqlite_GetOAuthClient_def split: prod.split)

lemma validate_snd:
  "snd (sqlite_ValidatePassword B t n pw c) = snd (sqlite_GetService t n c)"
  "snd (sqlite_ValidateAgentKey B t n pw c) = snd (sqlite_GetService t n c)"
  by (simp_all add: sqlite_ValidatePassword_def sqlite_ValidateAgentKey_def and_then_def split: prod.split sum.split)

lemma exec_run_snd: "S st \<Longrightarrow> sql_run S (c_db c) (c_db (snd (db_exec st c)))"
  by (rule exec_run [OF surjective_pairing])

lemma query_row_run_snd: "S st \<Longrightarrow> sql_run S (c_db c) (c_db (snd (query_row st c)))"
  by (rule query_row_run [OF surjective_pairing])

lemma sqlite_runs: "sql_run (stmt_of x) (c_db c) (c_db (snd (api_step sqlite_api B x c)))"
proof (cases x)
  case (Op_DeleteExpiredTenants now)
  then show ?thesis by (simp add: sqlite_api_def expired_run [OF surjective_pairing])
next
  case (Op_QuickRateHit ip now)
  then show ?thesis by (simp add: sqlite_api_def rate_hit_run [OF surjective_pairing])
next
  case (Op_CreateService salt rnd now t svc)
  then show ?thesis by (simp add: sqlite_api_def create_service_run [OF surjective_pairing])
next
  case (Op_ConsumeAuthCode h now)
  then show ?thesis by (simp add: sqlite_api_def consume_run [OF surjective_pairing])
qed (simp_all add: sqlite_api_def one_statement one_query validate_snd exec_run_snd query_row_run_snd)

lemma sqlite_claim:
  assumes ok: "db_ok (c_db c)" and run: "ConsumeAuthCode sqlite_api h now c = (Inr i, c')"
  shows "\<not> used_up h (c_db c) \<and> used_up h (c_db c')"
proof -
  from run obtain n c1 where e: "db_exec (Claim_code (unix now) h) c = (Inr n, c1)" and n: "n \<noteq> 0"
    and sel: "\<exists>r. query_row (Select_code h) c1 = (r, c')"
    by (auto simp: sqlite_api_def sqlite_ConsumeAuthCode_def split: prod.splits sum.splits if_splits)
  obtain q where q: "sql_exec (Claim_code (unix now) h) (c_db c) = Inr (q, c_db c1)" "rs_changes q = n"
    using exec_effect [OF e] by blast
  from sel obtain r where r: "query_row (Select_code h) c1 = (r, c')" by blast
  have "sql_run (\<lambda>st. st = Select_code h) (c_db c1) (c_db c')" by (rule query_row_run [OF r]) simp
  then have "c_db c' = c_db c1" by (rule sql_run_invariant [where P = "\<lambda>d. d = c_db c1"]) auto
  with claim_effect [OF q(1)] q(2) n ok show ?thesis by simp
qed

interpretation sqlite_faulty: fault_contract sqlite_api c_db
  by unfold_locales (rule sqlite_runs, rule sqlite_claim)

section \<open>The D1 client over a lossy service\<close>

text \<open>
  What the client needs of the service under faults: a request it acknowledges has run, with the
  result reported; a request it does not acknowledge has run or it has not. Nothing is said of when
  a request fails, nor of the replies to schema statements.
\<close>

definition d1_client :: "'w d1_service \<Rightarrow> string \<Rightarrow> string \<Rightarrow> 'w d1_store" where
  "d1_client svc url token = \<lparr>d1_url = url, d1_token = token, d1_http = svc\<rparr>"

locale d1_service =
  fixes svc :: "'w d1_service" and db :: "'w \<Rightarrow> database"
  assumes acknowledged: "svc url auth (Run st) w = (rep, w') \<Longrightarrow> d1_reply rep = Inr r \<Longrightarrow>
      \<exists>q. sql_exec st (db w) = Inr (q, db w') \<and> r = d1_done q"
    and honest: "svc url auth (Run st) w = (rep, w') \<Longrightarrow> db w' \<noteq> db w \<Longrightarrow>
      \<exists>q. sql_exec st (db w) = Inr (q, db w')"
begin

lemma exec_acknowledged:
  "d1_exec (d1_client svc url token) (Run st) w = (Inr r, w') \<Longrightarrow> \<exists>q. sql_exec st (db w) = Inr (q, db w') \<and> r = d1_done q"
  by (auto simp: d1_exec_def d1_client_def split: prod.splits dest: acknowledged)

lemma d1_exec_run:
  assumes "d1_exec (d1_client svc url token) (Run st) w = (r, w')" and "S st"
  shows "sql_run S (db w) (db w')"
proof (cases "db w' = db w")
  case True
  then show ?thesis by (simp add: sql_run.stay)
next
  case False
  with assms(1) have "\<exists>q. sql_exec st (db w) = Inr (q, db w')"
    by (auto simp: d1_exec_def d1_client_def split: prod.splits dest: honest)
  with assms(2) show ?thesis using sql_run_one by blast
qed

lemma d1_loop_run:
  "d1_loop (d1_client svc url token) i (map Run sts) w = (r, w') \<Longrightarrow> list_all S sts \<Longrightarrow> sql_run S (db w) (db w')"
proof (induction sts arbitrary: i w r w')
  case (Cons st sts)
  obtain x w1 where x: "d1_exec (d1_client svc url token) (Run st) w = (x, w1)" by fastforce
  have run: "sql_run S (db w) (db w1)" using d1_exec_run [OF x, of S] Cons.prems(2) by simp
  show ?case
  proof (cases x)
    case (Inl e)
    with Cons.prems(1) x run show ?thesis by simp
  next
    case (Inr a)
    obtain y w2 where y: "d1_loop (d1_client svc url token) (Suc i) (map Run sts) w1 = (y, w2)" by fastforce
    have "w2 = w'" using Cons.prems(1) x Inr y by (auto split: prod.splits)
    with Cons.IH [OF y] Cons.prems(2) run show ?thesis using sql_run_trans by auto
  qed
qed (simp add: sql_run.stay)

lemma d1_try_run:
  assumes "list_all S sts"
  shows "sql_run S (db w) (db (snd (d1_try (d1_client svc url token) er (map Run sts) w)))"
proof -
  obtain x w1 where x: "d1_loop (d1_client svc url token) 0 (map Run sts) w = (x, w1)" by fastforce
  then have "snd (d1_try (d1_client svc url token) er (map Run sts) w) = w1"
    by (auto simp: d1_try_def d1_query_def split: prod.splits option.splits)
  with d1_loop_run [OF x assms] show ?thesis by simp
qed

lemmas try_run =
  d1_try_run [where sts = "[st]" for st, simplified]
  d1_try_run [where sts = "[st1, st2, st3]" for st1 st2 st3, simplified]

lemma and_then_run:
  assumes "sql_run S (db w) (db (snd x))" and "\<And>a w. sql_run S (db w) (db (snd (f a w)))"
  shows "sql_run S (db w) (db (snd (and_then x f)))"
  using assms(1) assms(2) [of "snd x"]
  by (cases x; cases "fst x") (auto simp: and_then_def intro: sql_run_trans)

lemma d1_expired_run:
  "sql_run (stmt_of x) (db w) (db (snd (d1_DeleteExpiredTenants (d1_client svc url token) now w)))"
proof -
  obtain a w1 where a: "d1_try (d1_client svc url token) (d1_wrap ''list expired tenants'') [Run (Select_expired (unix now))] w = (a, w1)"
    by fastforce
  have run: "sql_run (stmt_of x) (db w) (db w1)"
    using try_run(1) [of "stmt_of x" "Select_expired (unix now)" w url token "d1_wrap ''list expired tenants''"] a by simp
  have more: "sql_run (stmt_of x) (db w1) (db (snd (d1_try (d1_client svc url token) (d1_wrap ''delete expired tenants'')
      (map (\<lambda>slug. Run (Delete_tenant slug)) slugs) w1)))" for slugs
    using d1_try_run [of "stmt_of x" "map Delete_tenant slugs" w1 url token] by (simp add: comp_def list_all_iff)
  show ?thesis
    using a run more sql_run_trans [OF run more]
    by (auto simp: d1_DeleteExpiredTenants_def split: sum.splits prod.splits) (metis snd_conv)+
qed

lemma d1_runs: "sql_run (stmt_of x) (db w) (db (snd (api_step (d1_api (d1_client svc url token)) B x w)))"
proof (cases x)
  case (Op_DeleteExpiredTenants now)
  then show ?thesis by (simp add: d1_api_def d1_expired_run)
next
  case (Op_ConsumeAuthCode h now)
  then show ?thesis
    by (auto simp: d1_api_def d1_ConsumeAuthCode_def sql_run.stay intro!: and_then_run try_run)
qed (auto simp: d1_api_def d1_CreateTenantExpiry_def d1_GetTenant_def d1_DeleteTenant_def d1_CountLiveTenants_def
    d1_QuickRateHit_def d1_CreateService_def d1_GetService_def d1_ValidatePassword_def d1_ValidateAgentKey_def
    d1_CreateSigningKey_def d1_GetSigningKey_def d1_CreateOAuthClient_def d1_GetOAuthClient_def
    d1_CreateAuthCode_def Let_def sql_run.stay intro!: and_then_run try_run split: prod.splits)

lemma d1_claim:
  assumes ok: "db_ok (db w)" and run: "ConsumeAuthCode (d1_api (d1_client svc url token)) h now w = (Inr i, w')"
  shows "\<not> used_up h (db w) \<and> used_up h (db w')"
proof -
  let ?C = "d1_client svc url token"
  obtain a w1 where a: "d1_exec ?C (Run (Claim_code (unix now) h)) w = (a, w1)" by fastforce
  with run obtain r where r: "a = Inr r" "st_rows_written r \<noteq> 0"
    and sel: "\<exists>x. d1_exec ?C (Run (Select_code h)) w1 = (x, w')"
    by (cases a) (auto simp: d1_api_def d1_ConsumeAuthCode_def d1_try_def d1_query_def and_then_def
        split: prod.splits sum.splits if_splits option.splits)
  obtain q where q: "sql_exec (Claim_code (unix now) h) (db w) = Inr (q, db w1)" "r = d1_done q"
    using exec_acknowledged a r(1) by blast
  then have "rs_changes q \<noteq> 0" using r(2) by (auto simp: change_result_def)
  moreover from sel obtain x where x: "d1_exec ?C (Run (Select_code h)) w1 = (x, w')" by blast
  have "sql_run (\<lambda>st. st = Select_code h) (db w1) (db w')" by (rule d1_exec_run [OF x]) simp
  then have "db w' = db w1" by (rule sql_run_invariant [where P = "\<lambda>d. d = db w1"]) auto
  ultimately show ?thesis using claim_effect [OF q(1)] ok by simp
qed

end

sublocale d1_service \<subseteq> faulty: fault_contract "d1_api (d1_client svc url token)" db
  for url token
  by unfold_locales (rule d1_runs, rule d1_claim)

text \<open>
  A network over which a request is delivered and answered, lost before it arrives, or run with its
  reply lost or unreadable.
\<close>

datatype d1_fate = Delivered | Request_lost string | Reply_lost string | Garbled nat string

record d1_net =
  dn_db :: database
  dn_fates :: "d1_fate list"

definition d1_lossy :: "d1_net d1_service" where
  "d1_lossy url auth req n =
     (let (fate, n) = (case dn_fates n of [] \<Rightarrow> (Delivered, n) | f # fs \<Rightarrow> (f, n\<lparr>dn_fates := fs\<rparr>));
          (rep, w) = d1_ideal url auth req \<lparr>dw_db = dn_db n, dw_faults = []\<rparr>;
          ran = n\<lparr>dn_db := dw_db w\<rparr>
      in case fate of
           Delivered \<Rightarrow> (rep, ran)
         | Request_lost m \<Rightarrow> (Transport_failed m, n)
         | Reply_lost m \<Rightarrow> (Read_failed m, ran)
         | Garbled status raw \<Rightarrow> (Undecodable status raw, ran))"

lemma d1_ideal_runs:
  assumes "d1_ideal url auth (Run st) \<lparr>dw_db = d, dw_faults = []\<rparr> = (rep, w)"
  shows "(\<forall>r. d1_reply rep = Inr r \<longrightarrow> (\<exists>q. sql_exec st d = Inr (q, dw_db w) \<and> r = d1_done q))
    \<and> (dw_db w \<noteq> d \<longrightarrow> (\<exists>q. sql_exec st d = Inr (q, dw_db w)))"
  using assms by (auto simp: d1_ideal_def Let_def d1_done_def simp del: sql_exec.simps split: sum.splits)

interpretation lossy: d1_service d1_lossy dn_db
proof
  fix url auth st n rep n'
  assume run: "d1_lossy url auth (Run st) n = (rep, n')"
  obtain rep0 w where w: "d1_ideal url auth (Run st) \<lparr>dw_db = dn_db n, dw_faults = []\<rparr> = (rep0, w)" by fastforce
  define fate where "fate = (case dn_fates n of [] \<Rightarrow> Delivered | f # fs \<Rightarrow> f)"
  have out: "(case fate of Delivered \<Rightarrow> rep = rep0 \<and> dn_db n' = dw_db w
      | Request_lost m \<Rightarrow> rep = Transport_failed m \<and> dn_db n' = dn_db n
      | Reply_lost m \<Rightarrow> rep = Read_failed m \<and> dn_db n' = dw_db w
      | Garbled status raw \<Rightarrow> rep = Undecodable status raw \<and> dn_db n' = dw_db w)"
    using run w by (auto simp: d1_lossy_def fate_def Let_def split: list.splits d1_fate.splits)
  note ran = d1_ideal_runs [OF w]
  show "\<exists>q. sql_exec st (dn_db n) = Inr (q, dn_db n') \<and> r = d1_done q" if "d1_reply rep = Inr r" for r
    using that out ran by (cases fate) (simp_all del: sql_exec.simps)
  show "\<exists>q. sql_exec st (dn_db n) = Inr (q, dn_db n')" if "dn_db n' \<noteq> dn_db n"
    using that out ran by (cases fate) (simp_all del: sql_exec.simps)
qed

end
