(* ===== verification/Statement_History.thy ===== *)
theory Statement_History
  imports Handler_Runs Store_Faults
begin

text \<open>
  Histories of the SQL statements of concurrent requests, under every schedule of driver faults: what
  of the daemon's history reaches the database, and what each statement can say of the registry at
  the moment it ran.
\<close>

section \<open>The statements of a history\<close>

fun db_log :: "(('x, 'k) call \<times> ('y, 'k) answer) list \<Rightarrow> ('x \<times> 'y) list" where
  "db_log [] = []"
| "db_log ((Db x, Db_answer y) # tr) = (x, y) # db_log tr"
| "db_log (_ # tr) = db_log tr"

lemma db_log_append [simp]: "db_log (tr @ tr') = db_log tr @ db_log tr'"
  by (induction tr rule: db_log.induct) simp_all

text \<open>Calls of the backend are answered by the backend.\<close>

definition typed :: "(('x, 'k) call \<times> ('y, 'k) answer) list \<Rightarrow> bool" where
  "typed tr \<longleftrightarrow> list_all (\<lambda>(x, y). \<forall>x'. x = Db x' \<longrightarrow> (\<exists>y'. y = Db_answer y')) tr"

lemma typed_simps [simp]: "typed []" "typed (tr @ tr') \<longleftrightarrow> typed tr \<and> typed tr'"
  "typed ((x, y) # tr) \<longleftrightarrow> (\<forall>x'. x = Db x' \<longrightarrow> (\<exists>y'. y = Db_answer y')) \<and> typed tr"
  by (simp_all add: typed_def)

lemma world_step:
  assumes "call_world f x sh = Some (y, sh')"
  shows "(\<exists>x' y'. x = Db x' \<and> y = Db_answer y' \<and> f x' (dm_store (sh_daemon sh)) = Some (y', dm_store (sh_daemon sh')))
    \<or> (\<forall>x'. x \<noteq> Db x') \<and> dm_store (sh_daemon sh') = dm_store (sh_daemon sh)"
  using assms
  by (cases x) (auto simp: Let_def on_gateway_def split: option.splits prod.splits if_splits pc.splits)

lemma replay_db:
  "replay (call_world f) tr sh = Some sh' \<Longrightarrow>
   typed tr \<and> replay f (db_log tr) (dm_store (sh_daemon sh)) = Some (dm_store (sh_daemon sh'))"
proof (induction tr arbitrary: sh)
  case Nil
  then show ?case by simp
next
  case (Cons xy tr)
  obtain x y where xy: "xy = (x, y)" by (cases xy)
  then obtain sh1 where x: "call_world f x sh = Some (y, sh1)" and tr: "replay (call_world f) tr sh1 = Some sh'"
    using Cons.prems by (auto split: option.splits if_splits)
  from world_step [OF x] show ?case
  proof (elim disjE exE conjE)
    fix x' y'
    assume "x = Db x'" "y = Db_answer y'" "f x' (dm_store (sh_daemon sh)) = Some (y', dm_store (sh_daemon sh1))"
    with Cons.IH [OF tr] xy show ?thesis by simp
  next
    assume "\<forall>x'. x \<noteq> Db x'" "dm_store (sh_daemon sh1) = dm_store (sh_daemon sh)"
    with Cons.IH [OF tr] xy show ?thesis by (cases x) simp_all
  qed
qed

text \<open>A store's program inside a handler makes the calls of the store's program.\<close>

definition db_event :: "'x \<times> 'y \<Rightarrow> ('x, 'k) call \<times> ('y, 'k) answer" where
  "db_event xy = (Db (fst xy), Db_answer (snd xy))"

lemma db_log_events [simp]: "db_log (map db_event tr) = tr"
  by (induction tr) (auto simp: db_event_def)

lemma after_on_db:
  assumes "after (on_db p) tr = Some q" and "typed tr"
  shows "\<exists>p'. after p (db_log tr) = Some p' \<and> q = on_db p' \<and> tr = map db_event (db_log tr)"
  using assms
proof (induction p arbitrary: tr)
  case (Ret a)
  then show ?case by (intro exI [of _ "Ret a"]) simp
next
  case (Call x k)
  show ?case
  proof (cases tr)
    case Nil
    with Call.prems show ?thesis by (intro exI [of _ "Call x k"]) simp
  next
    case (Cons xy tr')
    with Call.prems obtain y where xy: "xy = (Db x, Db_answer y)" and k: "after (on_db (k y)) tr' = Some q" and t: "typed tr'"
      by (cases xy) (auto split: if_splits)
    from Call.IH [OF rangeI k t] Cons xy show ?thesis by (auto simp: db_event_def)
  qed
qed

lemma on_db_Ret:
  assumes "after (on_db p) tr = Some (Ret a)" and "typed tr"
  shows "after p (db_log tr) = Some (Ret a)"
  using after_on_db [OF assms]
proof (elim exE conjE)
  fix p'
  assume "after p (db_log tr) = Some p'" and "Ret a = on_db p'"
  then show ?thesis by (cases p') simp_all
qed

section \<open>One statement\<close>

fun stmt :: "db_call \<Rightarrow> statement" where
  "stmt (Do_exec st) = st"
| "stmt (Do_query st) = st"

text \<open>How a statement that ran is answered; a fault may cut the rows short.\<close>

fun answers_to :: "db_call \<Rightarrow> sql_result \<Rightarrow> db_answer \<Rightarrow> bool" where
  "answers_to (Do_exec st) q (Changed n) \<longleftrightarrow> n = rs_changes q"
| "answers_to (Do_query st) q (Rows rows e) \<longleftrightarrow> (\<exists>n. rows = take n (rs_rows q))"
| "answers_to _ q y \<longleftrightarrow> False"

lemma cut_take: "\<exists>n. fst (cut_rows f rs) = take n rs"
proof -
  have "fst (cut_rows f rs) = take (case f of Rows_fault n m \<Rightarrow> n | _ \<Rightarrow> length rs) rs" by (cases f) simp_all
  then show ?thesis by (rule exI)
qed

lemma sql_step:
  assumes "sql_world x c = Some (y, c')"
  shows "c_db c' = c_db c \<and> (\<exists>m. y = Db_failed m) \<or>
    (\<exists>q. sql_exec (stmt x) (c_db c) = Inr (q, c_db c') \<and> answers_to x q y)"
proof (cases x)
  case (Do_exec st)
  obtain r c1 where e: "db_exec st c = (r, c1)" by fastforce
  show ?thesis
  proof (cases r)
    case (Inl m)
    with e have "c_db c1 = c_db c"
      by (auto simp: db_exec_def simp del: sql_exec.simps split: prod.splits fault.splits sum.splits)
    with assms Do_exec e Inl show ?thesis by auto
  next
    case (Inr n)
    with e exec_effect [of st c n c1] assms Do_exec show ?thesis by auto
  qed
next
  case (Do_query st)
  obtain f c1 where f: "next_fault c = (f, c1)" by fastforce
  then have c1: "c_db c1 = c_db c" by simp
  show ?thesis
  proof (cases "sql_exec st (c_db c)")
    case (Inl e)
    with assms Do_query f c1 show ?thesis by (cases f) (auto simp: db_query_def simp del: sql_exec.simps)
  next
    case (Inr qd)
    obtain q d where q: "sql_exec st (c_db c) = Inr (q, d)" using Inr by (cases qd) simp
    obtain rows e where cut: "cut_rows f (rs_rows q) = (rows, e)" by fastforce
    with cut_take [of f "rs_rows q"] have "\<exists>n. rows = take n (rs_rows q)" by simp
    with assms Do_query f c1 q cut show ?thesis
      by (cases f) (auto simp: db_query_def simp del: sql_exec.simps)
  qed
qed

lemma sql_step_ok: "sql_world x c = Some (y, c') \<Longrightarrow> db_ok (c_db c) \<Longrightarrow> db_ok (c_db c')"
  using sql_step sql_exec_ok by fastforce

lemma history_ok: "replay sql_world tr c = Some c' \<Longrightarrow> db_ok (c_db c) \<Longrightarrow> db_ok (c_db c')"
  by (erule replay_invariant [where I = "\<lambda>c. db_ok (c_db c)"]) (assumption, rule sql_step_ok)

section \<open>Codes\<close>

definition claims_code :: "string \<Rightarrow> db_call \<times> db_answer \<Rightarrow> bool" where
  "claims_code h xy = (case xy of (Do_exec (Claim_code now h'), Changed n) \<Rightarrow> h' = h \<and> n \<noteq> 0 | _ \<Rightarrow> False)"

definition inserts_code :: "string \<Rightarrow> statement \<Rightarrow> bool" where
  "inserts_code h st = (case st of Insert_code h' t cid uri ch e \<Rightarrow> h' = h | _ \<Rightarrow> False)"

lemma used_up_stmt:
  assumes "sql_exec st d = Inr (q, d')" and "\<not> inserts_code h st" and "used_up h d"
  shows "used_up h d'"
proof (cases "\<exists>h' t cid uri ch e. st = Insert_code h' t cid uri ch e")
  case True
  then obtain h' t cid uri ch e where st: "st = Insert_code h' t cid uri ch e" by blast
  show ?thesis
    by (rule used_up_exec [OF assms(1), of h "Op_CreateAuthCode h' t cid uri ch e"])
      (use assms(2,3) in \<open>simp_all add: st inserts_code_def\<close>)
next
  case False
  show ?thesis
    by (rule used_up_exec [OF assms(1), of h "Op_GetTenant []"]) (use assms(3) False in \<open>auto simp: stmt_of_def\<close>)
qed

lemma claimsE:
  assumes "claims_code h (x, y)"
  obtains now n where "x = Do_exec (Claim_code now h)" and "y = Changed n" and "n \<noteq> 0"
  using assms by (auto simp: claims_code_def split: db_call.splits statement.splits db_answer.splits)

lemma claim_step:
  assumes "sql_world x c = Some (y, c')" and "claims_code h (x, y)" and "db_ok (c_db c)"
  shows "\<not> used_up h (c_db c)" and "used_up h (c_db c')"
proof -
  obtain now n where x: "x = Do_exec (Claim_code now h)" "y = Changed n" "n \<noteq> 0"
    using assms(2) by (rule claimsE)
  with sql_step [OF assms(1)] obtain q where q: "sql_exec (Claim_code now h) (c_db c) = Inr (q, c_db c')" "rs_changes q \<noteq> 0"
    by (auto simp del: sql_exec.simps)
  from claim_effect [OF q(1)] q(2) assms(3) show "\<not> used_up h (c_db c)" and "used_up h (c_db c')" by blast+
qed

lemma used_up_step:
  assumes "sql_world x c = Some (y, c')" and "\<not> inserts_code h (stmt x)" and "used_up h (c_db c)"
  shows "used_up h (c_db c')"
  using sql_step [OF assms(1)] used_up_stmt assms(2,3) by fastforce

lemma no_claim_left:
  "replay sql_world tr c = Some c' \<Longrightarrow> db_ok (c_db c) \<Longrightarrow> used_up h (c_db c) \<Longrightarrow>
   list_all (\<lambda>xy. \<not> inserts_code h (stmt (fst xy))) tr \<Longrightarrow> filter (claims_code h) tr = []"
proof (induction tr arbitrary: c)
  case (Cons xy tr)
  obtain x y c1 where xy: "xy = (x, y)" and x: "sql_world x c = Some (y, c1)" and tr: "replay sql_world tr c1 = Some c'"
    using Cons.prems(1) by (cases xy) (auto split: option.splits if_splits)
  have "\<not> claims_code h (x, y)" using claim_step(1) [OF x _ Cons.prems(2)] Cons.prems(3) by blast
  moreover have "used_up h (c_db c1)" using used_up_step [OF x _ Cons.prems(3)] Cons.prems(4) xy by simp
  ultimately show ?case using Cons.IH [OF tr sql_step_ok [OF x Cons.prems(2)]] Cons.prems(4) xy by simp
qed simp

lemma one_claim:
  "replay sql_world tr c = Some c' \<Longrightarrow> db_ok (c_db c) \<Longrightarrow>
   list_all (\<lambda>xy. \<not> inserts_code h (stmt (fst xy))) tr \<Longrightarrow> length (filter (claims_code h) tr) \<le> 1"
proof (induction tr arbitrary: c)
  case (Cons xy tr)
  obtain x y c1 where xy: "xy = (x, y)" and x: "sql_world x c = Some (y, c1)" and tr: "replay sql_world tr c1 = Some c'"
    using Cons.prems(1) by (cases xy) (auto split: option.splits if_splits)
  note ok = sql_step_ok [OF x Cons.prems(2)]
  show ?case
  proof (cases "claims_code h xy")
    case True
    with no_claim_left [OF tr ok claim_step(2) [OF x _ Cons.prems(2)]] Cons.prems(3) xy show ?thesis by simp
  next
    case False
    with Cons.IH [OF tr ok] Cons.prems(3) show ?thesis by simp
  qed
qed simp

section \<open>Tenants and services\<close>

definition inserts_service :: "string \<Rightarrow> statement \<Rightarrow> bool" where
  "inserts_service t st = (case st of Insert_service t' n kh am ph c \<Rightarrow> t' = t | Insert_service_if t' n kh am ph c \<Rightarrow> t' = t | _ \<Rightarrow> False)"

lemma insert_service_row_view:
  assumes "insert_service_row r d = Inr (q, d')"
  shows "rg_tenants (view_db d') = rg_tenants (view_db d)"
    and "sr_tenant_slug r \<noteq> t \<Longrightarrow> rg_services (view_db d') (t, n) = rg_services (view_db d) (t, n)"
  using assms by (auto simp: insert_service_row_def service_key_def split: if_splits)

lemma stmt_tenant:
  assumes "sql_exec st d = Inr (q, d')" and "db_ok d" and "st \<noteq> Delete_tenant t" and "t \<in> dom (rg_tenants (view_db d))"
  shows "rg_tenants (view_db d') t = rg_tenants (view_db d) t"
proof (cases st)
  case (Delete_tenant t')
  with assms drop_tenants_view [OF assms(2), of t'] show ?thesis
    by (auto simp: drop_tenants_def restrict_map_def Let_def simp del: view_db_sel split: if_splits)
next
  case (Insert_service a b k m p n)
  with assms insert_service_row_view(1) show ?thesis by simp
next
  case (Insert_service_if a b k m p n)
  with assms insert_service_row_view(1) show ?thesis by (auto split: if_splits)
qed (use assms in \<open>auto simp: Let_def has_tenant_def split: if_splits\<close>)

lemma stmt_services:
  assumes "sql_exec st d = Inr (q, d')" and "db_ok d" and "st \<noteq> Delete_tenant t" and "\<not> inserts_service t st"
  shows "rg_services (view_db d') (t, n) = rg_services (view_db d) (t, n)"
proof (cases st)
  case (Delete_tenant t')
  with assms drop_tenants_view [OF assms(2), of t'] show ?thesis
    by (auto simp: drop_tenants_def Let_def simp del: view_db_sel split: if_splits)
next
  case (Insert_service a b k m p x)
  with assms insert_service_row_view(2) [where t = t and n = n] show ?thesis by (force simp: inserts_service_def)
next
  case (Insert_service_if a b k m p x)
  with assms insert_service_row_view(2) [where t = t and n = n] show ?thesis
    by (force simp: inserts_service_def split: if_splits)
qed (use assms in \<open>auto simp: Let_def split: if_splits\<close>)

text \<open>While no statement deletes it, a tenant stays, and cannot be inserted again.\<close>

lemma tenant_step:
  assumes "sql_world x c = Some (y, c')" and "db_ok (c_db c)" and "stmt x \<noteq> Delete_tenant t"
    and "t \<in> dom (rg_tenants (view_conn c))"
  shows "rg_tenants (view_conn c') t = rg_tenants (view_conn c) t"
  using sql_step [OF assms(1)] stmt_tenant [OF _ assms(2,3)] assms(4) by (auto simp: view_conn_def simp del: view_db_sel)

lemma tenant_insert_fails:
  assumes "sql_world (Do_exec (Insert_tenant t name a b)) c = Some (y, c')" and "t \<in> dom (rg_tenants (view_conn c))"
  shows "\<exists>m. y = Db_failed m"
  using sql_step [OF assms(1)] assms(2) by (auto simp: view_conn_def has_tenant_def)

lemma tenant_kept:
  "replay sql_world tr c = Some c' \<Longrightarrow> db_ok (c_db c) \<Longrightarrow> t \<in> dom (rg_tenants (view_conn c)) \<Longrightarrow>
   list_all (\<lambda>xy. stmt (fst xy) \<noteq> Delete_tenant t) tr \<Longrightarrow>
   rg_tenants (view_conn c') t = rg_tenants (view_conn c) t \<and>
   list_all (\<lambda>(x, y). \<forall>name a b. x = Do_exec (Insert_tenant t name a b) \<longrightarrow> (\<exists>m. y = Db_failed m)) tr"
proof (induction tr arbitrary: c)
  case (Cons xy tr)
  obtain x y c1 where xy: "xy = (x, y)" and x: "sql_world x c = Some (y, c1)" and tr: "replay sql_world tr c1 = Some c'"
    using Cons.prems(1) by (cases xy) (auto split: option.splits if_splits)
  have same: "rg_tenants (view_conn c1) t = rg_tenants (view_conn c) t"
    using tenant_step [OF x Cons.prems(2) _ Cons.prems(3)] Cons.prems(4) xy by simp
  then have "t \<in> dom (rg_tenants (view_conn c1))" using Cons.prems(3) by (simp add: domIff)
  from Cons.IH [OF tr sql_step_ok [OF x Cons.prems(2)] this] Cons.prems(4) same
  have "rg_tenants (view_conn c') t = rg_tenants (view_conn c) t"
    "list_all (\<lambda>(x, y). \<forall>name a b. x = Do_exec (Insert_tenant t name a b) \<longrightarrow> (\<exists>m. y = Db_failed m)) tr" by simp_all
  moreover have "\<exists>m. y = Db_failed m" if "x = Do_exec (Insert_tenant t name a b)" for name a b
    using tenant_insert_fails [OF _ Cons.prems(3)] x unfolding that .
  ultimately show ?case by (auto simp: xy)
qed simp

lemma services_kept:
  "replay sql_world tr c = Some c' \<Longrightarrow> db_ok (c_db c) \<Longrightarrow>
   list_all (\<lambda>xy. stmt (fst xy) \<noteq> Delete_tenant t \<and> \<not> inserts_service t (stmt (fst xy))) tr \<Longrightarrow>
   rg_services (view_conn c') (t, n) = rg_services (view_conn c) (t, n)"
proof (induction tr arbitrary: c)
  case (Cons xy tr)
  obtain x y c1 where xy: "xy = (x, y)" and x: "sql_world x c = Some (y, c1)" and tr: "replay sql_world tr c1 = Some c'"
    using Cons.prems(1) by (cases xy) (auto split: option.splits if_splits)
  have "rg_services (view_conn c1) (t, n) = rg_services (view_conn c) (t, n)"
    using sql_step [OF x] stmt_services [OF _ Cons.prems(2), of "stmt x" _ _ t n] Cons.prems(3) xy
    by (auto simp: view_conn_def simp del: view_db_sel)
  with Cons.IH [OF tr sql_step_ok [OF x Cons.prems(2)]] Cons.prems(3) show ?case by simp
qed simp

section \<open>What a query says of its moment\<close>

lemma service_read:
  assumes "sql_world (Do_query (Select_service t n)) c = Some (Rows rows e, c')"
    and "scanned_row (Inr (rows, e)) = Inr row" and "scan_service row = Inr svc"
  shows "rg_services (view_conn c) (t, n) = Some svc"
proof -
  let ?rs = "filter (\<lambda>r. service_key r = (t, n)) (services (c_db c))"
  obtain k where rows: "rows = take k (map service_cols ?rs)" using sql_step [OF assms(1)] by (auto simp: rows_result_def)
  then obtain r rs where "?rs = r # rs" "row = service_cols r"
    using assms(2) by (cases k; cases ?rs) (auto simp: scanned_row_def split: option.splits)
  then show ?thesis using assms(3) by (simp add: view_conn_def row_map_filter)
qed

lemma scan_slugs_take:
  "scan_slugs (take k (map (\<lambda>r. [(''slug'', SQL_Text (tr_slug r))]) rs)) = Inr slugs \<Longrightarrow> set slugs \<subseteq> tr_slug ` set rs"
  using image_mono [OF set_take_subset, of tr_slug k rs] by (auto simp: take_map)

lemma expired_read:
  assumes "sql_world (Do_query (Select_expired (unix now))) c = Some (Rows rows e, c')"
    and "scan_slugs rows = Inr slugs" and "db_ok (c_db c)"
  shows "set slugs \<subseteq> expired_tenants now (view_conn c)"
proof -
  obtain k where "rows = take k (map (\<lambda>r. [(''slug'', SQL_Text (tr_slug r))]) (filter (is_expired (unix now)) (tenants (c_db c))))"
    using sql_step [OF assms(1)] by (auto simp: rows_result_def)
  with assms(2) scan_slugs_take show ?thesis unfolding view_conn_def expired_view [OF assms(3)] by blast
qed

end
