(* ===== verification/Task_Traces.thy ===== *)
theory Task_Traces
  imports Statement_History
begin

text \<open>
  The daemon's tasks as programs (a request with what its handler does after the answer, a tick of the
  janitor, a session's end), and what the calls of a task can be: which statements a handler issues at
  all, and what it has read before it deletes a tenant, inserts a service or claims a code.
\<close>

lemma calls_in_on_db [intro]: "calls_in (\<lambda>x. Q (Db x)) p \<Longrightarrow> calls_in Q (on_db p)"
  by (induction p) simp_all

section \<open>The tasks of the daemon\<close>

text \<open>A request, a tick of the janitor, the end of a session's connection.\<close>

datatype task = Ask visit request | Purge time | Death nat

text \<open>
  The gateway's handler goes on after the registration: it closes the session it displaced, waits for
  its own to end, and unregisters it.
\<close>

definition hp_stay :: "daemon_reply \<Rightarrow> ('x, 'y, 'k, daemon_reply option) handler" where
  "hp_stay reply =
     (case reply of
        Connected i \<Rightarrow> Call (Close_displaced i) (\<lambda>_. Call (Await_close i) (\<lambda>_. Ret (Some reply)))
      | _ \<Rightarrow> Ret (Some reply))"

fun hp_task ::
  "('x, 'y) store_code \<Rightarrow> bcrypt \<Rightarrow> ('k, 'p) crypto \<Rightarrow> string \<Rightarrow> daemon_config \<Rightarrow> task \<Rightarrow> ('x, 'y, 'k, daemon_reply option) handler" where
  "hp_task P B C base c (Ask v r) = prog_bind (hp_serve P B C base c v r) hp_stay"
| "hp_task P B C base c (Purge now) = prog_bind (on_db (p_DeleteExpiredTenants P now)) (\<lambda>_. Ret None)"
| "hp_task P B C base c (Death i) = Call (Kill_session i) (\<lambda>_. Ret None)"

text \<open>A schedule of the daemon's tasks over the SQLite store.\<close>

definition tasks_run ::
  "bcrypt \<Rightarrow> ('k, 'p) crypto \<Rightarrow> string \<Rightarrow> daemon_config \<Rightarrow> nat list \<Rightarrow> task list \<Rightarrow> (conn, 'k) shared
    \<Rightarrow> ((db_call, 'k) call, (db_answer, 'k) answer, daemon_reply option, (conn, 'k) shared) pool option" where
  "tasks_run B C base c sched tasks sh =
     pool_run (call_world sql_world) sched (pool_start (map (hp_task sqlite_code B C base c) tasks) sh)"

definition sh_conn :: "(conn, 'k) shared \<Rightarrow> conn" where
  "sh_conn sh = dm_store (sh_daemon sh)"

lemma sqlite_code_sel [simp]:
  "p_CreateTenantExpiry sqlite_code = sp_CreateTenantExpiry" "p_GetTenant sqlite_code = sp_GetTenant"
  "p_DeleteTenant sqlite_code = sp_DeleteTenant" "p_DeleteExpiredTenants sqlite_code = sp_DeleteExpiredTenants"
  "p_CountLiveTenants sqlite_code = sp_CountLiveTenants" "p_QuickRateHit sqlite_code = sp_QuickRateHit"
  "p_CreateService sqlite_code = sp_CreateService" "p_GetService sqlite_code = sp_GetService"
  "p_ValidatePassword sqlite_code = sp_ValidatePassword" "p_ValidateAgentKey sqlite_code = sp_ValidateAgentKey"
  "p_CreateSigningKey sqlite_code = sp_CreateSigningKey" "p_GetSigningKey sqlite_code = sp_GetSigningKey"
  "p_CreateOAuthClient sqlite_code = sp_CreateOAuthClient" "p_GetOAuthClient sqlite_code = sp_GetOAuthClient"
  "p_CreateAuthCode sqlite_code = sp_CreateAuthCode" "p_ConsumeAuthCode sqlite_code = sp_ConsumeAuthCode"
  by (simp_all add: sqlite_code_def)

section \<open>Which statements a handler issues\<close>

text \<open>
  A call that neither deletes a tenant nor inserts a service; and of these, one that does not touch the
  rate counters either.
\<close>

definition deletes :: "statement \<Rightarrow> bool" where
  "deletes st \<longleftrightarrow> (\<exists>t. st = Delete_tenant t)"

definition mild :: "db_call \<Rightarrow> bool" where
  "mild x \<longleftrightarrow> \<not> deletes (stmt x) \<and> (\<forall>t. \<not> inserts_service t (stmt x))"

fun counts :: "statement \<Rightarrow> bool" where
  "counts (Prune_rate w) = True"
| "counts (Upsert_rate ip w) = True"
| "counts (Select_rate ip w) = True"
| "counts _ = False"

definition plain :: "db_call \<Rightarrow> bool" where
  "plain x \<longleftrightarrow> mild x \<and> \<not> counts (stmt x)"

definition plain_call :: "(db_call, 'k) call \<Rightarrow> bool" where
  "plain_call x \<longleftrightarrow> (\<forall>x'. x = Db x' \<longrightarrow> plain x')"

lemma mild_simps [simp]:
  "mild (Do_exec (Insert_tenant a b n m))" "mild (Do_query (Select_tenant a))" "mild (Do_query (Select_expired n))"
  "mild (Do_query (Count_live n))" "mild (Do_exec (Prune_rate n))" "mild (Do_exec (Upsert_rate a n))"
  "mild (Do_query (Select_rate a n))" "mild (Do_query (Select_service a b))" "mild (Do_exec (Insert_key_or_ignore a b n))"
  "mild (Do_query (Select_key a))" "mild (Do_exec (Insert_client a b d n))" "mild (Do_query (Select_client a b))"
  "mild (Do_exec (Insert_code a b d e g n))" "mild (Do_exec (Claim_code n a))" "mild (Do_query (Select_code a))"
  by (simp_all add: mild_def deletes_def inserts_service_def)

lemma plain_simps [simp]:
  "plain (Do_exec (Insert_tenant a b n m))" "plain (Do_query (Select_tenant a))" "plain (Do_query (Select_expired n))"
  "plain (Do_query (Count_live n))" "plain (Do_query (Select_service a b))" "plain (Do_exec (Insert_key_or_ignore a b n))"
  "plain (Do_query (Select_key a))" "plain (Do_exec (Insert_client a b d n))" "plain (Do_query (Select_client a b))"
  "plain (Do_exec (Insert_code a b d e g n))" "plain (Do_exec (Claim_code n a))" "plain (Do_query (Select_code a))"
  by (simp_all add: plain_def)

lemma plain_mild [simp]: "plain x \<Longrightarrow> mild x"
  by (simp add: plain_def)

lemma plain_call_simps [simp]: "plain_call (Db x) \<longleftrightarrow> plain x" "plain_call (Count_register a n)" "plain_call (Count_token a n)"
  "plain_call Lock_servers" "plain_call (Get_server a)" "plain_call (Put_server a srv)" "plain_call Unlock_servers"
  "plain_call (Dial_session a b)" "plain_call (Swap_session a i)" "plain_call (Close_displaced i)" "plain_call (Await_close i)"
  "plain_call (Kill_session i)"
  by (simp_all add: plain_call_def)

lemma calls_in_sp [simp]:
  "Q (Do_exec st) \<Longrightarrow> calls_in Q (sp_exec err g st)"
  "Q (Do_query st) \<Longrightarrow> calls_in Q (sp_row serr scan st)"
  by (simp_all add: sp_exec_def sp_row_def exec_prog_def row_prog_def query_prog_def)

lemma calls_in_and_then: "calls_in Q p \<Longrightarrow> (\<And>a. calls_in Q (g a)) \<Longrightarrow> calls_in Q (prog_and_then p g)"
  unfolding prog_and_then_def by (rule calls_in_bind) (auto split: sum.split)

lemma plain_methods [simp]:
  "calls_in plain (sp_CreateTenantExpiry a b e now)" "calls_in plain (sp_GetTenant a)" "calls_in plain (sp_CountLiveTenants now)"
  "calls_in plain (sp_GetService a b)" "calls_in plain (sp_ValidatePassword B a b p)"
  "calls_in plain (sp_ValidateAgentKey B a b p)" "calls_in plain (sp_CreateSigningKey a b now)" "calls_in plain (sp_GetSigningKey a)"
  "calls_in plain (sp_CreateOAuthClient a b p now)" "calls_in plain (sp_GetOAuthClient a b)"
  "calls_in plain (sp_CreateAuthCode h a b p q now)" "calls_in plain (sp_ConsumeAuthCode h now)"
  by (simp_all add: sp_CreateTenantExpiry_def sp_GetTenant_def sp_CountLiveTenants_def sp_GetService_def
      sp_ValidatePassword_def sp_ValidateAgentKey_def sp_CreateSigningKey_def sp_GetSigningKey_def sp_CreateOAuthClient_def
      sp_GetOAuthClient_def sp_CreateAuthCode_def sp_ConsumeAuthCode_def Let_def calls_in_and_then)

lemma plain_on_db [simp]: "calls_in plain p \<Longrightarrow> calls_in plain_call (on_db p)"
  by (rule calls_in_on_db) simp

lemmas plain_intros = calls_in_bind plain_on_db

lemma plain_resolver [simp]: "calls_in plain_call (hp_resolver_server sqlite_code C base pem now t)"
proof -
  have "calls_in plain (hp_NewServer sqlite_code C base t e pem now)" for e
    unfolding hp_NewServer_def Let_def by (auto intro!: calls_in_bind split: sum.split option.split)
  then show ?thesis unfolding hp_resolver_server_def unlocked_def Let_def
    by (auto intro!: calls_in_bind split: sum.split option.split)
qed

lemma plain_register [simp]: "calls_in plain_call (hp_handleRegister sqlite_code srv env r)"
  unfolding hp_handleRegister_def Let_def by (auto intro!: calls_in_bind split: sum.split option.split)

lemma plain_token [simp]: "calls_in plain_call (hp_handleToken sqlite_code C srv env r)"
  unfolding hp_handleToken_def Let_def by (auto intro!: calls_in_bind split: sum.split option.split)

lemma plain_authorize [simp]: "calls_in plain (hp_handleAuthorize sqlite_code B C srv env r)"
  unfolding hp_handleAuthorize_def hp_hasPassword_def Let_def
  by (auto intro!: calls_in_bind split: sum.split option.split)

lemma plain_oauth [simp]: "calls_in plain_call (hp_resolver_handle sqlite_code B C base pem now env r)"
  unfolding hp_resolver_handle_def hp_oauth_serve_def
  by (auto intro!: calls_in_bind split: option.split endpoint.split)

lemma plain_well_known [simp]: "calls_in plain_call (hp_well_known_handle sqlite_code C base pem now r)"
  unfolding hp_well_known_handle_def by (auto intro!: calls_in_bind split: option.split)

lemma plain_proxy [simp]: "calls_in plain_call (hp_proxy_serve sqlite_code C base fwd pem ns now r)"
  unfolding hp_proxy_serve_def hp_proxy_decide_def hp_proxy_authorize_def Let_def
  by (auto intro!: calls_in_bind split: option.split sum.split prod.split verdict.split)

lemma plain_gateway [simp]: "calls_in plain_call (hp_gateway_connect sqlite_code B v r)"
  unfolding hp_gateway_connect_def hp_gateway_admit_def Let_def
  by (auto intro!: calls_in_bind split: option.split sum.split)

lemma plain_stay [simp]: "calls_in plain_call (hp_stay reply)"
  by (simp add: hp_stay_def split: daemon_reply.split)

lemma plain_handle:
  "server_route (rq_method r) (rq_path r) \<noteq> C_control_plane \<Longrightarrow> calls_in plain_call (hp_handle sqlite_code B C base v r)"
  unfolding hp_handle_def by (auto intro!: calls_in_bind split: component.split)

text \<open>\<open>QuickRateHit\<close> touches the counters, of its own address and window.\<close>

definition counts_for :: "string \<Rightarrow> int \<Rightarrow> db_call \<Rightarrow> bool" where
  "counts_for ip w x \<longleftrightarrow> plain x \<or> x \<in> {Do_exec (Prune_rate (w - 2)), Do_exec (Upsert_rate ip w), Do_query (Select_rate ip w)}"

lemma counts_mild: "counts_for ip w x \<Longrightarrow> mild x"
  by (auto simp: counts_for_def)

lemma hp_allowQuick_rate: "hp_allowQuick P (rq_remote r) now =
    prog_bind (p_QuickRateHit P (rate_ip r) now) (\<lambda>x. case x of Inl e \<Rightarrow> Ret True | Inr count \<Rightarrow> Ret (count \<le> quickRateLimit))"
  by (simp add: hp_allowQuick_def rate_ip_def Let_def)

lemma quick_admit_counts: "calls_in (counts_for (rate_ip r) (rate_window (qe_rate_now env))) (hp_quick_admit sqlite_code env r)"
proof -
  have plain: "calls_in (counts_for ip w) p" if "calls_in plain p" for ip w and p :: "(db_call, db_answer, 'a) prog"
    by (rule calls_in_mono [OF that]) (simp add: counts_for_def)
  have "calls_in (counts_for (rate_ip r) (rate_window (qe_rate_now env))) (sp_QuickRateHit (rate_ip r) (qe_rate_now env))"
    by (auto simp: sp_QuickRateHit_def Let_def counts_for_def rate_window_def intro!: calls_in_and_then)
  moreover have "calls_in (counts_for ip w) (sp_CountLiveTenants now)" for ip w now by (rule plain) simp
  ultimately show ?thesis
    unfolding hp_quick_admit_def hp_allowQuick_rate
    by (auto intro!: calls_in_bind split: sum.split option.split)
qed

lemma mild_quick_admit: "calls_in mild (hp_quick_admit sqlite_code env r)"
  using quick_admit_counts by (rule calls_in_mono) (rule counts_mild)

section \<open>Traces of single methods\<close>

lemma and_then_trace:
  assumes "after (prog_and_then p g) tr = Some q"
  shows "(\<exists>p'. after p tr = Some p') \<or> (\<exists>tr1 tr2 a. tr = tr1 @ tr2 \<and> after p tr1 = Some (Ret (Inr a)) \<and> after (g a) tr2 = Some q)
    \<or> (\<exists>e. after p tr = Some (Ret (Inl e)) \<and> q = Ret (Inl e))"
  using after_bind [OF assms [unfolded prog_and_then_def]]
  by (elim disjE exE conjE) (auto split: sum.splits)

lemma map_sum_Inr [simp]: "map_sum f id s = Inr a \<longleftrightarrow> s = Inr a" "Inr a = map_sum f id s \<longleftrightarrow> s = Inr a"
  by (cases s; auto)+

lemma exec_trace_Inr:
  assumes "after (sp_exec err g st) tr = Some (Ret (Inr a))"
  shows "\<exists>n. tr = [(Do_exec st, Changed n)] \<and> a = g n"
proof -
  from assms obtain y where "tr = [(Do_exec st, y)]"
    "Inr a = map_sum err g (case y of Changed n \<Rightarrow> Inr n | Db_failed m \<Rightarrow> Inl m | Rows rs e \<Rightarrow> Inl [])"
    by (auto simp: sp_exec_def exec_prog_def after_Call)
  then show ?thesis by (cases y) auto
qed

lemma row_trace_Inr:
  assumes "after (sp_row err scan st) tr = Some (Ret (Inr a))"
  shows "\<exists>rows e row. tr = [(Do_query st, Rows rows e)] \<and> scanned_row (Inr (rows, e)) = Inr row \<and> scan row = Inr a"
proof -
  from assms obtain y where y: "tr = [(Do_query st, y)]"
    and "bind_sum (scanned_row (case y of Rows rs e \<Rightarrow> Inr (rs, e) | Db_failed m \<Rightarrow> Inl m | Changed n \<Rightarrow> Inl [])) scan = Inr a"
    by (auto simp: sp_row_def row_prog_def query_prog_def after_Call)
  then obtain row where row: "scanned_row (case y of Rows rs e \<Rightarrow> Inr (rs, e) | Db_failed m \<Rightarrow> Inl m | Changed n \<Rightarrow> Inl []) = Inr row"
    "scan row = Inr a"
    by (auto simp: bind_sum_def split: sum.splits)
  then show ?thesis using y by (cases y) (auto simp: scanned_row_def [of "Inl m" for m])
qed

lemma exec_only:
  assumes "after (prog_bind (sp_exec err g st) k) tr = Some q" and "\<And>a. \<exists>b. k a = Ret b" and "xy \<in> set tr"
  shows "tr = [xy] \<and> fst xy = Do_exec st"
proof -
  have "prog_bind (sp_exec err g st) k = Call (Do_exec st)
      (\<lambda>y. k (map_sum err g (case y of Changed n \<Rightarrow> Inr n | Db_failed m \<Rightarrow> Inl m | Rows rs e \<Rightarrow> Inl [])))"
    by (simp add: sp_exec_def exec_prog_def)
  with assms(1,3) obtain y tr' where tr: "tr = (Do_exec st, y) # tr'"
    and k: "after (k (map_sum err g (case y of Changed n \<Rightarrow> Inr n | Db_failed m \<Rightarrow> Inl m | Rows rs e \<Rightarrow> Inl []))) tr' = Some q"
    by (auto simp: after_Call)
  with assms(2) have "tr' = []" by (metis after_Ret)
  with tr assms(3) show ?thesis by simp
qed

lemma consume_trace:
  assumes "after (sp_ConsumeAuthCode h now) tr = Some (Ret (Inr x))"
  shows "\<exists>n. n \<noteq> 0 \<and> (Do_exec (Claim_code (unix now) h), Changed n) \<in> set tr"
proof -
  from assms obtain tr1 tr2 n where tr: "tr = tr1 @ tr2" "after (sp_exec Driver id (Claim_code (unix now) h)) tr1 = Some (Ret (Inr n))"
    and g: "after (if n = 0 then Ret (Inl ErrNotFound) else sp_row scan_driver_error scan_code (Select_code h)) tr2 = Some (Ret (Inr x))"
    unfolding sp_ConsumeAuthCode_def prog_and_then_def by (elim bind_RetE) (auto split: sum.splits)
  with exec_trace_Inr [OF tr(2)] show ?thesis by (cases "n = 0") auto
qed

text \<open>A key that was validated was found in the service's row.\<close>

lemma validate_trace:
  assumes "after (sp_ValidateAgentKey B t n key) tr = Some (Ret (Inr svc))"
  shows "\<exists>rows e row. tr = [(Do_query (Select_service t n), Rows rows e)] \<and> scanned_row (Inr (rows, e)) = Inr row
    \<and> scan_service row = Inr svc \<and> key \<noteq> [] \<and> CheckSecret B (AgentKeyHash svc) key"
proof -
  from assms obtain tr1 tr2 svc' where tr: "tr = tr1 @ tr2" "after (sp_GetService t n) tr1 = Some (Ret (Inr svc'))"
    and g: "after (if key = [] \<or> \<not> CheckSecret B (AgentKeyHash svc') key then Ret (Inl ErrInvalidAgentKey) else Ret (Inr svc')) tr2
      = Some (Ret (Inr svc))"
    unfolding sp_ValidateAgentKey_def prog_and_then_def by (elim bind_RetE) (auto split: sum.splits)
  with row_trace_Inr [OF tr(2) [unfolded sp_GetService_def]] show ?thesis by (auto split: if_splits)
qed

lemma plain_validate: "calls_in plain (sp_ValidateAgentKey B t n key)"
  by simp

text \<open>\<open>handleDelete\<close>: the statement that deletes comes right after the validation.\<close>

lemma delete_trace:
  assumes "after (hp_handleDelete sqlite_code B t r) tr = Some q" and "(x, y) \<in> set tr" and "\<not> mild x"
  shows "x = Do_exec (Delete_tenant t) \<and> header r ''X-Service-Name'' \<noteq> [] \<and> (\<exists>tr1 tr2 svc.
    tr = tr1 @ (x, y) # tr2 \<and> after (sp_ValidateAgentKey B t (header r ''X-Service-Name'') (bearer_key r)) tr1 = Some (Ret (Inr svc)))"
proof -
  let ?n = "header r ''X-Service-Name''" and ?key = "bearer_key r"
  let ?V = "sp_ValidateAgentKey B t ?n ?key"
  have some: "?n \<noteq> [] \<and> ?key \<noteq> []" using assms(1,2) by (auto simp: hp_handleDelete_def Let_def split: if_splits)
  note run = assms(1) [unfolded hp_handleDelete_def Let_def sqlite_code_sel]
  have mild: "mild x'" if "after ?V tr1 = Some p" "(x', y') \<in> set tr1" for tr1 p x' y'
    using calls_in_after [OF that(1) plain_validate] that(2) by (auto simp: list_all_iff)
  from some run have "after (prog_bind ?V (\<lambda>x. case x of
          Inl e \<Rightarrow> Ret (cp_writeErr 401 ''invalid agent key'')
        | Inr _ \<Rightarrow> prog_bind (sp_DeleteTenant t) (\<lambda>x. case x of
               Inl e \<Rightarrow> Ret (cp_writeErr 500 ''store error'')
             | Inr found \<Rightarrow> if \<not> found then Ret (cp_writeErr 404 ''tenant not found'') else Ret no_content))) tr = Some q"
    by simp
  from after_bind [OF this] show ?thesis
  proof (elim disjE exE conjE)
    fix p' assume "after ?V tr = Some p'"
    from mild [OF this assms(2)] assms(3) show ?thesis by simp
  next
    fix tr1 tr2 a
    assume tr: "tr = tr1 @ tr2" and V: "after ?V tr1 = Some (Ret a)"
      and g: "after (case a of Inl e \<Rightarrow> Ret (cp_writeErr 401 ''invalid agent key'')
        | Inr _ \<Rightarrow> prog_bind (sp_DeleteTenant t) (\<lambda>x. case x of
               Inl e \<Rightarrow> Ret (cp_writeErr 500 ''store error'')
             | Inr found \<Rightarrow> if \<not> found then Ret (cp_writeErr 404 ''tenant not found'') else Ret no_content)) tr2 = Some q"
    have in2: "(x, y) \<in> set tr2" using mild [OF V] assms(2,3) tr by auto
    then obtain svc where a: "a = Inr svc" using g by (cases a) auto
    define k :: "store_error + bool \<Rightarrow> (db_call, db_answer, Http.response) prog" where "k = (\<lambda>x. case x of Inl e \<Rightarrow> Ret (cp_writeErr 500 ''store error'')
             | Inr found \<Rightarrow> if \<not> found then Ret (cp_writeErr 404 ''tenant not found'') else Ret no_content)"
    have "\<exists>b. k z = Ret b" for z by (cases z) (simp_all add: k_def)
    then have "tr2 = [(x, y)] \<and> x = Do_exec (Delete_tenant t)"
      using exec_only [of Driver "\<lambda>n. n = 1" "Delete_tenant t" k tr2 q "(x, y)"] g in2
      by (simp add: a k_def [symmetric] sp_DeleteTenant_def)
    with tr V a some show ?thesis by auto
  qed
qed

text \<open>The janitor deletes what it has read as expired.\<close>

lemma delete_all_calls: "calls_in (\<lambda>x. \<exists>s \<in> set ss. x = Do_exec (Delete_tenant s)) (sp_delete_all ss)"
proof -
  have "set ss \<subseteq> T \<Longrightarrow> calls_in (\<lambda>x. \<exists>s \<in> T. x = Do_exec (Delete_tenant s)) (sp_delete_all ss)" for T
    by (induction ss) (auto simp: sp_DeleteTenant_def intro!: calls_in_bind split: sum.split)
  then show ?thesis by simp
qed

lemma sweep_trace:
  assumes "after (sp_DeleteExpiredTenants now) tr = Some q" and "(x, y) \<in> set tr" and "\<not> mild x"
  shows "\<exists>t rows slugs tr1 tr2. x = Do_exec (Delete_tenant t) \<and> t \<in> set slugs \<and> scan_slugs rows = Inr slugs
    \<and> tr = (Do_query (Select_expired (unix now)), Rows rows None) # tr1 @ (x, y) # tr2"
proof -
  let ?st = "Do_query (Select_expired (unix now))"
  have "tr \<noteq> []" using assms(2) by auto
  then obtain z tr' where tr: "tr = (?st, z) # tr'"
    using assms(1) by (auto simp: sp_DeleteExpiredTenants_def query_prog_def after_Call)
  have in': "(x, y) \<in> set tr'" using assms(2,3) tr by auto
  obtain rows slugs where z: "z = Rows rows None" "scan_slugs rows = Inr slugs"
    and run: "after (prog_bind (sp_delete_all slugs) (\<lambda>e. Ret (slugs, e))) tr' = Some q"
    using assms(1) in' unfolding tr
    by (cases z) (auto simp: sp_DeleteExpiredTenants_def query_prog_def split: sum.splits option.splits)
  have "calls_in (\<lambda>x. \<exists>s \<in> set slugs. x = Do_exec (Delete_tenant s)) (prog_bind (sp_delete_all slugs) (\<lambda>e. Ret (slugs, e)))"
    by (rule calls_in_bind [OF delete_all_calls]) simp
  from calls_in_after [OF run this] in' obtain t where t: "t \<in> set slugs" "x = Do_exec (Delete_tenant t)"
    by (fastforce simp: list_all_iff)
  obtain tr1 tr2 where "tr' = tr1 @ (x, y) # tr2" using in' by (meson split_list)
  with t z tr show ?thesis by blast
qed

text \<open>\<open>handleQuick\<close> inserts a service only under a tenant it has just inserted.\<close>

definition has_inserted :: "string \<Rightarrow> (db_call \<times> db_answer) list \<Rightarrow> bool" where
  "has_inserted t tr \<longleftrightarrow> (\<exists>name a b n. (Do_exec (Insert_tenant t name a b), Changed n) \<in> set tr)"

lemma create_loop_trace:
  "after (hp_create_loop sqlite_code e draws n i) tr = Some (Ret (Inr slug)) \<Longrightarrow> has_inserted slug tr"
proof (induction n arbitrary: i tr)
  case (Suc n)
  obtain d now where draw: "draws i = (d, now)" by fastforce
  with Suc.prems obtain b where d: "d = Some b" by (cases d) auto
  let ?T = "sp_CreateTenantExpiry (quick_slug b) ''quick tunnel'' (Some e) now"
  from Suc.prems obtain tr1 tr2 x where tr: "tr = tr1 @ tr2" and T: "after ?T tr1 = Some (Ret x)"
    and g: "after (case x of Inl err \<Rightarrow> if err = ErrExists then hp_create_loop sqlite_code e draws n (Suc i) else Ret (Inl err)
           | Inr _ \<Rightarrow> Ret (Inr (quick_slug b))) tr2 = Some (Ret (Inr slug))"
    unfolding hp_create_loop.simps draw d prod.case option.case sqlite_code_sel by (elim bind_RetE)
  show ?case
  proof (cases x)
    case (Inl err)
    then have "after (hp_create_loop sqlite_code e draws n (Suc i)) tr2 = Some (Ret (Inr slug))" using g by (auto split: if_splits)
    from Suc.IH [OF this] tr show ?thesis by (auto simp: has_inserted_def)
  next
    case (Inr u)
    with T have "\<exists>n. tr1 = [(Do_exec (Insert_tenant (quick_slug b) ''quick tunnel'' (unix now) (map_option unix (Some e))), Changed n)]"
      using exec_trace_Inr by (fastforce simp: sp_CreateTenantExpiry_def)
    with g tr Inr show ?thesis by (auto simp: has_inserted_def)
  qed
qed simp

lemma plain_create_loop [simp]: "calls_in plain (hp_create_loop sqlite_code e draws n i)"
  by (induction n arbitrary: i) (auto intro!: calls_in_bind split: sum.split prod.split option.split)

definition inserts_for :: "string \<Rightarrow> db_call \<Rightarrow> bool" where
  "inserts_for t x \<longleftrightarrow> plain x \<or> (\<exists>n k a p c. x = Do_exec (Insert_service t n k a p c))"

lemma create_service_calls: "calls_in (inserts_for t) (sp_CreateService B salt rnd now t svc)"
  by (auto simp: sp_CreateService_def inserts_for_def sp_GetTenant_def Let_def intro!: calls_in_and_then)

lemma quick_create_trace:
  assumes "after (hp_quick_create sqlite_code B env auth password) tr = Some q" and "(x, y) \<in> set tr"
  shows "plain x \<or> (\<exists>t. inserts_for t x \<and> has_inserted t tr)"
proof -
  define e where "e = qe_expiry_now env + QuickTTL"
  define g where "g = (\<lambda>x :: store_error + string. case x of
        Inl e \<Rightarrow> Ret (cp_writeErr 500 ''store error'')
      | Inr slug \<Rightarrow>
      (case (if auth \<and> password \<noteq> [] then HashSecret B (qe_password_salt env) password else Inr []) of
        Inl e \<Rightarrow> Ret (cp_writeErr 500 ''hash error'')
      | Inr hash \<Rightarrow>
      (let svc = \<lparr>Name = ''mcp'', AgentKeyHash = [], AuthMode = (if auth then ''oauth'' else ''open''),
                  PasswordHash = hash, SvcCreatedAt = 0\<rparr> in
       prog_bind (sp_CreateService B (qe_key_salt env) (qe_key_rnd env) (qe_service_now env) slug svc) (\<lambda>x. case x of
        Inl e \<Rightarrow> Ret (cp_writeErr 500 ''store error'')
      | Inr agentKey \<Rightarrow>
          if \<not> auth then Ret (quick_created slug agentKey e)
          else (case qe_pem env of
              None \<Rightarrow> Ret (cp_writeErr 500 ''key generation failed'')
            | Some pem \<Rightarrow>
                prog_bind (sp_CreateSigningKey slug pem (qe_pem_now env)) (\<lambda>x. case x of
                   Inl e \<Rightarrow> Ret (cp_writeErr 500 ''store error'')
                 | Inr _ \<Rightarrow> Ret (quick_created slug agentKey e)))))))"
  have run: "after (prog_bind (hp_create_loop sqlite_code e (qe_draws env) 10 0) g) tr = Some q"
    using assms(1) unfolding hp_quick_create_def Let_def e_def [symmetric] g_def sqlite_code_sel .
  have g: "calls_in (inserts_for slug) (g (Inr slug))" for slug
    unfolding g_def Let_def
    by (auto simp: create_service_calls sp_CreateSigningKey_def inserts_for_def [of slug "Do_exec (Insert_key_or_ignore slug b n)" for b n]
        intro!: calls_in_bind split: sum.split option.split)
  from after_bind [OF run] show ?thesis
  proof (elim disjE exE conjE)
    fix p' assume "after (hp_create_loop sqlite_code e (qe_draws env) 10 0) tr = Some p'"
    from calls_in_after [OF this plain_create_loop] assms(2) show ?thesis by (auto simp: list_all_iff)
  next
    fix tr1 tr2 a
    assume tr: "tr = tr1 @ tr2" and l: "after (hp_create_loop sqlite_code e (qe_draws env) 10 0) tr1 = Some (Ret a)"
      and k: "after (g a) tr2 = Some q"
    from calls_in_after [OF l plain_create_loop] have m: "(x, y) \<in> set tr1 \<Longrightarrow> plain x" by (auto simp: list_all_iff)
    show ?thesis
    proof (cases a)
      case (Inl err)
      with k have "tr2 = []" by (simp add: g_def)
      with m assms(2) tr show ?thesis by auto
    next
      case (Inr slug)
      from create_loop_trace [OF l [unfolded Inr]] tr have "has_inserted slug tr" by (auto simp: has_inserted_def)
      moreover have "(x, y) \<in> set tr2 \<Longrightarrow> inserts_for slug x"
        using calls_in_after [OF k [unfolded Inr] g] by (auto simp: list_all_iff)
      ultimately show ?thesis using m assms(2) tr by auto
    qed
  qed
qed

lemma quick_trace:
  assumes "after (hp_handleQuick sqlite_code B env r) tr = Some q" and "(x, y) \<in> set tr" and "\<not> mild x"
  shows "\<exists>t n k a p c. x = Do_exec (Insert_service t n k a p c) \<and> has_inserted t tr"
proof -
  from after_bind [OF assms(1) [unfolded hp_handleQuick_def]] show ?thesis
  proof (elim disjE exE conjE)
    fix p' assume "after (hp_quick_admit sqlite_code env r) tr = Some p'"
    from calls_in_after [OF this mild_quick_admit] assms(2,3) show ?thesis by (auto simp: list_all_iff)
  next
    fix tr1 tr2 a
    assume tr: "tr = tr1 @ tr2" and l: "after (hp_quick_admit sqlite_code env r) tr1 = Some (Ret a)"
      and k: "after (case a of Inl resp \<Rightarrow> Ret resp | Inr (auth, password) \<Rightarrow> hp_quick_create sqlite_code B env auth password) tr2 = Some q"
    from calls_in_after [OF l mild_quick_admit] assms(2,3) tr have in2: "(x, y) \<in> set tr2" by (auto simp: list_all_iff)
    with k obtain auth password where "after (hp_quick_create sqlite_code B env auth password) tr2 = Some q"
      by (cases a) (auto split: prod.splits)
    from quick_create_trace [OF this in2] assms(3) obtain t where t: "inserts_for t x" "has_inserted t tr2" by auto
    then have "has_inserted t tr" by (auto simp: has_inserted_def tr)
    with t assms(3) show ?thesis by (auto simp: inserts_for_def)
  qed
qed

section \<open>Traces of tasks\<close>

lemma after_bind_Ret:
  assumes "after (prog_bind p g) tr = Some q" and "\<And>a. \<exists>b. g a = Ret b"
  shows "\<exists>p'. after p tr = Some p'"
  using after_bind [OF assms(1)]
proof (elim disjE exE conjE)
  fix tr1 tr2 a
  assume tr: "tr = tr1 @ tr2" and p: "after p tr1 = Some (Ret a)" and g: "after (g a) tr2 = Some q"
  obtain b where "g a = Ret b" using assms(2) by blast
  with g tr p show ?thesis by simp
qed blast

lemma db_log_in: "(x, y) \<in> set (db_log tr) \<longleftrightarrow> (Db x, Db_answer y) \<in> set tr"
  by (induction tr rule: db_log.induct) auto

definition request_seen :: "daemon_config \<Rightarrow> request \<Rightarrow> request" where
  "request_seen c r = (if dc_cloudflare c then CloudflareClientIP r else r)"

lemma request_seen_sel [simp]: "rq_method (request_seen c r) = rq_method r" "rq_path (request_seen c r) = rq_path r"
  "header (request_seen c r) h = header r h" "bearer_key (request_seen c r) = bearer_key r"
  by (simp_all add: request_seen_def)

lemma hp_serve_as: "hp_serve P B C base c v r = hp_handle P B C base v (request_seen c r)"
  by (simp only: hp_serve_def request_seen_def)

lemma reply_stay: "prog_bind (prog_bind p (\<lambda>resp. Ret (Reply resp))) hp_stay = prog_bind p (\<lambda>resp. Ret (Some (Reply resp)))"
  by (induction p) (simp_all add: hp_stay_def)

lemma control_task:
  assumes "server_route (rq_method r) (rq_path r) = C_control_plane"
    and "after (hp_task sqlite_code B C base c (Ask v r)) tr = Some q" and "typed tr"
  shows "\<exists>p. after (hp_control_plane sqlite_code B v (request_seen c r)) (db_log tr) = Some p \<and> tr = map db_event (db_log tr)"
proof -
  let ?cp = "hp_control_plane sqlite_code B v (request_seen c r)"
  have "after (prog_bind (prog_bind (on_db ?cp) (\<lambda>resp. Ret (Reply resp))) hp_stay) tr = Some q"
    using assms(1,2) by (simp add: hp_serve_as hp_handle_def)
  then have "after (prog_bind (on_db ?cp) (\<lambda>resp. Ret (Some (Reply resp)))) tr = Some q" by (simp only: reply_stay)
  then obtain p' where "after (on_db ?cp) tr = Some p'" using after_bind_Ret by blast
  from after_on_db [OF this assms(3)] show ?thesis by (elim exE conjE) (intro exI conjI)
qed

lemma other_task:
  assumes "after (hp_task sqlite_code B C base c (Ask v r)) tr = Some q"
    and "server_route (rq_method r) (rq_path r) \<noteq> C_control_plane"
  shows "list_all (\<lambda>xy. plain_call (fst xy)) tr"
proof -
  have "calls_in plain_call (hp_task sqlite_code B C base c (Ask v r))"
    using assms(2) plain_handle [of "request_seen c r" B C base v] by (auto simp: hp_serve_as)
  from calls_in_after [OF assms(1) this] show ?thesis by blast
qed

lemma sweep_task:
  assumes "after (hp_task sqlite_code B C base c (Purge now)) tr = Some q" and "typed tr"
  shows "\<exists>p. after (sp_DeleteExpiredTenants now) (db_log tr) = Some p \<and> tr = map db_event (db_log tr)"
proof -
  have "after (prog_bind (on_db (sp_DeleteExpiredTenants now)) (\<lambda>_. Ret None)) tr = Some q" using assms(1) by simp
  then obtain p' where "after (on_db (sp_DeleteExpiredTenants now)) tr = Some p'" using after_bind_Ret by blast
  from after_on_db [OF this assms(2)] show ?thesis by (elim exE conjE) (intro exI conjI)
qed

text \<open>What a task has done before a statement that deletes a tenant, or inserts a service.\<close>

definition before_delete :: "bcrypt \<Rightarrow> string \<Rightarrow> task \<Rightarrow> db_call \<times> db_answer \<Rightarrow> bool" where
  "before_delete B t task xy = (case task of
     Ask v r \<Rightarrow> server_route (rq_method r) (rq_path r) = C_control_plane \<and> cp_route (rq_method r) (rq_path r) = Cp_delete t
       \<and> header r ''X-Service-Name'' \<noteq> [] \<and> bearer_key r \<noteq> []
       \<and> (\<exists>rows e row svc. xy = (Do_query (Select_service t (header r ''X-Service-Name'')), Rows rows e)
            \<and> scanned_row (Inr (rows, e)) = Inr row \<and> scan_service row = Inr svc \<and> CheckSecret B (AgentKeyHash svc) (bearer_key r))
   | Purge now \<Rightarrow> (\<exists>rows slugs. xy = (Do_query (Select_expired (unix now)), Rows rows None) \<and> scan_slugs rows = Inr slugs \<and> t \<in> set slugs)
   | Death i \<Rightarrow> False)"

lemma deleting_request:
  assumes "server_route (rq_method r) (rq_path r) = C_control_plane" and "cp_route (rq_method r) (rq_path r) = Cp_delete t"
    and "after (hp_handleDelete sqlite_code B t (request_seen c r)) dtr = Some q" and "(x, y) \<in> set dtr" and "\<not> mild x"
  shows "x = Do_exec (Delete_tenant t) \<and> (\<exists>d1 d2 xy. dtr = d1 @ (x, y) # d2 \<and> xy \<in> set d1 \<and> before_delete B t (Ask v r) xy)"
proof -
  from delete_trace [OF assms(3-5)] obtain d1 d2 svc where x: "x = Do_exec (Delete_tenant t)"
    and n: "header r ''X-Service-Name'' \<noteq> []" and d: "dtr = d1 @ (x, y) # d2"
    and V: "after (sp_ValidateAgentKey B t (header r ''X-Service-Name'') (bearer_key r)) d1 = Some (Ret (Inr svc))"
    by auto
  from validate_trace [OF V] show ?thesis using x n d assms(1,2) by (auto simp: before_delete_def)
qed

lemma rough_task:
  assumes run: "after (hp_task sqlite_code B C base c task) tr = Some q" and typed: "typed tr"
    and x: "(Db x, y) \<in> set tr" and rough: "\<not> mild x"
  shows "(\<exists>t tr1 tr2 xy. x = Do_exec (Delete_tenant t) \<and> tr = tr1 @ (Db x, y) # tr2 \<and> db_event xy \<in> set tr1 \<and> before_delete B t task xy)
    \<or> (\<exists>t n k a p now. x = Do_exec (Insert_service t n k a p now) \<and> has_inserted t (db_log tr))"
proof -
  obtain y' where y: "y = Db_answer y'" using typed x by (auto simp: typed_def list_all_iff)
  have split: ?thesis if tr: "tr = map db_event dtr" and d: "dtr = d1 @ (x, y') # d2" "xy \<in> set d1" "x = Do_exec (Delete_tenant t)"
    and b: "before_delete B t task xy" for dtr d1 d2 xy t
    by (rule disjI1, rule exI [of _ t], rule exI [of _ "map db_event d1"], rule exI [of _ "map db_event d2"], rule exI [of _ xy])
      (use d b in \<open>auto simp: tr y db_event_def\<close>)
  show ?thesis
  proof (cases task)
    case (Ask v r)
    note run' = run [unfolded Ask]
    show ?thesis
    proof (cases "server_route (rq_method r) (rq_path r) = C_control_plane")
      case False
      from other_task [OF run' False] x rough show ?thesis by (force simp: list_all_iff)
    next
      case True
      from control_task [OF True run' typed] obtain p where p: "after (hp_control_plane sqlite_code B v (request_seen c r)) (db_log tr) = Some p"
        and tr: "tr = map db_event (db_log tr)" by (elim exE conjE)
      have xy: "(x, y') \<in> set (db_log tr)" using x y by (simp add: db_log_in)
      show ?thesis
      proof (cases "cp_route (rq_method r) (rq_path r)")
        case Cp_quick
        with p have "after (hp_handleQuick sqlite_code B (vs_quick v) (request_seen c r)) (db_log tr) = Some p"
          by (simp add: hp_control_plane_def)
        from quick_trace [OF this xy rough] show ?thesis by blast
      next
        case (Cp_delete t)
        with p have "after (hp_handleDelete sqlite_code B t (request_seen c r)) (db_log tr) = Some p" by (simp add: hp_control_plane_def)
        from deleting_request [OF True Cp_delete this xy rough, of v] obtain d1 d2 z
          where "x = Do_exec (Delete_tenant t)" "db_log tr = d1 @ (x, y') # d2" "z \<in> set d1" "before_delete B t (Ask v r) z"
          by (elim conjE exE)
        with split [OF tr] Ask show ?thesis by blast
      next
        case Cp_method
        with p xy show ?thesis by (simp add: hp_control_plane_def)
      next
        case Cp_none
        with p xy show ?thesis by (simp add: hp_control_plane_def)
      qed
    qed
  next
    case (Purge now)
    from sweep_task [OF run [unfolded Purge] typed] obtain p where p: "after (sp_DeleteExpiredTenants now) (db_log tr) = Some p"
      and tr: "tr = map db_event (db_log tr)" by (elim exE conjE)
    have "(x, y') \<in> set (db_log tr)" using x y by (simp add: db_log_in)
    from sweep_trace [OF p this rough] obtain t rows slugs tr1 tr2 where s: "x = Do_exec (Delete_tenant t)" "t \<in> set slugs" "scan_slugs rows = Inr slugs"
      "db_log tr = (Do_query (Select_expired (unix now)), Rows rows None) # tr1 @ (x, y') # tr2" by (elim exE conjE)
    from s(4) have d: "db_log tr = ((Do_query (Select_expired (unix now)), Rows rows None) # tr1) @ (x, y') # tr2" by simp
    have "before_delete B t task (Do_query (Select_expired (unix now)), Rows rows None)"
      using s(2,3) Purge by (auto simp: before_delete_def)
    from split [OF tr d _ s(1) this] show ?thesis by simp
  next
    case (Death i)
    with run x show ?thesis by (auto simp: after_Call)
  qed
qed

end
