(* ===== verification/Interleaving.thy ===== *)
theory Interleaving
  imports Task_Traces
begin

text \<open>
  Runs of the daemon's tasks under every schedule of their statements and mutex sections: who can have
  taken a tunnel down, and how many token requests one authorization code answers.
\<close>

section \<open>Moments of a run\<close>

text \<open>Something holds of the shared state at some moment of a history.\<close>

definition moment :: "(('x, 'k) call, ('y, 'k) answer, ('s, 'k) shared) world \<Rightarrow> (('s, 'k) shared \<Rightarrow> bool)
    \<Rightarrow> (nat \<times> ('x, 'k) call \<times> ('y, 'k) answer) list \<Rightarrow> ('s, 'k) shared \<Rightarrow> bool" where
  "moment f Q h sh \<longleftrightarrow> (\<exists>h1 h2 sh1. h = h1 @ h2 \<and> replay f (map snd h1) sh = Some sh1 \<and> Q sh1)"

abbreviation daemon_sql :: "((db_call, 'k) call, (db_answer, 'k) answer, (conn, 'k) shared) world" where
  "daemon_sql \<equiv> call_world sql_world"

lemma sh_history:
  "replay daemon_sql tr sh = Some sh' \<Longrightarrow> typed tr \<and> replay sql_world (db_log tr) (sh_conn sh) = Some (sh_conn sh')"
  unfolding sh_conn_def by (rule replay_db)

lemma sh_ok: "replay daemon_sql tr sh = Some sh' \<Longrightarrow> db_ok (c_db (sh_conn sh)) \<Longrightarrow> db_ok (c_db (sh_conn sh'))"
  using sh_history history_ok by blast

text \<open>A statement of the history ran on the database of its moment.\<close>

lemma statement_moment:
  assumes "replay daemon_sql (map snd h) sh = Some sh'" and "db_ok (c_db (sh_conn sh))" and "(i, Db x, Db_answer y) \<in> set h"
    and "\<And>c c'. sql_world x c = Some (y, c') \<Longrightarrow> db_ok (c_db c) \<Longrightarrow> Q c"
  shows "moment daemon_sql (\<lambda>sh. Q (sh_conn sh)) h sh"
proof -
  from assms(3) obtain h1 h2 where h: "h = h1 @ (i, Db x, Db_answer y) # h2" by (meson split_list)
  from assms(1) obtain sh1 sh2 where sh1: "replay daemon_sql (map snd h1) sh = Some sh1"
    and step: "daemon_sql (Db x) sh1 = Some (Db_answer y, sh2)" unfolding h by (auto elim: replay_splitE)
  from step obtain c' where "sql_world x (sh_conn sh1) = Some (y, c')" by (auto simp: sh_conn_def split: option.splits)
  with assms(4) sh_ok [OF sh1 assms(2)] have "Q (sh_conn sh1)" by blast
  with h sh1 show ?thesis unfolding moment_def by blast
qed

section \<open>Threads of a run of tasks\<close>

lemma tasks_history:
  assumes "tasks_run B C base c sched tasks sh = Some P"
  shows "replay daemon_sql (map snd (pl_log P)) sh = Some (pl_shared P)" and "typed (map snd (pl_log P))"
    and "replay sql_world (db_log (map snd (pl_log P))) (sh_conn sh) = Some (sh_conn (pl_shared P))"
    and "length (pl_threads P) = length tasks"
    and "(i, xy) \<in> set (pl_log P) \<Longrightarrow> i < length tasks"
  using pool_run_ok [OF assms [unfolded tasks_run_def]] sh_history by (auto simp: pool_ok_def)

lemma typed_thread: "typed (map snd h) \<Longrightarrow> typed (thread_log i h)"
  by (auto simp: typed_def thread_log_def list_all_iff)

lemma task_trace:
  assumes "tasks_run B C base c sched tasks sh = Some P" and "i < length tasks"
  shows "after (hp_task sqlite_code B C base c (tasks ! i)) (thread_log i (pl_log P)) = Some (pl_threads P ! i)"
    and "typed (thread_log i (pl_log P))"
  using thread_trace [OF assms(1) [unfolded tasks_run_def], of i] assms(2) typed_thread [OF tasks_history(2) [OF assms(1)]] by simp_all

lemma db_log_thread: "xy \<in> set (db_log (thread_log i h)) \<Longrightarrow> (i, db_event xy) \<in> set h"
  by (cases xy) (simp add: db_log_in thread_log_in db_event_def)

lemma db_log_pool: "(i, Db x, Db_answer y) \<in> set h \<Longrightarrow> (x, y) \<in> set (db_log (map snd h))"
  by (force simp: db_log_in)

section \<open>Who takes a tunnel down\<close>

definition entitled :: "bcrypt \<Rightarrow> string \<Rightarrow> task \<Rightarrow> registry \<Rightarrow> bool" where
  "entitled B t task R = (case task of Ask v r \<Rightarrow> takes_down B t (Visit v r) R | Purge now \<Rightarrow> takes_down B t (Tick now) R | Death i \<Rightarrow> False)"

lemma before_delete_entitled:
  assumes "before_delete B t task (x, y)" and "sql_world x c = Some (y, c')" and "db_ok (c_db c)"
  shows "entitled B t task (view_conn c)"
proof (cases task)
  case (Ask v r)
  with assms(1) obtain rows e row svc where route: "server_route (rq_method r) (rq_path r) = C_control_plane"
    "cp_route (rq_method r) (rq_path r) = Cp_delete t" "header r ''X-Service-Name'' \<noteq> []" "bearer_key r \<noteq> []"
    and x: "x = Do_query (Select_service t (header r ''X-Service-Name''))" "y = Rows rows e"
    and svc: "scanned_row (Inr (rows, e)) = Inr row" "scan_service row = Inr svc" "CheckSecret B (AgentKeyHash svc) (bearer_key r)"
    by (auto simp: before_delete_def)
  from service_read [OF assms(2) [unfolded x] svc(1,2)] route svc(3) Ask show ?thesis
    by (simp add: entitled_def takes_down_def carries_key_def)
next
  case (Purge now)
  with assms(1) obtain rows slugs where x: "x = Do_query (Select_expired (unix now))" "y = Rows rows None"
    and s: "scan_slugs rows = Inr slugs" "t \<in> set slugs" by (auto simp: before_delete_def)
  from expired_read [OF assms(2) [unfolded x] s(1) assms(3)] s(2) have "t \<in> expired_tenants now (view_conn c)" by blast
  with Purge show ?thesis by (auto simp: entitled_def takes_down_def expired_tenants_def)
next
  case (Death i)
  with assms(1) show ?thesis by (simp add: before_delete_def)
qed

text \<open>Every deletion in a run was preceded by a moment at which its task was entitled to it.\<close>

lemma deletion_entitled:
  assumes run: "tasks_run B C base c sched tasks sh = Some P" and ok: "db_ok (c_db (sh_conn sh))"
    and del: "(i, Db x, Db_answer y) \<in> set (pl_log P)" and x: "stmt x = Delete_tenant t"
  shows "\<exists>h1 h2. pl_log P = h1 @ (i, Db (Do_exec (Delete_tenant t)), Db_answer y) # h2
    \<and> moment daemon_sql (\<lambda>sh. entitled B t (tasks ! i) (view_conn (sh_conn sh))) h1 sh"
proof -
  note i = tasks_history(5) [OF run del]
  note trace = task_trace [OF run i]
  have rough: "\<not> mild x" using x by (simp add: mild_def deletes_def)
  have xin: "(Db x, Db_answer y) \<in> set (thread_log i (pl_log P))" using del by (simp add: thread_log_in)
  from rough_task [OF trace xin rough] x obtain tr1 tr2 xy where d: "x = Do_exec (Delete_tenant t)"
    "thread_log i (pl_log P) = tr1 @ (Db x, Db_answer y) # tr2" "db_event xy \<in> set tr1" "before_delete B t (tasks ! i) xy"
    by (elim disjE exE conjE) auto
  from thread_log_split [OF d(2)] obtain h1 h2 where h: "pl_log P = h1 @ (i, Db x, Db_answer y) # h2" "thread_log i h1 = tr1"
    by (elim exE conjE)
  obtain x' y' where xy: "xy = (x', y')" by (cases xy)
  have "(i, Db x', Db_answer y') \<in> set h1" using d(3) h(2) xy by (simp add: thread_log_in [symmetric] db_event_def)
  moreover obtain sh1 where "replay daemon_sql (map snd h1) sh = Some sh1"
    using tasks_history(1) [OF run] unfolding h(1) by (auto elim: replay_splitE)
  ultimately have "moment daemon_sql (\<lambda>sh. entitled B t (tasks ! i) (view_conn (sh_conn sh))) h1 sh"
    using statement_moment [OF _ ok, of h1 sh1 i x' y' "\<lambda>c. entitled B t (tasks ! i) (view_conn c)"]
      before_delete_entitled [OF d(4) [unfolded xy]] by blast
  with h(1) d(1) show ?thesis by blast
qed

lemma no_insert:
  assumes run: "tasks_run B C base c sched tasks sh = Some P" and ok: "db_ok (c_db (sh_conn sh))"
    and t: "t \<in> dom (rg_tenants (view_conn (sh_conn sh)))"
    and keep: "list_all (\<lambda>xy. stmt (fst xy) \<noteq> Delete_tenant t) (db_log (map snd (pl_log P)))"
  shows "list_all (\<lambda>xy. stmt (fst xy) \<noteq> Delete_tenant t \<and> \<not> inserts_service t (stmt (fst xy))) (db_log (map snd (pl_log P)))"
  unfolding list_all_iff
proof (intro ballI conjI notI)
  fix xy
  assume xy: "xy \<in> set (db_log (map snd (pl_log P)))" and ins: "inserts_service t (stmt (fst xy))"
  obtain x y where p: "xy = (x, y)" by (cases xy)
  with xy obtain i where i: "(i, Db x, Db_answer y) \<in> set (pl_log P)" by (auto simp: db_log_in)
  note trace = task_trace [OF run tasks_history(5) [OF run i]]
  have rough: "\<not> mild x" using ins p by (auto simp: mild_def)
  have xin: "(Db x, Db_answer y) \<in> set (thread_log i (pl_log P))" using i by (simp add: thread_log_in)
  from rough_task [OF trace xin rough] ins p have "has_inserted t (db_log (thread_log i (pl_log P)))"
    by (auto simp: inserts_service_def)
  then obtain name a b n where "(Do_exec (Insert_tenant t name a b), Changed n) \<in> set (db_log (thread_log i (pl_log P)))"
    unfolding has_inserted_def by blast
  from db_log_pool [OF db_log_thread [OF this, unfolded db_event_def fst_conv snd_conv]]
  have "(Do_exec (Insert_tenant t name a b), Changed n) \<in> set (db_log (map snd (pl_log P)))" .
  with tenant_kept [OF tasks_history(3) [OF run] ok t keep] show False by (auto simp: list_all_iff)
qed (use keep in \<open>auto simp: list_all_iff\<close>)

lemma tunnel_kept:
  assumes run: "tasks_run B C base c sched tasks sh = Some P" and ok: "db_ok (c_db (sh_conn sh))"
    and t: "t \<in> dom (rg_tenants (view_conn (sh_conn sh)))"
    and keep: "list_all (\<lambda>xy. stmt (fst xy) \<noteq> Delete_tenant t) (db_log (map snd (pl_log P)))"
  shows "rg_tenants (view_conn (sh_conn (pl_shared P))) t = rg_tenants (view_conn (sh_conn sh)) t
    \<and> rg_services (view_conn (sh_conn (pl_shared P))) (t, n) = rg_services (view_conn (sh_conn sh)) (t, n)"
  using tenant_kept [OF tasks_history(3) [OF run] ok t keep] services_kept [OF tasks_history(3) [OF run] ok no_insert [OF assms]] by blast

lemma taken_down_entitled:
  assumes run: "tasks_run B C base c sched tasks sh = Some P" and ok: "db_ok (c_db (sh_conn sh))"
    and t: "t \<in> dom (rg_tenants (view_conn (sh_conn sh)))"
  shows "(rg_tenants (view_conn (sh_conn (pl_shared P))) t = rg_tenants (view_conn (sh_conn sh)) t
      \<and> (\<forall>n. rg_services (view_conn (sh_conn (pl_shared P))) (t, n) = rg_services (view_conn (sh_conn sh)) (t, n)))
    \<or> (\<exists>i y h1 h2. i < length tasks \<and> pl_log P = h1 @ (i, Db (Do_exec (Delete_tenant t)), Db_answer y) # h2
        \<and> moment daemon_sql (\<lambda>sh. entitled B t (tasks ! i) (view_conn (sh_conn sh))) h1 sh)"
proof (cases "list_all (\<lambda>xy. stmt (fst xy) \<noteq> Delete_tenant t) (db_log (map snd (pl_log P)))")
  case True
  from tunnel_kept [OF assms this] show ?thesis by blast
next
  case False
  then obtain x y i where d: "stmt x = Delete_tenant t" "(i, Db x, Db_answer y) \<in> set (pl_log P)"
    by (auto simp: list_all_iff db_log_in)
  from deletion_entitled [OF run ok d(2,1)] tasks_history(5) [OF run d(2)] show ?thesis by blast
qed

section \<open>One token per code\<close>

definition token_request :: "('k, 'p) crypto \<Rightarrow> string \<Rightarrow> task \<Rightarrow> bool" where
  "token_request C h task = (case task of
     Ask v r \<Rightarrow> server_route (rq_method r) (rq_path r) = C_oauth \<and> rq_method r = ''POST''
       \<and> (case resolver_path (rq_path r) of None \<Rightarrow> False | Some (t, sub) \<Rightarrow> sub = ''/token'')
       \<and> (case rq_post_form r of None \<Rightarrow> False | Some form \<Rightarrow> sha256hex C (first_value form ''code'') = h)
   | _ \<Rightarrow> False)"

definition answered :: "nat \<Rightarrow> ('x, 'y, daemon_reply option) prog \<Rightarrow> bool" where
  "answered status q = (case q of Ret (Some (Reply resp)) \<Rightarrow> rp_status resp = status | _ \<Rightarrow> False)"

lemma token_handler_claims:
  assumes "after (hp_handleToken sqlite_code C srv env r) tr = Some (Ret resp)" and "typed tr" and "rp_status resp = 200"
    and "rq_post_form r = Some form"
  shows "\<exists>xy \<in> set (db_log tr). claims_code (sha256hex C (first_value form ''code'')) xy"
proof -
  let ?h = "sha256hex C (first_value form ''code'')"
  from assms(1,3,4) obtain y tr' k where tr: "tr = (Count_token (clientIP r) (te_now_rate env), y) # tr'"
    and run: "after (prog_bind (on_db (sp_ConsumeAuthCode ?h (te_now_consume env))) k) tr' = Some (Ret resp)"
    and k: "\<And>e. k (Inl e) = Ret (oauth_writeErr 400 ''invalid_grant'' ''authorization code is invalid, expired, or already used'')"
    by (auto simp: hp_handleToken_def after_Call Let_def split: if_splits)
  from bind_RetE [OF run] obtain tr1 tr2 x where tr': "tr' = tr1 @ tr2"
    and c: "after (on_db (sp_ConsumeAuthCode ?h (te_now_consume env))) tr1 = Some (Ret x)" and kx: "after (k x) tr2 = Some (Ret resp)" .
  then obtain v where x: "x = Inr v" using k assms(3) by (cases x) auto
  have "typed tr1" using assms(2) tr tr' by simp
  from consume_trace [OF on_db_Ret [OF c [unfolded x] this]] show ?thesis
    using tr tr' by (auto simp: claims_code_def intro!: bexI)
qed

lemma form_seen [simp]: "rq_post_form (request_seen c r) = rq_post_form r"
  by (simp add: request_seen_def CloudflareClientIP_def split: option.split)

lemma token_task_claims:
  assumes "after (hp_task sqlite_code B C base c task) tr = Some q" and "typed tr" and "token_request C h task" and "answered 200 q"
  shows "\<exists>xy \<in> set (db_log tr). claims_code h xy"
proof -
  from assms(3) obtain v r t form where task: "task = Ask v r" and route: "server_route (rq_method r) (rq_path r) = C_oauth"
    and m: "rq_method r = ''POST''" and p: "resolver_path (rq_path r) = Some (t, ''/token'')"
    and form: "rq_post_form r = Some form" and h: "sha256hex C (first_value form ''code'') = h"
    by (auto simp: token_request_def split: task.splits option.splits)
  from assms(4) obtain resp where q: "q = Ret (Some (Reply resp))" and s: "rp_status resp = 200"
    by (auto simp: answered_def split: prog.splits option.splits daemon_reply.splits)
  let ?server = "hp_resolver_server sqlite_code C base (vs_pem v) (vs_now_server v) t"
  have "after (prog_bind (hp_resolver_handle sqlite_code B C base (vs_pem v) (vs_now_server v) (vs_oauth v) (request_seen c r))
      (\<lambda>resp. Ret (Some (Reply resp)))) tr = Some (Ret (Some (Reply resp)))"
    using assms(1) by (simp add: task q hp_serve_as hp_handle_def route reply_stay)
  then have "after (hp_resolver_handle sqlite_code B C base (vs_pem v) (vs_now_server v) (vs_oauth v) (request_seen c r)) tr = Some (Ret resp)"
    by (elim bind_RetE) auto
  then obtain tr1 tr2 x where tr: "tr = tr1 @ tr2" and "after ?server tr1 = Some (Ret x)"
    and o: "after (case x of None \<Rightarrow> Ret not_found
        | Some srv \<Rightarrow> hp_oauth_serve sqlite_code B C srv (vs_oauth v) (request_seen c r) ''/token'') tr2 = Some (Ret resp)"
    unfolding hp_resolver_handle_def request_seen_sel p option.case prod.case by (elim bind_RetE)
  then obtain srv where x: "x = Some srv" using s by (cases x) auto
  have "oauth_route ''POST'' ''/token'' = Ep_token" by code_simp
  with o have "after (prog_bind (hp_handleToken sqlite_code C srv (oe_token (vs_oauth v)) (request_seen c r))
      (\<lambda>resp. Ret (add_headers security_headers resp))) tr2 = Some (Ret resp)"
    by (simp add: x hp_oauth_serve_def m)
  then obtain resp' where "after (hp_handleToken sqlite_code C srv (oe_token (vs_oauth v)) (request_seen c r)) tr2 = Some (Ret resp')"
    and "resp = add_headers security_headers resp'" by (elim bind_RetE) auto
  with token_handler_claims [of C srv _ "request_seen c r" tr2 resp' form] assms(2) s form h tr
  show ?thesis by auto
qed

lemma at_most_one:
  assumes "length (filter Q xs) \<le> 1" and "xs = xs1 @ a # xs2" and "Q a" and "b \<in> set (xs1 @ xs2)"
  shows "\<not> Q b"
  using assms by (auto simp: filter_empty_conv)

lemma claims_of_two:
  assumes "length (filter (claims_code h) (db_log (map snd l))) \<le> 1"
    and "(i, db_event xy) \<in> set l" and "claims_code h xy" and "(j, db_event xy') \<in> set l" and "claims_code h xy'"
  shows "i = j"
proof (rule ccontr)
  assume ne: "i \<noteq> j"
  from assms(2) obtain l1 l2 where l: "l = l1 @ (i, db_event xy) # l2" by (meson split_list)
  have "(j, db_event xy') \<in> set (l1 @ l2)" using assms(4) ne l by auto
  then have in': "xy' \<in> set (db_log (map snd l1) @ db_log (map snd l2))"
    by (cases xy') (force simp: db_log_in db_event_def)
  have "db_log (map snd l) = db_log (map snd l1) @ xy # db_log (map snd l2)"
    by (cases xy) (simp add: l db_event_def)
  from at_most_one [OF assms(1) this assms(3) in'] assms(5) show False by simp
qed

lemma codes_answer_once:
  assumes run: "tasks_run B C base c sched tasks sh = Some P" and ok: "db_ok (c_db (sh_conn sh))"
    and no: "\<And>i x y. (i, Db x, y) \<in> set (pl_log P) \<Longrightarrow> \<not> inserts_code h (stmt x)"
    and i: "i < length tasks" "token_request C h (tasks ! i)" "answered 200 (pl_threads P ! i)"
    and j: "j < length tasks" "token_request C h (tasks ! j)" "answered 200 (pl_threads P ! j)"
  shows "i = j"
proof -
  have ins: "list_all (\<lambda>xy. \<not> inserts_code h (stmt (fst xy))) (db_log (map snd (pl_log P)))"
    using no by (force simp: list_all_iff db_log_in)
  from one_claim [OF tasks_history(3) [OF run] ok ins] have one: "length (filter (claims_code h) (db_log (map snd (pl_log P)))) \<le> 1" .
  have "\<exists>xy. (k, db_event xy) \<in> set (pl_log P) \<and> claims_code h xy"
    if "k < length tasks" "token_request C h (tasks ! k)" "answered 200 (pl_threads P ! k)" for k
    using token_task_claims [OF task_trace [OF run that(1)] that(2,3)] db_log_thread by blast
  with claims_of_two [OF one] i j show ?thesis by metis
qed

lemma codes_answer_card:
  assumes "tasks_run B C base c sched tasks sh = Some P" and "db_ok (c_db (sh_conn sh))"
    and "\<And>i x y. (i, Db x, y) \<in> set (pl_log P) \<Longrightarrow> \<not> inserts_code h (stmt x)"
  shows "card {i. i < length tasks \<and> token_request C h (tasks ! i) \<and> answered 200 (pl_threads P ! i)} \<le> 1"
proof -
  let ?S = "{i. i < length tasks \<and> token_request C h (tasks ! i) \<and> answered 200 (pl_threads P ! i)}"
  have "i = j" if "i \<in> ?S" "j \<in> ?S" for i j
    by (rule codes_answer_once [OF assms(1,2)]) (use that assms(3) in auto)
  moreover have "finite ?S" by simp
  ultimately show ?thesis unfolding One_nat_def by (subst card_le_Suc0_iff_eq) blast+
qed

text \<open>Token requests insert no codes.\<close>

lemma token_task_inserts:
  assumes "after (hp_task sqlite_code B C base c task) tr = Some q" and "token_request C h task" and "(Db x, y) \<in> set tr"
  shows "\<not> inserts_code h' (stmt x)"
proof -
  let ?Q = "\<lambda>x. \<not> inserts_code h' (stmt x)" and ?Q' = "\<lambda>y. case y of Db x \<Rightarrow> \<not> inserts_code h' (stmt x) | _ \<Rightarrow> True"
  from assms(2) obtain v r t where task: "task = Ask v r" and route: "server_route (rq_method r) (rq_path r) = C_oauth"
    and m: "rq_method r = ''POST''" and p: "resolver_path (rq_path r) = Some (t, ''/token'')"
    by (auto simp: token_request_def split: task.splits option.splits)
  have ep: "oauth_route ''POST'' ''/token'' = Ep_token" by code_simp
  have s: "calls_in ?Q (sp_GetTenant a)" "calls_in ?Q (sp_GetSigningKey a)" "calls_in ?Q (sp_CreateSigningKey a b now)"
    "calls_in ?Q (sp_ConsumeAuthCode a now)" for a b now
    by (simp_all add: sp_GetTenant_def sp_GetSigningKey_def sp_CreateSigningKey_def sp_ConsumeAuthCode_def Let_def
        calls_in_and_then inserts_code_def)
  have n: "calls_in ?Q (hp_NewServer sqlite_code C base t e pem now)" for e pem now
    unfolding hp_NewServer_def Let_def by (auto intro!: calls_in_bind s split: sum.split option.split)
  have db: "calls_in ?Q' (on_db p)" if "calls_in ?Q p" for p :: "(db_call, db_answer, 'c) prog"
    by (rule calls_in_on_db) (use that in simp)
  have "calls_in ?Q' (hp_task sqlite_code B C base c task)"
    using m p ep by (auto simp: task hp_serve_as hp_handle_def route [unfolded m] hp_stay_def hp_resolver_handle_def hp_oauth_serve_def reply_stay
        hp_resolver_server_def unlocked_def hp_handleToken_def Let_def
        intro!: calls_in_bind db s n split: option.split sum.split daemon_reply.split)
  from calls_in_after [OF assms(1) this] assms(3) show ?thesis by (force simp: list_all_iff)
qed

end
