(* ===== verification/Serial_Runs.thy ===== *)
theory Serial_Runs
  imports Interleaving
begin

text \<open>
  The atomic account of \<open>Tunneld\<close> inside the interleaved one: every run of \<open>daemon_run\<close>, in which a
  handler is one step, is the run of a schedule of the handlers' programs, with the same replies.
\<close>

section \<open>What a visit leaves of the sessions\<close>

lemma visit_handlers:
  assumes "daemon_serve A B C c v r d = (x, d')" and "gw_handlers (dm_gateway d') i = Some (key, ph)"
  shows "gw_handlers (dm_gateway d) i = Some (key, ph) \<or> x = Connected i \<and> (\<exists>old. ph = Closing old)"
proof (cases "server_route (rq_method r) (rq_path r) = C_gateway")
  case True
  with assms show ?thesis
    by (auto simp: daemon_serve_def daemon_handle_def gateway_connect_def gw_swap_def split: prod.splits sum.splits option.splits if_splits)
next
  case False
  with assms(1) have "dm_gateway d' = dm_gateway d"
    by (auto simp: daemon_serve_def daemon_handle_def split: component.splits prod.splits if_splits)
  with assms(2) show ?thesis by auto
qed

lemma world_baseURL: "call_world f x sh = Some (y, sh') \<Longrightarrow>
    rv_baseURL (dm_resolver (sh_daemon sh')) = rv_baseURL (dm_resolver (sh_daemon sh))"
  by (cases x) (auto simp: Let_def on_gateway_def split: option.splits prod.splits pc.splits if_splits)

lemma exec_baseURL: "exec (call_world f) p sh = Some (a, sh') \<Longrightarrow>
    rv_baseURL (dm_resolver (sh_daemon sh')) = rv_baseURL (dm_resolver (sh_daemon sh))"
proof (induction p arbitrary: sh)
  case (Call x k)
  then obtain y sh1 where "call_world f x sh = Some (y, sh1)" "exec (call_world f) (k y) sh1 = Some (a, sh')"
    by (auto split: option.splits)
  with Call.IH [of "k y" sh1] world_baseURL [of f x sh y sh1] show ?case by simp
qed simp

lemma step_baseURL:
  assumes "daemon_step sqlite_api B C c e d = Some d'"
  shows "rv_baseURL (dm_resolver d') = rv_baseURL (dm_resolver d)"
proof (cases e)
  case (Visit v r)
  obtain x where "daemon_serve sqlite_api B C c v r d = (x, d')" using assms Visit by (cases "daemon_serve sqlite_api B C c v r d") auto
  with sqlite_runs.exec_serve [OF refl, of B C d c v r]
  have "exec (call_world sql_world) (hp_serve sqlite_code B C (rv_baseURL (dm_resolver d)) c v r) (shared_of d) = Some (x, shared_of d')" by simp
  from exec_baseURL [OF this] show ?thesis by simp
qed (use assms in \<open>auto split: option.splits prod.splits pc.splits if_splits\<close>)

section \<open>Threads that stay\<close>

text \<open>The rest of the handler of a session that was registered.\<close>

definition staying :: "nat \<Rightarrow> pc \<Rightarrow> ('x, 'y, 'k, daemon_reply option) handler" where
  "staying i ph = (case ph of
     Closing old \<Rightarrow> Call (Close_displaced i) (\<lambda>_. Call (Await_close i) (\<lambda>_. Ret (Some (Connected i))))
   | Serving \<Rightarrow> Call (Await_close i) (\<lambda>_. Ret (Some (Connected i)))
   | Returned \<Rightarrow> Ret (Some (Connected i)))"

lemma hp_stay_as: "hp_stay x = (case x of Connected i \<Rightarrow> staying i (Closing old) | _ \<Rightarrow> Ret (Some x))"
  by (simp add: hp_stay_def staying_def split: daemon_reply.split)

lemma staying_inj: "staying i ph = staying j ph' \<Longrightarrow> i = j"
  by (cases ph; cases ph') (auto simp: staying_def)

text \<open>A thread whose handler has replied \<open>x\<close>.\<close>

definition replied :: "daemon_reply option \<Rightarrow> ('x, 'y, 'k, daemon_reply option) handler \<Rightarrow> bool" where
  "replied x q \<longleftrightarrow> q = Ret x \<or> (\<exists>i ph. x = Some (Connected i) \<and> q = staying i ph)"

lemma replied_intros [simp]: "replied x (Ret x)" "replied (Some (Connected i)) (staying i ph)"
  by (auto simp: replied_def)

lemma replied_stay: "replied (Some x) (hp_stay x)"
  by (auto simp: hp_stay_as [where old = None] split: daemon_reply.split)

lemma replied_staying: "replied x (staying i ph) \<Longrightarrow> x = Some (Connected i)"
  by (auto simp: replied_def dest: staying_inj) (cases ph; simp add: staying_def)

section \<open>The schedule of a run\<close>

fun event_tasks :: "daemon_event list \<Rightarrow> task list" where
  "event_tasks [] = []"
| "event_tasks (Visit v r # es) = Ask v r # event_tasks es"
| "event_tasks (Tick now # es) = Purge now # event_tasks es"
| "event_tasks (Die i # es) = Death i # event_tasks es"
| "event_tasks (Close_old i # es) = event_tasks es"
| "event_tasks (Return i # es) = event_tasks es"

text \<open>What the requests of a run are answered; ticks and closes have no answer.\<close>

fun run_replies ::
  "'s store_api \<Rightarrow> bcrypt \<Rightarrow> ('k, 'p) crypto \<Rightarrow> daemon_config \<Rightarrow> daemon_event list \<Rightarrow> ('s, 'k) daemon \<Rightarrow> daemon_reply option list" where
  "run_replies A B C c [] d = []"
| "run_replies A B C c (e # es) d =
     (let rest = (case daemon_step A B C c e d of None \<Rightarrow> [] | Some d \<Rightarrow> run_replies A B C c es d) in
      case e of
        Visit v r \<Rightarrow> Some (fst (daemon_serve A B C c v r d)) # rest
      | Tick now \<Rightarrow> None # rest
      | Die i \<Rightarrow> None # rest
      | _ \<Rightarrow> rest)"

text \<open>
  The pool after some events: the tasks of these have replied, the others have not started, and every
  handler of the gateway that has not returned is a thread.
\<close>

definition tied ::
  "bcrypt \<Rightarrow> ('k, 'p) crypto \<Rightarrow> string \<Rightarrow> daemon_config \<Rightarrow> task list \<Rightarrow> daemon_reply option list
    \<Rightarrow> ((db_call, 'k) call, (db_answer, 'k) answer, daemon_reply option, (conn, 'k) shared) pool \<Rightarrow> (conn, 'k) daemon \<Rightarrow> bool" where
  "tied B C base c tasks xs P d \<longleftrightarrow>
     pl_shared P = shared_of d \<and> rv_baseURL (dm_resolver d) = base \<and> length (pl_threads P) = length xs + length tasks
     \<and> (\<forall>j < length tasks. pl_threads P ! (length xs + j) = hp_task sqlite_code B C base c (tasks ! j))
     \<and> (\<forall>j < length xs. replied (xs ! j) (pl_threads P ! j))
     \<and> (\<forall>i key ph. gw_handlers (dm_gateway d) i = Some (key, ph) \<longrightarrow> ph \<noteq> Returned \<longrightarrow>
          (\<exists>j < length xs. pl_threads P ! j = staying i ph))"

lemma tied_start:
  assumes "rv_baseURL (dm_resolver d) = base" and "gw_handlers (dm_gateway d) = Map.empty"
  shows "tied B C base c tasks [] (pool_start (map (hp_task sqlite_code B C base c) tasks) (shared_of d)) d"
  using assms by (simp add: tied_def pool_start_def)

text \<open>The next task runs until it has replied.\<close>

lemma tied_task:
  assumes tied: "tied B C base c (task # tasks) xs P d" and task: "hp_task sqlite_code B C base c task = prog_bind p g"
    and run: "exec (call_world sql_world) p (shared_of d) = Some (a, shared_of d')" and x: "replied x (g a)"
    and handlers: "\<And>i key ph. gw_handlers (dm_gateway d') i = Some (key, ph) \<Longrightarrow>
      gw_handlers (dm_gateway d) i = Some (key, ph) \<or> g a = staying i ph"
  shows "\<exists>sched P'. pool_run (call_world sql_world) sched P = Some P' \<and> tied B C base c tasks (xs @ [x]) P' d'"
proof -
  from tied have t: "pl_shared P = shared_of d" "length (pl_threads P) = length xs + length (task # tasks)"
    by (auto simp: tied_def)
  from tied have "pl_threads P ! (length xs + 0) = hp_task sqlite_code B C base c ((task # tasks) ! 0)"
    unfolding tied_def by blast
  with task have t3: "pl_threads P ! length xs = prog_bind p g" by simp
  from pool_run_exec [OF run [folded t(1)] _ t3] t(2) obtain n P' where P': "pool_run (call_world sql_world) (replicate n (length xs)) P = Some P'"
    "pl_shared P' = shared_of d'" "pl_threads P' = (pl_threads P)[length xs := g a]" by auto
  have "rv_baseURL (dm_resolver d') = base" using exec_baseURL [OF run] tied by (simp add: tied_def)
  moreover have "\<forall>j < length tasks. pl_threads P' ! (length (xs @ [x]) + j) = hp_task sqlite_code B C base c (tasks ! j)"
    using tied by (force simp: tied_def P'(3) nth_list_update)
  moreover have "\<forall>j < length (xs @ [x]). replied ((xs @ [x]) ! j) (pl_threads P' ! j)"
    using tied x t(2) by (simp add: tied_def P'(3) nth_list_update nth_append)
  moreover have "\<exists>j < length (xs @ [x]). pl_threads P' ! j = staying i ph"
    if "gw_handlers (dm_gateway d') i = Some (key, ph)" "ph \<noteq> Returned" for i key ph
    using handlers [OF that(1)]
  proof (elim disjE)
    assume "gw_handlers (dm_gateway d) i = Some (key, ph)"
    with tied that(2) obtain j where "j < length xs" "pl_threads P ! j = staying i ph" unfolding tied_def by blast
    then show ?thesis by (intro exI [of _ j]) (simp add: P'(3))
  next
    assume "g a = staying i ph"
    then show ?thesis using t(2) by (intro exI [of _ "length xs"]) (simp add: P'(3))
  qed
  ultimately have "tied B C base c tasks (xs @ [x]) P' d'"
    using t(2) by (simp add: tied_def P'(2,3))
  with P'(1) show ?thesis by blast
qed

text \<open>A thread that stays goes on.\<close>

lemma tied_stay:
  fixes C :: "('k, 'p) crypto"
  assumes tied: "tied B C base c tasks xs P d" and old: "gw_handlers (dm_gateway d) i = Some (key, ph)" "ph \<noteq> Returned"
    and call: "(staying i ph :: (db_call, db_answer, 'k, daemon_reply option) handler) = Call x (\<lambda>_. staying i ph')" and run: "call_world sql_world x (shared_of d) = Some (y, shared_of d')"
    and new: "gw_handlers (dm_gateway d') = (gw_handlers (dm_gateway d))(i \<mapsto> (key, ph'))"
  shows "\<exists>sched P'. pool_run (call_world sql_world) sched P = Some P' \<and> tied B C base c tasks xs P' d'"
proof -
  obtain j where j: "j < length xs" "pl_threads P ! j = staying i ph" using tied old unfolding tied_def by blast
  define P' where "P' = \<lparr>pl_shared = shared_of d', pl_threads = (pl_threads P)[j := staying i ph'], pl_log = pl_log P @ [(j, x, y)]\<rparr>"
  have t: "pl_shared P = shared_of d" "length (pl_threads P) = length xs + length tasks" using tied by (auto simp: tied_def)
  have "pool_run (call_world sql_world) [j] P = Some P'"
    using j t by (simp add: pool_step_def call run P'_def)
  moreover have "rv_baseURL (dm_resolver d') = base" using world_baseURL [OF run] tied by (simp add: tied_def)
  moreover have "replied (xs ! k) (pl_threads P' ! k)" if "k < length xs" for k
  proof (cases "k = j")
    case True
    have "replied (xs ! j) (pl_threads P ! j)" using tied j by (auto simp: tied_def)
    from replied_staying [OF this [unfolded j(2)]] show ?thesis using True t(2) j by (simp add: P'_def)
  qed (use tied that in \<open>simp add: tied_def P'_def\<close>)
  moreover have "\<exists>k < length xs. pl_threads P' ! k = staying i' ph1"
    if "gw_handlers (dm_gateway d') i' = Some (key', ph1)" "ph1 \<noteq> Returned" for i' key' ph1
  proof (cases "i' = i")
    case True
    with that new j t(2) show ?thesis by (intro exI [of _ j]) (simp add: P'_def)
  next
    case False
    with that new have "gw_handlers (dm_gateway d) i' = Some (key', ph1)" by simp
    with tied that(2) obtain k where "k < length xs" "pl_threads P ! k = staying i' ph1" unfolding tied_def by blast
    moreover from this have "k \<noteq> j" using j(2) False staying_inj by metis
    ultimately show ?thesis by (intro exI [of _ k]) (simp add: P'_def)
  qed
  ultimately have "pool_run (call_world sql_world) [j] P = Some P' \<and> tied B C base c tasks xs P' d'"
    using tied j by (auto simp: tied_def P'_def)
  then show ?thesis by blast
qed

lemma exec_purge: "exec (call_world sql_world) (on_db (p_DeleteExpiredTenants sqlite_code now)) (shared_of d)
    = Some (fst (DeleteExpiredTenants sqlite_api now (dm_store d)), shared_of (with_store (snd (DeleteExpiredTenants sqlite_api now (dm_store d))) d))"
  by (simp add: exec_db_shared sqlite_runs.store_runs split: prod.split del: sqlite_code_sel)

lemma tied_step:
  assumes tied: "tied B C base c (event_tasks (e # es)) xs P d" and step: "daemon_step sqlite_api B C c e d = Some d'"
  shows "\<exists>sched P' ys. pool_run (call_world sql_world) sched P = Some P' \<and> tied B C base c (event_tasks es) (xs @ ys) P' d'
    \<and> run_replies sqlite_api B C c (e # es) d = ys @ run_replies sqlite_api B C c es d'"
proof (cases e)
  case (Visit v r)
  obtain x where serve: "daemon_serve sqlite_api B C c v r d = (x, d')" using step Visit by (cases "daemon_serve sqlite_api B C c v r d") auto
  have base: "rv_baseURL (dm_resolver d) = base" using tied by (simp add: tied_def)
  have "\<exists>sched P'. pool_run (call_world sql_world) sched P = Some P' \<and> tied B C base c (event_tasks es) (xs @ [Some x]) P' d'"
  proof (rule tied_task [of B C base c "Ask v r" _ xs P d "hp_serve sqlite_code B C base c v r" hp_stay x])
    show "exec (call_world sql_world) (hp_serve sqlite_code B C base c v r) (shared_of d) = Some (x, shared_of d')"
      using sqlite_runs.exec_serve [OF base, of B C c v r] serve by simp
    show "gw_handlers (dm_gateway d) i = Some (key, ph) \<or> hp_stay x = staying i ph" if "gw_handlers (dm_gateway d') i = Some (key, ph)" for i key ph
      using visit_handlers [OF serve that] by (auto simp: hp_stay_def staying_def)
  qed (use tied Visit in \<open>simp_all add: replied_stay\<close>)
  with Visit serve show ?thesis by (auto intro!: exI [of _ "[Some x]"])
next
  case (Tick now)
  have d': "d' = with_store (snd (DeleteExpiredTenants sqlite_api now (dm_store d))) d" using step Tick by simp
  have "\<exists>sched P'. pool_run (call_world sql_world) sched P = Some P' \<and> tied B C base c (event_tasks es) (xs @ [None]) P' d'"
    unfolding d' by (rule tied_task [OF _ _ exec_purge [of now d], of B C base c "Purge now"]) (use tied step Tick in \<open>auto\<close>)
  with Tick step show ?thesis by (auto intro!: exI [of _ "[None]"])
next
  case (Die i)
  have "\<exists>sched P'. pool_run (call_world sql_world) sched P = Some P' \<and> tied B C base c (event_tasks es) (xs @ [None]) P' d'"
    by (rule tied_task [of B C base c "Death i" _ xs P d "Call (Kill_session i) Ret" "\<lambda>_. Ret None"])
      (use tied step Die in \<open>auto simp: gw_die_def\<close>)
  with Die step show ?thesis by (auto intro!: exI [of _ "[None]"])
next
  case (Close_old i)
  with step obtain key old where i: "gw_handlers (dm_gateway d) i = Some (key, Closing old)"
    and d': "d' = d\<lparr>dm_gateway := gw_close_old i (dm_gateway d)\<rparr>" by (auto split: option.splits prod.splits pc.splits)
  have "\<exists>sched P'. pool_run (call_world sql_world) sched P = Some P' \<and> tied B C base c (event_tasks es) xs P' d'"
    by (rule tied_stay [OF _ i, where ph' = Serving and x = "Close_displaced i" and y = Went])
      (use tied Close_old in \<open>simp_all add: staying_def i d' gw_close_old_def\<close>)
  with Close_old step show ?thesis by (auto intro!: exI [of _ "[]"])
next
  case (Return i)
  with step obtain key where i: "gw_handlers (dm_gateway d) i = Some (key, Serving)" "i \<in> gw_closed (dm_gateway d)"
    and d': "d' = d\<lparr>dm_gateway := gw_return key i (dm_gateway d)\<rparr>" by (auto split: option.splits prod.splits pc.splits if_splits)
  have "\<exists>sched P'. pool_run (call_world sql_world) sched P = Some P' \<and> tied B C base c (event_tasks es) xs P' d'"
    by (rule tied_stay [OF _ i(1), where ph' = Returned and x = "Await_close i" and y = Went])
      (use tied Return in \<open>simp_all add: staying_def i d' gw_return_def gw_unregister_def Let_def\<close>)
  with Return step show ?thesis by (auto intro!: exI [of _ "[]"])
qed

lemma tied_run:
  assumes "tied B C base c (event_tasks es) xs P d" and "daemon_run sqlite_api B C c es d = Some d'"
  shows "\<exists>sched P'. pool_run (call_world sql_world) sched P = Some P'
    \<and> tied B C base c [] (xs @ run_replies sqlite_api B C c es d) P' d'"
  using assms
proof (induction es arbitrary: xs P d)
  case Nil
  then show ?case by (intro exI [of _ "[]"] exI [of _ P]) simp
next
  case (Cons e es)
  then obtain d1 where d1: "daemon_step sqlite_api B C c e d = Some d1" "daemon_run sqlite_api B C c es d1 = Some d'"
    by (auto simp: bind_eq_Some_conv)
  from tied_step [OF Cons.prems(1) d1(1)] obtain s1 P1 ys where 1: "pool_run (call_world sql_world) s1 P = Some P1"
    "tied B C base c (event_tasks es) (xs @ ys) P1 d1"
    "run_replies sqlite_api B C c (e # es) d = ys @ run_replies sqlite_api B C c es d1" by (elim exE conjE)
  from Cons.IH [OF 1(2) d1(2)] obtain s2 P2 where "pool_run (call_world sql_world) s2 P1 = Some P2"
    "tied B C base c [] ((xs @ ys) @ run_replies sqlite_api B C c es d1) P2 d'" by (elim exE conjE)
  with 1 show ?case by (intro exI [of _ "s1 @ s2"] exI [of _ P2]) (simp add: pool_run_append)
qed

lemma run_has_schedule:
  assumes "daemon_run sqlite_api B C c es d = Some d'" and "gw_handlers (dm_gateway d) = Map.empty"
  shows "\<exists>sched P. tasks_run B C (rv_baseURL (dm_resolver d)) c sched (event_tasks es) (shared_of d) = Some P
    \<and> pl_shared P = shared_of d' \<and> list_all2 replied (run_replies sqlite_api B C c es d) (pl_threads P)"
proof -
  from tied_run [OF tied_start [OF refl assms(2)] assms(1)] obtain sched P
    where P: "tasks_run B C (rv_baseURL (dm_resolver d)) c sched (event_tasks es) (shared_of d) = Some P"
      "tied B C (rv_baseURL (dm_resolver d)) c [] (run_replies sqlite_api B C c es d) P d'"
    unfolding tasks_run_def by auto
  from P(2) have "pl_shared P = shared_of d'" "list_all2 replied (run_replies sqlite_api B C c es d) (pl_threads P)"
    by (auto simp: tied_def list_all2_conv_all_nth)
  with P(1) show ?thesis by blast
qed

end
