(* ===== verification/Rate_Interleaving.thy ===== *)
theory Rate_Interleaving
  imports Interleaving
begin

text \<open>
  The per-address limit of anonymous tunnels under interleaving. Increment and read are two statements,
  so the counter seen by a request may already hold the hits of others, never fewer than its own and
  those before it: no schedule lets more requests of a window past the limiter than the limit.
\<close>

section \<open>The rate counters under interleaving\<close>

text \<open>A statement raises the count of an address and window by one, or leaves it, unless it prunes the window.\<close>

lemma hits_stmt:
  assumes "sql_exec st d = Inr (q, d')" and "\<And>p. st = Prune_rate p \<Longrightarrow> p \<le> w"
  shows "hits ip w (view_db d') = hits ip w (view_db d) + (if st = Upsert_rate ip w then 1 else 0)"
proof (cases st)
  case (Prune_rate p)
  with assms have d': "d' = d\<lparr>quick_rate := filter (\<lambda>r. \<not> rr_window_start r < p) (quick_rate d)\<rparr>" and p: "p \<le> w" by auto
  with Prune_rate show ?thesis by (simp add: hits_def prune_view del: view_db_sel)
next
  case (Upsert_rate ip' w')
  with assms(1) have "d' = d\<lparr>quick_rate := upsert_rate_rows ip' w' (quick_rate d)\<rparr>" by (simp add: upsert_rate_exec del: sql_exec.simps)
  with Upsert_rate show ?thesis by (auto simp: hits_def upsert_rate_map split: option.split)
next
  case (Insert_service a b e f g h)
  with assms show ?thesis by (auto simp: hits_def insert_service_row_def split: if_splits)
next
  case (Insert_service_if a b e f g h)
  with assms show ?thesis by (auto simp: hits_def insert_service_row_def split: if_splits)
qed (use assms in \<open>auto simp: hits_def Let_def delete_tenant_rows_def split: if_splits\<close>)

lemma healthy_step:
  assumes "sql_world x c = Some (y, c')" and "c_faults c = []"
  shows "c_faults c' = []" and "sql_exec (stmt x) (c_db c) = Inr (q, d) \<Longrightarrow>
    c_db c' = d \<and> y = (case x of Do_exec st \<Rightarrow> Changed (rs_changes q) | Do_query st \<Rightarrow> Rows (rs_rows q) None)"
  using assms by (cases x; auto simp: db_exec_def db_query_def next_fault_def simp del: sql_exec.simps split: sum.splits)+

lemma hits_step:
  assumes "sql_world x c = Some (y, c')" and "\<And>p. stmt x = Prune_rate p \<Longrightarrow> p \<le> w" and "c_faults c = []"
  shows "hits ip w (view_conn c') = hits ip w (view_conn c) + (if stmt x = Upsert_rate ip w then 1 else 0)"
proof (cases "stmt x = Upsert_rate ip w")
  case True
  then obtain q d where e: "sql_exec (stmt x) (c_db c) = Inr (q, d)" by (simp add: upsert_rate_exec del: sql_exec.simps)
  with healthy_step(2) [OF assms(1,3) e] hits_stmt [OF e assms(2)] True show ?thesis by (simp add: view_conn_def)
next
  case False
  from sql_step [OF assms(1)] hits_stmt [OF _ assms(2)] False show ?thesis by (auto simp: view_conn_def)
qed

lemma hits_history:
  "replay sql_world tr c = Some c' \<Longrightarrow> c_faults c = [] \<Longrightarrow> (\<And>x y p. (x, y) \<in> set tr \<Longrightarrow> stmt x = Prune_rate p \<Longrightarrow> p \<le> w) \<Longrightarrow>
   c_faults c' = [] \<and> hits ip w (view_conn c') = hits ip w (view_conn c) + int (length (filter (\<lambda>xy. stmt (fst xy) = Upsert_rate ip w) tr))"
proof (induction tr arbitrary: c)
  case (Cons xy tr)
  obtain x y c1 where xy: "xy = (x, y)" and x: "sql_world x c = Some (y, c1)" and tr: "replay sql_world tr c1 = Some c'"
    using Cons.prems(1) by (cases xy) (auto split: option.splits if_splits)
  have p: "stmt x = Prune_rate p \<Longrightarrow> p \<le> w" for p using Cons.prems(3) [of x y p] xy by simp
  have "stmt x' = Prune_rate p \<Longrightarrow> p \<le> w" if "(x', y') \<in> set tr" for x' y' p using Cons.prems(3) that by (metis list.set_intros(2))
  from Cons.IH [OF tr healthy_step(1) [OF x Cons.prems(2)] this] hits_step [OF x p Cons.prems(2), of ip] xy
  show ?case by simp
qed simp

text \<open>What \<open>Select_rate\<close> reads on a healthy connection is the count.\<close>

definition count_of :: "sql_row list \<Rightarrow> store_error + int" where
  "count_of rows = map_sum scan_driver_error id (bind_sum (scanned_row (Inr (rows, None))) (\<lambda>row. scan_int (map_of row ''count'')))"

lemma rate_read:
  assumes "sql_world (Do_query (Select_rate ip w)) c = Some (y, c')" and "c_faults c = []" and "rg_rates (view_conn c) (ip, w) \<noteq> None"
  shows "\<exists>rows. y = Rows rows None \<and> count_of rows = Inr (hits ip w (view_conn c))"
proof -
  let ?rs = "filter (\<lambda>r. rate_key r = (ip, w)) (quick_rate (c_db c))"
  obtain r rs where rs: "?rs = r # rs" using assms(3) by (cases ?rs) (auto simp: view_conn_def row_map_filter)
  with healthy_step(2) [OF assms(1,2)] have "y = Rows (map (\<lambda>r. [(''count'', SQL_Int (rr_count r))]) (r # rs)) None"
    by (simp add: rows_result_def)
  moreover have "hits ip w (view_conn c) = rr_count r" using rs by (simp add: hits_def view_conn_def row_map_filter)
  ultimately show ?thesis by (simp add: scanned_row_def count_of_def)
qed

section \<open>A request past the limiter\<close>

fun went_well :: "db_call \<times> db_answer \<Rightarrow> bool" where
  "went_well (Do_exec st, Changed n) = True"
| "went_well (Do_query st, Rows rows None) = True"
| "went_well _ = False"

lemma counting_well:
  assumes "replay sql_world tr c = Some c'" and "c_faults c = []" and "(x, y) \<in> set tr" and "counts (stmt x)"
  shows "went_well (x, y)"
  using assms
proof (induction tr arbitrary: c)
  case (Cons xy tr)
  obtain x' y' c1 where xy: "xy = (x', y')" and x': "sql_world x' c = Some (y', c1)" and tr: "replay sql_world tr c1 = Some c'"
    using Cons.prems(1) by (cases xy) (auto split: option.splits if_splits)
  show ?case
  proof (cases "(x, y) = (x', y')")
    case True
    obtain q d where "sql_exec (stmt x') (c_db c) = Inr (q, d)" using Cons.prems(4) True by (cases "stmt x'") auto
    from healthy_step(2) [OF x' Cons.prems(2) this] True show ?thesis by (cases x') auto
  next
    case False
    with Cons.IH [OF tr healthy_step(1) [OF x' Cons.prems(2)]] Cons.prems(3,4) xy show ?thesis by auto
  qed
qed simp

lemma sp_exec_Call: "sp_exec err g st = Call (Do_exec st) (\<lambda>y. Ret (map_sum err g
    (case y of Changed n \<Rightarrow> Inr n | Db_failed m \<Rightarrow> Inl m | Rows rs e \<Rightarrow> Inl [])))"
  by (simp add: sp_exec_def exec_prog_def)

lemma sp_row_Call: "sp_row err scan st = Call (Do_query st) (\<lambda>y. Ret (map_sum err id (bind_sum (scanned_row
    (case y of Rows rs e \<Rightarrow> Inr (rs, e) | Db_failed m \<Rightarrow> Inl m | Changed n \<Rightarrow> Inl [])) scan)))"
  by (simp add: sp_row_def row_prog_def query_prog_def)

text \<open>The three statements of \<open>QuickRateHit\<close>, in the order of the method.\<close>

lemma rate_hit_trace:
  assumes "after (prog_bind (sp_QuickRateHit ip now) g) tr = Some (Ret a)"
    and well: "\<And>x y. (x, y) \<in> set tr \<Longrightarrow> counts (stmt x) \<Longrightarrow> went_well (x, y)" and w: "rate_window now = w"
  shows "\<exists>n m rows tr2. tr = (Do_exec (Prune_rate (w - 2)), Changed n) # (Do_exec (Upsert_rate ip w), Changed m)
      # (Do_query (Select_rate ip w), Rows rows None) # tr2 \<and> after (g (count_of rows)) tr2 = Some (Ret a)"
proof -
  have win: "go_quot (unix now) 3600 = w" using w by (simp add: rate_window_def)
  note run = assms(1) [unfolded sp_QuickRateHit_def Let_def win prog_and_then_def sp_exec_Call sp_row_Call prog_bind.simps]
  from after_CallE [OF run] obtain y1 tr1 where tr: "tr = (Do_exec (Prune_rate (w - 2)), y1) # tr1"
    and r1: "after (prog_bind (case map_sum Driver id (case y1 of Changed n \<Rightarrow> Inr n | Db_failed m \<Rightarrow> Inl m | Rows rs e \<Rightarrow> Inl []) of
        Inl e \<Rightarrow> Ret (Inl e) | Inr _ \<Rightarrow> Call (Do_exec (Upsert_rate ip w)) (\<lambda>y. case map_sum Driver id
          (case y of Changed n \<Rightarrow> Inr n | Db_failed m \<Rightarrow> Inl m | Rows rs e \<Rightarrow> Inl []) of
        Inl e \<Rightarrow> Ret (Inl e) | Inr _ \<Rightarrow> Call (Do_query (Select_rate ip w)) (\<lambda>y. Ret (map_sum scan_driver_error id
          (bind_sum (scanned_row (case y of Rows rs e \<Rightarrow> Inr (rs, e) | Db_failed m \<Rightarrow> Inl m | Changed n \<Rightarrow> Inl []))
            (\<lambda>row. scan_int (map_of row ''count'')))))))  g) tr1 = Some (Ret a)" by auto
  from well [of "Do_exec (Prune_rate (w - 2))" y1] tr obtain n where y1: "y1 = Changed n" by (cases y1) auto
  with r1 obtain y2 tr2 where tr1: "tr1 = (Do_exec (Upsert_rate ip w), y2) # tr2" by (auto simp: after_Call)
  with well [of "Do_exec (Upsert_rate ip w)" y2] tr obtain m where y2: "y2 = Changed m" by (cases y2) auto
  with r1 y1 tr1 obtain y3 tr3 where tr2: "tr2 = (Do_query (Select_rate ip w), y3) # tr3" by (auto simp: after_Call)
  with well [of "Do_query (Select_rate ip w)" y3] tr tr1 obtain rows where y3: "y3 = Rows rows None"
    by (cases y3) (auto split: option.splits elim: went_well.elims)
  from r1 have "after (g (count_of rows)) tr3 = Some (Ret a)" by (simp add: tr1 tr2 y1 y2 y3 count_of_def)
  with tr tr1 tr2 y1 y2 y3 show ?thesis by blast
qed

lemma prog_bind_assoc: "prog_bind (prog_bind p g) h = prog_bind p (\<lambda>a. prog_bind (g a) h)"
  by (induction p) simp_all

text \<open>Behind the limiter a quick request touches no counter, and above the limit it is refused.\<close>

lemma quick_past:
  "\<exists>g. hp_handleQuick sqlite_code B env r = prog_bind (sp_QuickRateHit (rate_ip r) (qe_rate_now env)) g
    \<and> (\<forall>n > quickRateLimit. \<exists>resp. g (Inr n) = Ret resp \<and> rp_status resp = 429)
    \<and> (\<forall>x. calls_in (\<lambda>x. \<not> counts (stmt x)) (g x))"
proof -
  define Q where "Q = (\<lambda>x. \<not> counts (stmt x))"
  have plain: "calls_in Q p" if "calls_in plain p" for p :: "(db_call, db_answer, 'a) prog"
    by (rule calls_in_mono [OF that]) (simp add: plain_def Q_def)
  have "calls_in Q (sp_CreateService B salt rnd now t svc)" for salt rnd now t svc
    by (rule calls_in_mono [OF create_service_calls]) (auto simp: inserts_for_def plain_def Q_def)
  moreover have "calls_in Q (hp_create_loop sqlite_code e draws n i)" for e draws n i by (rule plain) simp
  moreover have "calls_in Q (sp_CreateSigningKey t pem now)" for t pem now by (rule plain) simp
  ultimately have create: "calls_in Q (hp_quick_create sqlite_code B env auth password)" for auth password
    unfolding hp_quick_create_def Let_def by (auto intro!: calls_in_bind split: sum.split option.split)
  have count: "calls_in Q (sp_CountLiveTenants now)" for now by (rule plain) simp
  show ?thesis unfolding Q_def [symmetric] hp_handleQuick_def hp_quick_admit_def hp_allowQuick_rate prog_bind_assoc sqlite_code_sel
    by (rule exI, rule conjI [OF refl])
      (auto simp: create count intro!: calls_in_bind split: sum.split option.split)
qed

definition quick_task :: "daemon_config \<Rightarrow> string \<Rightarrow> int \<Rightarrow> task \<Rightarrow> bool" where
  "quick_task c ip w task = (case task of
     Ask v r \<Rightarrow> server_route (rq_method r) (rq_path r) = C_control_plane \<and> cp_route (rq_method r) (rq_path r) = Cp_quick
       \<and> rate_ip (request_seen c r) = ip \<and> rate_window (qe_rate_now (vs_quick v)) = w
   | _ \<Rightarrow> False)"

text \<open>The requests that were answered, and not with \<open>429\<close>.\<close>

definition past_limiter :: "('x, 'y, daemon_reply option) prog \<Rightarrow> bool" where
  "past_limiter q = (case q of Ret (Some (Reply resp)) \<Rightarrow> rp_status resp \<noteq> 429 | _ \<Rightarrow> False)"

lemma no_counts:
  assumes "after p tr = Some q" and "calls_in (\<lambda>x. \<not> counts (stmt x)) p" and "(x, y) \<in> set tr"
  shows "\<not> counts (stmt x)"
  using calls_in_after [OF assms(1,2)] assms(3) by (auto simp: list_all_iff)

text \<open>No counter but those of the task's own window is touched.\<close>

lemma task_counts:
  assumes "after (hp_task sqlite_code B C base c task) tr = Some q" and "typed tr" and "(Db x, y) \<in> set tr" and "counts (stmt x)"
  shows "\<exists>ip w. quick_task c ip w task \<and> counts_for ip w x"
proof -
  obtain y' where y: "y = Db_answer y'" using assms(2,3) by (auto simp: typed_def list_all_iff)
  have xy: "(x, y') \<in> set (db_log tr)" using assms(3) y by (simp add: db_log_in)
  note no = no_counts [OF _ _ xy, THEN notE, OF _ _ assms(4)]
  show ?thesis
  proof (cases task)
    case (Purge now)
    from sweep_task [OF assms(1) [unfolded Purge] assms(2)] obtain p where p: "after (sp_DeleteExpiredTenants now) (db_log tr) = Some p"
      by (elim exE conjE)
    have "calls_in (\<lambda>x. \<not> counts (stmt x)) (sp_delete_all ss)" for ss
      by (rule calls_in_mono [OF delete_all_calls]) auto
    then have "calls_in (\<lambda>x. \<not> counts (stmt x)) (sp_DeleteExpiredTenants now)"
      by (auto simp: sp_DeleteExpiredTenants_def query_prog_def intro!: calls_in_bind split: sum.split option.split)
    from no [OF p this] show ?thesis .
  next
    case (Ask v r)
    show ?thesis
    proof (cases "server_route (rq_method r) (rq_path r) = C_control_plane")
      case False
      from other_task [OF assms(1) [unfolded Ask] False] assms(3,4) show ?thesis by (force simp: list_all_iff plain_def)
    next
      case True
      from control_task [OF True assms(1) [unfolded Ask] assms(2)] obtain p
        where p: "after (hp_control_plane sqlite_code B v (request_seen c r)) (db_log tr) = Some p" by (elim exE conjE)
      show ?thesis
      proof (cases "cp_route (rq_method r) (rq_path r)")
        case (Cp_delete t)
        have "calls_in (\<lambda>x. \<not> counts (stmt x)) (sp_ValidateAgentKey B t n k)" for n k
          by (rule calls_in_mono [OF plain_validate]) (simp add: plain_def)
        then have "calls_in (\<lambda>x. \<not> counts (stmt x)) (hp_control_plane sqlite_code B v (request_seen c r))"
          by (auto simp: hp_control_plane_def Cp_delete hp_handleDelete_def Let_def sp_DeleteTenant_def intro!: calls_in_bind split: sum.split)
        from no [OF p this] show ?thesis .
      next
        case Cp_quick
        define ip w where "ip = rate_ip (request_seen c r)" and "w = rate_window (qe_rate_now (vs_quick v))"
        obtain g where g: "hp_handleQuick sqlite_code B (vs_quick v) (request_seen c r) = prog_bind (sp_QuickRateHit ip (qe_rate_now (vs_quick v))) g"
          and rest: "\<And>x. calls_in (\<lambda>x. \<not> counts (stmt x)) (g x)"
          using quick_past [of B "vs_quick v" "request_seen c r"] unfolding ip_def by blast
        have "calls_in (\<lambda>x. counts (stmt x) \<longrightarrow> counts_for ip w x) (sp_QuickRateHit ip (qe_rate_now (vs_quick v)))"
          by (auto simp: sp_QuickRateHit_def Let_def counts_for_def w_def rate_window_def intro!: calls_in_and_then)
        moreover have "calls_in (\<lambda>x. counts (stmt x) \<longrightarrow> counts_for ip w x) (g x)" for x by (rule calls_in_mono [OF rest]) simp
        ultimately have "calls_in (\<lambda>x. counts (stmt x) \<longrightarrow> counts_for ip w x) (hp_control_plane sqlite_code B v (request_seen c r))"
          by (auto simp: hp_control_plane_def Cp_quick g)
        from calls_in_after [OF p this] xy assms(4) have "counts_for ip w x" by (auto simp: list_all_iff)
        then show ?thesis using True Cp_quick Ask by (auto simp: quick_task_def ip_def w_def)
      qed (use p xy in \<open>simp_all add: hp_control_plane_def\<close>)
    qed
  next
    case (Death i)
    with assms(1,3) show ?thesis by (auto simp: after_Call)
  qed
qed

text \<open>A request past the limiter has hit its counter and then read at most the limit; it touches no counter afterwards.\<close>

lemma quick_task_trace:
  assumes "after (hp_task sqlite_code B C base c task) tr = Some q" and "typed tr" and "quick_task c ip w task" and "past_limiter q"
    and well: "\<And>x y. (x, y) \<in> set (db_log tr) \<Longrightarrow> counts (stmt x) \<Longrightarrow> went_well (x, y)"
  shows "\<exists>n m rows tr2. tr = map db_event ((Do_exec (Prune_rate (w - 2)), Changed n) # (Do_exec (Upsert_rate ip w), Changed m)
      # (Do_query (Select_rate ip w), Rows rows None) # tr2) \<and> (\<forall>k. count_of rows = Inr k \<longrightarrow> k \<le> quickRateLimit)
      \<and> list_all (\<lambda>xy. \<not> counts (stmt (fst xy))) tr2"
proof -
  obtain v r where task: "task = Ask v r" and route: "server_route (rq_method r) (rq_path r) = C_control_plane"
    "cp_route (rq_method r) (rq_path r) = Cp_quick" and ip: "rate_ip (request_seen c r) = ip" and w: "rate_window (qe_rate_now (vs_quick v)) = w"
    using assms(3) by (auto simp: quick_task_def split: task.splits)
  obtain resp where q: "q = Ret (Some (Reply resp))" and s: "rp_status resp \<noteq> 429"
    using assms(4) by (auto simp: past_limiter_def split: prog.splits option.splits daemon_reply.splits)
  have "after (prog_bind (on_db (hp_handleQuick sqlite_code B (vs_quick v) (request_seen c r))) (\<lambda>resp. Ret (Some (Reply resp)))) tr
      = Some (Ret (Some (Reply resp)))"
    using assms(1) by (simp add: task q hp_serve_as hp_handle_def route reply_stay hp_control_plane_def)
  then have run: "after (on_db (hp_handleQuick sqlite_code B (vs_quick v) (request_seen c r))) tr = Some (Ret resp)"
    by (elim bind_RetE) auto
  obtain g where g: "hp_handleQuick sqlite_code B (vs_quick v) (request_seen c r) = prog_bind (sp_QuickRateHit ip (qe_rate_now (vs_quick v))) g"
    and over: "\<And>n. n > quickRateLimit \<Longrightarrow> \<exists>resp. g (Inr n) = Ret resp \<and> rp_status resp = 429"
    and rest: "\<And>x. calls_in (\<lambda>x. \<not> counts (stmt x)) (g x)"
    using quick_past [of B "vs_quick v" "request_seen c r"] unfolding ip by blast
  have "\<exists>n m rows tr2. db_log tr = (Do_exec (Prune_rate (w - 2)), Changed n) # (Do_exec (Upsert_rate ip w), Changed m)
      # (Do_query (Select_rate ip w), Rows rows None) # tr2 \<and> after (g (count_of rows)) tr2 = Some (Ret resp)"
    by (rule rate_hit_trace [OF on_db_Ret [OF run assms(2), unfolded g] _ w]) (rule well)
  then obtain n m rows tr2
    where dl: "db_log tr = (Do_exec (Prune_rate (w - 2)), Changed n) # (Do_exec (Upsert_rate ip w), Changed m)
      # (Do_query (Select_rate ip w), Rows rows None) # tr2" and a: "after (g (count_of rows)) tr2 = Some (Ret resp)" by (elim exE conjE)
  have "k \<le> quickRateLimit" if "count_of rows = Inr k" for k
  proof (rule ccontr)
    assume "\<not> ?thesis"
    with over [of k] obtain resp' where "g (Inr k) = Ret resp'" "rp_status resp' = 429" by auto
    with a that s show False by simp
  qed
  moreover have "list_all (\<lambda>xy. \<not> counts (stmt (fst xy))) tr2" using calls_in_after [OF a rest] by blast
  moreover have "tr = map db_event (db_log tr)" using after_on_db [OF run assms(2)] by (elim exE conjE)
  ultimately show ?thesis unfolding dl by blast
qed

text \<open>At the last of the reads, every request past the limiter has already hit the counter.\<close>

lemma upsert_before:
  assumes log: "h = h1 @ (j, s) # h2" and k: "thread_log k h = p # u # s' # rest"
    and s': "s' \<in> set (thread_log k h) \<Longrightarrow> (k, s') \<notin> set h2" and ne: "s \<noteq> p" "s \<noteq> u"
  shows "(k, u) \<in> set h1"
proof -
  have split: "p # u # s' # rest = thread_log k h1 @ (if j = k then [s] else []) @ thread_log k h2"
    using k by (auto simp: log)
  have no: "s' \<notin> set zs" if "zs = thread_log k h2" for zs using s' k that by (simp add: thread_log_in)
  then have "2 \<le> length (thread_log k h1)"
    using split ne by (cases "thread_log k h1"; cases "tl (thread_log k h1)") (auto dest: no split: if_splits)
  then have "u \<in> set (thread_log k h1)" using split
    by (cases "thread_log k h1"; cases "tl (thread_log k h1)") auto
  then show ?thesis by (simp add: thread_log_in)
qed

lemma distinct_threads:
  assumes "\<And>k. k \<in> S \<Longrightarrow> \<exists>e \<in> set h. fst e = k \<and> Q e"
  shows "card S \<le> length (filter Q h)"
proof -
  have "S \<subseteq> fst ` set (filter Q h)" using assms by fastforce
  then have "card S \<le> card (fst ` set (filter Q h))" by (intro card_mono) simp_all
  also have "\<dots> \<le> card (set (filter Q h))" by (rule card_image_le) simp
  also have "\<dots> \<le> length (filter Q h)" by (rule card_length)
  finally show ?thesis .
qed

lemma filter_le: "(\<And>x. Q x \<Longrightarrow> Q' x) \<Longrightarrow> length (filter Q xs) \<le> length (filter Q' xs)"
  by (induction xs) (auto simp: le_SucI)

lemma db_log_filter:
  "typed (map snd h) \<Longrightarrow> length (filter (\<lambda>e. \<exists>y. snd e = db_event (x, y)) h) \<le> length (filter (\<lambda>xy. fst xy = x) (db_log (map snd h)))"
proof (induction h)
  case (Cons e h)
  obtain i z y where e: "e = (i, z, y)" by (cases e)
  with Cons show ?case by (cases z; cases y) (auto simp: db_event_def)
qed simp

text \<open>What a request past the limiter has done: prune, increment, read a count within the limit.\<close>

definition past_events :: "string \<Rightarrow> int \<Rightarrow> ((db_call, 'k) call \<times> (db_answer, 'k) answer) list \<Rightarrow> bool" where
  "past_events ip w tr \<longleftrightarrow> (\<exists>n m rows tr2. tr = map db_event ((Do_exec (Prune_rate (w - 2)), Changed n)
      # (Do_exec (Upsert_rate ip w), Changed m) # (Do_query (Select_rate ip w), Rows rows None) # tr2)
      \<and> (\<forall>k. count_of rows = Inr k \<longrightarrow> k \<le> quickRateLimit) \<and> list_all (\<lambda>xy. \<not> counts (stmt (fst xy))) tr2)"

lemma past_thread:
  assumes run: "tasks_run B C base c sched tasks sh = Some P" and healthy: "c_faults (sh_conn sh) = []"
    and i: "i < length tasks" and "quick_task c ip w (tasks ! i)" and "past_limiter (pl_threads P ! i)"
  shows "past_events ip w (thread_log i (pl_log P))"
  unfolding past_events_def
proof (rule quick_task_trace)
  show "after (hp_task sqlite_code B C base c (tasks ! i)) (thread_log i (pl_log P)) = Some (pl_threads P ! i)"
    and "typed (thread_log i (pl_log P))" using task_trace [OF run i] .
  show "quick_task c ip w (tasks ! i)" "past_limiter (pl_threads P ! i)" by (rule assms)+
  show "went_well (x, y)" if "(x, y) \<in> set (db_log (thread_log i (pl_log P)))" "counts (stmt x)" for x y
    using counting_well [OF tasks_history(3) [OF run] healthy _ that(2)]
      db_log_pool [OF db_log_thread [OF that(1), unfolded db_event_def fst_conv snd_conv]] by blast
qed

lemma prunes_older:
  assumes run: "tasks_run B C base c sched tasks sh = Some P"
    and win: "\<And>task ip' w'. task \<in> set tasks \<Longrightarrow> quick_task c ip' w' task \<Longrightarrow> w' \<le> w + 2"
    and x: "(x, y) \<in> set (db_log (map snd (pl_log P)))" "stmt x = Prune_rate p"
  shows "p \<le> w"
proof -
  from x(1) obtain i where i: "(i, Db x, Db_answer y) \<in> set (pl_log P)" by (auto simp: db_log_in)
  then have "(Db x, Db_answer y) \<in> set (thread_log i (pl_log P))" by (simp add: thread_log_in)
  from task_counts [OF task_trace [OF run tasks_history(5) [OF run i]] this] x(2)
  obtain ip' w' where "quick_task c ip' w' (tasks ! i)" "counts_for ip' w' x" by auto
  with win [of "tasks ! i" ip' w'] tasks_history(5) [OF run i] x(2) show ?thesis by (auto simp: counts_for_def plain_def)
qed

text \<open>The last read by a request of \<open>S\<close>, and the increments of all of them before it.\<close>

lemma last_read:
  assumes past: "\<forall>i\<in>S. past_events ip w (thread_log i h)" and "S \<noteq> {}"
  shows "\<exists>h1 j y h2. h = h1 @ (j, Db (Do_query (Select_rate ip w)), y) # h2 \<and> j \<in> S
    \<and> card S \<le> length (filter (\<lambda>e. \<exists>y. snd e = db_event (Do_exec (Upsert_rate ip w), y)) h1)"
proof -
  let ?sel = "Do_query (Select_rate ip w)" and ?ups = "Do_exec (Upsert_rate ip w)"
  define Q where "Q = (\<lambda>e :: nat \<times> (db_call, 'a) call \<times> (db_answer, 'a) answer. fst e \<in> S \<and> fst (snd e) = Db ?sel)"
  have event: "\<exists>n m rows tr2. thread_log i h = map db_event ((Do_exec (Prune_rate (w - 2)), Changed n) # (?ups, Changed m)
      # (?sel, Rows rows None) # tr2)" if "i \<in> S" for i using bspec [OF past that] unfolding past_events_def by blast
  from assms(2) obtain i where "i \<in> S" by blast
  obtain n m rows tr2 where "thread_log i h = map db_event ((Do_exec (Prune_rate (w - 2)), Changed n) # (?ups, Changed m)
      # (?sel, Rows rows None) # tr2)" using event [OF \<open>i \<in> S\<close>] by (elim exE conjE)
  then have "(Db ?sel, Db_answer (Rows rows None)) \<in> set (thread_log i h)" by (simp add: db_event_def)
  then have "\<exists>e \<in> set h. Q e" using \<open>i \<in> S\<close> by (force simp: Q_def thread_log_in)
  from split_list_last_prop [OF this] obtain h1 e h2 where log: "h = h1 @ e # h2" and e: "Q e" and last: "\<And>e'. e' \<in> set h2 \<Longrightarrow> \<not> Q e'"
    by blast
  obtain j y where ej: "e = (j, Db ?sel, y)" and j: "j \<in> S" using e by (cases e) (auto simp: Q_def)
  have "\<exists>e \<in> set h1. fst e = k \<and> (\<exists>y. snd e = db_event (?ups, y))" if k: "k \<in> S" for k
  proof -
    obtain n m rows tr2 where t: "thread_log k h = map db_event ((Do_exec (Prune_rate (w - 2)), Changed n) # (?ups, Changed m)
        # (?sel, Rows rows None) # tr2)" using event [OF k] by (elim exE conjE)
    have "(k, db_event (?sel, Rows rows None)) \<notin> set h2"
      using last [of "(k, db_event (?sel, Rows rows None))"] k by (auto simp: Q_def db_event_def)
    with t have "(k, db_event (?ups, Changed m)) \<in> set h1"
      by (intro upsert_before [OF log [unfolded ej], of k "db_event (Do_exec (Prune_rate (w - 2)), Changed n)" _
            "db_event (?sel, Rows rows None)" "map db_event tr2"]) (auto simp: db_event_def)
    then show ?thesis by force
  qed
  then have "card S \<le> length (filter (\<lambda>e. \<exists>y. snd e = db_event (?ups, y)) h1)" by (rule distinct_threads)
  with log ej j show ?thesis by blast
qed

lemma read_within_limit:
  assumes "past_events ip w (thread_log j h)" and "(j, Db (Do_query (Select_rate ip w)), Db_answer y) \<in> set h"
    and "sql_world (Do_query (Select_rate ip w)) c = Some (y, c')" and "c_faults c = []"
  shows "hits ip w (view_conn c) \<le> max 0 quickRateLimit"
proof (cases "rg_rates (view_conn c) (ip, w) = None")
  case True
  then show ?thesis by (simp add: hits_def)
next
  case False
  from rate_read [OF assms(3,4) False] obtain rows where y: "y = Rows rows None" and k: "count_of rows = Inr (hits ip w (view_conn c))" by blast
  obtain n m rows' tr2 where t: "thread_log j h = map db_event ((Do_exec (Prune_rate (w - 2)), Changed n)
      # (Do_exec (Upsert_rate ip w), Changed m) # (Do_query (Select_rate ip w), Rows rows' None) # tr2)"
    and lim: "\<forall>k. count_of rows' = Inr k \<longrightarrow> k \<le> quickRateLimit" and free: "list_all (\<lambda>xy. \<not> counts (stmt (fst xy))) tr2"
    using assms(1) unfolding past_events_def by (elim exE conjE)
  have "(Db (Do_query (Select_rate ip w)), Db_answer y) \<in> set (thread_log j h)" using assms(2) by (simp add: thread_log_in)
  then have "y = Rows rows' None" using free unfolding t by (fastforce simp: db_event_def list_all_iff)
  with y k lim show ?thesis by auto
qed

lemma limiter_admits_at_most:
  assumes run: "tasks_run B C base c sched tasks sh = Some P" and healthy: "c_faults (sh_conn sh) = []"
    and win: "\<And>task ip' w'. task \<in> set tasks \<Longrightarrow> quick_task c ip' w' task \<Longrightarrow> w' \<le> w + 2"
  shows "int (card {i. i < length tasks \<and> quick_task c ip w (tasks ! i) \<and> past_limiter (pl_threads P ! i)})
    \<le> max 0 (quickRateLimit - hits ip w (view_conn (sh_conn sh)))" (is "int (card ?S) \<le> _")
proof (cases "?S = {}")
  case True
  show ?thesis unfolding True by simp
next
  case False
  let ?sel = "Do_query (Select_rate ip w)" and ?ups = "Do_exec (Upsert_rate ip w)"
  have past: "\<forall>i\<in>?S. past_events ip w (thread_log i (pl_log P))"
    using past_thread [OF run healthy] by blast
  from last_read [OF past False] obtain h1 j y h2 where log: "pl_log P = h1 @ (j, Db ?sel, y) # h2" and j: "j \<in> ?S"
    and n: "card ?S \<le> length (filter (\<lambda>e. \<exists>y. snd e = db_event (?ups, y)) h1)" by (elim exE conjE)
  obtain sh1 sh2 where sh1: "replay daemon_sql (map snd h1) sh = Some sh1" and step: "daemon_sql (Db ?sel) sh1 = Some (y, sh2)"
    using tasks_history(1) [OF run] unfolding log by (auto elim: replay_splitE)
  from step obtain y' c' where y: "y = Db_answer y'" and sel: "sql_world ?sel (sh_conn sh1) = Some (y', c')"
    by (auto simp: sh_conn_def split: option.splits)
  have older: "p \<le> w" if "(x, z) \<in> set (db_log (map snd h1))" "stmt x = Prune_rate p" for x z p
    by (rule prunes_older [OF run _ _ that(2)]) (use win that(1) in \<open>auto simp: log\<close>)
  have hist: "c_faults (sh_conn sh1) = [] \<and> hits ip w (view_conn (sh_conn sh1)) = hits ip w (view_conn (sh_conn sh))
      + int (length (filter (\<lambda>xy. stmt (fst xy) = Upsert_rate ip w) (db_log (map snd h1))))"
    by (rule hits_history) (use sh_history [OF sh1] healthy older in \<open>simp_all\<close>)
  have "length (filter (\<lambda>e. \<exists>y. snd e = db_event (?ups, y)) h1) \<le> length (filter (\<lambda>xy. fst xy = ?ups) (db_log (map snd h1)))"
    using sh_history [OF sh1] by (intro db_log_filter) simp
  also have "\<dots> \<le> length (filter (\<lambda>xy. stmt (fst xy) = Upsert_rate ip w) (db_log (map snd h1)))" by (rule filter_le) simp
  finally have "hits ip w (view_conn (sh_conn sh)) + int (card ?S) \<le> hits ip w (view_conn (sh_conn sh1))" using n hist by simp
  moreover have "hits ip w (view_conn (sh_conn sh1)) \<le> max 0 quickRateLimit"
    by (rule read_within_limit [OF bspec [OF past j] _ sel]) (use hist in \<open>simp_all add: log y\<close>)
  ultimately show ?thesis by (simp add: quickRateLimit_def)
qed

end
