(* ===== verification/Examples.thy ===== *)
theory Examples
  imports Proxy Store_Faults
begin

text \<open>
  Concrete instances of the parameters, on which the properties of the root theory are exercised:
  a bcrypt and a crypto package that satisfy their contracts, a database with a tenant, and an
  idealised D1 with the same rows.
\<close>

definition ex_bcrypt :: bcrypt where
  "ex_bcrypt = \<lparr>bc_generate = (\<lambda>salt p. if length p \<le> 72 then Some (CHR ''$'' # p) else None),
     bc_compare = (\<lambda>h p. h = CHR ''$'' # p)\<rparr>"

lemma ex_bcrypt_ok: "bcrypt_ok ex_bcrypt"
  by (simp add: bcrypt_ok_def ex_bcrypt_def)

text \<open>A digest of 32 bytes and a signature every key makes and accepts.\<close>

definition ex_crypto :: "(unit, unit) crypto" where
  "ex_crypto = \<lparr>cr_sha256 = (\<lambda>x. take 32 (x @ replicate 32 (CHR ''0''))),
     cr_sign = (\<lambda>k h rnd. Some (1, 2)), cr_verify = (\<lambda>p h r s. r = 1 \<and> s = 2), cr_public = (\<lambda>k. ()),
     cr_pem_decode = (\<lambda>s. Some s), cr_x509_parse = (\<lambda>s. Some ())\<rparr>"

lemma ex_crypto_ok: "crypto_ok ex_crypto"
  by (auto simp: crypto_ok_def ex_crypto_def min_def)

text \<open>The tenant \<open>q-a\<close>, open until second 90000, with a password-guarded service and a client.\<close>

definition ex_db :: database where
  "ex_db = \<lparr>tenants = [\<lparr>tr_slug = ''q-a'', tr_display_name = ''quick tunnel'', tr_created_at = 0, tr_expires_at = Some 90000\<rparr>],
     services = [\<lparr>sr_tenant_slug = ''q-a'', sr_name = ''mcp'', sr_agent_key_hash = ''$k'', sr_auth_mode = ''oauth'',
       sr_password_hash = ''$pw'', sr_created_at = 0\<rparr>],
     quick_rate = [], signing_keys = [\<lparr>kr_tenant_slug = ''q-a'', kr_private_key_pem = ''pem'', kr_created_at = 0\<rparr>],
     oauth_clients = [\<lparr>cr_tenant_slug = ''q-a'', cr_client_id = ''c1'',
       cr_redirect_uris = json_enc (uris_json [''http://localhost/cb'']), cr_created_at = 0\<rparr>],
     auth_codes = [\<lparr>ac_code_hash = ''h1'', ac_tenant_slug = ''q-a'', ac_client_id = ''c1'', ac_redirect_uri = ''http://localhost/cb'',
       ac_code_challenge = ''ch'', ac_expires_at = 100, ac_used_at = None\<rparr>]\<rparr>"

lemma ex_db_ok: "db_ok ex_db"
  by (simp add: db_ok_def pk_ok_def fk_ok_def ex_db_def has_tenant_def service_key_def client_key_def)

definition ex_conn :: conn where
  "ex_conn = \<lparr>c_db = ex_db, c_faults = []\<rparr>"

definition ex_world :: d1_world where
  "ex_world = \<lparr>dw_db = ex_db, dw_faults = []\<rparr>"

lemma ex_states_ok: "conn_ok ex_conn" "world_ok ex_world"
  using ex_db_ok by (simp_all add: conn_ok_def world_ok_def ex_conn_def ex_world_def)

definition empty_conn :: conn where
  "empty_conn = \<lparr>c_db = empty_db, c_faults = []\<rparr>"

definition empty_world :: d1_world where
  "empty_world = \<lparr>dw_db = empty_db, dw_faults = []\<rparr>"

lemma empty_states_ok: "conn_ok empty_conn" "world_ok empty_world"
  by (simp_all add: conn_ok_def world_ok_def empty_conn_def empty_world_def db_ok_def pk_ok_def fk_ok_def empty_db_def)

definition ex_request :: request where
  "ex_request = \<lparr>rq_method = ''GET'', rq_path = ''/'', rq_headers = [], rq_form = [], rq_post_form = None,
     rq_body = [], rq_content_length = 0, rq_remote = ''192.0.2.1:5000''\<rparr>"

definition ex_key_rnd :: string where
  "ex_key_rnd = replicate 24 (CHR 0x07)"

definition ex_quick_env :: quick_env where
  "ex_quick_env = \<lparr>qe_rate_now = secs 10, qe_count_now = secs 10, qe_expiry_now = secs 10,
     qe_draws = (\<lambda>i. (Some (replicate 10 (CHR ''x'')), secs 10)), qe_password_salt = [], qe_key_salt = [],
     qe_key_rnd = ex_key_rnd, qe_service_now = secs 10, qe_pem = Some ''pem'', qe_pem_now = secs 10\<rparr>"

definition ex_quick_request :: request where
  "ex_quick_request = ex_request\<lparr>rq_method := ''POST'', rq_path := ''/api/v1/quick'',
     rq_body := json_enc (J_obj [(''password'', J_str ''pw'')]), rq_content_length := 17\<rparr>"

definition ex_server :: "unit oauth_server" where
  "ex_server = \<lparr>os_issuer = ''https://h/t/q-a'', os_baseURL = ''https://h'', os_tenant = ''q-a'', os_key = (),
     os_expiresAt = secs 90000\<rparr>"

definition ex_authorize_request :: request where
  "ex_authorize_request = ex_request\<lparr>rq_path := ''/authorize'', rq_form := [(''client_id'', ''c1''),
     (''redirect_uri'', ''http://localhost/cb''), (''response_type'', ''code''),
     (''code_challenge'', b64_encode (cr_sha256 ex_crypto ''verifier'')), (''code_challenge_method'', ''S256''),
     (''state'', ''st''), (''password'', ''pw'')]\<rparr>"

definition ex_authorize_env :: authorize_env where
  "ex_authorize_env = \<lparr>ae_rnd = replicate 32 (CHR 0x09), ae_now = secs 20\<rparr>"

definition ex_token_request :: request where
  "ex_token_request = ex_request\<lparr>rq_method := ''POST'', rq_path := ''/token'',
     rq_post_form := Some [(''grant_type'', ''authorization_code''), (''code'', hex_encode (ae_rnd ex_authorize_env)),
       (''client_id'', ''c1''), (''redirect_uri'', ''http://localhost/cb''), (''code_verifier'', ''verifier'')]\<rparr>"

definition ex_token_env :: token_env where
  "ex_token_env = \<lparr>te_now_rate = secs 30, te_now_consume = secs 30, te_now_iat = secs 30, te_jti = ''j'', te_sig_rnd = [],
     te_now_until = secs 30\<rparr>"

definition ex_oauth_state :: "conn oauth_state" where
  "ex_oauth_state = \<lparr>oa_store = ex_conn, oa_register = newIPRate 0, oa_token = newIPRate 0\<rparr>"

lemma ex_may_authorize: "may_authorize ex_bcrypt ex_server ex_authorize_request (view_conn ex_conn)"
  by code_simp

lemma ex_new_code: "sha256hex ex_crypto (hex_encode (ae_rnd ex_authorize_env)) \<notin> dom (rg_codes (view_conn ex_conn))"
  by (simp add: domIff) code_simp

section \<open>A quick tunnel, step by step\<close>

lemma ex_len: "length (rq_body ex_quick_request) \<le> 100"
  by (simp add: ex_quick_request_def ex_request_def) code_simp

lemma ex_quick_params: "quick_params ex_quick_request = Some (True, ''pw'')"
proof -
  have d: "decode_first 65536 (rq_body ex_quick_request) = Some (J_obj [(''password'', J_str ''pw'')])"
  proof -
    have b: "rq_body ex_quick_request = json_enc (J_obj [(''password'', J_str ''pw'')])"
      by (simp add: ex_quick_request_def del: json_enc.simps)
    have p: "json_plain (J_obj [(''password'', J_str ''pw'')])" by code_simp
    from ex_len show ?thesis unfolding b by (intro decode_first_enc [OF p]) simp
  qed
  show ?thesis
    by (simp add: quick_params_def d)
      (simp add: ex_quick_request_def members_def fold_eq_def lower_byte_def in_range_def)
qed

definition ex_s1 :: conn where
  "ex_s1 = snd (sqlite_QuickRateHit ''192.0.2.1'' (secs 10) empty_conn)"

lemma ex_allow: "allowQuick sqlite_api (rq_remote ex_quick_request) (qe_rate_now ex_quick_env) empty_conn = (True, ex_s1)"
proof -
  have "split_host_port ''192.0.2.1:5000'' = Some (''192.0.2.1'',''5000'')" by code_simp
  moreover have "fst (sqlite_QuickRateHit ''192.0.2.1'' (secs 10) empty_conn) = Inr 1" by code_simp
  ultimately show ?thesis
    by (cases "sqlite_QuickRateHit ''192.0.2.1'' (secs 10) empty_conn")
      (simp add: ex_quick_request_def ex_request_def ex_quick_env_def allowQuick_def sqlite_api_def ex_s1_def quickRateLimit_def)
qed

lemma ex_count: "CountLiveTenants sqlite_api (qe_count_now ex_quick_env) ex_s1 = (Inr 0, ex_s1)"
  unfolding ex_s1_def by (simp add: sqlite_api_def ex_quick_env_def) code_simp

lemma ex_admit: "quick_admit sqlite_api ex_quick_env ex_quick_request empty_conn = (Inr (True, ''pw''), ex_s1)"
  by (simp add: quick_admit_def ex_allow ex_count ex_quick_params maxLiveTunnels_def)

definition ex_expiry :: time where "ex_expiry = qe_expiry_now ex_quick_env + QuickTTL"

definition ex_s2 :: conn where
  "ex_s2 = snd (createQuickTenant sqlite_api ex_expiry (qe_draws ex_quick_env) ex_s1)"

lemma ex_tenant: "createQuickTenant sqlite_api ex_expiry (qe_draws ex_quick_env) ex_s1 = (Inr ''q-mmmmmmmmmm'', ex_s2)"
  unfolding ex_s1_def ex_s2_def by (simp add: ex_quick_env_def ex_expiry_def prod_eq_iff) code_simp

definition ex_service :: service where
  "ex_service = \<lparr>Name = ''mcp'', AgentKeyHash = [], AuthMode = ''oauth'', PasswordHash = ''$pw'', SvcCreatedAt = 0\<rparr>"

definition ex_s3 :: conn where
  "ex_s3 = snd (CreateService sqlite_api ex_bcrypt [] ex_key_rnd (secs 10) ''q-mmmmmmmmmm'' ex_service ex_s2)"

lemma ex_create_service:
  "CreateService sqlite_api ex_bcrypt [] ex_key_rnd (secs 10) ''q-mmmmmmmmmm'' ex_service ex_s2
     = (Inr (sqlite_agent_key ex_key_rnd), ex_s3)"
  unfolding ex_s1_def ex_s2_def ex_s3_def
  by (simp add: ex_quick_env_def ex_expiry_def prod_eq_iff sqlite_api_def) code_simp
definition ex_s4 :: conn where
  "ex_s4 = snd (CreateSigningKey sqlite_api ''q-mmmmmmmmmm'' ''pem'' (secs 10) ex_s3)"

lemma ex_signing_key:
  "CreateSigningKey sqlite_api ''q-mmmmmmmmmm'' ''pem'' (secs 10) ex_s3 = (Inr (), ex_s4)"
  unfolding ex_s1_def ex_s2_def ex_s3_def ex_s4_def
  by (simp add: ex_quick_env_def ex_expiry_def prod_eq_iff sqlite_api_def) code_simp
lemma ex_quick:
  "handleQuick sqlite_api ex_bcrypt ex_quick_env ex_quick_request empty_conn
     = (quick_created ''q-mmmmmmmmmm'' (sqlite_agent_key ex_key_rnd) ex_expiry, ex_s4)"
proof -
  have h: "HashSecret ex_bcrypt [] ''pw'' = Inr ''$pw''" by code_simp
  have e: "qe_password_salt ex_quick_env = []" "qe_key_salt ex_quick_env = []" "qe_key_rnd ex_quick_env = ex_key_rnd"
    "qe_service_now ex_quick_env = secs 10" "qe_pem ex_quick_env = Some ''pem''" "qe_pem_now ex_quick_env = secs 10"
    by (simp_all add: ex_quick_env_def)
  show ?thesis
    using ex_tenant ex_create_service ex_signing_key
    by (simp add: handleQuick_def ex_admit quick_create_def ex_expiry_def [symmetric] h e ex_service_def Let_def)
qed

section \<open>Requests, tokens and sessions\<close>

definition ex_history :: "store_op list" where
  "ex_history = [Op_CreateTenantExpiry ''q-b'' ''n'' (Some (secs 50)) (secs 10), Op_CreateTenantExpiry ''q-a'' ''n'' None (secs 10),
     Op_ConsumeAuthCode ''h1'' (secs 20), Op_ConsumeAuthCode ''h1'' (secs 21), Op_QuickRateHit ''ip'' (secs 30),
     Op_DeleteExpiredTenants (secs 60), Op_GetTenant ''q-b'', Op_DeleteTenant ''q-a'']"

lemma ex_history_ok:
  "list_all op_ok ex_history" "list_all (\<lambda>x. \<not> creates_service x) ex_history" "list_all (\<lambda>x. \<not> creates_code ''h1'' x) ex_history"
  by (simp_all add: ex_history_def)

lemma ex_key_rnd_length: "length (qe_key_rnd ex_quick_env) = 24"
  by (simp add: ex_quick_env_def ex_key_rnd_def)

definition ex_delete_request :: request where
  "ex_delete_request = ex_request\<lparr>rq_method := ''DELETE'',
     rq_headers := [(''X-Service-Name'', ''mcp''), (''Authorization'', ''Bearer k'')]\<rparr>"

lemma ex_agent_authorized:
  "header ex_delete_request ''X-Service-Name'' = ''mcp''" "bearer_key ex_delete_request = ''k''"
  "rg_services (view_conn ex_conn) (''q-a'', ''mcp'') = Some \<lparr>Name = ''mcp'', AgentKeyHash = ''$k'', AuthMode = ''oauth'',
     PasswordHash = ''$pw'', SvcCreatedAt = 0\<rparr>"
  "CheckSecret ex_bcrypt ''$k'' ''k''"
  by code_simp+

definition ex_token :: string where
  "ex_token = the (signAccessToken ex_crypto () ''https://h/t/q-a'' ''quick-tunnel'' ''c1'' ''mcp'' [] (secs 90000) (secs 30) ''j'' [])"

lemma ex_sign: "signAccessToken ex_crypto (os_key ex_server) (os_issuer ex_server) ''quick-tunnel'' ''c1'' ''mcp'' []
    (os_expiresAt ex_server) (te_now_iat ex_token_env) (te_jti ex_token_env) (te_sig_rnd ex_token_env) = Some ex_token"
  by (simp add: ex_token_def ex_server_def ex_token_env_def signAccessToken_def ex_crypto_def Let_def)

definition ex_form :: "(string \<times> string) list" where
  "ex_form = [(''grant_type'', ''authorization_code''), (''code'', hex_encode (ae_rnd ex_authorize_env)),
     (''client_id'', ''c1''), (''redirect_uri'', ''http://localhost/cb''), (''code_verifier'', ''verifier'')]"

lemma ex_forms:
  "rq_post_form ex_token_request = Some ex_form" "token_form_ok ex_form"
  "first_value ex_form ''code'' = hex_encode (ae_rnd ex_authorize_env)" "first_value ex_form ''client_id'' = ''c1''"
  "first_value ex_form ''redirect_uri'' = ''http://localhost/cb''" "first_value ex_form ''code_verifier'' = ''verifier''"
  "FormValue ex_authorize_request ''client_id'' = ''c1''" "FormValue ex_authorize_request ''redirect_uri'' = ''http://localhost/cb''"
  "FormValue ex_authorize_request ''code_challenge'' = b64_encode (cr_sha256 ex_crypto ''verifier'')"
  by (simp_all add: hex_encode_nonempty ex_token_request_def ex_form_def token_form_ok_def first_value_def FormValue_def ex_authorize_request_def
      ex_authorize_env_def ex_request_def)

lemma ex_times:
  "unix (te_now_consume ex_token_env) = 30" "unix (te_now_iat ex_token_env) = 30" "unix (ae_now ex_authorize_env) = 20"
  "unix (os_expiresAt ex_server) = 90000"
  by code_simp+

lemma ex_token_allowed: "fst (allow (clientIP ex_token_request) tokenRateLimit (te_now_rate ex_token_env) (oa_token ex_oauth_state))"
  by (simp add: ex_token_env_def ex_oauth_state_def newIPRate_def allow_def tokenRateLimit_def Let_def)

lemma ex_oauth_store: "oa_store ex_oauth_state = ex_conn"
  by (simp add: ex_oauth_state_def)

lemma ex_tenant_there: "os_tenant ex_server \<in> dom (rg_tenants (view_conn ex_conn))"
  unfolding domIff by code_simp

lemma ex_ascii: "ascii (os_issuer ex_server)" "ascii ''c1''"
  by code_simp+

definition ex_proxy_request :: request where
  "ex_proxy_request = ex_request\<lparr>rq_path := ''/t/q-a/s/mcp/x'', rq_headers := [(''Authorization'', ''Bearer '' @ ex_token)]\<rparr>"

lemma ex_proxy_fields: "splitPath (rq_path ex_proxy_request) = (''q-a'', ''mcp'', ''/x'')" "bearer_key ex_proxy_request = ex_token"
    "rq_content_length ex_proxy_request = 0"
proof -
  have "splitPath ''/t/q-a/s/mcp/x'' = (''q-a'', ''mcp'', ''/x'')" by code_simp
  then show "splitPath (rq_path ex_proxy_request) = (''q-a'', ''mcp'', ''/x'')" by (simp add: ex_proxy_request_def)
  show "bearer_key ex_proxy_request = ex_token"
    by (simp add: ex_proxy_request_def ex_request_def bearer_key_def header_def first_value_def
        trim_prefix_append [of "''Bearer ''", simplified] token_chars [OF ex_sign])
qed (simp add: ex_proxy_request_def ex_request_def)

lemma ex_service_row: "GetService sqlite_api ''q-a'' ''mcp'' ex_conn = (Inr \<lparr>Name = ''mcp'', AgentKeyHash = ''$k'', AuthMode = ''oauth'',
     PasswordHash = ''$pw'', SvcCreatedAt = 0\<rparr>, ex_conn)"
  by (simp add: sqlite_api_def) code_simp

lemma ex_server_row: "fst (resolver_server sqlite_api ex_crypto (Some ''pem'') (secs 40) ''q-a'' (NewResolver ''https://h'') ex_conn) = Some ex_server"
  by (simp add: sqlite_api_def resolver_server_def) code_simp

lemma ex_token_valid: "\<exists>claims. ValidateAccessToken ex_crypto ex_server ex_token (secs 40) = Inr claims"
proof -
  have t: "unix (secs 40) < unix (os_expiresAt ex_server)" by code_simp
  have k: "cr_public ex_crypto (os_key ex_server) = cr_public ex_crypto ()" by (simp add: ex_crypto_def)
  have a: "ascii ''quick-tunnel''" "ascii ''mcp''" "ascii []" "unix (os_expiresAt ex_server) < 2 ^ 63"
    "- (2 ^ 63) \<le> unix (te_now_iat ex_token_env)" "unix (te_now_iat ex_token_env) < 2 ^ 63" "- (2 ^ 63) \<le> unix (os_expiresAt ex_server)"
    by code_simp+
  from sign_validates [OF ex_crypto_ok ex_ascii(1) a(1) ex_ascii(2) a(2-7) ex_sign, of "secs 40"] t
  show ?thesis by (simp add: ValidateAccessToken_def)
qed

lemma ex_forwarded: "\<exists>orv c. proxy_decide sqlite_api ex_crypto (Some ''pem'') (secs 40) (secs 40) ex_proxy_request
    (Some (NewResolver ''https://h''), ex_conn) = (Forward ''q-a'' ''mcp'' ''/x'', orv, c)"
proof -
  obtain rv c where srv: "resolver_server sqlite_api ex_crypto (Some ''pem'') (secs 40) ''q-a'' (NewResolver ''https://h'') ex_conn
      = (Some ex_server, rv, c)" using ex_server_row by (metis prod.collapse)
  have "ex_token \<noteq> []" using ex_sign by (auto simp: signAccessToken_def Let_def split: option.splits)
  with srv ex_token_valid show ?thesis
    by (auto simp: proxy_decide_def ex_proxy_fields maxRequestBody_def ex_service_row proxy_authorize_def)
qed

text \<open>The state after the example's authorization, and the token request that answers 200.\<close>

definition ex_after_authorize :: "conn oauth_state" where
  "ex_after_authorize = ex_oauth_state\<lparr>oa_store :=
      snd (handleAuthorize sqlite_api ex_bcrypt ex_crypto ex_server ex_authorize_env ex_authorize_request ex_conn)\<rparr>"

lemma ex_after_ok: "conn_ok (oa_store ex_after_authorize)"
  using sqlite.authorize_spec [OF ex_states_ok(1) surjective_pairing, of ex_bcrypt ex_crypto ex_server ex_authorize_env ex_authorize_request]
  by (simp add: ex_after_authorize_def)

lemma ex_token_issued: "rp_status (fst (handleToken sqlite_api ex_crypto ex_server ex_token_env ex_token_request ex_after_authorize)) = 200"
  using sqlite.pkce_flow(1) [where st = ex_oauth_state and B = ex_bcrypt and srv = ex_server and aenv = ex_authorize_env
      and areq = ex_authorize_request and C = ex_crypto and r = ex_token_request and env = ex_token_env, OF _ ex_crypto_ok
      surjective_pairing _ _ _ ex_forms(1,2), unfolded ex_oauth_store, OF ex_states_ok(1) ex_may_authorize ex_new_code ex_tenant_there, of ex_token]
    ex_sign
  by (simp add: ex_forms ex_times ex_token_allowed ex_ascii ex_after_authorize_def token_response_def writeJSON_def)

lemma ex_sign_ranges:
  "ascii ''quick-tunnel''" "ascii ''mcp''" "ascii []" "unix (os_expiresAt ex_server) < 2 ^ 63"
  "- (2 ^ 63) \<le> unix (te_now_iat ex_token_env)" "unix (te_now_iat ex_token_env) < 2 ^ 63" "- (2 ^ 63) \<le> unix (os_expiresAt ex_server)"
  by code_simp+

definition ex_gateway :: gateway where
  "ex_gateway = gw_close_old 2 (gw_swap (sessionKey ''q-a'' ''mcp'') 2 (gw_close_old 1 (gw_swap (sessionKey ''q-a'' ''mcp'') 1 gw_new)))"

lemma ex_gateway_facts:
  "gw_handlers ex_gateway = [1 \<mapsto> (sessionKey ''q-a'' ''mcp'', Serving), 2 \<mapsto> (sessionKey ''q-a'' ''mcp'', Serving)]"
  "gw_closed ex_gateway = {1}" "gw_sessions ex_gateway (sessionKey ''q-a'' ''mcp'') = Some 2"
  by (simp_all add: ex_gateway_def gw_close_old_def gw_swap_def gw_new_def fun_upd_twist)

lemma ex_gateway_reachable: "gw_reachable ex_gateway"
proof -
  let ?k = "sessionKey ''q-a'' ''mcp''"
  let ?g1 = "gw_swap ?k 1 gw_new" and ?g2 = "gw_close_old 1 (gw_swap ?k 1 gw_new)"
  have "gw_reachable ?g1" by (rule gw_reachable.step [OF gw_reachable.start gw_step.accept]) (simp add: gw_new_def)
  then have 2: "gw_reachable ?g2"
    by (rule gw_reachable.step) (rule gw_step.close_old [of _ 1 ?k None], simp add: gw_swap_def gw_new_def)
  have "gw_reachable (gw_swap ?k 2 ?g2)"
    by (rule gw_reachable.step [OF 2 gw_step.accept]) (simp add: gw_close_old_def gw_swap_def gw_new_def)
  then show ?thesis unfolding ex_gateway_def
    by (rule gw_reachable.step)
      (rule gw_step.close_old [of _ 2 ?k "Some 1"], simp add: gw_close_old_def gw_swap_def gw_new_def)
qed

definition ex_connect_request :: request where
  "ex_connect_request = ex_request\<lparr>rq_headers := [(''X-Tenant'', ''q-a''), (''X-Service-Name'', ''mcp''), (''Authorization'', ''Bearer k'')]\<rparr>"

section \<open>A registration, and an authorization without its password\<close>

definition ex_register_env :: register_env where
  "ex_register_env = \<lparr>re_now_rate = secs 5, re_rnd = replicate 16 (CHR 0x05), re_now_store = secs 5\<rparr>"

definition ex_register_request :: request where
  "ex_register_request = ex_request\<lparr>rq_method := ''POST'', rq_path := ''/register'',
     rq_body := json_enc (J_obj [(''redirect_uris'', J_arr [J_str ''http://127.0.0.1:8/cb''])])\<rparr>"

lemma ex_register_params: "register_params (rq_body ex_register_request) = Some ([''http://127.0.0.1:8/cb''], [], [])"
proof -
  let ?j = "J_obj [(''redirect_uris'', J_arr [J_str ''http://127.0.0.1:8/cb''])]"
  have b: "rq_body ex_register_request = json_enc ?j" by (simp add: ex_register_request_def del: json_enc.simps)
  have "json_plain ?j" "length (json_enc ?j) \<le> 100" by code_simp+
  then have d: "decode_first 1048576 (json_enc ?j) = Some ?j" by (intro decode_first_enc) simp_all
  show ?thesis by (simp add: register_params_def b d del: json_enc.simps)
      (simp add: members_def fold_eq_def lower_byte_def in_range_def)
qed

lemma ex_registered: "rp_status (fst (handleRegister sqlite_api ex_server ex_register_env ex_register_request ex_oauth_state)) = 201"
proof -
  have v: "validRedirectURI ''http://127.0.0.1:8/cb''" by code_simp
  obtain a st where al: "allow (clientIP ex_register_request) registerRateLimit (re_now_rate ex_register_env) (oa_register ex_oauth_state) = (a, st)"
    by fastforce
  then have a: "a" by (auto simp: ex_oauth_state_def newIPRate_def allow_def registerRateLimit_def Let_def ex_register_env_def split: if_splits)
  have c: "fst (sqlite_CreateOAuthClient ''q-a'' (''mcp_'' @ hex_encode (replicate 16 (CHR 0x05)))
      (json_enc (uris_json [''http://127.0.0.1:8/cb''])) (secs 5) ex_conn) = Inr ()" by code_simp
  obtain y s where y: "sqlite_CreateOAuthClient ''q-a'' (''mcp_'' @ hex_encode (replicate 16 (CHR 0x05)))
      (json_enc (uris_json [''http://127.0.0.1:8/cb''])) (secs 5) ex_conn = (y, s)" by fastforce
  with c have "y = Inr ()" by simp
  moreover have "re_rnd ex_register_env = replicate 16 (CHR 0x05)" "re_now_store ex_register_env = secs 5"
    by (simp_all add: ex_register_env_def)
  ultimately show ?thesis
    using y by (simp add: handleRegister_def al a ex_register_params v Let_def sqlite_api_def ex_server_def
        ex_oauth_store writeJSON_def del: json_enc.simps)
qed

definition ex_no_password :: request where
  "ex_no_password = ex_authorize_request\<lparr>rq_form := butlast (rq_form ex_authorize_request)\<rparr>"

lemma ex_no_password_refused: "\<not> may_authorize ex_bcrypt ex_server ex_no_password (view_conn ex_conn)"
  by code_simp

lemma ex_with_password: "may_authorize ex_bcrypt ex_server
    (ex_no_password\<lparr>rq_form := (''password'', ''pw'') # rq_form ex_no_password\<rparr>) (view_conn ex_conn)"
  by code_simp

definition ex_locked_conn :: conn where
  "ex_locked_conn = ex_conn\<lparr>c_faults := [No_fault, Stmt_fault ''busy'']\<rparr>"

lemma ex_locked_view: "view_conn ex_locked_conn = view_conn ex_conn"
  by (simp add: ex_locked_conn_def view_conn_def)

text \<open>Key material that is told apart: a private key is what its PEM block holds.\<close>

definition ex_keyed_crypto :: "(string, string) crypto" where
  "ex_keyed_crypto = \<lparr>cr_sha256 = cr_sha256 ex_crypto, cr_sign = (\<lambda>k h rnd. Some (1, length k)),
     cr_verify = (\<lambda>p h r s. s = length p), cr_public = (\<lambda>k. k), cr_pem_decode = Some, cr_x509_parse = Some\<rparr>"

end
