(* ===== verification/Client_Examples.thy ===== *)
theory Client_Examples
  imports Examples Stdiofront Config Daemon
begin

text \<open>
  Concrete instances for the properties of the clients: messages, an upstream and a token endpoint,
  an agent, and a configuration.
\<close>

section \<open>Messages\<close>

text \<open>The answer \<open>{"id":1}\<close>, a request with that id, a notification.\<close>

definition ex_answer :: string where
  "ex_answer = [CHR 0x7B, CHR 0x22] @ ''id'' @ [CHR 0x22] @ '':1'' @ [CHR 0x7D]"

definition ex_call :: string where
  "ex_call = [CHR 0x7B, CHR 0x22] @ ''id'' @ [CHR 0x22] @ '':1,'' @ [CHR 0x22] @ ''method'' @ [CHR 0x22, CHR '':'', CHR 0x22] @ ''m'' @ [CHR 0x22, CHR 0x7D]"

definition ex_note :: string where
  "ex_note = [CHR 0x7B, CHR 0x22] @ ''method'' @ [CHR 0x22, CHR '':'', CHR 0x22] @ ''n'' @ [CHR 0x22, CHR 0x7D]"

lemma ex_messages:
  "parse_envelope ex_answer = Some \<lparr>env_id = Some ''1'', env_method = []\<rparr>"
  "parse_envelope ex_call = Some \<lparr>env_id = Some ''1'', env_method = ''m''\<rparr>"
  "parse_envelope ex_note = Some \<lparr>env_id = None, env_method = ''n''\<rparr>"
  "trim_space ex_answer = ex_answer" "trim_space ex_call = ex_call" "trim_space ex_note = ex_note"
  "ex_answer \<noteq> []" "CHR 0x0A \<notin> set ex_answer" "CHR 0x0A \<notin> set ex_note" "ex_note \<noteq> []"
  by code_simp+

lemma ex_call_plain: "CHR 0x0A \<notin> set ex_call" "ex_call \<noteq> []"
  by code_simp+

lemma ex_call_short: "length ex_call < 33554432"
  by (simp add: ex_call_def)

lemma ex_has_id: "has_id ex_answer ''1''"
  by (simp add: has_id_def ex_messages)

definition ex_bridge_events :: "br_event list" where
  "ex_bridge_events = [Post 1 ''1'' ex_call, Send 1 None]"

lemma ex_bridge_run:
  "\<exists>b. br_run ex_bridge_events br_new = Some b \<and> br_reader b = Reading \<and> br_closed b = {}
     \<and> br_posts b 1 = Some \<lparr>po_key = ''1'', po_body = ex_call, po_pc = Waiting\<rparr>"
  by (simp add: ex_bridge_events_def br_new_def bridge_send_def set_pc_def)

section \<open>An upstream\<close>

text \<open>It answers every request with 200, a session and the body of an answer.\<close>

definition ex_reply :: front_response where
  "ex_reply = \<lparr>fs_code = 200, fs_status = ''200 OK'', fs_headers = [''Mcp-Session-Id'' \<mapsto> [''s1'']],
     fs_body = ex_answer, fs_error = None\<rparr>"

definition ex_upstream :: "unit front_client" where
  "ex_upstream q u = (Inr ex_reply, u)"

lemma ex_upstream_plain: "plain_answers ex_upstream"
proof -
  have "hdr_get (fs_headers ex_reply) ''Content-Type'' = []" by code_simp
  then show ?thesis by (simp add: plain_answers_def ex_upstream_def event_stream_def has_prefix_def)
qed

text \<open>One that has lost the session \<open>s0\<close>: 404 for it, otherwise as above.\<close>

definition ex_expired_upstream :: "unit front_client" where
  "ex_expired_upstream q u =
     (if hdr_get (fq_headers q) ''Mcp-Session-Id'' = ''s0'' then (Inr (ex_reply\<lparr>fs_code := 404\<rparr>), u) else (Inr ex_reply, u))"

definition ex_front_config :: front_config where
  "ex_front_config = \<lparr>fc_upstream = the (Parse ''http://h/mcp''), fc_headers = []\<rparr>"

definition ex_front :: front where
  "ex_front = \<lparr>fr_session = ''s0'', fr_init = Some ex_call, fr_stream = True, fr_out = []\<rparr>"

section \<open>An agent\<close>

definition ex_agent_config :: agent_config where
  "ex_agent_config = \<lparr>agc_server = ''wss://h'', agc_tenant = ''q-a'', agc_key = ''k'', agc_service = ''mcp'',
     agc_upstream = ''http://u'', agc_headers = [(''Authorization'', [''Bearer x''])], agc_initial = secs 1, agc_max = secs 30\<rparr>"

definition ex_agent :: agent_client where
  "ex_agent = \<lparr>ag_server = ''wss://h/tunnel/connect'', ag_key = ''k'', ag_tenant = ''q-a'', ag_service = ''mcp'',
     ag_upstream = the (Parse ''http://u''), ag_headers = [(''Authorization'', [''Bearer x''])], ag_initial = secs 1, ag_max = secs 30\<rparr>"

definition ex_wire :: wire_request where
  "ex_wire = \<lparr>wr_method = ''POST'', wr_url = the (Parse ''http://t/x''), wr_host = ''t'',
     wr_headers = [''Cookie'' \<mapsto> [''s''], ''Authorization'' \<mapsto> [''Bearer y''], ''Accept'' \<mapsto> [''a'']], wr_body = []\<rparr>"

definition ex_ends :: "serve_end list" where
  "ex_ends = [Broken 250000000, Broken 1000000000, Broken_cancelled 0]"

section \<open>Tokens\<close>

definition ex_entry :: entry where
  "ex_entry = \<lparr>e_url = ''http://h/mcp'', e_access = ''t0'', e_expires = 1000, e_refresh = ''r'', e_token_url = ''http://h/token'',
     e_client = [], e_cmd = []\<rparr>"

definition ex_disk :: disk where
  "ex_disk = \<lparr>dk_files = [], dk_sys = []\<rparr>"

lemma ex_norm: "NormalizeURL ''http://h/mcp'' = Some ''http://h/mcp''" "NormalizeURL ''HTTP://H:80/mcp/'' = Some ''http://h/mcp''"
  by code_simp+

definition ex_tk_env :: "unit tk_env" where
  "ex_tk_env = \<lparr>ev_clock = \<lparr>tk_expiry = secs 90, tk_since = secs 90, tk_granted = secs 90, tk_loaded = secs 90\<rparr>, ev_tmp = ''.tmp-1.json'',
     ev_post = (\<lambda>url form u. (Inr (200, ''200 OK'', json_enc (J_obj [(''access_token'', J_str ''t1'')]), None), u)),
     ev_shell = (\<lambda>cmd u. (Inl ''no shell'', u))\<rparr>"

definition ex_tk_source :: tk_source where
  "ex_tk_source = \<lparr>so_entry = ex_entry, so_loaded = 0\<rparr>"

definition ex_tr_request :: tr_request where
  "ex_tr_request = \<lparr>tr_headers = Map.empty, tr_body = Some ''b'', tr_getBody = Some (Inr ''b'')\<rparr>"

definition ex_base :: "tr_request \<Rightarrow> unit \<Rightarrow> (string + nat \<times> string) \<times> unit" where
  "ex_base q u = (Inr (if hdr_get (tr_headers q) ''Authorization'' = ''Bearer t1'' then 200 else 401, ''x''), u)"

text \<open>The token \<open>t0\<close> is usable; a renewal yields \<open>t1\<close>.\<close>

lemma ex_tokens:
  "lockedToken None ex_tk_env False ex_tk_source d u = (Inr ''t0'', ex_tk_source, d, u)"
  "fst (lockedToken None ex_tk_env True ex_tk_source d u) = Inr ''t1''"
proof -
  let ?doc = "json_enc (J_obj [(''access_token'', J_str ''t1'')])"
  have j: "json_plain (J_obj [(''access_token'', J_str ''t1'')])" by (simp add: ascii_def)
  have f: "\<not> fold_eq ''access_token'' ''expires_in'' \<and> \<not> fold_eq ''access_token'' ''refresh_token'' \<and> length ?doc < 100
      \<and> Parse ''http://h/token'' \<noteq> None" by code_simp
  have g: "decode_grant ?doc = Some \<lparr>gr_access = ''t1'', gr_expires_in = 0, gr_refresh = []\<rparr>"
    using f by (simp add: decode_grant_def unmarshal_enc [OF j] members_def fold_eq_def del: json_enc.simps)
  have s: "e_cmd (so_entry ex_tk_source) = []" "e_access (so_entry ex_tk_source) = ''t0''" "e_expires (so_entry ex_tk_source) = 1000"
    "e_refresh (so_entry ex_tk_source) \<noteq> []" "e_token_url (so_entry ex_tk_source) = ''http://h/token''"
    by (simp_all add: ex_tk_source_def ex_entry_def)
  have "tk_expiry (ev_clock ex_tk_env) = secs 90" by (simp add: ex_tk_env_def)
  then have x: "\<not> expired (ev_clock ex_tk_env) 1000" by (simp add: expired_def skew_def secs_def nanos_def unix_def)
  show "lockedToken None ex_tk_env False ex_tk_source d u = (Inr ''t0'', ex_tk_source, d, u)"
    by (simp add: lockedToken_def usable_def s x)
  have p: "ev_post ex_tk_env url form v = (Inr (200, ''200 OK'', ?doc, None), v)" for url form v
    by (simp add: ex_tk_env_def del: json_enc.simps)
  show "fst (lockedToken None ex_tk_env True ex_tk_source d u) = Inr ''t1''"
    using f by (simp add: lockedToken_def refreshGrant_def s p g Let_def del: json_enc.simps)
qed

end
