(* ===== verification/Front_Threads.thy ===== *)
theory Front_Threads
  imports Stdiofront
begin

text \<open>
  The goroutines of \<open>internal/stdiofront\<close>. \<open>handleLine\<close> starts one for every request, and forwards
  everything else itself; the sections under \<open>s.mu\<close> and \<open>s.outMu\<close>, the sending of a request and the
  arrival of its response are the atomic steps. A step is an executable function of an event; a run
  is a list of events. \<open>Stdiofront\<close> has the schedule in which nothing overlaps, which the last section
  relates to these steps.
\<close>

section \<open>State\<close>

text \<open>
  Where a message is: about to be sent (again), in flight, answered with 404 under a session, in
  \<open>reinit\<close> (about to send the cached initialize, in flight, about to store the session), answered,
  or writing what is left of its answer. It is finished when nothing is left.
\<close>

datatype ft_pc = Begin bool | Awaiting bool | Expired | Init_begin string | Init_awaiting | Init_done front_response
  | Answered front_response | Writing "string list"

record ft_thread =
  ft_msg :: string
  ft_req :: "(string \<times> string) option"
  ft_pc :: ft_pc

text \<open>
  The shared fields, the threads, the requests that were sent, the lines with who wrote them (\<open>None\<close>
  for the stream of the server), the lines of the client that are left, the message the main loop is
  forwarding, and whether \<open>Serve\<close> has returned.
\<close>

record ft_state =
  ft_front :: front
  ft_threads :: "nat \<rightharpoonup> ft_thread"
  ft_sent :: "(nat option \<times> front_request) list"
  ft_log :: "(nat option \<times> string) list"
  ft_todo :: "string list"
  ft_main :: "nat option"
  ft_over :: bool

definition ft_new :: "string \<Rightarrow> ft_state" where
  "ft_new input = \<lparr>ft_front = front_new, ft_threads = Map.empty, ft_sent = [], ft_log = [], ft_todo = scanLines input,
     ft_main = None, ft_over = False\<rparr>"

definition ft_set :: "nat \<Rightarrow> ft_pc \<Rightarrow> ft_state \<Rightarrow> ft_state" where
  "ft_set i pc s = (case ft_threads s i of None \<Rightarrow> s
     | Some th \<Rightarrow> s\<lparr>ft_threads := (ft_threads s)(i \<mapsto> th\<lparr>ft_pc := pc\<rparr>)\<rparr>)"

definition ft_finished :: "ft_state \<Rightarrow> nat \<Rightarrow> bool" where
  "ft_finished s i \<longleftrightarrow> (case ft_threads s i of None \<Rightarrow> False | Some th \<Rightarrow> ft_pc th = Writing [])"

text \<open>An error ends a request with an error object; of a forwarded message it is only logged.\<close>

definition ft_failed :: "ft_thread \<Rightarrow> string \<Rightarrow> ft_pc" where
  "ft_failed th e = (case ft_req th of None \<Rightarrow> Writing [] | Some (k, m) \<Rightarrow> Writing [error_line k e])"

text \<open>The lines \<open>request\<close> writes for a response.\<close>

definition answer_lines :: "string \<Rightarrow> front_response \<Rightarrow> string list" where
  "answer_lines k resp =
     (if \<not> is_2xx (fs_code resp)
      then [error_line k (''upstream returned '' @ fs_status resp @ '': '' @ trim_space (fst (read_limited 1048576 resp)))]
      else if has_prefix (hdr_get (fs_headers resp) ''Content-Type'') ''text/event-stream'' then readEvents (fs_body resp) k []
      else (case read_limited (front_maxLine + 1) resp of (line, e) \<Rightarrow>
        if e \<noteq> None \<or> trim_space line = [] then [error_line k (''reading upstream response: '' @ quoted_error e)]
        else [trim_space line]))"

section \<open>Steps\<close>

text \<open>
  What a thread does: it sends a request, under the session of that moment; the response or an error
  arrives; \<open>reinit\<close> takes the lock; it stores the session; an answered request does what \<open>initialize\<close>
  does to the fields; a line is written. The other events: the main loop takes a line and gives it a
  number; the stream of the server sends its request, and a line of it is written; \<open>Serve\<close> closes the
  session and returns, at the end of the input or because it is cancelled, whether or not \<open>drain\<close> has
  seen all requests finish.
\<close>

datatype ft_act = Build | Arrive "string + front_response" | Enter | Store_session | Initialized | Write_line

datatype ft_event = Take nat | Act nat ft_act | Stream_get | Stream_line string | Close_session

definition ft_send :: "front_config \<Rightarrow> nat \<Rightarrow> ft_thread \<Rightarrow> string \<Rightarrow> ft_pc \<Rightarrow> ft_state \<Rightarrow> ft_state" where
  "ft_send c i th msg pc s =
     (if Parse (url_string (fc_upstream c)) = None then ft_set i (ft_failed th ''parse error'') s
      else (ft_set i pc s)\<lparr>ft_sent := ft_sent s @ [(Some i, doPost_request c (ft_front s) msg)]\<rparr>)"

definition ft_take :: "nat \<Rightarrow> string \<Rightarrow> ft_state \<Rightarrow> ft_state" where
  "ft_take i l s =
     (case parse_envelope l of
        None \<Rightarrow> s
      | Some env \<Rightarrow>
          (case env_id env of
             Some k \<Rightarrow>
               if env_method env \<noteq> []
               then s\<lparr>ft_threads := (ft_threads s)(i \<mapsto> \<lparr>ft_msg = l, ft_req = Some (k, env_method env), ft_pc = Begin False\<rparr>)\<rparr>
               else s\<lparr>ft_threads := (ft_threads s)(i \<mapsto> \<lparr>ft_msg = l, ft_req = None, ft_pc = Begin False\<rparr>), ft_main := Some i\<rparr>
           | None \<Rightarrow> s\<lparr>ft_threads := (ft_threads s)(i \<mapsto> \<lparr>ft_msg = l, ft_req = None, ft_pc = Begin False\<rparr>), ft_main := Some i\<rparr>))"

definition ft_idle :: "ft_state \<Rightarrow> bool" where
  "ft_idle s \<longleftrightarrow> (case ft_main s of None \<Rightarrow> True | Some i \<Rightarrow> ft_finished s i)"

text \<open>One step of the thread of a message; \<open>None\<close> when it is not at that point.\<close>

fun ft_step :: "front_config \<Rightarrow> ft_act \<Rightarrow> nat \<Rightarrow> ft_thread \<Rightarrow> ft_state \<Rightarrow> ft_state option" where
  "ft_step c Build i th s =
     (case ft_pc th of
        Begin retry \<Rightarrow> Some (ft_send c i th (ft_msg th) (Awaiting retry) s)
      | Init_begin m \<Rightarrow> Some (ft_send c i th m Init_awaiting s)
      | _ \<Rightarrow> None)"
| "ft_step c (Arrive r) i th s =
     (case ft_pc th of
        Awaiting retry \<Rightarrow>
          (case r of
             Inl e \<Rightarrow> Some (ft_set i (ft_failed th e) s)
           | Inr resp \<Rightarrow> Some (ft_set i
               (if retry \<or> fs_code resp \<noteq> 404 \<or> fr_session (ft_front s) = [] then Answered resp else Expired) s))
      | Init_awaiting \<Rightarrow>
          (case r of
             Inl e \<Rightarrow> Some (ft_set i (ft_failed th e) s)
           | Inr resp \<Rightarrow> Some (ft_set i
               (if is_2xx (fs_code resp) then Init_done resp
                else ft_failed th (''re-initialize: upstream returned '' @ fs_status resp)) s))
      | _ \<Rightarrow> None)"
| "ft_step c Enter i th s =
     (if ft_pc th \<noteq> Expired then None
      else Some ((ft_set i (case fr_init (ft_front s) of
              None \<Rightarrow> ft_failed th ''session expired and no initialize request cached''
            | Some m \<Rightarrow> Init_begin m) s)\<lparr>ft_front := (ft_front s)\<lparr>fr_session := []\<rparr>\<rparr>))"
| "ft_step c Store_session i th s =
     (case ft_pc th of
        Init_done resp \<Rightarrow> Some ((ft_set i (Begin True) s)\<lparr>ft_front := take_session resp (ft_front s)\<rparr>)
      | _ \<Rightarrow> None)"
| "ft_step c Initialized i th s =
     (case ft_pc th of
        Answered resp \<Rightarrow>
          (case ft_req th of
             None \<Rightarrow> Some (ft_set i (Writing []) s)
           | Some (k, m) \<Rightarrow> Some ((ft_set i (Writing (answer_lines k resp)) s)\<lparr>
               ft_front := after_initialize m (ft_msg th) resp (ft_front s)\<rparr>))
      | _ \<Rightarrow> None)"
| "ft_step c Write_line i th s =
     (case ft_pc th of
        Writing (l # ls) \<Rightarrow> Some ((ft_set i (Writing ls) s)\<lparr>ft_front := writeLine l (ft_front s), ft_log := ft_log s @ [(Some i, l)]\<rparr>)
      | _ \<Rightarrow> None)"

text \<open>A request outside the threads; nothing is sent when the URL does not parse.\<close>

definition ft_note :: "front_config \<Rightarrow> front_request list \<Rightarrow> ft_state \<Rightarrow> ft_state" where
  "ft_note c qs s =
     (if Parse (url_string (fc_upstream c)) = None then s else s\<lparr>ft_sent := ft_sent s @ map (Pair None) qs\<rparr>)"

definition closing_request :: "front_config \<Rightarrow> front \<Rightarrow> front_request list" where
  "closing_request c f =
     (if fr_session f = [] then []
      else [\<lparr>fq_method = ''DELETE'',
        fq_headers = copyHeaders (hdr_set ''Mcp-Session-Id'' (fr_session f) Map.empty) (fc_headers c), fq_body = []\<rparr>])"

fun ft_event_step :: "front_config \<Rightarrow> ft_event \<Rightarrow> ft_state \<Rightarrow> ft_state option" where
  "ft_event_step c (Take i) s =
     (if \<not> ft_idle s \<or> ft_threads s i \<noteq> None then None
      else (case ft_todo s of [] \<Rightarrow> None | l # ls \<Rightarrow> Some (ft_take i l (s\<lparr>ft_todo := ls\<rparr>))))"
| "ft_event_step c (Act i a) s = Option.bind (ft_threads s i) (\<lambda>th. ft_step c a i th s)"
| "ft_event_step c Stream_get s =
     (if fr_stream (ft_front s) then Some (ft_note c [stream_request c (ft_front s)] s) else None)"
| "ft_event_step c (Stream_line l) s =
     (if fr_stream (ft_front s) then Some (s\<lparr>ft_front := writeLine l (ft_front s), ft_log := ft_log s @ [(None, l)]\<rparr>) else None)"
| "ft_event_step c Close_session s =
     (if ft_idle s then Some ((ft_note c (closing_request c (ft_front s)) s)\<lparr>ft_over := True\<rparr>) else None)"

definition ft_fire :: "front_config \<Rightarrow> ft_event \<Rightarrow> ft_state \<Rightarrow> ft_state option" where
  "ft_fire c e s = (if ft_over s then None else ft_event_step c e s)"

fun ft_run :: "front_config \<Rightarrow> ft_event list \<Rightarrow> ft_state \<Rightarrow> ft_state option" where
  "ft_run c [] s = Some s"
| "ft_run c (e # es) s = Option.bind (ft_fire c e s) (ft_run c es)"

inductive ft_reach :: "front_config \<Rightarrow> string \<Rightarrow> ft_state \<Rightarrow> bool" for c input where
  start: "ft_reach c input (ft_new input)"
| step: "ft_reach c input s \<Longrightarrow> ft_fire c e s = Some s' \<Longrightarrow> ft_reach c input s'"

section \<open>What a thread writes\<close>

lemma ft_set_sel [simp]:
  "ft_front (ft_set i pc s) = ft_front s" "ft_sent (ft_set i pc s) = ft_sent s" "ft_log (ft_set i pc s) = ft_log s"
  "ft_todo (ft_set i pc s) = ft_todo s" "ft_main (ft_set i pc s) = ft_main s" "ft_over (ft_set i pc s) = ft_over s"
  by (simp_all add: ft_set_def split: option.split)

lemma ft_set_threads: "ft_threads (ft_set i pc s) j =
    (if j = i then map_option (\<lambda>th. th\<lparr>ft_pc := pc\<rparr>) (ft_threads s i) else ft_threads s j)"
  by (simp add: ft_set_def split: option.split)

lemma ft_note_sel [simp]:
  "ft_front (ft_note c qs s) = ft_front s" "ft_threads (ft_note c qs s) = ft_threads s" "ft_log (ft_note c qs s) = ft_log s"
  "ft_over (ft_note c qs s) = ft_over s"
  by (simp_all add: ft_note_def)

lemma ft_send_sel [simp]:
  "ft_front (ft_send c i th msg pc s) = ft_front s" "ft_log (ft_send c i th msg pc s) = ft_log s"
  by (simp_all add: ft_send_def)

lemma ft_take_sel [simp]:
  "ft_front (ft_take i l s) = ft_front s" "ft_log (ft_take i l s) = ft_log s" "ft_sent (ft_take i l s) = ft_sent s"
  by (simp_all add: ft_take_def split: option.split)

text \<open>The lines of a thread, and the answers a request may end with.\<close>

definition wrote :: "ft_state \<Rightarrow> nat \<Rightarrow> string list" where
  "wrote s i = map snd (filter (\<lambda>x. fst x = Some i) (ft_log s))"

lemma wrote_cong: "ft_log s' = ft_log s \<Longrightarrow> wrote s' = wrote s"
  by (simp add: wrote_def fun_eq_iff)

lemma wrote_snoc: "ft_log s' = ft_log s @ [(w, l)] \<Longrightarrow> wrote s' j = (if w = Some j then wrote s j @ [l] else wrote s j)"
  by (simp add: wrote_def)

text \<open>\<open>R\<close> are the responses that have arrived for the request.\<close>

definition complete_answer :: "front_response set \<Rightarrow> string \<Rightarrow> string list \<Rightarrow> bool" where
  "complete_answer R k ls \<longleftrightarrow> (\<exists>e. ls = [error_line k e]) \<or> (\<exists>resp \<in> R. ls = answer_lines k resp)"

text \<open>
  What a thread has written and what it is still to write make up one complete answer of a request,
  and nothing of a forwarded message; before its answer is known it has written nothing.
\<close>

definition on_course :: "front_response set \<Rightarrow> ft_thread \<Rightarrow> string list \<Rightarrow> bool" where
  "on_course R th done =
     (case ft_pc th of
        Writing ls \<Rightarrow> (case ft_req th of None \<Rightarrow> done @ ls = [] | Some (k, m) \<Rightarrow> complete_answer R k (done @ ls))
      | Answered resp \<Rightarrow> done = [] \<and> resp \<in> R
      | _ \<Rightarrow> done = [])"

definition ft_inv :: "(nat \<Rightarrow> front_response set) \<Rightarrow> ft_state \<Rightarrow> bool" where
  "ft_inv A s \<longleftrightarrow> fr_out (ft_front s) = map snd (ft_log s)
     \<and> (\<forall>i. case ft_threads s i of None \<Rightarrow> wrote s i = [] | Some th \<Rightarrow> on_course (A i) th (wrote s i))"

lemma ft_inv_new: "ft_inv A (ft_new input)"
  by (simp add: ft_inv_def ft_new_def front_new_def wrote_def)

lemma on_course_failed [simp]: "on_course R (th\<lparr>ft_pc := ft_failed th e\<rparr>) []"
  by (auto simp: on_course_def ft_failed_def complete_answer_def split: option.split)

lemma on_course_start [simp]:
  "\<forall>ls. pc \<noteq> Writing ls \<Longrightarrow> \<forall>resp. pc = Answered resp \<longrightarrow> resp \<in> R \<Longrightarrow> on_course R (th\<lparr>ft_pc := pc\<rparr>) []"
  by (cases pc) (auto simp: on_course_def)

lemma on_course_mono: "on_course R th done \<Longrightarrow> R \<subseteq> R' \<Longrightarrow> on_course R' th done"
  by (auto simp: on_course_def complete_answer_def split: ft_pc.splits option.splits)

lemma ft_inv_mono:
  assumes "ft_inv A s" and "\<And>i. A i \<subseteq> A' i"
  shows "ft_inv A' s"
proof -
  have "case ft_threads s i of None \<Rightarrow> wrote s i = [] | Some th \<Rightarrow> on_course (A' i) th (wrote s i)" for i
    using assms(1) on_course_mono [OF _ assms(2) [of i]] by (auto simp: ft_inv_def dest!: spec [of _ i] split: option.splits)
  with assms(1) show ?thesis by (simp add: ft_inv_def)
qed

section \<open>The steps of a thread\<close>

text \<open>How many requests have been sent at most, and how far a thread has come.\<close>

fun budget :: "ft_pc \<Rightarrow> nat" where
  "budget (Begin retry) = (if retry then 2 else 0)"
| "budget (Awaiting retry) = (if retry then 3 else 1)"
| "budget Expired = 1"
| "budget (Init_begin m) = 1"
| "budget Init_awaiting = 2"
| "budget (Init_done resp) = 2"
| "budget _ = 3"

lemma budget_le: "budget pc \<le> 3"
  by (cases pc) auto

lemma budget_failed [simp]: "budget (ft_failed th e) = 3"
  by (simp add: ft_failed_def split: option.split prod.split)

fun phase :: "ft_pc \<Rightarrow> nat" where
  "phase (Begin retry) = (if retry then 4 else 10)"
| "phase (Awaiting retry) = (if retry then 3 else 9)"
| "phase Expired = 8"
| "phase (Init_begin m) = 7"
| "phase Init_awaiting = 6"
| "phase (Init_done resp) = 5"
| "phase (Answered resp) = 2"
| "phase (Writing ls) = 1"

fun left_over :: "ft_pc \<Rightarrow> nat" where
  "left_over (Writing ls) = length ls"
| "left_over _ = 0"

lemma phase_failed [simp]: "phase (ft_failed th e) = 1"
  by (simp add: ft_failed_def split: option.split prod.split)

text \<open>
  A step that writes no line moves one thread on: it sends at most one request, within the budget of
  the point it reaches, and either its answer is still to come or all of it is to be written.
\<close>

definition moves :: "front_response set \<Rightarrow> ft_state \<Rightarrow> nat \<Rightarrow> ft_thread \<Rightarrow> ft_state \<Rightarrow> bool" where
  "moves R s i th s' \<longleftrightarrow> (\<exists>pc qs. ft_threads s' = ft_threads (ft_set i pc s) \<and> ft_sent s' = ft_sent s @ qs
     \<and> list_all (\<lambda>q. fst q = Some i) qs \<and> budget (ft_pc th) + length qs \<le> budget pc \<and> phase pc < phase (ft_pc th)
     \<and> on_course R (th\<lparr>ft_pc := pc\<rparr>) [] \<and> (\<forall>ls. ft_pc th \<noteq> Writing ls)
     \<and> ft_log s' = ft_log s \<and> fr_out (ft_front s') = fr_out (ft_front s) \<and> ft_over s' = ft_over s)"

lemma movesI:
  assumes "ft_threads s' = ft_threads (ft_set i pc s)" and "ft_sent s' = ft_sent s"
    and "budget (ft_pc th) \<le> budget pc" and "phase pc < phase (ft_pc th)"
    and "on_course R (th\<lparr>ft_pc := pc\<rparr>) []" and "\<forall>ls. ft_pc th \<noteq> Writing ls"
    and "ft_log s' = ft_log s" and "fr_out (ft_front s') = fr_out (ft_front s)" and "ft_over s' = ft_over s"
  shows "moves R s i th s'"
  unfolding moves_def by (rule exI [of _ pc], rule exI [of _ "[]"]) (use assms in simp)

lemma moves_send:
  assumes "budget (ft_pc th) + 1 \<le> budget pc" and "phase pc < phase (ft_pc th)" and "1 < phase (ft_pc th)"
    and "\<forall>ls. pc \<noteq> Writing ls" and "\<forall>resp. pc \<noteq> Answered resp" and "\<forall>ls. ft_pc th \<noteq> Writing ls"
  shows "moves R s i th (ft_send c i th msg pc s)"
proof (cases "Parse (url_string (fc_upstream c)) = None")
  case True
  then show ?thesis
    using assms budget_le [of "ft_pc th"] by (intro movesI [where pc = "ft_failed th ''parse error''"]) (simp_all add: ft_send_def)
next
  case False
  then have s': "ft_send c i th msg pc s = (ft_set i pc s)\<lparr>ft_sent := ft_sent s @ [(Some i, doPost_request c (ft_front s) msg)]\<rparr>"
    by (simp only: ft_send_def False if_False)
  show ?thesis
    unfolding moves_def s'
    by (rule exI [of _ pc], rule exI [of _ "[(Some i, doPost_request c (ft_front s) msg)]"]) (use assms in simp)
qed

lemma moves_arrive:
  assumes "ft_step c (Arrive r) i th s = Some s'" and "\<forall>resp. r = Inr resp \<longrightarrow> resp \<in> R"
  shows "moves R s i th s'"
proof (cases "\<exists>e. r = Inl e")
  case True
  then obtain e where "r = Inl e" by blast
  with assms(1) have "s' = ft_set i (ft_failed th e) s" "(\<exists>retry. ft_pc th = Awaiting retry) \<or> ft_pc th = Init_awaiting"
    by (auto split: ft_pc.splits)
  then show ?thesis by (intro movesI [where pc = "ft_failed th e"]) (auto simp: budget_le)
next
  case False
  then obtain resp where r: "r = Inr resp" by (cases r) auto
  show ?thesis
  proof (cases "ft_pc th")
    case (Awaiting retry)
    with assms r show ?thesis
      by (intro movesI [where pc = "if retry \<or> fs_code resp \<noteq> 404 \<or> fr_session (ft_front s) = [] then Answered resp else Expired"]) auto
  next
    case Init_awaiting
    with assms r show ?thesis
      by (intro movesI [where pc = "if is_2xx (fs_code resp) then Init_done resp
        else ft_failed th (''re-initialize: upstream returned '' @ fs_status resp)"]) auto
  qed (use assms r in simp_all)
qed

lemma step_moves:
  assumes "ft_step c a i th s = Some s'" and "a \<noteq> Write_line"
    and "\<forall>resp. ft_pc th = Answered resp \<or> a = Arrive (Inr resp) \<longrightarrow> resp \<in> R"
  shows "moves R s i th s'"
proof (cases a)
  case Build
  with assms(1) show ?thesis by (auto split: ft_pc.splits intro!: moves_send)
next
  case (Arrive r)
  with assms(1,3) show ?thesis by (intro moves_arrive [where r = r]) auto
next
  case Enter
  show ?thesis
  proof (cases "fr_init (ft_front s)")
    case None
    with assms(1) Enter show ?thesis
      by (intro movesI [where pc = "ft_failed th ''session expired and no initialize request cached''"]) (auto split: if_splits)
  next
    case (Some m)
    with assms(1) Enter show ?thesis by (intro movesI [where pc = "Init_begin m"]) (auto split: if_splits)
  qed
next
  case Store_session
  with assms(1) show ?thesis by (intro movesI [where pc = "Begin True"]) (auto split: ft_pc.splits)
next
  case Initialized
  with assms(1) obtain resp where r: "ft_pc th = Answered resp" by (auto split: ft_pc.splits)
  show ?thesis
  proof (cases "ft_req th")
    case None
    with assms(1) Initialized r show ?thesis by (intro movesI [where pc = "Writing []"]) (auto simp: on_course_def)
  next
    case (Some km)
    obtain k m where km: "km = (k, m)" by fastforce
    have "resp \<in> R" using assms(3) r by blast
    with assms(1) Initialized r Some km show ?thesis
      by (intro movesI [where pc = "Writing (answer_lines k resp)"]) (auto simp: on_course_def complete_answer_def)
  qed
qed (use assms(2) in simp)

lemma writes:
  assumes "ft_step c Write_line i th s = Some s'"
  shows "\<exists>l ls. ft_pc th = Writing (l # ls)
    \<and> s' = (ft_set i (Writing ls) s)\<lparr>ft_front := writeLine l (ft_front s), ft_log := ft_log s @ [(Some i, l)]\<rparr>"
  using assms by (auto split: ft_pc.splits list.splits)

section \<open>Every request gets a complete answer\<close>

text \<open>The responses that arrive in a list of events.\<close>

definition arrived :: "ft_event list \<Rightarrow> nat \<Rightarrow> front_response set" where
  "arrived es i = {resp. Act i (Arrive (Inr resp)) \<in> set es}"

lemma ft_step_inv:
  assumes inv: "ft_inv A s" and th: "ft_threads s i = Some th" and run: "ft_step c a i th s = Some s'"
    and arr: "\<forall>resp. a = Arrive (Inr resp) \<longrightarrow> resp \<in> A i"
  shows "ft_inv A s'"
proof (cases "a = Write_line")
  case False
  have o: "on_course (A i) th (wrote s i)" using inv th by (auto simp: ft_inv_def dest!: spec [of _ i])
  then have "\<forall>resp. ft_pc th = Answered resp \<or> a = Arrive (Inr resp) \<longrightarrow> resp \<in> A i" using arr by (auto simp: on_course_def)
  from step_moves [OF run False this] obtain pc where m: "ft_threads s' = ft_threads (ft_set i pc s)" "on_course (A i) (th\<lparr>ft_pc := pc\<rparr>) []"
    "\<forall>ls. ft_pc th \<noteq> Writing ls" "ft_log s' = ft_log s" "fr_out (ft_front s') = fr_out (ft_front s)"
    unfolding moves_def by blast
  have "wrote s i = []" using o m(3) by (cases "ft_pc th") (auto simp: on_course_def)
  then show ?thesis
    using inv th m unfolding ft_inv_def wrote_cong [OF m(4)] by (auto simp: ft_set_threads)
next
  case True
  with run writes obtain l ls where pc: "ft_pc th = Writing (l # ls)"
    and s': "s' = (ft_set i (Writing ls) s)\<lparr>ft_front := writeLine l (ft_front s), ft_log := ft_log s @ [(Some i, l)]\<rparr>"
    by blast
  have w: "wrote s' = (wrote s)(i := wrote s i @ [l])" by (simp add: wrote_def s' fun_eq_iff)
  have "on_course (A i) th (wrote s i)" using inv th by (auto simp: ft_inv_def dest!: spec [of _ i])
  then have "on_course (A i) (th\<lparr>ft_pc := Writing ls\<rparr>) (wrote s i @ [l])"
    using pc by (auto simp: on_course_def split: option.splits)
  with inv th show ?thesis
    unfolding ft_inv_def w by (auto simp: s' ft_set_threads writeLine_def cong: option.case_cong)
qed

lemma ft_fire_inv:
  assumes inv: "ft_inv A s" and run: "ft_fire c e s = Some s'"
    and arr: "\<And>i. arrived [e] i \<subseteq> A i"
  shows "ft_inv A s'"
proof (cases e)
  case (Take i)
  with run obtain l ls where s': "s' = ft_take i l (s\<lparr>ft_todo := ls\<rparr>)" "ft_threads s i = None"
    by (auto simp: ft_fire_def split: if_splits list.splits)
  have w: "wrote s' j = wrote s j" for j by (simp add: wrote_def s'(1))
  have "wrote s i = []" using inv s'(2) by (auto simp: ft_inv_def dest!: spec [of _ i])
  moreover have "ft_threads s' i = None \<or> (\<exists>th. ft_threads s' i = Some th \<and> ft_pc th = Begin False)"
    using s'(2) by (auto simp: s'(1) ft_take_def split: option.splits)
  moreover have "ft_threads s' j = ft_threads s j" if "j \<noteq> i" for j
    using that by (auto simp: s'(1) ft_take_def split: option.split)
  ultimately have "case ft_threads s' j of None \<Rightarrow> wrote s j = [] | Some th \<Rightarrow> on_course (A j) th (wrote s j)" for j
    using inv by (cases "j = i") (auto simp: ft_inv_def on_course_def)
  with inv show ?thesis unfolding ft_inv_def w by (simp add: s'(1))
next
  case (Act i a)
  with run obtain th where "ft_threads s i = Some th" "ft_step c a i th s = Some s'"
    by (auto simp: ft_fire_def bind_eq_Some_conv split: if_splits)
  moreover have "\<forall>resp. a = Arrive (Inr resp) \<longrightarrow> resp \<in> A i" using arr [of i] Act by (auto simp: arrived_def)
  ultimately show ?thesis by (rule ft_step_inv [OF inv])
next
  case (Stream_line l)
  with run have s': "s' = s\<lparr>ft_front := writeLine l (ft_front s), ft_log := ft_log s @ [(None, l)]\<rparr>"
    by (auto simp: ft_fire_def split: if_splits)
  have w: "wrote s' = wrote s" using wrote_snoc [of s' s None l] by (simp add: s' fun_eq_iff)
  from inv show ?thesis unfolding ft_inv_def w by (simp add: s' writeLine_def)
next
  case Stream_get
  with run have s': "s' = ft_note c [stream_request c (ft_front s)] s" by (auto simp: ft_fire_def split: if_splits)
  have w: "wrote s' = wrote s" by (rule wrote_cong) (simp add: s')
  from inv show ?thesis unfolding ft_inv_def w by (simp add: s')
next
  case Close_session
  with run have s': "s' = (ft_note c (closing_request c (ft_front s)) s)\<lparr>ft_over := True\<rparr>" by (auto simp: ft_fire_def split: if_splits)
  have w: "wrote s' = wrote s" by (rule wrote_cong) (simp add: s')
  from inv show ?thesis unfolding ft_inv_def w by (simp add: s')
qed

lemma arrived_append: "arrived (es @ es') i = arrived es i \<union> arrived es' i"
  by (auto simp: arrived_def)

lemma ft_run_append: "ft_run c (es @ es') s = Option.bind (ft_run c es s) (ft_run c es')"
proof (induction es arbitrary: s)
  case (Cons e es)
  then show ?case by (cases "ft_fire c e s") simp_all
qed simp

lemma ft_run_inv: "ft_run c es (ft_new input) = Some s \<Longrightarrow> ft_inv (arrived es) s"
proof (induction es arbitrary: s rule: rev_induct)
  case Nil
  then show ?case using ft_inv_new by auto
next
  case (snoc e es)
  then obtain s1 where s1: "ft_run c es (ft_new input) = Some s1" "ft_fire c e s1 = Some s"
    by (auto simp: ft_run_append bind_eq_Some_conv)
  have "ft_inv (arrived (es @ [e])) s1" using ft_inv_mono [OF snoc.IH [OF s1(1)]] by (simp add: arrived_append)
  then show ?case using s1(2) by (rule ft_fire_inv) (simp add: arrived_append)
qed

section \<open>What is sent for a message\<close>

definition sent_by :: "ft_state \<Rightarrow> nat \<Rightarrow> nat" where
  "sent_by s i = length (filter (\<lambda>x. fst x = Some i) (ft_sent s))"

definition within_budget :: "ft_state \<Rightarrow> bool" where
  "within_budget s \<longleftrightarrow> (\<forall>i. sent_by s i \<le> (case ft_threads s i of None \<Rightarrow> 0 | Some th \<Rightarrow> budget (ft_pc th)))"

lemma ft_step_budget:
  assumes inv: "within_budget s" and th: "ft_threads s i = Some th" and run: "ft_step c a i th s = Some s'"
  shows "within_budget s'"
proof -
  have "\<exists>pc qs. ft_threads s' = ft_threads (ft_set i pc s) \<and> ft_sent s' = ft_sent s @ qs
     \<and> list_all (\<lambda>q. fst q = Some i) qs \<and> budget (ft_pc th) + length qs \<le> budget pc"
  proof (cases "a = Write_line")
    case True
    with run writes show ?thesis by (metis (no_types, lifting) append_Nil2 budget.simps(8) ft_set_sel(2) ft_state.select_convs(2,3)
        ft_state.update_convs(1,4) le_refl list.pred_inject(1) list.size(3) add_0_right ft_state.surjective)
  qed (use step_moves [OF run, of UNIV] in \<open>unfold moves_def, blast\<close>)
  then obtain pc qs where m: "ft_threads s' = ft_threads (ft_set i pc s)" "ft_sent s' = ft_sent s @ qs"
    "list_all (\<lambda>q. fst q = Some i) qs" "budget (ft_pc th) + length qs \<le> budget pc" by blast
  have f: "filter (\<lambda>x. fst x = Some j) qs = (if j = i then qs else [])" for j
    using m(3) by (induction qs) auto
  have "sent_by s' j \<le> (case ft_threads s' j of None \<Rightarrow> 0 | Some th \<Rightarrow> budget (ft_pc th))" for j
  proof (cases "j = i")
    case True
    have "sent_by s i \<le> budget (ft_pc th)" using inv th by (auto simp: within_budget_def dest: spec [of _ i])
    with True m th show ?thesis by (simp add: sent_by_def f ft_set_threads)
  next
    case False
    then have "sent_by s' j = sent_by s j" "ft_threads s' j = ft_threads s j"
      using m by (simp_all add: sent_by_def f ft_set_threads)
    then show ?thesis using inv by (simp add: within_budget_def)
  qed
  then show ?thesis by (simp add: within_budget_def)
qed

lemma ft_fire_budget:
  assumes inv: "within_budget s" and run: "ft_fire c e s = Some s'"
  shows "within_budget s'"
proof (cases e)
  case (Take i)
  with run obtain l ls where s': "s' = ft_take i l (s\<lparr>ft_todo := ls\<rparr>)" "ft_threads s i = None"
    by (auto simp: ft_fire_def split: if_splits list.splits)
  have "sent_by s' = sent_by s" by (simp add: sent_by_def s'(1) fun_eq_iff)
  moreover have "sent_by s i = 0" using inv s'(2) by (auto simp: within_budget_def dest: spec [of _ i])
  moreover have "ft_threads s' j = ft_threads s j" if "j \<noteq> i" for j
    using that by (auto simp: s'(1) ft_take_def split: option.split)
  ultimately show ?thesis using inv unfolding within_budget_def by (metis le0)
next
  case (Act i a)
  with run obtain th where "ft_threads s i = Some th" "ft_step c a i th s = Some s'"
    by (auto simp: ft_fire_def bind_eq_Some_conv split: if_splits)
  then show ?thesis by (rule ft_step_budget [OF inv])
next
  case Stream_get
  with run inv show ?thesis by (auto simp: ft_fire_def within_budget_def sent_by_def ft_note_def split: if_splits)
next
  case Close_session
  with run inv show ?thesis
    by (auto simp: ft_fire_def within_budget_def sent_by_def ft_note_def filter_map comp_def split: if_splits)
qed (use run inv in \<open>auto simp: ft_fire_def within_budget_def sent_by_def split: if_splits\<close>)

lemma within_budget_reach: "ft_reach c input s \<Longrightarrow> within_budget s"
proof (induction rule: ft_reach.induct)
  case start
  show ?case by (simp add: within_budget_def ft_new_def sent_by_def)
qed (rule ft_fire_budget)

lemma at_most_three: "ft_reach c input s \<Longrightarrow> sent_by s i \<le> 3"
proof -
  assume "ft_reach c input s"
  then have "sent_by s i \<le> (case ft_threads s i of None \<Rightarrow> 0 | Some th \<Rightarrow> budget (ft_pc th))"
    using within_budget_reach by (simp add: within_budget_def)
  also have "\<dots> \<le> 3" using budget_le by (simp split: option.split)
  finally show ?thesis .
qed

section \<open>A request ends by itself\<close>

text \<open>A thread that is not finished has a step of its own, which brings it closer to its end.\<close>

lemma enabled:
  assumes "ft_pc th \<noteq> Writing []"
  shows "\<exists>a s'. ft_step c a i th s = Some s'"
proof (cases "ft_pc th")
  case (Awaiting retry)
  then show ?thesis by (intro exI [of _ "Arrive (Inl [])"]) simp
next
  case Init_awaiting
  then show ?thesis by (intro exI [of _ "Arrive (Inl [])"]) simp
next
  case (Writing ls)
  with assms show ?thesis by (intro exI [of _ Write_line]) (cases ls; simp)
next
  case (Answered resp)
  then show ?thesis by (intro exI [of _ Initialized]) (simp split: option.split)
qed (fastforce intro: exI [of _ Build] exI [of _ Enter] exI [of _ Store_session])+

lemma step_closer:
  assumes "ft_threads s i = Some th" and "ft_step c a i th s = Some s'"
  shows "\<exists>pc. ft_threads s' i = Some (th\<lparr>ft_pc := pc\<rparr>) \<and> ft_over s' = ft_over s
    \<and> ((phase pc, left_over pc), phase (ft_pc th), left_over (ft_pc th)) \<in> less_than <*lex*> less_than"
proof (cases "a = Write_line")
  case True
  with assms(2) writes obtain l ls where "ft_pc th = Writing (l # ls)"
    "s' = (ft_set i (Writing ls) s)\<lparr>ft_front := writeLine l (ft_front s), ft_log := ft_log s @ [(Some i, l)]\<rparr>" by blast
  with assms(1) show ?thesis by (intro exI [of _ "Writing ls"]) (simp add: ft_set_threads)
next
  case False
  from step_moves [OF assms(2) False, of UNIV] assms(1) show ?thesis
    unfolding moves_def by (force simp: ft_set_threads)
qed

lemma runs_to_end:
  assumes "ft_threads s i = Some th" and "\<not> ft_over s"
  shows "\<exists>acts s'. ft_run c (map (Act i) acts) s = Some s' \<and> ft_threads s' i = Some (th\<lparr>ft_pc := Writing []\<rparr>)"
  using assms
proof (induction "(phase (ft_pc th), left_over (ft_pc th))" arbitrary: s th rule: wf_induct_rule [OF wf_lex_prod [OF wf_less_than wf_less_than]])
  case less: 1
  show ?case
  proof (cases "ft_pc th = Writing []")
    case True
    then have "th\<lparr>ft_pc := Writing []\<rparr> = th" by simp
    with less.prems show ?thesis by (intro exI [of _ "[]"] exI [of _ s]) simp
  next
    case False
    from enabled [OF this] obtain a s1 where st: "ft_step c a i th s = Some s1" by blast
    from step_closer [OF less.prems(1) st] obtain pc where
      f: "ft_threads s1 i = Some (th\<lparr>ft_pc := pc\<rparr>)" "ft_over s1 = ft_over s"
      and m: "((phase pc, left_over pc), phase (ft_pc th), left_over (ft_pc th)) \<in> less_than <*lex*> less_than" by blast
    have "\<exists>acts s'. ft_run c (map (Act i) acts) s1 = Some s' \<and> ft_threads s' i = Some (th\<lparr>ft_pc := pc\<rparr>\<lparr>ft_pc := Writing []\<rparr>)"
      using m less.prems(2) f by (intro less.hyps [OF _ f(1)]) auto
    then obtain acts s' where "ft_run c (map (Act i) acts) s1 = Some s'" "ft_threads s' i = Some (th\<lparr>ft_pc := Writing []\<rparr>)" by auto
    moreover have "ft_fire c (Act i a) s = Some s1" using st less.prems by (simp add: ft_fire_def)
    ultimately show ?thesis by (intro exI [of _ "a # acts"] exI [of _ s']) simp
  qed
qed

text \<open>
  A request that is finished has been answered in full: one error object, or all the lines of a
  response that arrived for it.
\<close>

lemma finished_answer:
  assumes "ft_run c es (ft_new input) = Some s" and "ft_threads s i = Some th" and "ft_req th = Some (k, m)" and "ft_pc th = Writing []"
  shows "complete_answer (arrived es i) k (wrote s i)"
  using ft_run_inv [OF assms(1)] assms(2-) by (auto simp: ft_inv_def on_course_def dest!: spec [of _ i])

lemma request_completes:
  assumes run: "ft_run c es (ft_new input) = Some s" and th: "ft_threads s i = Some th" "ft_req th = Some (k, m)" and "\<not> ft_over s"
  shows "\<exists>acts s'. ft_run c (map (Act i) acts) s = Some s' \<and> ft_finished s' i
    \<and> complete_answer (arrived (es @ map (Act i) acts) i) k (wrote s' i)"
proof -
  from runs_to_end [OF th(1) assms(4)] obtain acts s' where
    r: "ft_run c (map (Act i) acts) s = Some s'" "ft_threads s' i = Some (th\<lparr>ft_pc := Writing []\<rparr>)" by blast
  then have "ft_run c (es @ map (Act i) acts) (ft_new input) = Some s'" using run by (simp add: ft_run_append)
  from finished_answer [OF this r(2)] th(2) have "complete_answer (arrived (es @ map (Act i) acts) i) k (wrote s' i)" by simp
  with r show ?thesis by (intro exI [of _ acts] exI [of _ s']) (simp add: ft_finished_def)
qed

section \<open>The schedule in which nothing overlaps\<close>

text \<open>Thread \<open>i\<close> gets from \<open>s\<close> to \<open>s'\<close> by steps of its own, and is then at \<open>pc\<close>; nothing else has changed.\<close>

definition own_run :: "front_config \<Rightarrow> nat \<Rightarrow> ft_thread \<Rightarrow> ft_state \<Rightarrow> ft_pc \<Rightarrow> front \<Rightarrow> bool" where
  "own_run c i th s pc f \<longleftrightarrow> (\<exists>acts s'. ft_run c (map (Act i) acts) s = Some s' \<and> ft_threads s' = (ft_threads s)(i \<mapsto> th\<lparr>ft_pc := pc\<rparr>)
     \<and> ft_front s' = f \<and> ft_over s' = ft_over s \<and> ft_todo s' = ft_todo s \<and> ft_main s' = ft_main s)"

definition at_pc :: "nat \<Rightarrow> ft_thread \<Rightarrow> ft_state \<Rightarrow> ft_pc \<Rightarrow> front \<Rightarrow> bool" where
  "at_pc i th s pc f \<longleftrightarrow> ft_threads s i = Some (th\<lparr>ft_pc := pc\<rparr>) \<and> \<not> ft_over s \<and> ft_front s = f"

lemma own_run_refl: "ft_threads s i = Some th \<Longrightarrow> own_run c i th s (ft_pc th) (ft_front s)"
  unfolding own_run_def by (intro exI [of _ "[]"] exI [of _ s]) (auto simp: fun_eq_iff)

text \<open>Composition: the rest of the run may be studied from any state with the same thread and fields.\<close>

lemma own_run_step:
  assumes "own_run c i th s pc f" and "\<not> ft_over s"
    and "\<And>s1. ft_threads s1 i = Some (th\<lparr>ft_pc := pc\<rparr>) \<Longrightarrow> \<not> ft_over s1 \<Longrightarrow> ft_front s1 = f \<Longrightarrow> own_run c i (th\<lparr>ft_pc := pc\<rparr>) s1 pc' f'"
  shows "own_run c i th s pc' f'"
proof -
  from assms(1) obtain acts s1 where r: "ft_run c (map (Act i) acts) s = Some s1" "ft_threads s1 = (ft_threads s)(i \<mapsto> th\<lparr>ft_pc := pc\<rparr>)"
    "ft_front s1 = f" "ft_over s1 = ft_over s" "ft_todo s1 = ft_todo s" "ft_main s1 = ft_main s" unfolding own_run_def by blast
  have "own_run c i (th\<lparr>ft_pc := pc\<rparr>) s1 pc' f'" using r assms(2) by (intro assms(3)) simp_all
  then obtain acts' s' where "ft_run c (map (Act i) acts') s1 = Some s'" "ft_threads s' = (ft_threads s1)(i \<mapsto> th\<lparr>ft_pc := pc'\<rparr>)"
    "ft_front s' = f'" "ft_over s' = ft_over s1" "ft_todo s' = ft_todo s1" "ft_main s' = ft_main s1" unfolding own_run_def by auto
  with r show ?thesis
    unfolding own_run_def by (intro exI [of _ "acts @ acts'"] exI [of _ s']) (simp add: ft_run_append)
qed

lemma ft_set_upd: "ft_threads s i = Some th \<Longrightarrow> ft_threads (ft_set i pc s) = (ft_threads s)(i \<mapsto> th\<lparr>ft_pc := pc\<rparr>)"
  by (simp add: ft_set_def)

lemma own_runI:
  assumes "ft_threads s i = Some th" and "\<not> ft_over s" and "ft_run c (map (Act i) acts) s = Some s'"
    and "ft_threads s' = (ft_threads s)(i \<mapsto> th\<lparr>ft_pc := pc\<rparr>)" "ft_front s' = f" "ft_over s' = ft_over s" "ft_todo s' = ft_todo s" "ft_main s' = ft_main s"
  shows "own_run c i th s pc f"
  using assms unfolding own_run_def by blast

text \<open>A request and its answer: \<open>then_pc\<close> is where the answer leads.\<close>

definition after_post :: "ft_thread \<Rightarrow> bool \<Rightarrow> front \<Rightarrow> string + front_response \<Rightarrow> ft_pc" where
  "after_post th retry f r = (case r of
     Inl e \<Rightarrow> ft_failed th e
   | Inr resp \<Rightarrow> if retry \<or> fs_code resp \<noteq> 404 \<or> fr_session f = [] then Answered resp else Expired)"

definition after_init :: "ft_thread \<Rightarrow> string + front_response \<Rightarrow> ft_pc" where
  "after_init th r = (case r of
     Inl e \<Rightarrow> ft_failed th e
   | Inr resp \<Rightarrow> if is_2xx (fs_code resp) then Init_done resp else ft_failed th (''re-initialize: upstream returned '' @ fs_status resp))"

lemma failed_pc [simp]: "ft_failed (th\<lparr>ft_pc := pc\<rparr>) e = ft_failed th e"
  by (simp add: ft_failed_def)

lemma do_run:
  assumes th: "ft_threads s i = Some th" "\<not> ft_over s" and d: "doPost c up msg (ft_front s) u = (r, u')"
    and step: "ft_step c Build i th s = Some (ft_send c i th msg pc s)" and pc: "\<forall>ls. pc \<noteq> Writing ls"
    and arrive: "\<And>s1. ft_front s1 = ft_front s \<Longrightarrow> ft_step c (Arrive r) i (th\<lparr>ft_pc := pc\<rparr>) s1 = Some (ft_set i (nxt r) s1)"
    and failed: "\<And>e. nxt (Inl e) = ft_failed th e"
  shows "own_run c i th s (nxt r) (ft_front s)"
proof (cases "Parse (url_string (fc_upstream c)) = None")
  case True
  then have r: "r = Inl ''parse error''" using d by (simp add: doPost_def front_do_def)
  have "ft_fire c (Act i Build) s = Some (ft_set i (ft_failed th ''parse error'') s)"
    using th step True by (simp add: ft_fire_def ft_send_def del: ft_step.simps)
  then show ?thesis
    using th by (intro own_runI [OF th, where acts = "[Build]" and s' = "ft_set i (ft_failed th ''parse error'') s"])
      (simp_all add: r failed ft_set_upd)
next
  case False
  let ?s1 = "(ft_set i pc s)\<lparr>ft_sent := ft_sent s @ [(Some i, doPost_request c (ft_front s) msg)]\<rparr>"
  have b: "ft_fire c (Act i Build) s = Some ?s1" using th step False by (simp add: ft_fire_def ft_send_def del: not_None_eq)
  have "ft_fire c (Act i (Arrive r)) ?s1 = Some (ft_set i (nxt r) ?s1)"
    using th arrive [of ?s1] by (simp add: ft_fire_def ft_set_upd)
  with b th show ?thesis
    by (intro own_runI [OF th, where acts = "[Build, Arrive r]" and s' = "ft_set i (nxt r) ?s1"]) (simp_all add: ft_set_upd)
qed

lemma post_run:
  assumes "ft_threads s i = Some th" "\<not> ft_over s" and "doPost c up (ft_msg th) (ft_front s) u = (r, u')" and "ft_pc th = Begin retry"
  shows "own_run c i th s (after_post th retry (ft_front s) r) (ft_front s)"
  using assms by (intro do_run [where pc = "Awaiting retry" and msg = "ft_msg th"])
    (auto simp: after_post_def split: sum.split)

lemma init_run:
  assumes "ft_threads s i = Some th" "\<not> ft_over s" and "doPost c up m (ft_front s) u = (r, u')" and "ft_pc th = Init_begin m"
  shows "own_run c i th s (after_init th r) (ft_front s)"
  using assms by (intro do_run [where pc = Init_awaiting and msg = m])
    (auto simp: after_init_def split: sum.split)

lemma after_pc [simp]:
  "after_post (th\<lparr>ft_pc := pc\<rparr>) retry f r = after_post th retry f r" "after_init (th\<lparr>ft_pc := pc\<rparr>) r = after_init th r"
  by (simp_all add: after_post_def after_init_def split: sum.split)

lemma after_retry: "after_post th True f r = after_post th True g r"
  by (simp add: after_post_def split: sum.split)

lemma failed_not: "ft_failed th e \<noteq> Expired" "ft_failed th e \<noteq> Init_done resp"
  by (simp_all add: ft_failed_def split: option.split prod.split)

text \<open>\<open>post\<close> from its last point back to its first: the retry, the initialize, the expired session.\<close>

lemma retry_run:
  assumes th: "ft_threads s i = Some th" "\<not> ft_over s" "ft_pc th = Init_done resp"
    and d: "doPost c up (ft_msg th) (take_session resp (ft_front s)) u = (r, u')"
  shows "own_run c i th s (after_post th True f r) (take_session resp (ft_front s))"
proof (rule own_run_step [where pc = "Begin True", OF _ th(2)])
  show "own_run c i th s (Begin True) (take_session resp (ft_front s))"
    using th by (intro own_runI [OF th(1,2), where acts = "[Store_session]"
          and s' = "(ft_set i (Begin True) s)\<lparr>ft_front := take_session resp (ft_front s)\<rparr>"]) (simp_all add: ft_fire_def ft_set_upd)
  fix s1 :: ft_state
  assume s1: "ft_threads s1 i = Some (th\<lparr>ft_pc := Begin True\<rparr>)" "\<not> ft_over s1" "ft_front s1 = take_session resp (ft_front s)"
  have "doPost c up (ft_msg (th\<lparr>ft_pc := Begin True\<rparr>)) (ft_front s1) u = (r, u')" using d s1(3) by simp
  from post_run [OF s1(1,2) this, of True] s1(3) after_retry [of th f r "take_session resp (ft_front s)"]
  show "own_run c i (th\<lparr>ft_pc := Begin True\<rparr>) s1 (after_post th True f r) (take_session resp (ft_front s))"
    by simp
qed

lemma reinit_run:
  assumes th: "ft_threads s i = Some th" "\<not> ft_over s" "ft_pc th = Init_begin m"
    and d: "doPost c up m (ft_front s) u = (r2, u2)"
    and more: "\<And>resp. r2 = Inr resp \<Longrightarrow> is_2xx (fs_code resp) \<Longrightarrow>
      doPost c up (ft_msg th) (take_session resp (ft_front s)) u2 = (r, u') \<and> f' = take_session resp (ft_front s)"
    and stop: "\<nexists>resp. r2 = Inr resp \<and> is_2xx (fs_code resp) \<Longrightarrow> after_post th True f' r = after_init th r2 \<and> f' = ft_front s"
  shows "own_run c i th s (after_post th True f' r) f'"
proof (cases "\<exists>resp. r2 = Inr resp \<and> is_2xx (fs_code resp)")
  case False
  from stop [OF False] show ?thesis using init_run [OF th(1,2) d th(3)] by metis
next
  case True
  then obtain resp where r2: "r2 = Inr resp" "is_2xx (fs_code resp)" by blast
  from init_run [OF th(1,2) d th(3)] r2 have "own_run c i th s (Init_done resp) (ft_front s)" by (simp add: after_init_def)
  then show ?thesis
  proof (rule own_run_step [OF _ th(2)])
    fix s1 :: ft_state
    assume s1: "ft_threads s1 i = Some (th\<lparr>ft_pc := Init_done resp\<rparr>)" "\<not> ft_over s1" "ft_front s1 = ft_front s"
    have "doPost c up (ft_msg (th\<lparr>ft_pc := Init_done resp\<rparr>)) (take_session resp (ft_front s1)) u2 = (r, u')" using more r2 s1(3) by simp
    from retry_run [OF s1(1,2) _ this, of f'] more r2 s1(3)
    show "own_run c i (th\<lparr>ft_pc := Init_done resp\<rparr>) s1 (after_post th True f' r) f'" by simp
  qed
qed

lemma front_expired_run:
  assumes th: "ft_threads s i = Some th" "\<not> ft_over s" "ft_pc th = Expired" "ft_msg th = msg"
    and p: "(case front_reinit c up (ft_front s) u of
       (Inl e, g, u) \<Rightarrow> (Inl e, g, u) | (Inr _, g, u) \<Rightarrow> (case doPost c up msg g u of (r, u) \<Rightarrow> (r, g, u))) = (r, f', u')"
  shows "own_run c i th s (after_post th True f' r) f'"
proof (cases "fr_init (ft_front s)")
  case None
  let ?e = "''session expired and no initialize request cached''"
  have "r = Inl ?e" "f' = (ft_front s)\<lparr>fr_session := []\<rparr>" using p None by (simp_all add: front_reinit_def)
  then show ?thesis
    using th None
    by (intro own_runI [OF th(1,2), where acts = "[Enter]" and s' = "(ft_set i (ft_failed th ?e) s)\<lparr>ft_front := (ft_front s)\<lparr>fr_session := []\<rparr>\<rparr>"])
      (simp_all add: ft_fire_def after_post_def ft_set_upd)
next
  case (Some m)
  let ?f0 = "(ft_front s)\<lparr>fr_session := []\<rparr>"
  obtain r2 u2 where d: "doPost c up m ?f0 u = (r2, u2)" by fastforce
  have "own_run c i th s (Init_begin m) ?f0"
    using th Some by (intro own_runI [OF th(1,2), where acts = "[Enter]" and s' = "(ft_set i (Init_begin m) s)\<lparr>ft_front := ?f0\<rparr>"])
      (simp_all add: ft_fire_def ft_set_upd)
  then show ?thesis
  proof (rule own_run_step [OF _ th(2)])
    fix s1 :: ft_state
    assume s1: "ft_threads s1 i = Some (th\<lparr>ft_pc := Init_begin m\<rparr>)" "\<not> ft_over s1" "ft_front s1 = ?f0"
    have "own_run c i (th\<lparr>ft_pc := Init_begin m\<rparr>) s1 (after_post (th\<lparr>ft_pc := Init_begin m\<rparr>) True f' r) f'"
      using p Some d s1(3) th(4)
      by (intro reinit_run [OF s1(1,2), where m = m and up = up and u = u and ?r2.0 = r2 and ?u2.0 = u2 and u' = u'])
        (auto simp: front_reinit_def after_post_def after_init_def Let_def split: prod.splits sum.splits if_splits)
    then show "own_run c i (th\<lparr>ft_pc := Init_begin m\<rparr>) s1 (after_post th True f' r) f'" by simp
  qed
qed

lemma front_post_run:
  assumes th: "ft_threads s i = Some th" "\<not> ft_over s" "ft_pc th = Begin False"
    and p: "front_post c up (ft_msg th) (ft_front s) u = (r, f', u')"
  shows "own_run c i th s (after_post th True f' r) f'"
proof -
  obtain r1 u1 where d: "doPost c up (ft_msg th) (ft_front s) u = (r1, u1)" by fastforce
  note first = post_run [OF th(1,2) d th(3)]
  show ?thesis
  proof (cases "after_post th False (ft_front s) r1 = Expired")
    case False
    then have "f' = ft_front s" "after_post th True f' r = after_post th False (ft_front s) r1"
      using p d by (auto simp: front_post_def after_post_def split: sum.splits if_splits)
    with first show ?thesis by simp
  next
    case True
    then obtain resp where r1: "r1 = Inr resp" "fs_code resp = 404" "fr_session (ft_front s) \<noteq> []"
      by (auto simp: after_post_def failed_not split: sum.splits if_splits)
    from first have "own_run c i th s Expired (ft_front s)" by (simp only: True)
    then show ?thesis
    proof (rule own_run_step [OF _ th(2)])
      fix s1 :: ft_state
      assume s1: "ft_threads s1 i = Some (th\<lparr>ft_pc := Expired\<rparr>)" "\<not> ft_over s1" "ft_front s1 = ft_front s"
      have "own_run c i (th\<lparr>ft_pc := Expired\<rparr>) s1 (after_post (th\<lparr>ft_pc := Expired\<rparr>) True f' r) f'"
        using p d r1 s1(3) by (intro front_expired_run [OF s1(1,2), where up = up and u = u1 and u' = u' and msg = "ft_msg th"]) (simp_all add: front_post_def)
      then show "own_run c i (th\<lparr>ft_pc := Expired\<rparr>) s1 (after_post th True f' r) f'" by simp
    qed
  qed
qed

text \<open>Writing what is left of an answer.\<close>

definition put_out :: "string list \<Rightarrow> front \<Rightarrow> front" where
  "put_out ls f = f\<lparr>fr_out := fr_out f @ ls\<rparr>"

lemma put_out_Nil [simp]: "put_out [] f = f"
  by (simp add: put_out_def)

lemma put_out_Cons: "put_out (l # ls) f = put_out ls (writeLine l f)"
  by (simp add: put_out_def writeLine_def)

lemma writing_run:
  assumes "ft_threads s i = Some th" "\<not> ft_over s" "ft_pc th = Writing ls"
  shows "own_run c i th s (Writing []) (put_out ls (ft_front s))"
  using assms
proof (induction ls arbitrary: th s)
  case Nil
  then show ?case using own_run_refl [OF Nil(1), of c] by simp
next
  case (Cons l ls)
  have "own_run c i th s (Writing ls) (writeLine l (ft_front s))"
    using Cons.prems by (intro own_runI [OF Cons.prems(1,2), where acts = "[Write_line]"
        and s' = "(ft_set i (Writing ls) s)\<lparr>ft_front := writeLine l (ft_front s), ft_log := ft_log s @ [(Some i, l)]\<rparr>"])
      (simp_all add: ft_fire_def ft_set_upd)
  then show ?case
  proof (rule own_run_step [OF _ Cons.prems(2)])
    fix s1 :: ft_state
    assume s1: "ft_threads s1 i = Some (th\<lparr>ft_pc := Writing ls\<rparr>)" "\<not> ft_over s1" "ft_front s1 = writeLine l (ft_front s)"
    from Cons.IH [OF s1(1,2)] s1(3)
    show "own_run c i (th\<lparr>ft_pc := Writing ls\<rparr>) s1 (Writing []) (put_out (l # ls) (ft_front s))"
      by (simp add: put_out_Cons)
  qed
qed

lemma front_answer_put: "front_answer k resp f = put_out (answer_lines k resp) f"
  by (simp add: front_answer_def answer_lines_def put_out_def writeError_def writeLine_def readEvents_messages split: prod.split)

text \<open>What is left of a message once \<open>post\<close> has returned.\<close>

definition front_rest :: "ft_thread \<Rightarrow> string + front_response \<Rightarrow> front \<Rightarrow> front" where
  "front_rest th r f = (case ft_req th of
     None \<Rightarrow> f
   | Some (k, m) \<Rightarrow> (case r of Inl e \<Rightarrow> writeError k e f | Inr resp \<Rightarrow> front_answer k resp (after_initialize m (ft_msg th) resp f)))"

lemma rest_run:
  assumes th: "ft_threads s i = Some th" "\<not> ft_over s" "ft_pc th = after_post th True f r"
  shows "own_run c i th s (Writing []) (front_rest th r (ft_front s))"
proof (cases r)
  case (Inl e)
  then have "ft_pc th = Writing (case ft_req th of None \<Rightarrow> [] | Some (k, m) \<Rightarrow> [error_line k e])"
    using th(3) by (simp add: after_post_def ft_failed_def split: option.split prod.split)
  from writing_run [OF th(1,2) this, of c] Inl show ?thesis
    by (simp add: front_rest_def put_out_def writeError_def writeLine_def split: option.splits prod.splits)
next
  case (Inr resp)
  let ?ls = "case ft_req th of None \<Rightarrow> [] | Some (k, m) \<Rightarrow> answer_lines k resp"
  let ?f = "case ft_req th of None \<Rightarrow> ft_front s | Some (k, m) \<Rightarrow> after_initialize m (ft_msg th) resp (ft_front s)"
  have pc: "ft_pc th = Answered resp" using th(3) Inr by (simp add: after_post_def)
  have "own_run c i th s (Writing ?ls) ?f"
    using th(1,2) pc
    by (intro own_runI [OF th(1,2), where acts = "[Initialized]" and s' = "(ft_set i (Writing ?ls) s)\<lparr>ft_front := ?f\<rparr>"])
      (simp_all add: ft_fire_def ft_set_upd split: option.split prod.split)
  then show ?thesis
  proof (rule own_run_step [OF _ th(2)])
    fix s1 :: ft_state
    assume s1: "ft_threads s1 i = Some (th\<lparr>ft_pc := Writing ?ls\<rparr>)" "\<not> ft_over s1" "ft_front s1 = ?f"
    from writing_run [OF s1(1,2)] s1(3) Inr
    show "own_run c i (th\<lparr>ft_pc := Writing ?ls\<rparr>) s1 (Writing []) (front_rest th r (ft_front s))"
      by (simp add: front_rest_def front_answer_put split: option.splits prod.splits)
  qed
qed

text \<open>A message from beginning to end, without another event in between.\<close>

lemma message_run:
  assumes th: "ft_threads s i = Some th" "\<not> ft_over s" "ft_pc th = Begin False"
    and p: "front_post c up (ft_msg th) (ft_front s) u = (r, f', u')"
  shows "own_run c i th s (Writing []) (front_rest th r f')"
proof (rule own_run_step [OF front_post_run [OF th p] th(2)])
  fix s1 :: ft_state
  assume s1: "ft_threads s1 i = Some (th\<lparr>ft_pc := after_post th True f' r\<rparr>)" "\<not> ft_over s1" "ft_front s1 = f'"
  have "front_rest (th\<lparr>ft_pc := after_post th True f' r\<rparr>) r f' = front_rest th r f'"
    by (simp add: front_rest_def split: option.split prod.split sum.split)
  with rest_run [OF s1(1,2), of f' r c] s1(3)
  show "own_run c i (th\<lparr>ft_pc := after_post th True f' r\<rparr>) s1 (Writing []) (front_rest th r f')"
    by simp
qed

lemma handleLine_rest:
  assumes "parse_envelope l = Some env"
  shows "front_handleLine c up l f u = (case front_post c up l f u of (r, f, u) \<Rightarrow>
     (front_rest \<lparr>ft_msg = l, ft_req = (case env_id env of None \<Rightarrow> None
        | Some k \<Rightarrow> if env_method env = [] then None else Some (k, env_method env)), ft_pc = Begin False\<rparr> r f, u))"
  using assms
  by (auto simp: front_handleLine_def front_request_call_def front_rest_def split: option.split prod.split sum.split)

text \<open>Every thread is finished, and the numbers from \<open>n\<close> on are free.\<close>

definition quiet :: "nat \<Rightarrow> ft_state \<Rightarrow> bool" where
  "quiet n s \<longleftrightarrow> \<not> ft_over s \<and> ft_idle s \<and> (\<forall>i. if i < n then ft_threads s i = None \<or> ft_finished s i else ft_threads s i = None)"

lemma quiet_Suc: "quiet i s \<Longrightarrow> quiet (Suc i) s"
  unfolding quiet_def by (auto simp: less_Suc_eq dest: spec [of _ i])

lemma quiet_run:
  assumes q: "quiet i s" and s1: "ft_threads s1 = (ft_threads s)(i \<mapsto> th)" "\<not> ft_over s1" "ft_main s1 \<in> {ft_main s, Some i}"
    and r: "own_run c i th s1 (Writing []) f"
  shows "\<exists>acts s'. ft_run c (map (Act i) acts) s1 = Some s' \<and> quiet (Suc i) s' \<and> ft_front s' = f \<and> ft_todo s' = ft_todo s1"
proof -
  from r obtain acts s' where s': "ft_run c (map (Act i) acts) s1 = Some s'" "ft_threads s' = (ft_threads s1)(i \<mapsto> th\<lparr>ft_pc := Writing []\<rparr>)"
    "ft_front s' = f" "ft_over s' = ft_over s1" "ft_todo s' = ft_todo s1" "ft_main s' = ft_main s1" unfolding own_run_def by blast
  have thr: "ft_threads s' = (ft_threads s)(i \<mapsto> th\<lparr>ft_pc := Writing []\<rparr>)" by (simp add: s' s1)
  have fin: "ft_finished s' j \<longleftrightarrow> j = i \<or> ft_finished s j" for j
    by (simp add: ft_finished_def thr)
  have "ft_idle s'"
    using q s1(3) s'(6) fin by (auto simp: quiet_def ft_idle_def split: option.splits)
  moreover have "if j < Suc i then ft_threads s' j = None \<or> ft_finished s' j else ft_threads s' j = None" for j
    using q fin [of j] by (auto simp: quiet_def thr less_Suc_eq split: if_splits)
  ultimately have "quiet (Suc i) s'" using s'(4) s1(2) unfolding quiet_def by blast
  with s'(1,3,5) show ?thesis by blast
qed

lemma line_run:
  assumes q: "quiet i s" and todo: "ft_todo s = l # ls" and h: "front_handleLine c up l (ft_front s) u = (f, u')"
  shows "\<exists>acts s'. ft_run c (Take i # map (Act i) acts) s = Some s' \<and> quiet (Suc i) s' \<and> ft_front s' = f \<and> ft_todo s' = ls"
proof -
  let ?s1 = "ft_take i l (s\<lparr>ft_todo := ls\<rparr>)"
  have "ft_threads s i = None" using q by (auto simp: quiet_def dest: spec [of _ i])
  then have t: "ft_fire c (Take i) s = Some ?s1" using q todo by (simp add: ft_fire_def quiet_def)
  show ?thesis
  proof (cases "parse_envelope l")
    case None
    then have s1: "?s1 = s\<lparr>ft_todo := ls\<rparr>" "f = ft_front s" using h by (simp_all add: ft_take_def front_handleLine_def)
    have "ft_finished (s\<lparr>ft_todo := ls\<rparr>) = ft_finished s" by (simp add: ft_finished_def fun_eq_iff)
    then have "quiet i (s\<lparr>ft_todo := ls\<rparr>)" using q by (simp add: quiet_def ft_idle_def cong: option.case_cong)
    then have "quiet (Suc i) ?s1" "ft_front ?s1 = f" "ft_todo ?s1 = ls"
      using quiet_Suc s1 by simp_all
    with t show ?thesis by (intro exI [of _ "[]"] exI [of _ ?s1]) simp
  next
    case (Some env)
    let ?th = "\<lparr>ft_msg = l, ft_req = (case env_id env of None \<Rightarrow> None
        | Some k \<Rightarrow> if env_method env = [] then None else Some (k, env_method env)), ft_pc = Begin False\<rparr>"
    obtain r f1 u1 where p: "front_post c up l (ft_front s) u = (r, f1, u1)" by (metis prod_cases3)
    have f: "f = front_rest ?th r f1" using h p by (simp add: handleLine_rest [OF Some])
    have s1: "ft_threads ?s1 = (ft_threads s)(i \<mapsto> ?th)" "\<not> ft_over ?s1" "ft_main ?s1 \<in> {ft_main s, Some i}" "ft_todo ?s1 = ls"
      using q Some by (auto simp: ft_take_def quiet_def split: option.split)
    have "own_run c i ?th ?s1 (Writing []) f"
      unfolding f using p s1 by (intro message_run [where up = up and u = u and u' = u1]) simp_all
    from quiet_run [OF q s1(1,2,3) this] s1(4) obtain acts s' where
      "ft_run c (map (Act i) acts) ?s1 = Some s'" "quiet (Suc i) s'" "ft_front s' = f" "ft_todo s' = ls" by auto
    with t show ?thesis by (intro exI [of _ acts] exI [of _ s']) simp
  qed
qed

lemma lines_run:
  assumes "quiet i s" and "ft_todo s = ls" and "front_lines c up ls (ft_front s) u = (f, u')"
  shows "\<exists>es s' n. ft_run c es s = Some s' \<and> quiet n s' \<and> ft_front s' = f \<and> ft_todo s' = []"
  using assms
proof (induction ls arbitrary: i s u)
  case Nil
  then show ?case by (intro exI [of _ "[]"] exI [of _ s] exI [of _ i]) simp
next
  case (Cons l ls)
  obtain f1 u1 where h: "front_handleLine c up l (ft_front s) u = (f1, u1)" by fastforce
  from line_run [OF Cons.prems(1,2) h] obtain acts s1 where
    s1: "ft_run c (Take i # map (Act i) acts) s = Some s1" "quiet (Suc i) s1" "ft_front s1 = f1" "ft_todo s1 = ls" by blast
  have "front_lines c up ls (ft_front s1) u1 = (f, u')" using Cons.prems(3) h s1(3) by simp
  from Cons.IH [OF s1(2,4) this] obtain es s' n where
    "ft_run c es s1 = Some s'" "quiet n s'" "ft_front s' = f" "ft_todo s' = []" by blast
  with s1(1) show ?case
    by (intro exI [of _ "(Take i # map (Act i) acts) @ es"] exI [of _ s'] exI [of _ n]) (simp add: ft_run_append del: ft_run.simps append_Cons)
qed

lemma Serve_run:
  "\<exists>es s. ft_run c es (ft_new input) = Some s \<and> ft_over s \<and> ft_todo s = [] \<and> ft_front s = fst (front_Serve c up input u)
    \<and> (\<forall>i. ft_threads s i = None \<or> ft_finished s i)"
proof -
  obtain f u' where l: "front_lines c up (scanLines input) (ft_front (ft_new input)) u = (f, u')" by fastforce
  have "quiet 0 (ft_new input)" "ft_todo (ft_new input) = scanLines input" by (simp_all add: quiet_def ft_new_def ft_idle_def)
  from lines_run [OF this l] obtain es s n where
    s: "ft_run c es (ft_new input) = Some s" "quiet n s" "ft_front s = f" "ft_todo s = []" by blast
  let ?s' = "(ft_note c (closing_request c (ft_front s)) s)\<lparr>ft_over := True\<rparr>"
  have "ft_fire c Close_session s = Some ?s'" using s(2) by (simp add: ft_fire_def quiet_def)
  with s(1) have "ft_run c (es @ [Close_session]) (ft_new input) = Some ?s'" by (simp add: ft_run_append)
  moreover have "ft_threads s i = None \<or> ft_finished s i" for i using s(2) by (auto simp: quiet_def split: if_splits)
  moreover have "ft_finished ?s' = ft_finished s" by (simp add: ft_finished_def fun_eq_iff)
  ultimately show ?thesis
    using l s(3,4) by (intro exI [of _ "es @ [Close_session]"] exI [of _ ?s']) (simp add: front_Serve_def ft_new_def ft_note_def)
qed

lemma run_reach: "ft_reach c input s \<Longrightarrow> ft_run c es s = Some s' \<Longrightarrow> ft_reach c input s'"
proof (induction es arbitrary: s)
  case (Cons e es)
  then obtain s1 where "ft_fire c e s = Some s1" "ft_run c es s1 = Some s'" by (auto simp: bind_eq_Some_conv)
  with Cons show ?case using ft_reach.step [of c input s e s1] by blast
qed simp

section \<open>Two requests that find the session expired\<close>

text \<open>
  The second \<open>reinit\<close> throws away the session the first one stored, so that the retry of the first
  is sent without one; and the initialize of the second may be sent under the session of the first.
\<close>

lemma renewed_session_lost:
  assumes "ft_threads s i = Some th" "ft_pc th = Begin True" and "ft_threads s j = Some th'" "ft_pc th' = Expired"
    and "i \<noteq> j" "\<not> ft_over s" "Parse (url_string (fc_upstream c)) \<noteq> None"
  shows "\<exists>s'. ft_run c [Act j Enter, Act i Build] s = Some s'
    \<and> ft_sent s' = ft_sent s @ [(Some i, doPost_request c (no_session (ft_front s)) (ft_msg th))]"
  using assms by (auto simp: ft_fire_def ft_send_def ft_set_threads doPost_request_def with_session_def no_session_def)

lemma initialize_under_session:
  assumes "ft_threads s i = Some th" "ft_pc th = Init_done resp" and "ft_threads s j = Some th'" "ft_pc th' = Init_begin m"
    and "i \<noteq> j" "\<not> ft_over s" "Parse (url_string (fc_upstream c)) \<noteq> None"
  shows "\<exists>s'. ft_run c [Act i Store_session, Act j Build] s = Some s'
    \<and> ft_sent s' = ft_sent s @ [(Some j, doPost_request c (take_session resp (ft_front s)) m)]"
  using assms by (auto simp: ft_fire_def ft_send_def ft_set_threads)

end
