(* ===== verification/Relay.thy ===== *)
theory Relay
  imports Tunneld Bridge
begin

text \<open>
  The way of one request through the whole relay: from the proxy over the session of the gateway to the
  agent, which rewrites it for its upstream, here the bridge of \<open>mcptunnel expose\<close>, and the answer
  back. What \<open>httputil.ReverseProxy\<close> writes on the stream is an argument, \<open>carry\<close>.
\<close>

text \<open>Its documented behaviour: method and body go through, the path is the one \<open>Rewrite\<close> has set.\<close>

definition carries :: "(string \<Rightarrow> request \<Rightarrow> wire_request) \<Rightarrow> bool" where
  "carries carry \<longleftrightarrow> (\<forall>rest r. wr_method (carry rest r) = rq_method r \<and> wr_body (carry rest r) = rq_body r
     \<and> u_path (wr_url (carry rest r)) = rest)"

text \<open>How the handler of post \<open>i\<close> ended in a state of the bridge.\<close>

definition ended :: "bridge \<Rightarrow> nat \<Rightarrow> outcome option" where
  "ended b i = (case br_posts b i of
     None \<Rightarrow> None
   | Some p \<Rightarrow> (case po_pc p of Left r \<Rightarrow> Some r | _ \<Rightarrow> None))"

text \<open>
  The answer of the bridge to a request, once its handler, post \<open>i\<close>, has ended; \<open>sent\<close> is how the
  write of a forwarded message failed, \<open>msgs\<close> what the stream carried. \<open>None\<close> is no response.
\<close>

definition bridge_answer ::
  "string \<Rightarrow> bridge \<Rightarrow> nat \<Rightarrow> outcome option \<Rightarrow> string list \<Rightarrow> wire_request \<Rightarrow> Http.response option" where
  "bridge_answer session b i sent msgs w =
     (case bridge_serve session False (wr_method w) (Some (wr_body w)) of
        Call_reply resp \<Rightarrow> Some resp
      | Call_stream \<Rightarrow> Some (stream_reply session msgs)
      | Call_forward body \<Rightarrow> forward_reply session sent
      | Call_request k body \<Rightarrow>
          (case br_posts b i of
             None \<Rightarrow> None
           | Some p \<Rightarrow> if po_key p = k \<and> po_body p = body then Option.bind (ended b i) (post_reply session) else None))"

text \<open>A request on a session's stream, answered by the agent.\<close>

definition agent_forward ::
  "(string \<Rightarrow> request \<Rightarrow> wire_request) \<Rightarrow> agent_client \<Rightarrow> (wire_request \<Rightarrow> Http.response option) \<Rightarrow> string \<Rightarrow> request \<Rightarrow> Http.response option" where
  "agent_forward carry a upstream rest r = fst (handleStream a (\<lambda>w u. (upstream w, u)) (Some (carry rest r)) ())"

lemma agent_forward_answer:
  "agent_forward carry a upstream rest r =
     Some (case upstream (agent_rewrite a (carry rest r)) of None \<Rightarrow> agent_bad_gateway | Some resp \<Rightarrow> resp)"
  by (simp add: agent_forward_def handleStream_def split: option.split)

lemma bridge_call_request:
  assumes "parse_envelope body = Some env" and "env_id env = Some k" and "env_method env \<noteq> []" and "length body \<le> maxBody"
  shows "bridge_serve session False ''POST'' (Some body) = Call_request k body"
  using assms by (simp add: bridge_serve_def bridge_post_def bridge_reply_def)

text \<open>
  A JSON-RPC request that is answered is answered, through bridge, agent and proxy, with a line of the
  child that carries its own id; the agent's upstream is asked for the path below the service.
\<close>

lemma relay_answer:
  assumes "carries carry" and "br_reach allowed b" and "gw_Dial t n g = Some j"
    and "\<forall>rest r. vs_forward v j rest r = agent_forward carry a (bridge_answer session b i sent msgs) rest r"
    and r: "rq_method r = ''POST''" "parse_envelope (rq_body r) = Some env" "env_id env = Some k" "env_method env \<noteq> []" "length (rq_body r) \<le> maxBody"
    and p: "br_posts b i = Some p" "po_key p = k" "po_body p = rq_body r" "po_pc p = Left (Answer m)"
  shows "proxy_forward (gateway_upstream v g) t n rest r = \<lparr>rp_status = 200,
      rp_headers = bridge_headers session @ [(''Content-Type'', ''application/json'')], rp_body = m\<rparr>
    \<and> has_id m k \<and> u_path (wr_url (agent_rewrite a (carry rest r))) = rest"
proof -
  have w: "wr_method (agent_rewrite a (carry rest r)) = ''POST''" "wr_body (agent_rewrite a (carry rest r)) = rq_body r"
    "u_path (wr_url (agent_rewrite a (carry rest r))) = rest"
    using assms(1) r(1) by (simp_all add: carries_def agent_rewrite_def)
  have "bridge_answer session b i sent msgs (agent_rewrite a (carry rest r)) = post_reply session (Answer m)"
    using p by (simp add: bridge_answer_def w bridge_call_request [OF r(2-5)] ended_def)
  moreover have "has_id m k" using answer_has_id [OF assms(2) p(1,4)] p(2) by simp
  ultimately show ?thesis
    using assms(3,4) w(3) by (simp add: proxy_forward_def gateway_upstream_def agent_forward_answer post_reply_def add_headers_def)
qed

text \<open>When the child exits while the request waits, or has exited, the client is told so with 502.\<close>

lemma relay_exited:
  assumes "carries carry" and "gw_Dial t n g = Some j"
    and "\<forall>rest r. vs_forward v j rest r = agent_forward carry a (bridge_answer session b i sent msgs) rest r"
    and r: "rq_method r = ''POST''" "parse_envelope (rq_body r) = Some env" "env_id env = Some k" "env_method env \<noteq> []" "length (rq_body r) \<le> maxBody"
    and p: "br_posts b i = Some p" "po_key p = k" "po_body p = rq_body r" "po_pc p = Left e" "e \<in> {Exited, Refused}"
  shows "rp_status (proxy_forward (gateway_upstream v g) t n rest r) = 502"
proof -
  have w: "wr_method (agent_rewrite a (carry rest r)) = ''POST''" "wr_body (agent_rewrite a (carry rest r)) = rq_body r"
    using assms(1) r(1) by (simp_all add: carries_def agent_rewrite_def)
  have "bridge_answer session b i sent msgs (agent_rewrite a (carry rest r)) = post_reply session e"
    using p by (simp add: bridge_answer_def w bridge_call_request [OF r(2-5)] ended_def)
  with p(5) assms(2,3) show ?thesis
    by (auto simp: proxy_forward_def gateway_upstream_def agent_forward_answer post_reply_def add_headers_def http_error_def)
qed

end
