(* ===== verification/Duration.thy ===== *)
theory Duration
  imports Prelude
begin

text \<open>
  The durations of \<open>internal/config\<close>: \<open>UnmarshalYAML\<close> and \<open>time.ParseDuration\<close>, which it calls, on
  \<open>uint64\<close> values with the overflow checks written out. What the floating-point arithmetic makes of a
  fraction is an argument, a function of its digits, their scale and the unit.
\<close>

definition duration_units :: "(string \<times> nat) list" where
  "duration_units = [(''ns'', 1), (''us'', 1000), ([CHR 0xC2, CHR 0xB5] @ ''s'', 1000), ([CHR 0xCE, CHR 0xBC] @ ''s'', 1000),
     (''ms'', 1000000), (''s'', 1000000000), (''m'', 60000000000), (''h'', 3600000000000)]"

text \<open>The outer option is an overflow.\<close>

fun leadingInt :: "nat \<Rightarrow> string \<Rightarrow> (nat \<times> string) option" where
  "leadingInt x [] = Some (x, [])"
| "leadingInt x (c # s) =
     (case digit_val c of
        None \<Rightarrow> Some (x, c # s)
      | Some d \<Rightarrow> if x > 2 ^ 63 div 10 then None else if x * 10 + d > 2 ^ 63 then None else leadingInt (x * 10 + d) s)"

fun leadingFraction :: "nat \<Rightarrow> nat \<Rightarrow> bool \<Rightarrow> string \<Rightarrow> nat \<times> nat \<times> string" where
  "leadingFraction x scale over [] = (x, scale, [])"
| "leadingFraction x scale over (c # s) =
     (case digit_val c of
        None \<Rightarrow> (x, scale, c # s)
      | Some d \<Rightarrow>
          if over \<or> x > (2 ^ 63 - 1) div 10 \<or> x * 10 + d > 2 ^ 63 then leadingFraction x scale True s
          else leadingFraction (x * 10 + d) (scale * 10) False s)"

definition unit_char :: "char \<Rightarrow> bool" where
  "unit_char c \<longleftrightarrow> c \<noteq> CHR ''.'' \<and> digit_val c = None"

definition unit_part :: "string \<Rightarrow> string \<times> string" where
  "unit_part s = (takeWhile unit_char s, dropWhile unit_char s)"

text \<open>One number with its unit: its value in nanoseconds and the rest; \<open>None\<close> is any of the errors.\<close>

definition duration_term :: "(nat \<Rightarrow> nat \<Rightarrow> nat \<Rightarrow> nat) \<Rightarrow> string \<Rightarrow> (nat \<times> string) option" where
  "duration_term frac s =
     (if s = [] \<or> hd s \<noteq> CHR ''.'' \<and> digit_val (hd s) = None then None
      else Option.bind (leadingInt 0 s) (\<lambda>(v, s1).
        let (f, scale, s2) = (if s1 \<noteq> [] \<and> hd s1 = CHR ''.'' then leadingFraction 0 1 False (tl s1) else (0, 1, s1));
            pre = length s1 \<noteq> length s;
            post = (s1 \<noteq> [] \<and> hd s1 = CHR ''.'' \<and> length s2 \<noteq> length (tl s1));
            (u, s3) = unit_part s2
        in if \<not> pre \<and> \<not> post \<or> u = [] then None
           else Option.bind (map_of duration_units u) (\<lambda>unit.
             if v > 2 ^ 63 div unit then None
             else (let v = v * unit + (if f > 0 then frac f scale unit else 0) in
                   if f > 0 \<and> v > 2 ^ 63 then None else Some (v, s3)))))"

lemma leadingInt_rest: "leadingInt x s = Some (v, r) \<Longrightarrow> length r \<le> length s"
  by (induction x s rule: leadingInt.induct) (auto split: option.splits if_splits)

lemma leadingFraction_rest: "leadingFraction x sc ov s = (f, sc', r) \<Longrightarrow> length r \<le> length s"
  by (induction x sc ov s rule: leadingFraction.induct) (fastforce split: option.splits if_splits)+

lemma unit_part_rest: "unit_part s = (u, r) \<Longrightarrow> length u + length r = length s"
  by (auto simp: unit_part_def) (metis length_append takeWhile_dropWhile_id)

lemma unit_part_append:
  "list_all unit_char u \<Longrightarrow> r = [] \<or> \<not> unit_char (hd r) \<Longrightarrow> unit_part (u @ r) = (u, r)"
  by (cases r) (auto simp: unit_part_def list_all_iff)

lemma duration_term_shorter:
  assumes "duration_term frac s = Some (v, r)"
  shows "length r < length s"
proof -
  from assms obtain x s1 where i: "leadingInt 0 s = Some (x, s1)"
    by (auto simp: duration_term_def bind_eq_Some_conv split: if_splits)
  obtain f scale s2 where q: "(if s1 \<noteq> [] \<and> hd s1 = CHR ''.'' then leadingFraction 0 1 False (tl s1) else (0, 1, s1)) = (f, scale, s2)"
    by (metis prod_cases3)
  obtain u s3 where u: "unit_part s2 = (u, s3)" by fastforce
  have "u \<noteq> [] \<and> s3 = r"
    using assms unfolding duration_term_def i Option.bind.simps prod.case Let_def q u
    by (auto simp only: bind_eq_Some_conv prod.case option.inject prod.inject split: if_splits)
  moreover have "length s2 \<le> length s1" using q leadingFraction_rest by (fastforce split: if_splits)
  ultimately show ?thesis using leadingInt_rest [OF i] unit_part_rest [OF u] by (cases u) auto
qed

function duration_loop :: "(nat \<Rightarrow> nat \<Rightarrow> nat \<Rightarrow> nat) \<Rightarrow> nat \<Rightarrow> string \<Rightarrow> nat option" where
  "duration_loop frac d s =
     (if s = [] then Some d
      else (case duration_term frac s of
          None \<Rightarrow> None
        | Some (v, r) \<Rightarrow> if d + v > 2 ^ 63 then None else duration_loop frac (d + v) r))"
  by pat_completeness auto
termination
  by (relation "measure (\<lambda>(frac, d, s). length s)") (auto dest: duration_term_shorter)

declare duration_loop.simps [simp del]

definition ParseDuration :: "(nat \<Rightarrow> nat \<Rightarrow> nat \<Rightarrow> nat) \<Rightarrow> string \<Rightarrow> int option" where
  "ParseDuration frac s =
     (let neg = (s \<noteq> [] \<and> hd s = CHR ''-''); t = (if s \<noteq> [] \<and> (hd s = CHR ''-'' \<or> hd s = CHR ''+'') then tl s else s) in
      if t = ''0'' then Some 0
      else if t = [] then None
      else Option.bind (duration_loop frac 0 t) (\<lambda>d.
        if neg then Some (- int d) else if d > 2 ^ 63 - 1 then None else Some (int d)))"

text \<open>\<open>UnmarshalYAML\<close> on what decoding the node as a string gives.\<close>

datatype duration_error = Not_a_string string | Invalid_duration string

definition UnmarshalYAML :: "(nat \<Rightarrow> nat \<Rightarrow> nat \<Rightarrow> nat) \<Rightarrow> string + string \<Rightarrow> duration_error + int" where
  "UnmarshalYAML frac node =
     (case node of
        Inl e \<Rightarrow> Inl (Not_a_string e)
      | Inr s \<Rightarrow> (case ParseDuration frac s of None \<Rightarrow> Inl (Invalid_duration s) | Some d \<Rightarrow> Inr d))"

section \<open>Bounds\<close>

lemma duration_loop_bound: "duration_loop frac d s = Some v \<Longrightarrow> d \<le> 2 ^ 63 \<Longrightarrow> v \<le> 2 ^ 63"
proof (induction frac d s rule: duration_loop.induct)
  case (1 frac d s)
  then show ?case by (subst (asm) (2) duration_loop.simps) (auto split: if_splits option.splits)
qed

lemma ParseDuration_int64:
  assumes "ParseDuration frac s = Some v"
  shows "- (2 ^ 63) \<le> v \<and> v < 2 ^ 63"
  using assms duration_loop_bound [of frac 0]
  by (fastforce simp: ParseDuration_def Let_def bind_eq_Some_conv split: if_splits)

section \<open>What is read\<close>

text \<open>A sum of whole numbers with units is read as what it says.\<close>

definition render_term :: "nat \<times> string \<Rightarrow> string" where
  "render_term x = itoa_nat (fst x) @ snd x"

definition term_value :: "nat \<times> string \<Rightarrow> nat" where
  "term_value x = fst x * the (map_of duration_units (snd x))"

lemma leadingInt_digits:
  assumes "parse_digits x ds = Some v" and "v \<le> 2 ^ 63" and "r = [] \<or> digit_val (hd r) = None"
  shows "leadingInt x (ds @ r) = Some (v, r)"
  using assms(1)
proof (induction ds arbitrary: x)
  case Nil
  with assms(3) show ?case by (cases r) auto
next
  case (Cons c ds)
  then obtain d where d: "digit_val c = Some d" "parse_digits (10 * x + d) ds = Some v" by (auto split: option.splits)
  have mono: "parse_digits a ds = Some b \<Longrightarrow> a \<le> b" for a b ds
    by (induction a ds rule: parse_digits.induct) (auto split: option.splits)
  from mono [OF d(2)] assms(2) have "10 * x + d \<le> 2 ^ 63" by linarith
  with Cons.IH [OF d(2)] d(1) show ?case by (simp add: mult.commute)
qed

lemma units_plain:
  assumes "(u, n) \<in> set duration_units"
  shows "u \<noteq> [] \<and> list_all unit_char u \<and> map_of duration_units u = Some n \<and> 0 < n"
proof -
  have "list_all (\<lambda>(u, n). u \<noteq> [] \<and> list_all unit_char u
      \<and> map_of duration_units u = Some n \<and> 0 < n) duration_units"
    by (simp add: duration_units_def digit_val_def unit_char_def)
  with assms show ?thesis by (auto simp: list_all_iff)
qed

lemma duration_term_render:
  assumes "(snd x, n) \<in> set duration_units" and "term_value x \<le> 2 ^ 63" and "r = [] \<or> digit_val (hd r) \<noteq> None"
  shows "duration_term frac (render_term x @ r) = Some (term_value x, r)"
proof -
  note u = units_plain [OF assms(1)]
  have n: "term_value x = fst x * n" using u by (simp add: term_value_def)
  then have le: "fst x \<le> 2 ^ 63 div n" using assms(2) u by (simp add: less_eq_div_iff_mult_less_eq)
  then have "fst x \<le> 2 ^ 63" using div_le_dividend le_trans by blast
  moreover obtain c u' where cu: "snd x = c # u'" using u by (cases "snd x") auto
  moreover have "digit_val c = None" "c \<noteq> CHR ''.''" using u cu by (simp_all add: unit_char_def)
  ultimately have li: "leadingInt 0 (itoa_nat (fst x) @ snd x @ r) = Some (fst x, snd x @ r)"
    by (intro leadingInt_digits) simp_all
  have up: "unit_part (snd x @ r) = (snd x, r)"
    using u assms(3) by (intro unit_part_append) (auto simp: unit_char_def)
  obtain e ds where ds: "itoa_nat (fst x) = e # ds" by (metis itoa_nat_nonempty list.exhaust)
  then have "digit_val e \<noteq> None" using itoa_nat_digits [of e "fst x"] by simp
  then have start: "\<not> (itoa_nat (fst x) @ snd x @ r = [] \<or> hd (itoa_nat (fst x) @ snd x @ r) \<noteq> CHR ''.'' \<and> digit_val (hd (itoa_nat (fst x) @ snd x @ r)) = None)"
    by (simp add: ds)
  have q: "(if snd x @ r \<noteq> [] \<and> hd (snd x @ r) = CHR ''.'' then leadingFraction 0 1 False (tl (snd x @ r)) else (0, 1, snd x @ r)) = (0, 1, snd x @ r)"
    using cu \<open>c \<noteq> CHR ''.''\<close> by simp
  have pre: "length (snd x @ r) \<noteq> length (itoa_nat (fst x) @ snd x @ r)" by (simp add: ds)
  have m: "map_of duration_units (snd x) = Some n" "snd x \<noteq> []" using u by simp_all
  have "\<not> fst x > 2 ^ 63 div n" using le by (simp only: not_less)
  then show ?thesis
    unfolding duration_term_def render_term_def append_assoc if_not_P [OF start] li Option.bind.simps prod.case Let_def q up m(1) n
    using pre m(2) by (simp only: if_False simp_thms less_irrefl add_0_right not_False_eq_True)
qed

lemma duration_loop_render:
  assumes "\<forall>x \<in> set xs. \<exists>n. (snd x, n) \<in> set duration_units" and "d + sum_list (map term_value xs) \<le> 2 ^ 63"
  shows "duration_loop frac d (concat (map render_term xs)) = Some (d + sum_list (map term_value xs))"
  using assms
proof (induction xs arbitrary: d)
  case Nil
  then show ?case by (simp add: duration_loop.simps)
next
  case (Cons x xs)
  then obtain n where n: "(snd x, n) \<in> set duration_units" by auto
  have "concat (map render_term xs) = [] \<or> digit_val (hd (concat (map render_term xs))) \<noteq> None"
  proof (cases xs)
    case (Cons y ys)
    obtain e ds where "itoa_nat (fst y) = e # ds" by (metis itoa_nat_nonempty list.exhaust)
    moreover from this have "digit_val e \<noteq> None" using itoa_nat_digits [of e "fst y"] by simp
    ultimately show ?thesis by (simp add: Cons render_term_def)
  qed simp
  with duration_term_render [OF n] Cons.prems(2)
  have t: "duration_term frac (render_term x @ concat (map render_term xs)) = Some (term_value x, concat (map render_term xs))" by simp
  have "duration_loop frac (d + term_value x) (concat (map render_term xs)) = Some (d + term_value x + sum_list (map term_value xs))"
    using Cons.prems by (intro Cons.IH) (simp_all add: add.assoc)
  moreover have "render_term x \<noteq> []" by (simp add: render_term_def)
  ultimately show ?case using t Cons.prems(2) by (subst duration_loop.simps) (simp add: add.assoc)
qed

lemma ParseDuration_render:
  assumes "xs \<noteq> []" and "\<forall>x \<in> set xs. \<exists>n. (snd x, n) \<in> set duration_units" and "sum_list (map term_value xs) < 2 ^ 63"
  shows "ParseDuration frac (concat (map render_term xs)) = Some (int (sum_list (map term_value xs)))"
    and "ParseDuration frac (''-'' @ concat (map render_term xs)) = Some (- int (sum_list (map term_value xs)))"
proof -
  obtain x xs' where xs: "xs = x # xs'" using assms(1) by (cases xs) auto
  obtain e ds where ds: "itoa_nat (fst x) = e # ds" by (metis itoa_nat_nonempty list.exhaust)
  then have "digit_val e \<noteq> None" using itoa_nat_digits [of e "fst x"] by simp
  then have e: "e \<noteq> CHR ''-''" "e \<noteq> CHR ''+''" by (auto simp: digit_val_def)
  obtain n where "(snd x, n) \<in> set duration_units" using assms(2) xs by auto
  from units_plain [OF this] have "snd x \<noteq> []" by simp
  then obtain s where s: "concat (map render_term xs) = e # s" "s \<noteq> []" by (simp add: xs render_term_def ds)
  note l = duration_loop_render [OF assms(2), of 0 frac] assms(3) s
  show "ParseDuration frac (concat (map render_term xs)) = Some (int (sum_list (map term_value xs)))"
    using l e by (simp add: ParseDuration_def)
  show "ParseDuration frac (''-'' @ concat (map render_term xs)) = Some (- int (sum_list (map term_value xs)))"
    using l by (simp add: ParseDuration_def)
qed

end
