(* ===== verification/Daemon_Examples.thy ===== *)
theory Daemon_Examples
  imports Client_Examples Front_Threads Relay Duration
begin

text \<open>Concrete instances for the properties of the daemon as a whole and of the concurrent stdio front.\<close>

section \<open>A daemon with one tunnel\<close>

definition ex_tunnel_response :: Http.response where
  "ex_tunnel_response = \<lparr>rp_status = 200, rp_headers = [], rp_body = ''hi''\<rparr>"

definition ex_visit :: visit where
  "ex_visit = \<lparr>vs_quick = ex_quick_env, vs_oauth = \<lparr>oe_authorize = ex_authorize_env, oe_token = ex_token_env,
     oe_register = ex_register_env, oe_public_x = [], oe_public_y = []\<rparr>, vs_pem = Some ''pem'', vs_now_server = secs 40,
     vs_now = secs 40, vs_session = Some 1, vs_forward = (\<lambda>i rest r. Some ex_tunnel_response)\<rparr>"

definition ex_daemon :: "(conn, unit) daemon" where
  "ex_daemon = daemon_new ''https://h'' (newIPRate 0) (newIPRate 0) ex_conn"

lemma ex_daemon_store [simp]: "dm_store ex_daemon = ex_conn"
  by (simp add: ex_daemon_def)

lemma ex_tunnel_tenant: "rg_tenants (view_conn ex_conn) ''q-a'' = Some \<lparr>Slug = ''q-a'', DisplayName = ''quick tunnel'', CreatedAt = 0,
    ExpiresAt = Some (secs 90000)\<rparr>"
  by code_simp

lemma ex_not_expired: "\<not> takes_down B ''q-a'' (Tick 0) (view_conn ex_conn)"
  by (simp add: takes_down_def ex_tunnel_tenant tenant_expired_def secs_def nanos_def unix_def)

lemma ex_expired: "rg_tenants R ''q-a'' = rg_tenants (view_conn ex_conn) ''q-a'' \<Longrightarrow> takes_down B ''q-a'' (Tick (secs 90000)) R"
  by (simp add: takes_down_def ex_tunnel_tenant tenant_expired_def)

lemma ex_visit_harmless: "\<not> takes_down B t (Visit ex_visit ex_request) R"
  by (simp add: takes_down_def ex_request_def server_route_def ConnectPath_def has_prefix_def)

lemma ex_drawn: "drawn_ok (Tick now)" "drawn_ok (Visit ex_visit r)"
  by (simp_all add: drawn_ok_def ex_visit_def ex_key_rnd_length)

section \<open>An agent connects\<close>

definition ex_tunnel_connect :: request where
  "ex_tunnel_connect = ex_connect_request\<lparr>rq_path := ConnectPath\<rparr>"

lemma ex_admitted: "fst (gateway_admit sqlite_api ex_bcrypt ex_tunnel_connect ex_conn) = Inr (sessionKey ''q-a'' ''mcp'')"
proof -
  have h: "header ex_tunnel_connect HeaderTenant = ''q-a''" "header ex_tunnel_connect HeaderServiceName = ''mcp''"
    "bearer_key ex_tunnel_connect = ''k''"
    "rg_services (view_conn ex_conn) (''q-a'', ''mcp'') = Some \<lparr>Name = ''mcp'', AgentKeyHash = ''$k'', AuthMode = ''oauth'',
     PasswordHash = ''$pw'', SvcCreatedAt = 0\<rparr>" "CheckSecret ex_bcrypt ''$k'' ''k''"
    by code_simp+
  from sqlite.gateway_admit_spec [OF ex_states_ok(1) surjective_pairing, of ex_bcrypt ex_tunnel_connect]
  show ?thesis by (cases "fst (gateway_admit sqlite_api ex_bcrypt ex_tunnel_connect ex_conn)") (simp_all add: h Let_def)
qed

lemma ex_connected:
  "\<exists>d. daemon_run sqlite_api ex_bcrypt C default_config [Visit ex_visit ex_tunnel_connect] ex_daemon = Some d
    \<and> gw_Dial ''q-a'' ''mcp'' (dm_gateway d) = Some 1"
proof -
  obtain s where a: "gateway_admit sqlite_api ex_bcrypt ex_tunnel_connect ex_conn = (Inr (sessionKey ''q-a'' ''mcp''), s)"
    using ex_admitted by (metis prod.collapse)
  have r: "server_route (rq_method ex_tunnel_connect) (rq_path ex_tunnel_connect) = C_gateway"
    by (simp add: server_route_def ex_tunnel_connect_def)
  have "gateway_connect sqlite_api ex_bcrypt ex_visit ex_tunnel_connect ex_daemon
      = (Connected 1, (with_store s ex_daemon)\<lparr>dm_gateway := gw_swap (sessionKey ''q-a'' ''mcp'') 1 gw_new\<rparr>)"
    by (simp add: gateway_connect_def a) (simp add: ex_visit_def ex_daemon_def gw_new_def)
  then show ?thesis
    by (simp add: daemon_serve_def default_config_def daemon_handle_def r gw_Dial_def gw_swap_def gw_new_def)
qed

section \<open>A request through the stdio front\<close>

definition ex_input :: string where
  "ex_input = ex_call @ [CHR 0x0A]"

lemma ex_lines: "scanLines ex_input = [ex_call]"
proof -
  have "last ex_call \<noteq> CHR 0x0D" by (simp add: ex_call_def)
  then have "scan_lines front_maxLine (concat (map (\<lambda>l. l @ [CHR 0x0A]) [ex_call])) = [ex_call]"
    by (intro scan_lines_written) (simp add: scannable_def ex_call_plain front_maxLine_def ex_call_short)
  then show ?thesis by (simp add: scanLines_def ex_input_def ex_messages ex_call_plain)
qed

section \<open>A request through the whole relay\<close>

definition ex_carry :: "string \<Rightarrow> request \<Rightarrow> wire_request" where
  "ex_carry rest r = \<lparr>wr_method = rq_method r, wr_url = (wr_url ex_wire)\<lparr>u_path := rest\<rparr>, wr_host = ''h'',
     wr_headers = Map.empty, wr_body = rq_body r\<rparr>"

lemma ex_carries: "carries ex_carry"
  by (simp add: carries_def ex_carry_def)

definition ex_relay_request :: request where
  "ex_relay_request = ex_request\<lparr>rq_method := ''POST'', rq_path := ''/t/q-a/s/mcp/x'', rq_body := ex_call\<rparr>"

end
