(* ===== verification/Run_Examples.thy ===== *)
theory Run_Examples
  imports Serial_Runs Rate_Interleaving Daemon_Examples
begin

text \<open>Concrete runs of overlapping requests: two uses of one code, eleven requests for a tunnel, a tick of the janitor.\<close>

section \<open>Two uses of one code\<close>

definition ex_tunnel_token :: request where
  "ex_tunnel_token = ex_token_request\<lparr>rq_path := ''/t/q-a/token''\<rparr>"

definition ex_coded :: "(conn, unit) daemon" where
  "ex_coded = daemon_new ''https://h'' (newIPRate 0) (newIPRate 0) (oa_store ex_after_authorize)"

definition ex_token_tasks :: "task list" where
  "ex_token_tasks = [Ask ex_visit ex_tunnel_token, Ask ex_visit ex_tunnel_token]"




lemma ex_coded_store [simp]: "dm_store ex_coded = oa_store ex_after_authorize"
  by (simp add: ex_coded_def)

lemma ex_after_conn: "oa_store ex_after_authorize = ex_conn\<lparr>c_db := ex_db\<lparr>auth_codes := auth_codes ex_db @
    [\<lparr>ac_code_hash = ''3039303930393039303930393039303930393039303930393039303930393039'', ac_tenant_slug = ''q-a'', ac_client_id = ''c1'',
      ac_redirect_uri = ''http://localhost/cb'', ac_code_challenge = ''dmVyaWZpZXIwMDAwMDAwMDAwMDAwMDAwMDAwMDAwMDA'',
      ac_expires_at = 80, ac_used_at = None\<rparr>]\<rparr>\<rparr>"
  by code_simp

lemma ex_after_reads:
  "GetTenant sqlite_api ''q-a'' (oa_store ex_after_authorize) = (Inr \<lparr>Slug = ''q-a'', DisplayName = ''quick tunnel'', CreatedAt = 0,
    ExpiresAt = Some (secs 90000)\<rparr>, oa_store ex_after_authorize)"
  "GetSigningKey sqlite_api ''q-a'' (oa_store ex_after_authorize) = (Inr ''pem'', oa_store ex_after_authorize)"
  unfolding ex_after_conn by (simp add: sqlite_api_def, code_simp)+

lemma ex_after_server: "resolver_server sqlite_api ex_crypto (Some ''pem'') (secs 40) ''q-a'' (NewResolver ''https://h'') (oa_store ex_after_authorize)
   = (Some ex_server, (NewResolver ''https://h'')\<lparr>rv_servers := Map.empty(''q-a'' \<mapsto> ex_server)\<rparr>, oa_store ex_after_authorize)"
proof -
  have k: "parseKey ex_crypto ''pem'' = Inr ()" and t: "trim_right ''https://h'' ''/'' = ''https://h''" by code_simp+
  show ?thesis by (simp add: resolver_server_def NewServer_def ex_after_reads NewResolver_def ex_server_def Let_def k t)
qed

text \<open>The first of two token requests with one code is answered \<open>200\<close>.\<close>

lemma ex_token_served:
  "\<exists>resp d. daemon_serve sqlite_api ex_bcrypt ex_crypto default_config ex_visit ex_tunnel_token ex_coded = (Reply resp, d) \<and> rp_status resp = 200"
proof -
  have r: "server_route (rq_method ex_tunnel_token) (rq_path ex_tunnel_token) = C_oauth"
    "resolver_path (rq_path ex_tunnel_token) = Some (''q-a'', ''/token'')" "oauth_route (rq_method ex_tunnel_token) ''/token'' = Ep_token"
    "\<not> dc_cloudflare default_config" by code_simp+
  have t: "handleToken sqlite_api ex_crypto ex_server ex_token_env ex_tunnel_token st = handleToken sqlite_api ex_crypto ex_server ex_token_env ex_token_request st" for st
  proof -
    have h: "header ex_tunnel_token x = header ex_token_request x" "rq_remote ex_tunnel_token = rq_remote ex_token_request"
      "rq_post_form ex_tunnel_token = rq_post_form ex_token_request" for x
      by (simp_all add: ex_tunnel_token_def header_def)
    then have "clientIP ex_tunnel_token = clientIP ex_token_request" "rq_post_form ex_tunnel_token = rq_post_form ex_token_request"
      by (simp_all only: clientIP_def)
    then show ?thesis by (simp only: handleToken_def)
  qed
  have st: "dm_oauth ex_coded\<lparr>oa_store := oa_store ex_after_authorize\<rparr> = ex_after_authorize" "dm_resolver ex_coded = NewResolver ''https://h''"
    by (simp_all add: ex_coded_def daemon_new_def ex_after_authorize_def ex_oauth_state_def)
  obtain resp st' where h: "handleToken sqlite_api ex_crypto ex_server ex_token_env ex_token_request ex_after_authorize = (resp, st')" "rp_status resp = 200"
    using ex_token_issued by (metis prod.collapse)
  show ?thesis
    by (simp add: daemon_serve_def daemon_handle_def r resolver_handle_def oauth_serve_def st ex_after_server ex_coded_store ex_visit_def t h)
qed


section \<open>Runs of visits\<close>

lemma visits_run: "\<exists>d'. daemon_run A B C c (map (\<lambda>(v, r). Visit v r) vrs) d = Some d'"
  by (induction vrs arbitrary: d) auto

lemma visits_schedule:
  assumes "rv_baseURL (dm_resolver d) = base" and "gw_handlers (dm_gateway d) = Map.empty"
  shows "\<exists>sched P. tasks_run B C base c sched (map (\<lambda>(v, r). Ask v r) vrs) (shared_of d) = Some P
    \<and> list_all2 replied (run_replies sqlite_api B C c (map (\<lambda>(v, r). Visit v r) vrs) d) (pl_threads P)"
proof -
  obtain d' where "daemon_run sqlite_api B C c (map (\<lambda>(v, r). Visit v r) vrs) d = Some d'" using visits_run by blast
  moreover have "event_tasks (map (\<lambda>(v, r). Visit v r) vrs) = map (\<lambda>(v, r). Ask v r) vrs" by (induction vrs) auto
  ultimately show ?thesis using run_has_schedule [OF _ assms(2)] assms(1) by metis
qed

lemma ex_coded_base: "rv_baseURL (dm_resolver ex_coded) = ''https://h''" "gw_handlers (dm_gateway ex_coded) = Map.empty"
proof -
  have "trim_right ''https://h'' ''/'' = ''https://h''" by code_simp
  then show "rv_baseURL (dm_resolver ex_coded) = ''https://h''" "gw_handlers (dm_gateway ex_coded) = Map.empty"
    by (simp_all add: ex_coded_def daemon_new_def NewResolver_def gw_new_def)
qed

lemma ex_two_tokens:
  "\<exists>sched P. tasks_run ex_bcrypt ex_crypto ''https://h'' default_config sched ex_token_tasks (shared_of ex_coded) = Some P
    \<and> answered 200 (pl_threads P ! 0)"
proof -
  obtain resp d1 where s: "daemon_serve sqlite_api ex_bcrypt ex_crypto default_config ex_visit ex_tunnel_token ex_coded = (Reply resp, d1)"
    and ok: "rp_status resp = 200" using ex_token_served by blast
  obtain sched P where P: "tasks_run ex_bcrypt ex_crypto ''https://h'' default_config sched ex_token_tasks (shared_of ex_coded) = Some P"
    and l: "list_all2 replied (run_replies sqlite_api ex_bcrypt ex_crypto default_config
      (map (\<lambda>(v, r). Visit v r) [(ex_visit, ex_tunnel_token), (ex_visit, ex_tunnel_token)]) ex_coded) (pl_threads P)"
    using visits_schedule [OF ex_coded_base, of ex_bcrypt ex_crypto default_config "[(ex_visit, ex_tunnel_token), (ex_visit, ex_tunnel_token)]"]
    by (auto simp: ex_token_tasks_def)
  from l have "replied (Some (Reply resp)) (pl_threads P ! 0)" by (auto simp: s list_all2_Cons1)
  then have "pl_threads P ! 0 = Ret (Some (Reply resp))" by (auto simp: replied_def)
  with ok have "answered 200 (pl_threads P ! 0)" by (simp add: answered_def)
  with P show ?thesis by blast
qed


section \<open>Eleven requests for a tunnel\<close>

lemma ex_base: "rv_baseURL (dm_resolver ex_daemon) = ''https://h''" "gw_handlers (dm_gateway ex_daemon) = Map.empty"
proof -
  have "trim_right ''https://h'' ''/'' = ''https://h''" by code_simp
  then show "rv_baseURL (dm_resolver ex_daemon) = ''https://h''" "gw_handlers (dm_gateway ex_daemon) = Map.empty"
    by (simp_all add: ex_daemon_def daemon_new_def NewResolver_def gw_new_def)
qed

lemma ex_quick_task: "quick_task default_config (rate_ip ex_quick_request) 0 (Ask ex_visit ex_quick_request)"
  "quick_task default_config ip w (Ask ex_visit ex_quick_request) \<Longrightarrow> w = 0"
proof -
  have "server_route (rq_method ex_quick_request) (rq_path ex_quick_request) = C_control_plane"
    "cp_route (rq_method ex_quick_request) (rq_path ex_quick_request) = Cp_quick" "\<not> dc_cloudflare default_config"
    "rate_window (secs 10) = 0" by code_simp+
  then show "quick_task default_config (rate_ip ex_quick_request) 0 (Ask ex_visit ex_quick_request)"
    "quick_task default_config ip w (Ask ex_visit ex_quick_request) \<Longrightarrow> w = 0"
    by (simp_all add: quick_task_def request_seen_def ex_visit_def ex_quick_env_def)
qed

lemma ex_eleven:
  "\<exists>sched P. tasks_run ex_bcrypt ex_crypto ''https://h'' default_config sched (replicate 11 (Ask ex_visit ex_quick_request)) (shared_of ex_daemon) = Some P"
  using visits_schedule [OF ex_base, of ex_bcrypt ex_crypto default_config "replicate 11 (ex_visit, ex_quick_request)"]
  by (simp only: map_replicate prod.case) blast

text \<open>The janitor's tick that removes the example's tunnel.\<close>

lemma ex_purged:
  "\<exists>sched P. tasks_run ex_bcrypt ex_crypto ''https://h'' default_config sched [Purge (secs 90000)] (shared_of ex_daemon) = Some P
    \<and> rg_tenants (view_conn (sh_conn (pl_shared P))) ''q-a'' = None"
proof -
  obtain d' where d': "daemon_run sqlite_api ex_bcrypt ex_crypto default_config [Tick (secs 90000)] ex_daemon = Some d'" by simp
  have "gone ''q-a'' (view_conn (dm_store d'))"
    by (rule sqlite.taken_down [OF _ ex_bcrypt_ok ex_drawn(1), of ex_daemon ex_crypto default_config "secs 90000" d'])
      (use d' ex_states_ok(1) ex_tunnel_tenant ex_expired [OF refl] in \<open>auto\<close>)
  then have "rg_tenants (view_conn (dm_store d')) ''q-a'' = None" by (simp add: gone_def)
  moreover obtain sched P where "tasks_run ex_bcrypt ex_crypto ''https://h'' default_config sched [Purge (secs 90000)] (shared_of ex_daemon) = Some P"
    "pl_shared P = shared_of d'" using run_has_schedule [OF d' ex_base(2)] by (auto simp: ex_base(1))
  ultimately show ?thesis by (intro exI [of _ sched] exI [of _ P]) (simp add: sh_conn_def)
qed

lemma two_of:
  assumes "card {i. i < n \<and> Q i} \<le> 1" and "Q 0" and "1 < (n :: nat)"
  shows "\<not> Q 1"
proof
  assume "Q 1"
  have "card {0, 1 :: nat} \<le> card {i. i < n \<and> Q i}" by (rule card_mono) (use \<open>Q 1\<close> assms(2,3) in auto)
  with assms(1) show False by simp
qed

lemma ex_token_task: "token_request ex_crypto (sha256hex ex_crypto (hex_encode (ae_rnd ex_authorize_env))) (Ask ex_visit ex_tunnel_token)"
proof -
  have "server_route (rq_method ex_tunnel_token) (rq_path ex_tunnel_token) = C_oauth"
    "resolver_path (rq_path ex_tunnel_token) = Some (''q-a'', ''/token'')" by code_simp+
  then show ?thesis by (simp add: token_request_def) (simp add: ex_tunnel_token_def ex_token_request_def first_value_def)
qed

lemma ex_no_insert:
  assumes "tasks_run ex_bcrypt ex_crypto ''https://h'' default_config sched ex_token_tasks (shared_of ex_coded) = Some P"
    and "(i, Db x, y) \<in> set (pl_log P)"
  shows "\<not> inserts_code h (stmt x)"
proof -
  note i = tasks_history(5) [OF assms]
  have "ex_token_tasks ! i = Ask ex_visit ex_tunnel_token" using i by (auto simp: ex_token_tasks_def less_Suc_eq)
  with token_task_inserts [OF task_trace(1) [OF assms(1) i], of "sha256hex ex_crypto (hex_encode (ae_rnd ex_authorize_env))"] ex_token_task assms(2)
  show ?thesis by (simp add: thread_log_in)
qed

end
