(* ===== verification/Spec2Isabelle.thy ===== *)
theory Spec2Isabelle
  imports Run_Examples

begin

text \<open>
  mcptunnels (Go): a relay that publishes a local MCP server under a public URL. \<open>tunneld\<close> creates quick
  tunnels (\<open>POST /api/v1/quick\<close>), takes the outbound connections of agents, and proxies public requests
  to them; \<open>mcptunnel expose\<close> is such an agent, with a bridge to a child that speaks JSON-RPC on its
  standard streams; \<open>mcptunnel run\<close> is the other end, which gives a client on standard streams a remote
  server. The theories follow the program's packages; every definition names its Go function, and the
  map of PROJECT.json gives the lines.

  Go's standard library, as far as the source uses it:
  \<^item> \<open>Prelude\<close>, \<open>Encoding\<close>, \<open>Go_Json\<close>, \<open>Go_Url\<close>, \<open>Headers\<close>, \<open>Http\<close>: \<open>strings\<close>, \<open>strconv\<close>, truncated division, \<open>hex\<close>,
    \<open>base64\<close>, \<open>json\<close>, \<open>url\<close>, \<open>net.ParseIP\<close>, \<open>bufio.Scanner\<close>, header maps, requests and responses, on strings as
    lists of bytes. Times are integers of nanoseconds since 1970.

  The daemon:
  \<^item> \<open>Database\<close>: the tables and the statements of the two stores, with primary and foreign keys.
  \<^item> \<open>Store_Spec\<close>: \<open>store.API\<close> as a record of operations, the abstract registry, and the locale
    \<open>store_contract\<close>, which says what a backend promises; \<open>Registry_View\<close> relates database and registry.
  \<^item> \<open>Sqlite_Store\<close> (\<open>internal/store\<close>), \<open>D1_Store\<close> and \<open>D1_Contract\<close> (\<open>internal/stored1\<close>): the two backends; both
    interpret \<open>store_contract\<close>. Driver faults are a schedule in the connection; D1 is a parameter of the
    client, idealised in \<open>D1_Contract\<close>.
  \<^item> \<open>Store_History\<close>: histories of calls, and that a backend's history refines the registry's.
    \<open>Store_Faults\<close>: what survives every schedule of faults, for SQLite and for D1 over a lossy network.
  \<^item> \<open>Control_Plane\<close> (\<open>internal/controlplane\<close>), \<open>Jwt\<close>, \<open>OAuth\<close> and \<open>OAuth_Flow\<close> (\<open>internal/oauth\<close>), \<open>Gateway\<close>
    (\<open>internal/gateway\<close>, \<open>internal/tunnelproto\<close>), \<open>Proxy\<close> (\<open>internal/proxy\<close>, \<open>internal/server\<close>): the handlers, as
    functions of the request, the environment (clock readings and random bytes, in the order they are
    drawn) and the store; their lemmas are proved inside \<open>store_contract\<close> and hold for both backends.
    The gateway's session registry is a step relation over its locked sections.
  \<^item> \<open>Config\<close> and \<open>Duration\<close> (\<open>internal/config\<close>), \<open>Daemon\<close> (\<open>internal/server/cloudflare.go\<close>, the janitor, the kill
    switch, and the life of a quick tunnel through both ends), \<open>Tunneld\<close> (\<open>cmd/tunneld\<close>): the composed
    handler, requests, sessions and ticks as the events of one machine, and \<open>main\<close>. \<open>Relay\<close>: a request through
    proxy, session, agent and bridge and back.

  The daemon under interleaving. \<open>Tunneld\<close> takes a handler for one step; in Go the handlers overlap, and
  what is atomic is an SQL statement or a section under a mutex:
  \<^item> \<open>Programs\<close>: programs that make calls on shared state, a pool of them, schedules, and how a run is taken
    apart into a trace of every program and one history of calls.
  \<^item> \<open>Store_Programs\<close>: the methods of \<open>internal/store\<close> as programs of single statements; \<open>Handler_Programs\<close>: every
    handler of the daemon as a program of statements, lock and unlock of the resolver's mutex, and the
    locked sections of limiters and session registry. \<open>Handler_Runs\<close>: run alone they are the functions above
    (locale \<open>runs_as\<close>, interpreted for SQLite); \<open>Serial_Runs\<close>: every run of \<open>Tunneld\<close> is the run of a schedule.
  \<^item> \<open>Statement_History\<close>: what a history of statements leaves of tenants, services and codes. \<open>Task_Traces\<close>: which
    statements a request, a tick or a closing session can make, and what it has read before. \<open>Interleaving\<close>
    and \<open>Rate_Interleaving\<close>: what holds under every schedule, for tunnels, codes and the limit of creations.

  The clients:
  \<^item> \<open>Bridge\<close> (\<open>internal/bridge\<close>): the handlers' checks and replies as functions; request handlers, reader,
    stream and exit of the child as atomic steps on the pending map, the channels and the queue.
  \<^item> \<open>Agent\<close> (\<open>internal/agent\<close>): configuration, one tunnel, the rewriting of a request, the backoff.
  \<^item> \<open>Stdiofront\<close> and \<open>Front_Threads\<close> (\<open>internal/stdiofront\<close>): the operations as functions of the state and of
    the HTTP client; and the goroutines of overlapping requests as atomic steps.
  \<^item> \<open>Tokencache\<close> and \<open>Token_Source\<close> (\<open>internal/tokencache\<close>): entries as files under a schedule of failing
    system calls, refresh and command tokens, the transport that retries after a 401.
  \<^item> \<open>Cli\<close> (\<open>internal/cli\<close>) and \<open>Commands\<close> (\<open>cmd/mcptunnel\<close>): flags in any order, the control-plane client, the
    commands and what they do with the cache, the tunnel and the exit status.

  \<open>Examples\<close>, \<open>Client_Examples\<close>, \<open>Daemon_Examples\<close> and \<open>Run_Examples\<close> hold concrete instances of the parameters, on which the
  witnesses below are evaluated.

  What the lemmas show. Stores: refinement of the registry, key integrity and single use of codes under
  faults. Handlers: what each answer means for the registry, branch by branch. Daemon: which events
  change a tunnel and which session serves it, over all runs; and which of this survives when
  statements of overlapping requests interleave. Gateway, bridge and stdio front:
  invariants of all reachable states, progress from them, and the runs that go wrong. Codecs: JSON,
  JWT, event streams, token entries, durations, flags read back what was written.

  Every handler is a function that returns, so that it answers needs no proof; loops are structural,
  have a measure, or carry fuel. A program of the interleaved account waits in two calls only, for the
  resolver's mutex and for the end of its session; alone it never waits for the first. The JSON parser's fuel is twice the length of the input and two more,
  one for every byte at two calls per value; the slug loop has the source's ten attempts; the lookup
  of a JWT makes its two cuts.

  Parameters: bcrypt, ECDSA, SHA-256, PEM and x509 parsing, the D1 service, the tunnel's streams, Go's
  reverse proxy, the HTTP clients of agent, front and cache, the child process, the YAML decoder, the
  floating-point value of a fraction in a duration. What is relied on is named: \<open>bcrypt_ok\<close> (a hash
  checks its own plaintext, up to 72 bytes), \<open>crypto_ok\<close> (a signature verifies, digests have 32 bytes),
  \<open>plain_answers\<close> (an upstream without event streams), \<open>carries\<close> (the reverse proxy keeps method and body), \<open>drawn_ok\<close> (24 random bytes for a key).

  Not modelled: WebSocket and yamux (a session is a number that may close), TLS, ACME and the HTTP
  server's own limits and timeouts, log lines and what the commands print beyond the data named in
  their results, request bodies that fail while they are read (a body is a string; of a response
  body, the error that ends it is kept where the code looks at it), and the memory model below the
  mutexes. Of the two backends only SQLite has its statements interleaved; requests
  to D1 overlap in \<open>Store_Faults\<close> as whole calls.
\<close>

text \<open>
  C1: The SQLite store refines the abstract registry: every history of calls on a healthy connection answers
  as the registry does (driver errors compared by class), keeps the primary and foreign keys, and ends in a
  database that stands for the final registry.
\<close>

theorem sqlite_refines_registry:
  assumes "bcrypt_ok B" and "list_all op_ok xs" and "conn_ok c"
    and "run_steps (api_step sqlite_api B) xs c = (rs, c')"
  shows "conn_ok c' \<and> run_steps (spec_step B sqlite_agent_key) xs (view_conn c) = (map erase_response rs, view_conn c')"
  by (rule sqlite.history_refines [OF assms])

theorem sqlite_refines_registry_witness:
  "map erase_response (fst (run_steps (api_step sqlite_api ex_bcrypt) ex_history ex_conn))
     = fst (run_steps (spec_step ex_bcrypt sqlite_agent_key) ex_history (view_conn ex_conn))"
  using sqlite_refines_registry [OF ex_bcrypt_ok ex_history_ok(1) ex_states_ok(1) surjective_pairing] by simp





text \<open>
  C4: The authorization-code flow with PKCE completes: after an authorization that may be granted, a token
  request with the code, the client, the redirect URI and the verifier of the challenge, made within 60
  seconds, is answered with the token, and the token validates with the issuer, client and expiry it was
  signed for.
\<close>

theorem pkce_flow_succeeds:
  assumes "conn_ok (oa_store st)" and "crypto_ok C"
    and "handleAuthorize sqlite_api B C srv aenv areq (oa_store st) = (aresp, c1)"
    and "may_authorize B srv areq (view_conn (oa_store st))"
    and "sha256hex C (hex_encode (ae_rnd aenv)) \<notin> dom (rg_codes (view_conn (oa_store st)))"
    and "os_tenant srv \<in> dom (rg_tenants (view_conn (oa_store st)))"
    and "rq_post_form r = Some form" and "token_form_ok form"
    and "first_value form ''code'' = hex_encode (ae_rnd aenv)"
    and "first_value form ''client_id'' = FormValue areq ''client_id''"
    and "first_value form ''redirect_uri'' = FormValue areq ''redirect_uri''"
    and "b64_encode (cr_sha256 C (first_value form ''code_verifier'')) = FormValue areq ''code_challenge''"
    and "unix (te_now_consume env) < unix (ae_now aenv) + 60"
    and "fst (allow (clientIP r) tokenRateLimit (te_now_rate env) (oa_token st))"
    and "signAccessToken C (os_key srv) (os_issuer srv) ''quick-tunnel'' (first_value form ''client_id'') ''mcp'' []
       (os_expiresAt srv) (te_now_iat env) (te_jti env) (te_sig_rnd env) = Some token"
    and "ascii (os_issuer srv)" and "ascii (FormValue areq ''client_id'')"
    and "0 \<le> unix (os_expiresAt srv)" and "unix (os_expiresAt srv) < 2 ^ 63"
    and "0 \<le> unix (te_now_iat env)" and "unix (te_now_iat env) < 2 ^ 63"
    and "unix now < unix (os_expiresAt srv)"
  shows "fst (handleToken sqlite_api C srv env r (st\<lparr>oa_store := c1\<rparr>))
      = token_response token (go_quot (os_expiresAt srv - te_now_until env) nanos)
    \<and> ValidateAccessToken C srv token now =
      Inr \<lparr>Issuer = os_issuer srv, Subject = ''quick-tunnel'', ClientID = FormValue areq ''client_id'', Scope = ''mcp'',
           Audience = [os_issuer srv], ClaimsExpiresAt = time_unix (unix (os_expiresAt srv))\<rparr>"
  using sqlite.pkce_flow [OF assms(1-21)] assms(22) by simp

theorem pkce_flow_succeeds_witness:
  "fst (handleToken sqlite_api ex_crypto ex_server ex_token_env ex_token_request (ex_oauth_state\<lparr>oa_store :=
      snd (handleAuthorize sqlite_api ex_bcrypt ex_crypto ex_server ex_authorize_env ex_authorize_request ex_conn)\<rparr>))
    = token_response ex_token (go_quot (os_expiresAt ex_server - te_now_until ex_token_env) nanos)
   \<and> (\<exists>claims. ValidateAccessToken ex_crypto ex_server ex_token (secs 40) = Inr claims)"
proof -
  have "unix (secs 40) < unix (os_expiresAt ex_server)" by code_simp
  from pkce_flow_succeeds [where st = ex_oauth_state and B = ex_bcrypt and srv = ex_server and aenv = ex_authorize_env
      and areq = ex_authorize_request and C = ex_crypto and r = ex_token_request and env = ex_token_env, OF _ ex_crypto_ok surjective_pairing _ _ _ ex_forms(1,2) _ _ _ _ _ _ _ _ _ _ _ _ _ this,
      unfolded ex_oauth_store, OF ex_states_ok(1) ex_may_authorize ex_new_code ex_tenant_there, of ex_token] ex_sign
  show ?thesis by (simp add: ex_forms ex_times ex_token_allowed ex_ascii)
qed

text \<open>
  C5: A token is issued only for a stored code that is unused and unexpired and was granted to this tenant,
  this client and this redirect URI with a challenge the verifier answers.
\<close>

theorem token_only_for_live_code:
  assumes "conn_ok (oa_store st)" and "handleToken sqlite_api C srv env r st = (resp, st')" and "rp_status resp = 200"
  shows "\<exists>form i token. rq_post_form r = Some form \<and> token_form_ok form
    \<and> rg_codes (view_conn (oa_store st)) (sha256hex C (first_value form ''code'')) = Some i
    \<and> ci_used i = None \<and> unix (te_now_consume env) < ci_expires i \<and> code_matches C srv form i
    \<and> signAccessToken C (os_key srv) (os_issuer srv) ''quick-tunnel'' (first_value form ''client_id'') ''mcp'' []
       (os_expiresAt srv) (te_now_iat env) (te_jti env) (te_sig_rnd env) = Some token
    \<and> resp = token_response token (go_quot (os_expiresAt srv - te_now_until env) nanos)"
  by (rule sqlite.token_issued [OF assms])

theorem token_only_for_live_code_witness:
  "\<exists>i. rg_codes (view_conn (oa_store ex_after_authorize)) (sha256hex ex_crypto (hex_encode (ae_rnd ex_authorize_env))) = Some i \<and> ci_used i = None"
  using token_only_for_live_code [OF ex_after_ok surjective_pairing ex_token_issued] by (auto simp: ex_forms)

text \<open>
  C6: The authorization endpoint stores a code, and redirects with it, exactly when the request carries an
  S256 challenge for a registered redirect URI and the password of the service if it has one; otherwise it
  leaves the registry as it was.
\<close>

theorem authorize_exact:
  assumes "conn_ok c" and "handleAuthorize sqlite_api B C srv env r c = (resp, c')"
  shows "conn_ok c' \<and> (if may_authorize B srv r (view_conn c) \<and> sha256hex C (hex_encode (ae_rnd env)) \<notin> dom (rg_codes (view_conn c))
        \<and> os_tenant srv \<in> dom (rg_tenants (view_conn c))
     then resp = authorize_redirect env r \<and> view_conn c' = (view_conn c)\<lparr>rg_codes := (rg_codes (view_conn c))
            (sha256hex C (hex_encode (ae_rnd env)) \<mapsto> code_record srv env r)\<rparr>
     else view_conn c' = view_conn c)"
  by (rule sqlite.authorize_spec [OF assms])

theorem authorize_exact_witness:
  "fst (handleAuthorize sqlite_api ex_bcrypt ex_crypto ex_server ex_authorize_env ex_authorize_request ex_conn)
     = authorize_redirect ex_authorize_env ex_authorize_request
   \<and> view_conn (snd (handleAuthorize sqlite_api ex_bcrypt ex_crypto ex_server ex_authorize_env
       (ex_authorize_request\<lparr>rq_form := []\<rparr>) ex_conn)) = view_conn ex_conn"
  using authorize_exact [OF ex_states_ok(1) surjective_pairing, of ex_bcrypt ex_crypto ex_server ex_authorize_env ex_authorize_request]
    authorize_exact [OF ex_states_ok(1) surjective_pairing, of ex_bcrypt ex_crypto ex_server ex_authorize_env "ex_authorize_request\<lparr>rq_form := []\<rparr>"]
    ex_may_authorize ex_new_code ex_tenant_there
  by (simp add: may_authorize_def [of _ _ "_\<lparr>rq_form := []\<rparr>"] FormValue_def first_value_def)



text \<open>
  C8: 201 Created on POST /api/v1/quick means: below the capacity cap a fresh tenant with the announced
  expiry, its service mcp, whose stored hash checks the returned agent key and whose password hash checks the
  given password, and a signing key when auth is on; nothing else of tenants, services, keys, clients and
  codes has changed.
\<close>

theorem quick_tunnel_created:
  assumes "conn_ok c" and "bcrypt_ok B" and "length (qe_key_rnd env) = 24"
    and "handleQuick sqlite_api B env r c = (resp, c')" and "rp_status resp = 201"
  shows "conn_ok c' \<and> (\<exists>auth password slug now svc. quick_params r = Some (auth, password) \<and> (auth \<longrightarrow> password \<noteq> [])
    \<and> int (card (live_tenants (qe_count_now env) (view_conn c))) < maxLiveTunnels
    \<and> slug \<notin> dom (rg_tenants (view_conn c)) \<and> is_quick_slug slug
    \<and> resp = quick_created slug (sqlite_agent_key (qe_key_rnd env)) (qe_expiry_now env + QuickTTL)
    \<and> quick_service_ok B auth password (sqlite_agent_key (qe_key_rnd env)) svc
    \<and> (auth \<longrightarrow> qe_pem env \<noteq> None)
    \<and> rg_tenants (view_conn c') = (rg_tenants (view_conn c))(slug \<mapsto> quick_tenant slug now (qe_expiry_now env + QuickTTL))
    \<and> rg_services (view_conn c') = (rg_services (view_conn c))((slug, ''mcp'') \<mapsto> svc)
    \<and> rg_keys (view_conn c') = (if auth then (rg_keys (view_conn c))(slug := qe_pem env) else rg_keys (view_conn c))
    \<and> rg_clients (view_conn c') = rg_clients (view_conn c) \<and> rg_codes (view_conn c') = rg_codes (view_conn c))"
  by (rule sqlite.handleQuick_created [OF assms])

theorem quick_tunnel_created_witness:
  "conn_ok ex_s4 \<and> rp_status (fst (handleQuick sqlite_api ex_bcrypt ex_quick_env ex_quick_request empty_conn)) = 201
    \<and> (\<exists>slug. slug \<in> dom (rg_tenants (view_conn ex_s4)) \<and> (slug, ''mcp'') \<in> dom (rg_services (view_conn ex_s4)))"
proof -
  have s: "rp_status (quick_created ''q-mmmmmmmmmm'' (sqlite_agent_key ex_key_rnd) ex_expiry) = 201" by simp
  from quick_tunnel_created [OF empty_states_ok(1) ex_bcrypt_ok ex_key_rnd_length ex_quick s]
  show ?thesis by (auto simp: ex_quick)
qed

text \<open>
  C9: In every run of the whole daemon, whatever requests come, a tenant and its services stay exactly as they
  are until a DELETE that carries the agent key of one of its services or a tick of the janitor past its
  expiry; either removes everything under it.
\<close>

theorem tunnel_lives_until_taken_down:
  assumes "conn_ok (dm_store d)" and "bcrypt_ok B" and "list_all drawn_ok es"
    and "daemon_run sqlite_api B C cfg es d = Some d'" and "t \<in> dom (rg_tenants (view_conn (dm_store d)))"
    and "list_all (\<lambda>e. \<not> takes_down B t e (view_conn (dm_store d))) es"
  shows "rg_tenants (view_conn (dm_store d')) t = rg_tenants (view_conn (dm_store d)) t
    \<and> (\<forall>n. rg_services (view_conn (dm_store d')) (t, n) = rg_services (view_conn (dm_store d)) (t, n))
    \<and> (\<forall>e d''. drawn_ok e \<and> takes_down B t e (view_conn (dm_store d')) \<and> daemon_step sqlite_api B C cfg e d' = Some d'' \<longrightarrow>
         gone t (view_conn (dm_store d'')))"
proof -
  note same = sqlite.run_tenants [OF assms]
  have "gone t (view_conn (dm_store d''))"
    if "drawn_ok e \<and> takes_down B t e (view_conn (dm_store d')) \<and> daemon_step sqlite_api B C cfg e d' = Some d''" for e d''
    using sqlite.taken_down [OF _ assms(2), of d' e C cfg d'' t] that same assms(5) by (auto simp: domIff)
  with same show ?thesis by blast
qed

theorem tunnel_lives_until_taken_down_witness:
  "\<exists>d' d''. daemon_run sqlite_api ex_bcrypt ex_crypto default_config [Tick 0, Visit ex_visit ex_request] ex_daemon = Some d'
     \<and> rg_tenants (view_conn (dm_store d')) ''q-a'' \<noteq> None
     \<and> daemon_step sqlite_api ex_bcrypt ex_crypto default_config (Tick (secs 90000)) d' = Some d''
     \<and> rg_tenants (view_conn (dm_store d'')) ''q-a'' = None"
proof -
  obtain d' where d': "daemon_run sqlite_api ex_bcrypt ex_crypto default_config [Tick 0, Visit ex_visit ex_request] ex_daemon = Some d'" by simp
  obtain d'' where d'': "daemon_step sqlite_api ex_bcrypt ex_crypto default_config (Tick (secs 90000)) d' = Some d''" by simp
  have t: "''q-a'' \<in> dom (rg_tenants (view_conn (dm_store ex_daemon)))" by (simp add: domIff ex_tunnel_tenant)
  have n: "list_all drawn_ok [Tick 0, Visit ex_visit ex_request]"
    "list_all (\<lambda>e. \<not> takes_down ex_bcrypt ''q-a'' e (view_conn (dm_store ex_daemon))) [Tick 0, Visit ex_visit ex_request]"
    by (simp_all add: ex_drawn ex_not_expired ex_visit_harmless)
  have ok: "conn_ok (dm_store ex_daemon)" by (simp add: ex_states_ok)
  note lives = tunnel_lives_until_taken_down [OF ok ex_bcrypt_ok n(1) d' t n(2)]
  then have same: "rg_tenants (view_conn (dm_store d')) ''q-a'' = rg_tenants (view_conn ex_conn) ''q-a''" by simp
  have "gone ''q-a'' (view_conn (dm_store d''))" using lives ex_drawn(1) [of "secs 90000"] ex_expired [OF same, of ex_bcrypt] d'' by blast
  with d' d'' same show ?thesis by (intro exI [of _ d'] exI [of _ d'']) (simp add: ex_tunnel_tenant gone_def)
qed

text \<open>
  C10: In every run of the whole daemon, an answer the proxy gives for a tunnel, other than 502, comes from a
  session that an earlier request registered with the agent key of a service of the same session key.
\<close>

theorem tunnel_served_by_key_holder:
  assumes "conn_ok s" and "bcrypt_ok B" and "list_all drawn_ok es"
    and "daemon_run sqlite_api B C cfg es (daemon_new base reg tok s) = Some d"
    and "proxy_forward (gateway_upstream v (dm_gateway d)) t n rest r \<noteq> bad_gateway"
  shows "\<exists>i es1 w q es2 d1 svc. vs_forward v i rest r = Some (proxy_forward (gateway_upstream v (dm_gateway d)) t n rest r)
    \<and> es = es1 @ Visit w q # es2 \<and> daemon_run sqlite_api B C cfg es1 (daemon_new base reg tok s) = Some d1
    \<and> vs_session w = Some i \<and> sessionKey (header q HeaderTenant) (header q HeaderServiceName) = sessionKey t n
    \<and> rg_services (view_conn (dm_store d1)) (header q HeaderTenant, header q HeaderServiceName) = Some svc
    \<and> bearer_key q \<noteq> [] \<and> CheckSecret B (AgentKeyHash svc) (bearer_key q)"
proof -
  from assms(5) obtain i where i: "gw_Dial t n (dm_gateway d) = Some i"
    "vs_forward v i rest r = Some (proxy_forward (gateway_upstream v (dm_gateway d)) t n rest r)"
    by (auto simp: proxy_forward_def gateway_upstream_def split: option.splits)
  from sqlite.dialled_session [OF assms(1-4) i(1)] i(2) show ?thesis by blast
qed

theorem tunnel_served_by_key_holder_witness:
  "\<exists>d. daemon_run sqlite_api ex_bcrypt ex_crypto default_config [Visit ex_visit ex_tunnel_connect] ex_daemon = Some d
     \<and> (\<exists>w q. \<exists>svc :: service. [Visit ex_visit ex_tunnel_connect] = [Visit w q] \<and> vs_session w = Some 1
          \<and> CheckSecret ex_bcrypt (AgentKeyHash svc) (bearer_key q))"
proof -
  obtain d where d: "daemon_run sqlite_api ex_bcrypt ex_crypto default_config [Visit ex_visit ex_tunnel_connect] ex_daemon = Some d"
    "gw_Dial ''q-a'' ''mcp'' (dm_gateway d) = Some 1" using ex_connected by blast
  have p: "proxy_forward (gateway_upstream ex_visit (dm_gateway d)) ''q-a'' ''mcp'' ''/x'' ex_request = ex_tunnel_response"
    using d(2) by (simp add: proxy_forward_def gateway_upstream_def ex_visit_def)
  have ne: "proxy_forward (gateway_upstream ex_visit (dm_gateway d)) ''q-a'' ''mcp'' ''/x'' ex_request \<noteq> bad_gateway"
    unfolding p by (simp add: ex_tunnel_response_def bad_gateway_def http_error_def)
  have o: "list_all drawn_ok [Visit ex_visit ex_tunnel_connect]" by (simp add: ex_drawn)
  from tunnel_served_by_key_holder [OF ex_states_ok(1) ex_bcrypt_ok o d(1) [unfolded ex_daemon_def] ne]
  obtain i es1 w q es2 d1 svc where "vs_forward ex_visit i ''/x'' ex_request = Some (proxy_forward (gateway_upstream ex_visit (dm_gateway d)) ''q-a'' ''mcp'' ''/x'' ex_request)"
    and l: "[Visit ex_visit ex_tunnel_connect] = es1 @ Visit w q # es2"
    and "daemon_run sqlite_api ex_bcrypt ex_crypto default_config es1 (daemon_new ''https://h'' (newIPRate 0) (newIPRate 0) ex_conn) = Some d1"
    and "vs_session w = Some i" "sessionKey (header q HeaderTenant) (header q HeaderServiceName) = sessionKey ''q-a'' ''mcp''"
      "rg_services (view_conn (dm_store d1)) (header q HeaderTenant, header q HeaderServiceName) = Some svc"
      "bearer_key q \<noteq> []" and c: "CheckSecret ex_bcrypt (AgentKeyHash svc) (bearer_key q)" by (elim exE conjE) rule
  from l have "es1 = [] \<and> es2 = []" by (cases es1) auto
  with l have e: "[Visit ex_visit ex_tunnel_connect] = [Visit w q]" by simp
  from e have "vs_session w = Some 1" by (auto simp: ex_visit_def)
  with d(1) e c show ?thesis by blast
qed

text \<open>
  C11: Every run of the daemon in which a handler is one step is, statement by statement and lock by lock, a
  run of the programs of its requests under some schedule: the same final state, and every request with the
  same reply.
\<close>

theorem atomic_runs_are_schedules:
  assumes "daemon_run sqlite_api B C c es d = Some d'" and "gw_handlers (dm_gateway d) = Map.empty"
  shows "\<exists>sched P. tasks_run B C (rv_baseURL (dm_resolver d)) c sched (event_tasks es) (shared_of d) = Some P
    \<and> pl_shared P = shared_of d' \<and> list_all2 replied (run_replies sqlite_api B C c es d) (pl_threads P)"
  by (rule run_has_schedule [OF assms])

theorem atomic_runs_are_schedules_witness:
  "\<exists>d sched P. daemon_run sqlite_api ex_bcrypt ex_crypto default_config [Visit ex_visit ex_tunnel_connect] ex_daemon = Some d
    \<and> gw_Dial ''q-a'' ''mcp'' (dm_gateway d) = Some 1
    \<and> tasks_run ex_bcrypt ex_crypto ''https://h'' default_config sched [Ask ex_visit ex_tunnel_connect] (shared_of ex_daemon) = Some P
    \<and> pl_shared P = shared_of d"
proof -
  obtain d where d: "daemon_run sqlite_api ex_bcrypt ex_crypto default_config [Visit ex_visit ex_tunnel_connect] ex_daemon = Some d"
    "gw_Dial ''q-a'' ''mcp'' (dm_gateway d) = Some 1" using ex_connected by blast
  from atomic_runs_are_schedules [OF d(1) ex_base(2)] d show ?thesis unfolding ex_base(1) event_tasks.simps by blast
qed

text \<open>
  C12: However the SQL statements and locked sections of overlapping requests, ticks and ending sessions are
  interleaved, and whichever statements fail: a tenant and its services stay as they are, unless a task of the
  run deletes the tenant that was entitled to it at an earlier moment of the run, a DELETE with the agent key
  of one of its services or a tick past its expiry.
\<close>

theorem tunnel_lives_interleaved:
  assumes "tasks_run B C base c sched tasks sh = Some P" and "db_ok (c_db (sh_conn sh))"
    and "t \<in> dom (rg_tenants (view_conn (sh_conn sh)))"
  shows "(rg_tenants (view_conn (sh_conn (pl_shared P))) t = rg_tenants (view_conn (sh_conn sh)) t
      \<and> (\<forall>n. rg_services (view_conn (sh_conn (pl_shared P))) (t, n) = rg_services (view_conn (sh_conn sh)) (t, n)))
    \<or> (\<exists>i y h1 h2. i < length tasks \<and> pl_log P = h1 @ (i, Db (Do_exec (Delete_tenant t)), Db_answer y) # h2
        \<and> moment daemon_sql (\<lambda>sh. entitled B t (tasks ! i) (view_conn (sh_conn sh))) h1 sh)"
  by (rule taken_down_entitled [OF assms])

theorem tunnel_lives_interleaved_witness:
  "\<exists>sched P i y h1 h2. tasks_run ex_bcrypt ex_crypto ''https://h'' default_config sched [Purge (secs 90000)] (shared_of ex_daemon) = Some P
    \<and> i < 1 \<and> pl_log P = h1 @ (i, Db (Do_exec (Delete_tenant ''q-a'')), Db_answer y) # h2"
proof -
  obtain sched P where P: "tasks_run ex_bcrypt ex_crypto ''https://h'' default_config sched [Purge (secs 90000)] (shared_of ex_daemon) = Some P"
    and gone: "rg_tenants (view_conn (sh_conn (pl_shared P))) ''q-a'' = None" using ex_purged by blast
  have c: "sh_conn (shared_of ex_daemon) = ex_conn" by (simp add: sh_conn_def)
  have "db_ok (c_db ex_conn)" "''q-a'' \<in> dom (rg_tenants (view_conn ex_conn))"
    using ex_states_ok(1) ex_tunnel_tenant by (auto simp: conn_ok_def)
  from tunnel_lives_interleaved [OF P, unfolded c, OF this] obtain i y h1 h2 where "i < length [Purge (secs 90000)]"
    "pl_log P = h1 @ (i, Db (Do_exec (Delete_tenant ''q-a'')), Db_answer y) # h2"
    unfolding gone ex_tunnel_tenant by blast
  with P show ?thesis by (intro exI conjI) simp_all
qed

text \<open>
  C13: However the statements of overlapping requests are interleaved, and whichever of them fail, at most one
  token request for an authorization code is answered with 200, unless the code is issued again.
\<close>

theorem one_token_per_code_interleaved:
  assumes "tasks_run B C base c sched tasks sh = Some P" and "db_ok (c_db (sh_conn sh))"
    and "\<And>i x y. (i, Db x, y) \<in> set (pl_log P) \<Longrightarrow> \<not> inserts_code h (stmt x)"
  shows "card {i. i < length tasks \<and> token_request C h (tasks ! i) \<and> answered 200 (pl_threads P ! i)} \<le> 1"
  by (rule codes_answer_card [OF assms])

theorem one_token_per_code_interleaved_witness:
  "\<exists>sched P. tasks_run ex_bcrypt ex_crypto ''https://h'' default_config sched ex_token_tasks (shared_of ex_coded) = Some P
    \<and> answered 200 (pl_threads P ! 0) \<and> \<not> answered 200 (pl_threads P ! 1)"
proof -
  let ?h = "sha256hex ex_crypto (hex_encode (ae_rnd ex_authorize_env))"
  obtain sched P where P: "tasks_run ex_bcrypt ex_crypto ''https://h'' default_config sched ex_token_tasks (shared_of ex_coded) = Some P"
    and first: "answered 200 (pl_threads P ! 0)" using ex_two_tokens by blast
  have ok: "db_ok (c_db (sh_conn (shared_of ex_coded)))" using ex_after_ok by (simp add: sh_conn_def conn_ok_def)
  have no: "\<not> inserts_code ?h (stmt x)" if "(i, Db x, y) \<in> set (pl_log P)" for i x y
    by (rule ex_no_insert [OF P that])
  have "card {i. i < length ex_token_tasks \<and> token_request ex_crypto ?h (ex_token_tasks ! i) \<and> answered 200 (pl_threads P ! i)} \<le> 1"
    by (rule one_token_per_code_interleaved [OF P ok no])
  from two_of [OF this] have "\<not> answered 200 (pl_threads P ! 1)"
    using first ex_token_task by (simp add: ex_token_tasks_def)
  with P first show ?thesis by blast
qed

text \<open>
  C14: The life of a quick tunnel through both ends: the client reads tenant, service, key and expiry off the
  201 answer; the agent it configures is admitted under that session key; and the DELETE it sends at its end
  is answered with 204 and takes away exactly the tenant and the service that were created.
\<close>

theorem expose_tunnel_life:
  assumes "conn_ok c" and "bcrypt_ok B" and "length (qe_key_rnd env) = 24"
    and "handleQuick sqlite_api B env r c = (resp, c')" and "rp_status resp = 201"
    and "0 \<le> qe_expiry_now env" and "unix (qe_expiry_now env) < 2 ^ 62"
  shows "\<exists>q. Option.bind (unmarshal (rp_body resp)) decode_quick = Some q \<and> qr_tenant q \<in> dom (rg_tenants (view_conn c'))
    \<and> qr_expires q = unix (qe_expiry_now env) + 86400
    \<and> (\<forall>base up hs a. agent_New (expose_config base q up hs) = Inr a \<longrightarrow>
         fst (gateway_admit sqlite_api B (agent_connect a) c') = Inr (sessionKey (qr_tenant q) (qr_service q)))
    \<and> (\<forall>base w. deleteTunnel base q = Some w \<longrightarrow> same_delete base w (delete_seen q))
    \<and> rp_status (fst (handleDelete sqlite_api B (qr_tenant q) (delete_seen q) c')) = 204
    \<and> rg_tenants (view_conn (snd (handleDelete sqlite_api B (qr_tenant q) (delete_seen q) c'))) = rg_tenants (view_conn c)
    \<and> rg_services (view_conn (snd (handleDelete sqlite_api B (qr_tenant q) (delete_seen q) c'))) = rg_services (view_conn c)"
proof -
  from sqlite.tunnel_life [OF assms(1-5) clean_keys(1) assms(6,7)] obtain q where
    "Option.bind (unmarshal (rp_body resp)) decode_quick = Some q" "qr_tenant q \<in> dom (rg_tenants (view_conn c'))"
    "qr_expires q = unix (qe_expiry_now env) + 86400"
    "\<forall>base up hs a. agent_New (expose_config base q up hs) = Inr a \<longrightarrow>
         fst (gateway_admit sqlite_api B (agent_connect a) c') = Inr (sessionKey (qr_tenant q) (qr_service q))"
    "rp_status (fst (handleDelete sqlite_api B (qr_tenant q) (delete_seen q) c')) = 204"
    "rg_tenants (view_conn (snd (handleDelete sqlite_api B (qr_tenant q) (delete_seen q) c'))) = rg_tenants (view_conn c)"
    "rg_services (view_conn (snd (handleDelete sqlite_api B (qr_tenant q) (delete_seen q) c'))) = rg_services (view_conn c)"
    by (elim exE conjE) rule
  then show ?thesis using delete_seen_sent by (intro exI [of _ q] conjI allI impI) simp_all
qed

theorem expose_tunnel_life_witness:
  "\<exists>q a. Option.bind (unmarshal (rp_body (fst (handleQuick sqlite_api ex_bcrypt ex_quick_env ex_quick_request empty_conn)))) decode_quick = Some q
    \<and> agent_New (expose_config ''https://h'' q ''http://127.0.0.1:1'' []) = Inr a
    \<and> fst (gateway_admit sqlite_api ex_bcrypt (agent_connect a) ex_s4) = Inr (sessionKey (qr_tenant q) (qr_service q))"
proof -
  have s: "rp_status (quick_created ''q-mmmmmmmmmm'' (sqlite_agent_key ex_key_rnd) ex_expiry) = 201" by simp
  have t: "0 \<le> qe_expiry_now ex_quick_env" "unix (qe_expiry_now ex_quick_env) < 2 ^ 62"
    by (simp_all add: ex_quick_env_def secs_def nanos_def unix_def)
  from expose_tunnel_life [OF empty_states_ok(1) ex_bcrypt_ok ex_key_rnd_length ex_quick s t] obtain q where
    q: "Option.bind (unmarshal (rp_body (quick_created ''q-mmmmmmmmmm'' (sqlite_agent_key ex_key_rnd) ex_expiry))) decode_quick = Some q"
    "\<forall>base up hs a. agent_New (expose_config base q up hs) = Inr a \<longrightarrow>
       fst (gateway_admit sqlite_api ex_bcrypt (agent_connect a) ex_s4) = Inr (sessionKey (qr_tenant q) (qr_service q))" by blast
  have "Parse ''http://127.0.0.1:1'' \<noteq> None \<and> u_scheme (the (Parse ''http://127.0.0.1:1'')) = ''http''" by code_simp
  then obtain a where "agent_New (expose_config ''https://h'' q ''http://127.0.0.1:1'' []) = Inr a"
    by (auto simp: agent_New_def expose_config_def)
  with q show ?thesis by (auto simp: ex_quick)
qed

text \<open>
  C15: After a run of the janitor that begins with a sweep past its expiry, a tenant and all under it are
  gone: the proxy answers its requests with 404 and the gateway refuses its agent with 401.
\<close>

theorem expired_tunnel_unreachable:
  assumes "conn_ok c" and "janitor sqlite_api (now # ticks) c = (slugs, c')" and "t \<in> expired_tenants now (view_conn c)"
  shows "t \<in> set slugs \<and> gone t (view_conn c')
    \<and> (\<forall>r n rest. splitPath (rq_path r) = (t, n, rest) \<and> t \<noteq> [] \<and> n \<noteq> [] \<and> rq_content_length r \<le> maxRequestBody \<longrightarrow>
         fst (proxy_decide sqlite_api C pem ns pnow r (orv, c')) = Refuse not_found)
    \<and> (\<forall>r. header r HeaderTenant = t \<longrightarrow> (\<exists>resp. fst (gateway_admit sqlite_api B r c') = Inl resp \<and> rp_status resp = 401))"
proof -
  note j = sqlite.janitor_expires [OF assms]
  then show ?thesis
    using sqlite.gone_unreachable(1) [of c' t] sqlite.gone_unreachable(2) [of c' t] by blast
qed

theorem expired_tunnel_unreachable_witness:
  "fst (proxy_decide sqlite_api ex_crypto None 0 0 ex_proxy_request (None, snd (janitor sqlite_api [secs 100000] ex_conn))) = Refuse not_found"
proof -
  have e: "''q-a'' \<in> expired_tenants (secs 100000) (view_conn ex_conn)"
  proof -
    have "rg_tenants (view_conn ex_conn) ''q-a'' = Some \<lparr>Slug = ''q-a'', DisplayName = ''quick tunnel'', CreatedAt = 0,
        ExpiresAt = Some (secs 90000)\<rparr>" by code_simp
    then show ?thesis by (simp add: expired_tenants_def tenant_expired_def secs_def nanos_def unix_def)
  qed
  from expired_tunnel_unreachable [OF ex_states_ok(1) surjective_pairing e, of "[]" ex_crypto None 0 0 None ex_bcrypt]
  show ?thesis by (simp add: ex_proxy_fields maxRequestBody_def)
qed

text \<open>
  C16: In a history of calls that does not create the code again, at most one ConsumeAuthCode of the D1 store
  returns it, over a network that loses requests, loses replies after the statement ran, or garbles them.
\<close>

theorem d1_code_at_most_once:
  assumes "db_ok (dn_db n)" and "list_all (\<lambda>x. \<not> creates_code h x) xs"
    and "run_steps (api_step (d1_api (d1_client d1_lossy url token)) B) xs n = (rs, n')"
  shows "length (filter (redeems h) (zip xs rs)) \<le> 1"
  by (rule lossy.faulty.at_most_once [OF assms])

theorem d1_code_at_most_once_witness:
  "length (filter (redeems ''h1'') (zip ex_history (fst (run_steps (api_step (d1_api (d1_client d1_lossy ''u'' ''t'')) ex_bcrypt)
     ex_history \<lparr>dn_db = ex_db, dn_fates = [Delivered, Request_lost ''reset'', Reply_lost ''eof'']\<rparr>)))) \<le> 1"
  by (rule d1_code_at_most_once [OF _ ex_history_ok(3) surjective_pairing]) (simp add: ex_db_ok)

text \<open>
  C17: No history of store calls, under any schedule of driver faults, breaks a primary or foreign key.
\<close>

theorem sqlite_keys_survive_faults:
  assumes "db_ok (c_db c)" and "run_steps (api_step sqlite_api B) xs c = (rs, c')"
  shows "db_ok (c_db c')"
  by (rule sqlite_faulty.keys_hold [OF assms])

theorem sqlite_keys_survive_faults_witness:
  "db_ok (c_db (snd (run_steps (api_step sqlite_api ex_bcrypt) ex_history \<lparr>c_db = ex_db, c_faults = [No_fault, Rows_fault 0 ''busy'']\<rparr>)))"
  by (rule sqlite_keys_survive_faults [OF _ surjective_pairing]) (simp add: ex_db_ok)

text \<open>
  C18: However the statements of overlapping requests are interleaved on a healthy store, at most ten requests
  of one address in one window, less those already counted, get past the rate limit of POST /api/v1/quick, as
  long as no request of the run is more than two windows ahead (its pruning would remove the count).
\<close>

theorem rate_limit_interleaved:
  assumes "tasks_run B C base c sched tasks sh = Some P" and "c_faults (sh_conn sh) = []"
    and "\<And>task ip' w'. task \<in> set tasks \<Longrightarrow> quick_task c ip' w' task \<Longrightarrow> w' \<le> w + 2"
  shows "int (card {i. i < length tasks \<and> quick_task c ip w (tasks ! i) \<and> past_limiter (pl_threads P ! i)})
    \<le> max 0 (quickRateLimit - hits ip w (view_conn (sh_conn sh)))"
  by (rule limiter_admits_at_most [OF assms])

theorem rate_limit_interleaved_witness:
  "\<exists>sched P. tasks_run ex_bcrypt ex_crypto ''https://h'' default_config sched (replicate 11 (Ask ex_visit ex_quick_request)) (shared_of ex_daemon) = Some P
    \<and> (\<exists>i < 11. \<not> past_limiter (pl_threads P ! i))"
proof -
  let ?tasks = "replicate 11 (Ask ex_visit ex_quick_request)" and ?ip = "rate_ip ex_quick_request"
  obtain sched P where P: "tasks_run ex_bcrypt ex_crypto ''https://h'' default_config sched ?tasks (shared_of ex_daemon) = Some P"
    using ex_eleven by blast
  have c: "sh_conn (shared_of ex_daemon) = ex_conn" by (simp add: sh_conn_def)
  have healthy: "c_faults (sh_conn (shared_of ex_daemon)) = []" using ex_states_ok(1) by (simp add: c conn_ok_def)
  have win: "w' \<le> 0 + 2" if "task \<in> set ?tasks" "quick_task default_config ip' w' task" for task ip' w'
    using that ex_quick_task(2) [of ip' w'] by auto
  have "hits ?ip 0 (view_conn ex_conn) = 0" by (simp add: hits_def view_conn_def ex_conn_def ex_db_def)
  moreover have "int (card {i. i < length ?tasks \<and> quick_task default_config ?ip 0 (?tasks ! i) \<and> past_limiter (pl_threads P ! i)})
      \<le> max 0 (quickRateLimit - hits ?ip 0 (view_conn (sh_conn (shared_of ex_daemon))))"
    by (rule rate_limit_interleaved [OF P healthy]) (rule win)
  ultimately have "card {i. i < length ?tasks \<and> quick_task default_config ?ip 0 (?tasks ! i) \<and> past_limiter (pl_threads P ! i)} \<le> 10"
    by (simp add: c quickRateLimit_def)
  moreover have "{i. i < length ?tasks \<and> quick_task default_config ?ip 0 (?tasks ! i) \<and> past_limiter (pl_threads P ! i)} = {..<11}"
    if "\<forall>i < 11. past_limiter (pl_threads P ! i)" using that ex_quick_task(1) by auto
  ultimately have "\<exists>i < 11. \<not> past_limiter (pl_threads P ! i)" by fastforce
  with P show ?thesis by blast
qed

text \<open>
  C19: In every reachable state of the gateway a live session is registered under its key, or the handler that
  displaced it is about to close it.
\<close>

theorem session_never_leaks:
  assumes "gw_reachable g" and "gw_handlers g i = Some (key, p)" and "i \<notin> gw_closed g"
  shows "gw_sessions g key = Some i \<or> (\<exists>j. gw_handlers g j = Some (key, Closing (Some i)))"
  using gw_inv_reachable [OF assms(1)] assms(2,3) by (auto simp: gw_inv_def gw_no_leak_def)

theorem session_never_leaks_witness:
  "gw_sessions ex_gateway (sessionKey ''q-a'' ''mcp'') = Some 2 \<or> (\<exists>j. gw_handlers ex_gateway j = Some (sessionKey ''q-a'' ''mcp'', Closing (Some 2)))"
  by (rule session_never_leaks [OF ex_gateway_reachable, of _ _ Serving]) (simp_all add: ex_gateway_facts)

text \<open>
  C20: When no handler is between its swap and its close, the tunnel of a live session is online and Dial
  finds that session.
\<close>

theorem quiescent_dial_finds_live_session:
  assumes "gw_reachable g" and "\<nexists>j key old. gw_handlers g j = Some (key, Closing old)"
    and "gw_handlers g i = Some (sessionKey tenant service, p)" and "i \<notin> gw_closed g"
  shows "gw_Dial tenant service g = Some i \<and> gw_Online tenant service g"
  using gw_quiescent [OF assms] by (auto simp: gw_Dial_def gw_Online_def split: option.splits)

theorem quiescent_dial_finds_live_session_witness: "gw_Dial ''q-a'' ''mcp'' ex_gateway = Some 2"
  using quiescent_dial_finds_live_session [OF ex_gateway_reachable, of 2 "''q-a''" "''mcp''" Serving]
  by (auto simp: ex_gateway_facts split: if_splits)

text \<open>
  C21: Under every schedule of the bridge, a request that is answered is answered with a line of the child
  that carries its own id.
\<close>

theorem bridge_answers_own_request:
  assumes "br_reach allowed b" and "br_posts b i = Some p" and "po_pc p = Left (Answer m)"
  shows "has_id m (po_key p)"
  by (rule answer_has_id [OF assms])

theorem bridge_answers_own_request_witness:
  "\<exists>b. br_run (ex_bridge_events @ [Line ex_answer, Deliver, Receive 1, Leave 1]) br_new = Some b
    \<and> br_posts b 1 = Some \<lparr>po_key = ''1'', po_body = ex_call, po_pc = Left (Answer ex_answer)\<rparr> \<and> has_id ex_answer ''1''"
proof -
  have "\<exists>b. br_run (ex_bridge_events @ [Line ex_answer, Deliver, Receive 1, Leave 1]) br_new = Some b
      \<and> br_posts b 1 = Some \<lparr>po_key = ''1'', po_body = ex_call, po_pc = Left (Answer ex_answer)\<rparr>"
    by (simp add: ex_bridge_events_def br_new_def bridge_send_def set_pc_def pc_is_def read_line_def ex_messages)
  then obtain b where b: "br_run (ex_bridge_events @ [Line ex_answer, Deliver, Receive 1, Leave 1]) br_new = Some b"
    "br_posts b 1 = Some \<lparr>po_key = ''1'', po_body = ex_call, po_pc = Left (Answer ex_answer)\<rparr>" by blast
  have "br_reach any_event b" by (rule br_run_reach [OF _ br_reach.start b(1)]) (simp add: any_event_def)
  from bridge_answers_own_request [OF this b(2)] b show ?thesis by simp
qed





text \<open>
  C24: The agent passes no Authorization, Proxy-Authorization or Cookie header of the client to the upstream,
  sets every configured header, leaves the others, and takes only the host of the upstream URL.
\<close>

theorem agent_hides_credentials:
  "(k \<notin> configured c \<longrightarrow>
      wr_headers (agent_rewrite c r) k = (if k \<in> {''Authorization'', ''Proxy-Authorization'', ''Cookie''} then None else wr_headers r k))
   \<and> (distinct (map (canonical \<circ> fst) (ag_headers c)) \<longrightarrow>
        (\<forall>(n, vals) \<in> set (ag_headers c). wr_headers (agent_rewrite c r) (canonical n) = Some vals))
   \<and> u_host (wr_url (agent_rewrite c r)) = u_host (ag_upstream c) \<and> u_path (wr_url (agent_rewrite c r)) = u_path (wr_url r)"
  using agent_rewrite_headers [of k c r] agent_rewrite_configured [of _ _ c r]
  by (auto simp: credential_names_def agent_rewrite_path)

theorem agent_hides_credentials_witness:
  "wr_headers (agent_rewrite ex_agent ex_wire) ''Cookie'' = None
    \<and> wr_headers (agent_rewrite ex_agent ex_wire) ''Authorization'' = Some [''Bearer x'']
    \<and> wr_headers (agent_rewrite ex_agent ex_wire) ''Accept'' = Some [''a'']"
proof -
  have c: "canonical ''Authorization'' = ''Authorization''" by code_simp
  then have h: "configured ex_agent = {''Authorization''}" "distinct (map (canonical \<circ> fst) (ag_headers ex_agent))"
    "(''Authorization'', [''Bearer x'']) \<in> set (ag_headers ex_agent)"
    by (simp_all add: configured_def ex_agent_def)
  have w: "wr_headers ex_wire ''Accept'' = Some [''a'']" by (simp add: ex_wire_def)
  have "\<forall>(n, vals) \<in> set (ag_headers ex_agent). wr_headers (agent_rewrite ex_agent ex_wire) (canonical n) = Some vals"
    using agent_hides_credentials [of "[]" ex_agent ex_wire] h(2) by blast
  with h(3) c have "wr_headers (agent_rewrite ex_agent ex_wire) ''Authorization'' = Some [''Bearer x'']" by fastforce
  with agent_hides_credentials [of "''Cookie''" ex_agent ex_wire] agent_hides_credentials [of "''Accept''" ex_agent ex_wire] h(1) w
  show ?thesis by simp
qed

text \<open>
  C25: Under every schedule of the stdio front a request sends at most three requests upstream; when it is
  finished it has written one error object, or all the lines of a response that arrived for it; and until
  Serve returns its own steps lead there.
\<close>

theorem front_request_completes:
  assumes "ft_run c es (ft_new input) = Some s" and "ft_threads s i = Some th" and "ft_req th = Some (k, m)"
  shows "sent_by s i \<le> 3
    \<and> (ft_finished s i \<longrightarrow> complete_answer (arrived es i) k (wrote s i))
    \<and> (\<not> ft_over s \<longrightarrow> (\<exists>acts s'. ft_run c (map (Act i) acts) s = Some s' \<and> ft_finished s' i
         \<and> complete_answer (arrived (es @ map (Act i) acts) i) k (wrote s' i)))"
proof (intro conjI impI)
  show "sent_by s i \<le> 3" using at_most_three run_reach [OF ft_reach.start assms(1)] by blast
  show "complete_answer (arrived es i) k (wrote s i)" if "ft_finished s i"
    using finished_answer [OF assms] that assms(2) by (simp add: ft_finished_def)
  show "\<exists>acts s'. ft_run c (map (Act i) acts) s = Some s' \<and> ft_finished s' i
         \<and> complete_answer (arrived (es @ map (Act i) acts) i) k (wrote s' i)" if "\<not> ft_over s"
    by (rule request_completes [OF assms that])
qed

theorem front_request_completes_witness:
  "\<exists>s acts s'. ft_run ex_front_config [Take 0] (ft_new ex_input) = Some s \<and> \<not> ft_finished s 0
     \<and> ft_run ex_front_config (map (Act 0) acts) s = Some s' \<and> ft_finished s' 0
     \<and> complete_answer (arrived ([Take 0] @ map (Act 0) acts) 0) ''1'' (wrote s' 0)"
proof -
  let ?th = "\<lparr>ft_msg = ex_call, ft_req = Some (''1'', ''m''), ft_pc = Begin False\<rparr>"
  obtain s where s: "ft_run ex_front_config [Take 0] (ft_new ex_input) = Some s" "\<not> ft_over s" "ft_threads s 0 = Some ?th"
    by (simp add: ft_fire_def ft_new_def ex_lines ft_idle_def ft_take_def ex_messages)
  have "ft_req ?th = Some (''1'', ''m'')" by simp
  from front_request_completes [OF s(1,3) this] s show ?thesis by (auto simp: ft_finished_def)
qed


text \<open>
  C27: Whatever system call of Save fails or is the last of the process, the entry file afterwards is the old
  one or the complete new one, it is the new one when Save reports success, and no other file but the
  temporary one has changed.
\<close>

theorem token_save_atomic:
  assumes "tc_Save sha dir (''.tmp-'' @ x) e d = (r, d')" and "tc_path sha dir (e_url e) = Inr p"
  shows "(file_at d' p = file_at d p \<or> file_at d' p = Some (encode_entry e))
    \<and> (r = Inr () \<longrightarrow> file_at d' p = Some (encode_entry e))
    \<and> (\<forall>q. q \<noteq> p \<and> q \<noteq> (fst p, ''.tmp-'' @ x) \<longrightarrow> file_at d' q = file_at d q)"
  using tc_Save_atomic [OF assms tc_path_tmp [OF assms(2)]] by blast

theorem token_save_atomic_witness:
  "\<forall>sys. \<exists>p. tc_path (\<lambda>s. s) (Some ''d'') (e_url ex_entry) = Inr p
     \<and> file_at (snd (tc_Save (\<lambda>s. s) (Some ''d'') ''.tmp-1.json'' ex_entry (ex_disk\<lparr>dk_sys := sys\<rparr>))) p \<in> {None, Some (encode_entry ex_entry)}"
proof
  fix sys
  obtain p where p: "tc_path (\<lambda>s. s) (Some ''d'') (e_url ex_entry) = Inr p"
    by (simp add: tc_path_def cache_key_def ex_entry_def ex_norm)
  obtain r d' where s: "tc_Save (\<lambda>s. s) (Some ''d'') (''.tmp-'' @ ''1.json'') ex_entry (ex_disk\<lparr>dk_sys := sys\<rparr>) = (r, d')" by fastforce
  from token_save_atomic [OF s p] have "file_at d' p \<in> {None, Some (encode_entry ex_entry)}"
    by (simp add: file_at_def ex_disk_def)
  with p s show "\<exists>p. tc_path (\<lambda>s. s) (Some ''d'') (e_url ex_entry) = Inr p
     \<and> file_at (snd (tc_Save (\<lambda>s. s) (Some ''d'') ''.tmp-1.json'' ex_entry (ex_disk\<lparr>dk_sys := sys\<rparr>))) p \<in> {None, Some (encode_entry ex_entry)}"
    by (intro exI [of _ p]) simp
qed



text \<open>
  C29: A signed access token validates under its issuer with the claims it was signed for until its expiry,
  and is refused as expired from then on.
\<close>

theorem access_token_round_trip:
  assumes "crypto_ok C"
    and "ascii issuer" "ascii subject" "ascii clientID" "ascii scope" "ascii resource"
    and "unix expiresAt < 2 ^ 63" "- (2 ^ 63) \<le> unix iat" "unix iat < 2 ^ 63" "- (2 ^ 63) \<le> unix expiresAt"
    and "signAccessToken C key issuer subject clientID scope resource expiresAt iat jti rnd = Some token"
  shows "validateAccessToken C (cr_public C key) issuer token now =
    (if unix now < unix expiresAt
     then Inr \<lparr>Issuer = issuer, Subject = subject, ClientID = clientID, Scope = scope,
               Audience = [if resource = [] then issuer else resource], ClaimsExpiresAt = time_unix (unix expiresAt)\<rparr>
     else Inl ''oauth: token expired'')"
  by (rule sign_validates [OF assms])

theorem access_token_round_trip_witness:
  "validateAccessToken ex_crypto () (os_issuer ex_server) ex_token (secs 90000) = Inl ''oauth: token expired''"
proof -
  have t: "\<not> unix (secs 90000) < unix (os_expiresAt ex_server)" by code_simp
  from access_token_round_trip [OF ex_crypto_ok ex_ascii(1) ex_sign_ranges(1) ex_ascii(2) ex_sign_ranges(2-7) ex_sign,
      of "secs 90000"] t
  show ?thesis by simp
qed

text \<open>
  C30: A token is accepted only with the expected issuer, unexpired, and with a 64-byte signature the key
  verifies over the first two of its three parts.
\<close>

theorem accepted_token_sound:
  assumes "validateAccessToken C pub issuer token now = Inr claims"
  shows "Issuer claims = issuer \<and> now < ClaimsExpiresAt claims
    \<and> (\<exists>h p sg sig. splitJWT token = Some [h, p, sg] \<and> b64_decode sg = Some sig \<and> length sig = 64
         \<and> cr_verify C pub (cr_sha256 C (h @ ''.'' @ p)) (SetBytes (take 32 sig)) (SetBytes (drop 32 sig)))"
  by (rule validate_sound [OF assms])

theorem accepted_token_sound_witness:
  "\<exists>h p sg. splitJWT ex_token = Some [h, p, sg]"
proof -
  obtain claims where "validateAccessToken ex_crypto () (os_issuer ex_server) ex_token (secs 40) = Inr claims"
    using ex_token_valid by (auto simp: ValidateAccessToken_def)
  from accepted_token_sound [OF this] show ?thesis by blast
qed

text \<open>
  C31: A client is registered only as a public client whose redirect URIs, at least one, are all https or
  loopback; exactly its identifier and URIs are stored.
\<close>

theorem registration_stores_valid_uris:
  assumes "conn_ok (oa_store st)" and "handleRegister sqlite_api srv env r st = (resp, st')" and "rp_status resp = 201"
  shows "conn_ok (oa_store st') \<and> (\<exists>uris am cn. register_params (rq_body r) = Some (uris, am, cn)
    \<and> uris \<noteq> [] \<and> am \<in> {[], ''none''} \<and> list_all validRedirectURI uris
    \<and> (os_tenant srv, ''mcp_'' @ hex_encode (re_rnd env)) \<notin> dom (rg_clients (view_conn (oa_store st)))
    \<and> view_conn (oa_store st') = (view_conn (oa_store st))\<lparr>rg_clients := (rg_clients (view_conn (oa_store st)))
        ((os_tenant srv, ''mcp_'' @ hex_encode (re_rnd env)) \<mapsto> json_enc (uris_json uris))\<rparr>)"
  by (rule sqlite.register_spec [OF assms])

theorem registration_stores_valid_uris_witness:
  "(''q-a'', ''mcp_'' @ hex_encode (re_rnd ex_register_env)) \<in> dom (rg_clients (view_conn (oa_store
     (snd (handleRegister sqlite_api ex_server ex_register_env ex_register_request ex_oauth_state)))))"
  using registration_stores_valid_uris [OF _ surjective_pairing ex_registered] ex_states_ok(1)
  by (auto simp: ex_oauth_store ex_server_def)



text \<open>
  C33: A store failure in the password lookup of the authorization endpoint is taken for a service without
  password: a code is granted without the password.
\<close>

theorem password_skipped_on_store_fault:
  assumes "db_ok (c_db c)" and "c_faults c = [No_fault, Stmt_fault m]"
    and "may_authorize B srv (r\<lparr>rq_form := (''password'', correct) # rq_form r\<rparr>) (view_conn c)"
    and "sha256hex C (hex_encode (ae_rnd env)) \<notin> dom (rg_codes (view_conn c))"
    and "os_tenant srv \<in> dom (rg_tenants (view_conn c))"
  shows "fst (handleAuthorize sqlite_api B C srv env r c) = authorize_redirect env r
    \<and> rg_codes (view_conn (snd (handleAuthorize sqlite_api B C srv env r c)))
        (sha256hex C (hex_encode (ae_rnd env))) = Some (code_record srv env r)"
  by (rule password_gate_fails_open [OF assms])

theorem password_skipped_on_store_fault_witness:
  "\<not> may_authorize ex_bcrypt ex_server ex_no_password (view_conn ex_locked_conn)
    \<and> fst (handleAuthorize sqlite_api ex_bcrypt ex_crypto ex_server ex_authorize_env ex_no_password ex_locked_conn)
        = authorize_redirect ex_authorize_env ex_no_password"
proof -
  have "db_ok (c_db ex_locked_conn)" "c_faults ex_locked_conn = [No_fault, Stmt_fault ''busy'']"
    using ex_states_ok(1) by (simp_all add: ex_locked_conn_def conn_ok_def)
  from password_skipped_on_store_fault [OF this, unfolded ex_locked_view, OF ex_with_password ex_new_code ex_tenant_there]
    ex_no_password_refused
  show ?thesis by (simp add: ex_locked_view)
qed



text \<open>
  C35: What the GET stream of the bridge sends is read back by the stdio front as the same messages, up to the
  blanks around them.
\<close>

theorem front_reads_bridge_stream:
  assumes "\<forall>m \<in> set ms. CHR 0x0A \<notin> set m \<and> trim_space m \<noteq> []"
  shows "readEvents (concat (map sse_event ms)) [] out = out @ map trim_space ms"
  by (rule bridge_stream_read [OF assms])

theorem front_reads_bridge_stream_witness:
  "readEvents (sse_event ex_note @ sse_event ex_answer) [] [] = [ex_note, ex_answer]"
  using front_reads_bridge_stream [of "[ex_note, ex_answer]" "[]"] by (simp add: ex_messages)

text \<open>
  C36: The incremental reader of event streams writes exactly the payloads of the events of the body that are
  not blank, up to and with the awaited answer.
\<close>

theorem sse_reader_reference:
  "readEvents body want out = out @ until_answer want (filter (\<lambda>m. m \<noteq> []) (map trim_space (sse_payloads [] (sse_lines body))))"
  by (simp add: readEvents_messages sse_messages_def)

text \<open>
  C37: A saved token entry is found, field by field, under every URL with the same normal form, and is gone
  after its removal.
\<close>

theorem token_lookup_after_save:
  assumes "tc_Save sha dir (''.tmp-'' @ x) e d = (Inr (), d')" and "dk_sys d' = []"
    and "NormalizeURL raw = NormalizeURL (e_url e)" and "plain_entry e"
  shows "tc_Lookup sha dir raw d' = (Inr (Some e), d')
    \<and> (\<exists>d''. tc_Remove sha dir raw d' = (Inr (), d'') \<and> fst (tc_Lookup sha dir raw d'') = Inr None)"
proof -
  note l = tc_Save_Lookup [OF assms]
  then obtain p where p: "tc_path sha dir raw = Inr p" by (auto simp: tc_Lookup_def split: sum.splits)
  then have r: "tc_Remove sha dir raw d' = (Inr (), d'\<lparr>dk_files := no_file p (dk_files d')\<rparr>)"
    by (simp add: tc_Remove_def sys_call_def next_sys_def assms(2))
  from tc_Remove_Lookup [OF r] assms(2) l r show ?thesis by simp
qed

theorem token_lookup_after_save_witness:
  "\<exists>d'. tc_Save (\<lambda>s. s) (Some ''d'') ''.tmp-1.json'' ex_entry ex_disk = (Inr (), d')
     \<and> fst (tc_Lookup (\<lambda>s. s) (Some ''d'') ''HTTP://H:80/mcp/'' d') = Inr (Some ex_entry)"
proof -
  have p: "plain_entry ex_entry" by (simp add: plain_entry_def ex_entry_def ascii_def)
  have n: "NormalizeURL ''HTTP://H:80/mcp/'' = NormalizeURL (e_url ex_entry)" by (simp add: ex_norm ex_entry_def)
  obtain d' where s: "tc_Save (\<lambda>s. s) (Some ''d'') (''.tmp-'' @ ''1.json'') ex_entry ex_disk = (Inr (), d')" "dk_sys d' = []"
    by (simp add: tc_Save_def tc_path_def cache_key_def ex_entry_def ex_norm sys_call_def next_sys_def ex_disk_def)
  from token_lookup_after_save [OF s n p] s(1) show ?thesis by auto
qed

text \<open>
  C38: Opening a file of an older release brings every table to the columns the statements need, loses no
  column, and changes nothing when repeated.
\<close>

theorem store_Open_upgrades_any:
  assumes "path \<noteq> []" and "path = '':memory:'' \<or> dir" and "older_schema s"
  shows "\<exists>s'. store_Open path dir None (\<lambda>_. None) s = Inr s' \<and> has_columns needed_columns s' \<and> keeps_columns s s'
    \<and> store_Open path dir None (\<lambda>_. None) s' = Inr s'"
  by (rule store_Open_upgrades [OF assms])

theorem store_Open_upgrades_any_witness:
  "\<exists>s'. store_Open '':memory:'' False None (\<lambda>_. None) [''tenants'' \<mapsto> [''slug'', ''display_name'', ''created_at'']] = Inr s'
     \<and> s' ''tenants'' = Some [''slug'', ''display_name'', ''created_at'', ''expires_at''] \<and> has_columns needed_columns s'"
proof -
  let ?s = "[''tenants'' \<mapsto> [''slug'', ''display_name'', ''created_at'']]"
  have o: "older_schema ?s" by code_simp
  from store_Open_upgrades_any [of "'':memory:''" False, OF _ _ o] obtain s' where
    s': "store_Open '':memory:'' False None (\<lambda>_. None) ?s = Inr s'" "has_columns needed_columns s'" by auto
  have "map_sum id (\<lambda>s. s ''tenants'') (store_Open '':memory:'' False None (\<lambda>_. None) ?s)
      = Inr (Some [''slug'', ''display_name'', ''created_at'', ''expires_at''])" by code_simp
  with s' show ?thesis by simp
qed

text \<open>
  C39: An accepted daemon configuration has everything its driver and TLS mode need, loads to itself again,
  and makes openStore ask for a complete backend.
\<close>

theorem accepted_config_complete:
  assumes "LoadDaemon decode env = Inr c"
  shows "dc_base c \<noteq> []
    \<and> (dc_driver c = ''sqlite'' \<and> dc_path c \<noteq> []
       \<or> dc_driver c = ''d1'' \<and> dc_account c \<noteq> [] \<and> dc_database c \<noteq> [] \<and> dc_token_env c \<noteq> [])
    \<and> (dc_tls c = ''acme'' \<and> dc_cache c \<noteq> [] \<or> dc_tls c = ''manual'' \<and> dc_cert c \<noteq> [] \<and> dc_key c \<noteq> [] \<or> dc_tls c = ''disabled'')
    \<and> LoadDaemon (\<lambda>_. Inr c) env' = Inr c
    \<and> (\<forall>b. openStore getenv c = Inr b \<longrightarrow> (case b of Use_sqlite path \<Rightarrow> path \<noteq> []
         | Use_d1 cfg \<Rightarrow> AccountID cfg \<noteq> [] \<and> DatabaseID cfg \<noteq> [] \<and> APIToken cfg \<noteq> []))"
  using LoadDaemon_ok [OF assms] LoadDaemon_again [OF assms, of env'] openStore_complete [OF assms, of getenv]
  by (auto simp: config_ok_def simp del: not_Cons_self2)

theorem accepted_config_complete_witness:
  "\<exists>c. LoadDaemon (\<lambda>d. Inr (d\<lparr>dc_base := ''https://h''\<rparr>)) [] = Inr c \<and> dc_driver c = ''sqlite'' \<and> dc_cache c \<noteq> []"
proof -
  have "\<exists>c. LoadDaemon (\<lambda>d. Inr (d\<lparr>dc_base := ''https://h''\<rparr>)) [] = Inr c \<and> dc_tls c = ''acme'' \<and> dc_driver c = ''sqlite''"
    by (simp add: LoadDaemon_def default_config_def check_database_def check_tls_def bind_config_def)
  then obtain c where c: "LoadDaemon (\<lambda>d. Inr (d\<lparr>dc_base := ''https://h''\<rparr>)) [] = Inr c" "dc_tls c = ''acme''" "dc_driver c = ''sqlite''"
    by blast
  from accepted_config_complete [OF c(1)] c show ?thesis by auto
qed



end
